(* ===== verification/Prelude.thy ===== *)
theory Prelude
  imports Main "HOL-Library.Word" "HOL-Library.Monad_Syntax" "HOL-Library.Multiset"
begin

unbundle bit_operations_syntax

text \<open>
  What every component shares: the machine types of the Win64 build, reads and writes of
  byte buffers, the big-endian integers that the SCSI wire formats use, and the word facts
  that the bounds proofs need.

  A computation that the code may not finish normally has type \<open>'a option\<close>. \<open>None\<close> stands for
  an access through a pointer that is not valid (a bugcheck in the kernel) or for a loop
  that does not end; an error code that the code returns is an ordinary value.
\<close>

section \<open>Machine types\<close>

type_synonym u8 = "8 word"
type_synonym u16 = "16 word"
type_synonym u32 = "32 word"
type_synonym u64 = "64 word"

text \<open>An address of the Win64 build; 0 is the null pointer.\<close>

type_synonym ptr = "64 word"

type_synonym bytes = "8 word list"

named_theorems codec_simps "lengths and round trips of the integer encodings"
named_theorems buf_simps "reads and writes of byte buffers"

section \<open>Buffers\<close>

text \<open>
  \<open>splice buf k bs\<close> is \<open>buf\<close> after \<open>bs\<close> has been copied to offset \<open>k\<close>. A copy that runs past
  the end of the buffer makes the list longer, so that a lemma which says that a routine
  keeps the length of its buffer also says that the routine stays inside it.
\<close>

definition splice :: "'a list \<Rightarrow> nat \<Rightarrow> 'a list \<Rightarrow> 'a list" where
  "splice buf k bs = take k buf @ bs @ drop (k + length bs) buf"

text \<open>\<open>slice buf k n\<close> is the \<open>n\<close> elements from offset \<open>k\<close>.\<close>

definition slice :: "'a list \<Rightarrow> nat \<Rightarrow> nat \<Rightarrow> 'a list" where
  "slice buf k n = take n (drop k buf)"

lemma length_splice [buf_simps]:
  "k + length bs \<le> length buf \<Longrightarrow> length (splice buf k bs) = length buf"
  by (simp add: splice_def)

lemma length_slice [buf_simps]: "k + n \<le> length buf \<Longrightarrow> length (slice buf k n) = n"
  by (simp add: slice_def)

lemma splice_Nil [simp]: "splice buf k [] = buf"
  by (simp add: splice_def)

lemma splice_all: "length bs = length buf \<Longrightarrow> splice buf 0 bs = bs"
  by (simp add: splice_def)

lemma slice_splice_same [buf_simps]:
  "k + length bs \<le> length buf \<Longrightarrow> n = length bs \<Longrightarrow> slice (splice buf k bs) k n = bs"
  by (simp add: splice_def slice_def)

lemma nth_splice:
  assumes "k + length bs \<le> length buf" and "i < length buf"
  shows "splice buf k bs ! i =
    (if k \<le> i \<and> i < k + length bs then bs ! (i - k) else buf ! i)"
  using assms by (auto simp: splice_def nth_append min_def)

lemma take_splice_prefix:
  "k + length bs \<le> length buf \<Longrightarrow> take (k + length bs) (splice buf k bs) = take k buf @ bs"
  by (simp add: splice_def)

lemma drop_splice_suffix:
  "k + length bs \<le> length buf \<Longrightarrow>
   drop (k + length bs) (splice buf k bs) = drop (k + length bs) buf"
  by (simp add: splice_def)

lemma slice_splice_other [buf_simps]:
  assumes "k + length bs \<le> length buf" and "i + n \<le> length buf"
    and "i + n \<le> k \<or> k + length bs \<le> i"
  shows "slice (splice buf k bs) i n = slice buf i n"
proof (rule nth_equalityI)
  show "length (slice (splice buf k bs) i n) = length (slice buf i n)"
    using assms by (simp add: length_slice length_splice)
next
  fix j
  assume "j < length (slice (splice buf k bs) i n)"
  with assms have "j < n" by (simp add: length_slice length_splice)
  with assms show "slice (splice buf k bs) i n ! j = slice buf i n ! j"
    by (auto simp: slice_def nth_splice length_splice)
qed

lemma slice_append_slice: "slice xs i m @ slice xs (i + m) n = slice xs i (m + n)"
  by (simp add: slice_def take_add add.commute)

lemma slice_full: "slice xs 0 (length xs) = xs"
  by (simp add: slice_def)

section \<open>Big-endian integers\<close>

text \<open>
  The SCSI data formats are big-endian. The code writes them byte by byte,
  \<open>(U32 >> 24) & 0xff\<close> and so on, and reads them back with shifts and \<open>|\<close>.
\<close>

definition be16 :: "u16 \<Rightarrow> bytes" where
  "be16 w = [ucast (drop_bit 8 w AND 0xff), ucast (w AND 0xff)]"

definition be32 :: "u32 \<Rightarrow> bytes" where
  "be32 w = [ucast (drop_bit 24 w AND 0xff), ucast (drop_bit 16 w AND 0xff),
             ucast (drop_bit 8 w AND 0xff), ucast (w AND 0xff)]"

definition be64 :: "u64 \<Rightarrow> bytes" where
  "be64 w = [ucast (drop_bit 56 w AND 0xff), ucast (drop_bit 48 w AND 0xff),
             ucast (drop_bit 40 w AND 0xff), ucast (drop_bit 32 w AND 0xff),
             ucast (drop_bit 24 w AND 0xff), ucast (drop_bit 16 w AND 0xff),
             ucast (drop_bit 8 w AND 0xff), ucast (w AND 0xff)]"

definition get16 :: "bytes \<Rightarrow> u32" where
  "get16 b = push_bit 8 (ucast (b ! 0)) OR ucast (b ! 1)"

definition get32 :: "bytes \<Rightarrow> u32" where
  "get32 b = push_bit 24 (ucast (b ! 0)) OR push_bit 16 (ucast (b ! 1)) OR
             push_bit 8 (ucast (b ! 2)) OR ucast (b ! 3)"

definition get64 :: "bytes \<Rightarrow> u64" where
  "get64 b = push_bit 56 (ucast (b ! 0)) OR push_bit 48 (ucast (b ! 1)) OR
             push_bit 40 (ucast (b ! 2)) OR push_bit 32 (ucast (b ! 3)) OR
             push_bit 24 (ucast (b ! 4)) OR push_bit 16 (ucast (b ! 5)) OR
             push_bit 8 (ucast (b ! 6)) OR ucast (b ! 7)"

lemma length_be [codec_simps]:
  "length (be16 a) = 2" "length (be32 b) = 4" "length (be64 c) = 8"
  by (simp_all add: be16_def be32_def be64_def)

lemma ucast_and_ff: "ucast (x AND 0xff :: 'a::len word) = (ucast x :: u8)"
proof -
  have "(0xff :: 'a word) = mask 8" by (simp add: mask_eq_exp_minus_1)
  moreover have "ucast (x AND mask 8 :: 'a word) = (ucast x :: u8)"
    by (rule bit_word_eqI) (auto simp: bit_simps dest: bit_imp_le_length)
  ultimately show ?thesis by simp
qed

text \<open>The bits that one octet of an encoding contributes when it is read back.\<close>

lemma bit_octet:
  "k + 8 \<le> LENGTH('a) \<Longrightarrow>
   bit (push_bit k (ucast (ucast (drop_bit k w) :: u8)) :: 'a::len word) n \<longleftrightarrow>
     k \<le> n \<and> n < k + 8 \<and> bit w n"
  by (auto simp: bit_simps dest: bit_imp_le_length)

lemma bit_octet_0:
  "8 \<le> LENGTH('a) \<Longrightarrow> bit (ucast (ucast w :: u8) :: 'a::len word) n \<longleftrightarrow> n < 8 \<and> bit (w :: 'a word) n"
  by (auto simp: bit_simps)

lemma get16_be16: "get16 (be16 w) = ucast w"
  by (simp add: get16_def be16_def ucast_and_ff)
     (rule bit_word_eqI, auto simp: bit_simps dest: bit_imp_le_length)

lemma get32_be32: "get32 (be32 w) = w"
proof (rule bit_word_eqI)
  fix n
  assume "n < LENGTH(32)"
  then show "bit (get32 (be32 w)) n = bit w n"
    by (cases "bit w n") (simp_all add: get32_def be32_def ucast_and_ff bit_or_iff bit_octet
          bit_octet_0, arith)
qed

lemma get64_be64: "get64 (be64 w) = w"
proof (rule bit_word_eqI)
  fix n
  assume "n < LENGTH(64)"
  then show "bit (get64 (be64 w)) n = bit w n"
    by (cases "bit w n") (simp_all add: get64_def be64_def ucast_and_ff bit_or_iff bit_octet
          bit_octet_0, arith)
qed

text \<open>
  A field of a wire format: an encoding of fixed width with its decoding. What a client
  of a buffer needs is that a field reads back what was written to it, and that a write
  elsewhere leaves it alone.
\<close>

locale byte_field =
  fixes enc :: "'a \<Rightarrow> bytes" and dec :: "bytes \<Rightarrow> 'a" and width :: nat
  assumes enc_length: "length (enc x) = width"
    and dec_enc: "dec (enc x) = x"
begin

lemma read_back: "k + width \<le> length buf \<Longrightarrow> dec (slice (splice buf k (enc x)) k width) = x"
  by (simp add: slice_splice_same enc_length dec_enc)

lemma write_length: "k + width \<le> length buf \<Longrightarrow> length (splice buf k (enc x)) = length buf"
  by (simp add: length_splice enc_length)

lemma read_other:
  "k + width \<le> length buf \<Longrightarrow> i + n \<le> length buf \<Longrightarrow> i + n \<le> k \<or> k + width \<le> i \<Longrightarrow>
   slice (splice buf k (enc x)) i n = slice buf i n"
  by (simp add: slice_splice_other enc_length)

lemma enc_inject: "enc x = enc y \<longleftrightarrow> x = y"
  by (metis dec_enc)

end

interpretation f32: byte_field be32 get32 4
  by unfold_locales (simp_all add: length_be get32_be32)

interpretation f64: byte_field be64 get64 8
  by unfold_locales (simp_all add: length_be get64_be64)

text \<open>The machine itself is little-endian: a field of a structure in memory.\<close>

definition le32 :: "u32 \<Rightarrow> bytes" where "le32 w = rev (be32 w)"
definition le64 :: "u64 \<Rightarrow> bytes" where "le64 w = rev (be64 w)"
definition getl32 :: "bytes \<Rightarrow> u32" where "getl32 b = get32 (rev b)"
definition getl64 :: "bytes \<Rightarrow> u64" where "getl64 b = get64 (rev b)"

interpretation l32: byte_field le32 getl32 4
  by unfold_locales (simp_all add: le32_def getl32_def length_be get32_be32)

interpretation l64: byte_field le64 getl64 8
  by unfold_locales (simp_all add: le64_def getl64_def length_be get64_be64)

lemma length_le [codec_simps]: "length (le32 a) = 4" "length (le64 b) = 8"
  by (simp_all add: le32_def le64_def length_be)

text \<open>A write of octets at an offset, and of the bits under a mask of one octet.\<close>

definition put :: "nat \<Rightarrow> bytes \<Rightarrow> bytes \<Rightarrow> bytes" where
  "put k bs buf = splice buf k bs"

definition put_bits :: "nat \<Rightarrow> u8 \<Rightarrow> u8 \<Rightarrow> bytes \<Rightarrow> bytes" where
  "put_bits k msk v buf = buf[k := (buf ! k AND NOT msk) OR (v AND msk)]"

definition zero_memory :: "nat \<Rightarrow> bytes \<Rightarrow> bytes" where
  "zero_memory n buf = splice buf 0 (replicate n 0)"

lemma length_put [buf_simps]: "k + length bs \<le> length buf \<Longrightarrow> length (put k bs buf) = length buf"
  by (simp add: put_def length_splice)

lemma nth_put:
  "k + length bs \<le> length buf \<Longrightarrow> i < length buf \<Longrightarrow>
   put k bs buf ! i = (if k \<le> i \<and> i < k + length bs then bs ! (i - k) else buf ! i)"
  by (simp add: put_def nth_splice)

lemma length_put_bits [simp]: "length (put_bits k m v buf) = length buf"
  by (simp add: put_bits_def)

lemma length_zero_memory [buf_simps]: "n \<le> length buf \<Longrightarrow> length (zero_memory n buf) = length buf"
  by (simp add: zero_memory_def length_splice)

lemma slice_put_same [buf_simps]:
  "k + length bs \<le> length buf \<Longrightarrow> n = length bs \<Longrightarrow> slice (put k bs buf) k n = bs"
  by (simp add: put_def slice_splice_same)

lemma slice_put_other [buf_simps]:
  "k + length bs \<le> length buf \<Longrightarrow> i + n \<le> length buf \<Longrightarrow> i + n \<le> k \<or> k + length bs \<le> i \<Longrightarrow>
   slice (put k bs buf) i n = slice buf i n"
  by (simp add: put_def slice_splice_other)

lemma slice_put_bits_other [buf_simps]:
  "i + n \<le> k \<or> k < i \<Longrightarrow> slice (put_bits k m v buf) i n = slice buf i n"
  by (cases "k < i") (simp_all add: put_bits_def slice_def take_drop add.commute)

section \<open>Words\<close>

text \<open>
  The overflow test of the code: the sum of two unsigned values is below one of them
  exactly when it wrapped.
\<close>

lemma no_wrap_iff: "\<not> (a + b < a) \<longleftrightarrow> unat a + unat b < 2 ^ LENGTH('a)" for a b :: "'a::len word"
proof -
  define N where "N = (2::nat) ^ LENGTH('a)"
  have ab: "unat a < N" "unat b < N" unfolding N_def by (rule unsigned_less)+
  have sum: "unat (a + b) = (unat a + unat b) mod N" by (simp add: N_def unat_word_ariths)
  show ?thesis
  proof (cases "unat a + unat b < N")
    case True
    then show ?thesis by (simp add: word_less_nat_alt sum N_def)
  next
    case False
    with ab have "(unat a + unat b) mod N = unat a + unat b - N"
      by (simp add: mod_if)
    with False ab show ?thesis by (simp add: word_less_nat_alt sum N_def [symmetric])
  qed
qed

lemma unat_add_no_wrap:
  "unat a + unat b < 2 ^ LENGTH('a) \<Longrightarrow> unat (a + b) = unat a + unat b" for a b :: "'a::len word"
  by (simp add: unat_word_ariths)

lemma unat_succ: "a < b \<Longrightarrow> unat (a + 1) = unat a + 1" for a b :: "'a::len word"
proof -
  assume "a < b"
  then have "unat a < unat b" by (simp add: word_less_nat_alt)
  moreover have "unat b < 2 ^ LENGTH('a)" by (rule unsigned_less)
  ultimately have "unat a + 1 < 2 ^ LENGTH('a)" by linarith
  then show ?thesis by (simp add: unat_word_ariths)
qed

lemma unat_ucast_up:
  "LENGTH('a) \<le> LENGTH('b) \<Longrightarrow> unat (ucast (w :: 'a::len word) :: 'b::len word) = unat w"
proof -
  assume "LENGTH('a) \<le> LENGTH('b)"
  then have "unat w < 2 ^ LENGTH('b)"
    by (meson less_le_trans one_le_numeral power_increasing unsigned_less)
  then show ?thesis by (simp add: unsigned_ucast_eq take_bit_nat_eq_self)
qed

end
