(* ===== verification/Ioctl_Types.thy ===== *)
theory Ioctl_Types
  imports Prelude
begin

text \<open>
  The data that the driver, the DLL and the storage devices exchange: inc/winspd/ioctl.h,
  and the status codes of the kernel and of the SCSI port that the sources name.

  The status codes of the kernel are a datatype, with \<open>NtOther\<close> for a code that comes from
  outside (an exception code, the status of another driver). The SCSI and SRB codes are the
  documented octets, because the code combines them with flag bits.
\<close>

section \<open>Status codes\<close>

datatype NTSTATUS =
    STATUS_SUCCESS | STATUS_TIMEOUT | STATUS_ALERTED | STATUS_BUFFER_OVERFLOW
  | STATUS_UNSUCCESSFUL | STATUS_NOT_IMPLEMENTED | STATUS_INVALID_PARAMETER
  | STATUS_INVALID_DEVICE_REQUEST | STATUS_ACCESS_DENIED | STATUS_BUFFER_TOO_SMALL
  | STATUS_OBJECT_NAME_NOT_FOUND | STATUS_OBJECT_NAME_COLLISION
  | STATUS_THREAD_IS_TERMINATING | STATUS_INSUFFICIENT_RESOURCES | STATUS_CANCELLED
  | STATUS_INVALID_DEVICE_STATE | STATUS_INVALID_BUFFER_SIZE | STATUS_CANNOT_MAKE
  | NtOther u32

text \<open>\<open>NT_SUCCESS\<close>: the status is not negative as a signed 32-bit value.\<close>

fun NT_SUCCESS :: "NTSTATUS \<Rightarrow> bool" where
  "NT_SUCCESS STATUS_SUCCESS = True"
| "NT_SUCCESS STATUS_TIMEOUT = True"
| "NT_SUCCESS STATUS_ALERTED = True"
| "NT_SUCCESS (NtOther w) = (0 \<le> sint w)"
| "NT_SUCCESS _ = False"

abbreviation SRB_STATUS_PENDING :: u8 where "SRB_STATUS_PENDING \<equiv> 0x00"
abbreviation SRB_STATUS_SUCCESS :: u8 where "SRB_STATUS_SUCCESS \<equiv> 0x01"
abbreviation SRB_STATUS_ABORTED :: u8 where "SRB_STATUS_ABORTED \<equiv> 0x02"
abbreviation SRB_STATUS_ABORT_FAILED :: u8 where "SRB_STATUS_ABORT_FAILED \<equiv> 0x03"
abbreviation SRB_STATUS_ERROR :: u8 where "SRB_STATUS_ERROR \<equiv> 0x04"
abbreviation SRB_STATUS_INVALID_REQUEST :: u8 where "SRB_STATUS_INVALID_REQUEST \<equiv> 0x06"
abbreviation SRB_STATUS_NO_DEVICE :: u8 where "SRB_STATUS_NO_DEVICE \<equiv> 0x08"
abbreviation SRB_STATUS_DATA_OVERRUN :: u8 where "SRB_STATUS_DATA_OVERRUN \<equiv> 0x12"
abbreviation SRB_STATUS_INTERNAL_ERROR :: u8 where "SRB_STATUS_INTERNAL_ERROR \<equiv> 0x30"
abbreviation SRB_STATUS_QUEUE_FROZEN :: u8 where "SRB_STATUS_QUEUE_FROZEN \<equiv> 0x40"
abbreviation SRB_STATUS_AUTOSENSE_VALID :: u8 where "SRB_STATUS_AUTOSENSE_VALID \<equiv> 0x80"

text \<open>The macro \<open>SRB_STATUS\<close> masks the flag bits out of a status octet.\<close>

definition SRB_STATUS :: "u8 \<Rightarrow> u8" where
  "SRB_STATUS s = s AND NOT (SRB_STATUS_AUTOSENSE_VALID OR SRB_STATUS_QUEUE_FROZEN)"

abbreviation SCSISTAT_GOOD :: u8 where "SCSISTAT_GOOD \<equiv> 0x00"
abbreviation SCSISTAT_CHECK_CONDITION :: u8 where "SCSISTAT_CHECK_CONDITION \<equiv> 0x02"

abbreviation SCSI_SENSE_MEDIUM_ERROR :: u8 where "SCSI_SENSE_MEDIUM_ERROR \<equiv> 0x03"
abbreviation SCSI_SENSE_ILLEGAL_REQUEST :: u8 where "SCSI_SENSE_ILLEGAL_REQUEST \<equiv> 0x05"
abbreviation SCSI_SENSE_DATA_PROTECT :: u8 where "SCSI_SENSE_DATA_PROTECT \<equiv> 0x07"
abbreviation SCSI_ADSENSE_NO_SENSE :: u8 where "SCSI_ADSENSE_NO_SENSE \<equiv> 0x00"
abbreviation SCSI_ADSENSE_WRITE_ERROR :: u8 where "SCSI_ADSENSE_WRITE_ERROR \<equiv> 0x0C"
abbreviation SCSI_ADSENSE_UNRECOVERED_ERROR :: u8 where "SCSI_ADSENSE_UNRECOVERED_ERROR \<equiv> 0x11"
abbreviation SCSI_ADSENSE_ILLEGAL_COMMAND :: u8 where "SCSI_ADSENSE_ILLEGAL_COMMAND \<equiv> 0x20"
abbreviation SCSI_ADSENSE_ILLEGAL_BLOCK :: u8 where "SCSI_ADSENSE_ILLEGAL_BLOCK \<equiv> 0x21"
abbreviation SCSI_ADSENSE_INVALID_CDB :: u8 where "SCSI_ADSENSE_INVALID_CDB \<equiv> 0x24"
abbreviation SCSI_ADSENSE_INVALID_FIELD_PARAMETER_LIST :: u8 where
  "SCSI_ADSENSE_INVALID_FIELD_PARAMETER_LIST \<equiv> 0x26"
abbreviation SCSI_ADSENSE_WRITE_PROTECT :: u8 where "SCSI_ADSENSE_WRITE_PROTECT \<equiv> 0x27"

section \<open>Addresses of storage units\<close>

text \<open>A unit is addressed by bus, target and logical unit, packed in one 32-bit value.\<close>

definition SPD_IOCTL_BTL :: "u32 \<Rightarrow> u32 \<Rightarrow> u32 \<Rightarrow> u32" where
  "SPD_IOCTL_BTL B T L = push_bit 16 B OR push_bit 8 T OR L"

definition SPD_IOCTL_BTL_B :: "u32 \<Rightarrow> u32" where "SPD_IOCTL_BTL_B Btl = drop_bit 16 Btl AND 0xff"
definition SPD_IOCTL_BTL_T :: "u32 \<Rightarrow> u32" where "SPD_IOCTL_BTL_T Btl = drop_bit 8 Btl AND 0xff"
definition SPD_IOCTL_BTL_L :: "u32 \<Rightarrow> u32" where "SPD_IOCTL_BTL_L Btl = Btl AND 0xff"

abbreviation SPD_IOCTL_STORAGE_UNIT_CAPACITY :: u32 where
  "SPD_IOCTL_STORAGE_UNIT_CAPACITY \<equiv> 16"
abbreviation SPD_IOCTL_STORAGE_UNIT_MAX_CAPACITY :: u32 where
  "SPD_IOCTL_STORAGE_UNIT_MAX_CAPACITY \<equiv> 64"

definition SPD_INDEX_FROM_BTL :: "u32 \<Rightarrow> u32" where
  "SPD_INDEX_FROM_BTL Btl = SPD_IOCTL_BTL_T Btl"

definition SPD_BTL_FROM_INDEX :: "u32 \<Rightarrow> u32" where
  "SPD_BTL_FROM_INDEX Idx = SPD_IOCTL_BTL 0 Idx 0"

text \<open>The vendor identification \<open>"WinSpd  "\<close>.\<close>

definition SPD_IOCTL_VENDOR_ID :: bytes where
  "SPD_IOCTL_VENDOR_ID = [0x57, 0x69, 0x6e, 0x53, 0x70, 0x64, 0x20, 0x20]"

section \<open>Parameters of a storage unit\<close>

record GUID =
  Data1 :: u32
  Data2 :: u16
  Data3 :: u16
  Data4 :: bytes

definition NullGuid :: GUID where
  "NullGuid = \<lparr>Data1 = 0, Data2 = 0, Data3 = 0, Data4 = replicate 8 0\<rparr>"

record SPD_IOCTL_STORAGE_UNIT_PARAMS =
  Guid :: GUID
  BlockCount :: u64
  BlockLength :: u32
  ProductId :: bytes
  ProductRevisionLevel :: bytes
  DeviceType :: u8
  WriteProtected :: bool
  CacheSupported :: bool
  UnmapSupported :: bool
  EjectDisabled :: bool
  MaxTransferLength :: u32

text \<open>The arrays of the structure have fixed sizes.\<close>

definition params_sized :: "SPD_IOCTL_STORAGE_UNIT_PARAMS \<Rightarrow> bool" where
  "params_sized p \<longleftrightarrow> length (Data4 (Guid p)) = 8 \<and> length (ProductId p) = 16 \<and>
     length (ProductRevisionLevel p) = 4"

record SPD_IOCTL_STORAGE_UNIT_STATUS =
  ScsiStatus :: u8
  SenseKey :: u8
  ASC :: u8
  ASCQ :: u8
  Information :: u64
  InformationValid :: bool

definition zero_status :: SPD_IOCTL_STORAGE_UNIT_STATUS where
  "zero_status = \<lparr>ScsiStatus = 0, SenseKey = 0, ASC = 0, ASCQ = 0, Information = 0,
     InformationValid = False\<rparr>"

record SPD_IOCTL_UNMAP_DESCRIPTOR =
  Unmap_BlockAddress :: u64
  Unmap_BlockCount :: u32
  Unmap_Reserved :: u32

section \<open>Requests and responses\<close>

abbreviation SpdIoctlTransactReservedKind :: u8 where "SpdIoctlTransactReservedKind \<equiv> 0"
abbreviation SpdIoctlTransactReadKind :: u8 where "SpdIoctlTransactReadKind \<equiv> 1"
abbreviation SpdIoctlTransactWriteKind :: u8 where "SpdIoctlTransactWriteKind \<equiv> 2"
abbreviation SpdIoctlTransactFlushKind :: u8 where "SpdIoctlTransactFlushKind \<equiv> 3"
abbreviation SpdIoctlTransactUnmapKind :: u8 where "SpdIoctlTransactUnmapKind \<equiv> 4"
abbreviation SpdIoctlTransactKindCount :: u8 where "SpdIoctlTransactKindCount \<equiv> 5"

text \<open>
  The union \<open>Op\<close> of a request is 16 octets of memory: a 64-bit word and two 32-bit words.
  Its four views read and write these words; \<open>Unmap.Count\<close> lies over the low half of
  \<open>BlockAddress\<close>.
\<close>

record TRANSACT_OP =
  op_q0 :: u64
  op_d8 :: u32
  op_d12 :: u32

definition Op_BlockAddress :: "TRANSACT_OP \<Rightarrow> u64" where "Op_BlockAddress u = op_q0 u"
definition Op_BlockCount :: "TRANSACT_OP \<Rightarrow> u32" where "Op_BlockCount u = op_d8 u"
definition Op_ForceUnitAccess :: "TRANSACT_OP \<Rightarrow> u32" where "Op_ForceUnitAccess u = op_d12 u AND 1"
definition Op_UnmapCount :: "TRANSACT_OP \<Rightarrow> u32" where "Op_UnmapCount u = ucast (op_q0 u)"

definition Op_set_BlockAddress :: "u64 \<Rightarrow> TRANSACT_OP \<Rightarrow> TRANSACT_OP" where
  "Op_set_BlockAddress a u = u\<lparr>op_q0 := a\<rparr>"
definition Op_set_BlockCount :: "u32 \<Rightarrow> TRANSACT_OP \<Rightarrow> TRANSACT_OP" where
  "Op_set_BlockCount n u = u\<lparr>op_d8 := n\<rparr>"
definition Op_set_ForceUnitAccess :: "u32 \<Rightarrow> TRANSACT_OP \<Rightarrow> TRANSACT_OP" where
  "Op_set_ForceUnitAccess f u = u\<lparr>op_d12 := (op_d12 u AND NOT 1) OR (f AND 1)\<rparr>"
definition Op_set_UnmapCount :: "u32 \<Rightarrow> TRANSACT_OP \<Rightarrow> TRANSACT_OP" where
  "Op_set_UnmapCount n u = u\<lparr>op_q0 := (op_q0 u AND NOT 0xffffffff) OR ucast n\<rparr>"

record SPD_IOCTL_TRANSACT_REQ =
  Req_Hint :: u64
  Req_Kind :: u8
  Req_Op :: TRANSACT_OP

record SPD_IOCTL_TRANSACT_RSP =
  Rsp_Hint :: u64
  Rsp_Kind :: u8
  Rsp_Status :: SPD_IOCTL_STORAGE_UNIT_STATUS

definition zero_req :: SPD_IOCTL_TRANSACT_REQ where
  "zero_req = \<lparr>Req_Hint = 0, Req_Kind = 0, Req_Op = \<lparr>op_q0 = 0, op_d8 = 0, op_d12 = 0\<rparr>\<rparr>"

definition zero_rsp :: SPD_IOCTL_TRANSACT_RSP where
  "zero_rsp = \<lparr>Rsp_Hint = 0, Rsp_Kind = 0, Rsp_Status = zero_status\<rparr>"

lemma op_get_set [simp]:
  "Op_BlockAddress (Op_set_BlockAddress a u) = a"
  "Op_BlockAddress (Op_set_BlockCount n u) = Op_BlockAddress u"
  "Op_BlockAddress (Op_set_ForceUnitAccess f u) = Op_BlockAddress u"
  "Op_BlockCount (Op_set_BlockCount n u) = n"
  "Op_BlockCount (Op_set_BlockAddress a u) = Op_BlockCount u"
  "Op_BlockCount (Op_set_ForceUnitAccess f u) = Op_BlockCount u"
  "Op_ForceUnitAccess (Op_set_BlockAddress a u) = Op_ForceUnitAccess u"
  "Op_ForceUnitAccess (Op_set_BlockCount n u) = Op_ForceUnitAccess u"
  by (simp_all add: Op_BlockAddress_def Op_set_BlockAddress_def Op_set_BlockCount_def
        Op_set_ForceUnitAccess_def Op_BlockCount_def Op_ForceUnitAccess_def)

lemma op_get_set_FUA [simp]: "Op_ForceUnitAccess (Op_set_ForceUnitAccess f u) = f AND 1"
  by (simp add: Op_ForceUnitAccess_def Op_set_ForceUnitAccess_def)
     (rule bit_word_eqI, auto simp: bit_simps)

lemma op_get_set_UnmapCount [simp]: "Op_UnmapCount (Op_set_UnmapCount n u) = n"
proof -
  have m: "(0xffffffff :: u64) = mask 32" by (simp add: mask_eq_exp_minus_1)
  show ?thesis
    by (simp add: Op_UnmapCount_def Op_set_UnmapCount_def m)
       (rule bit_word_eqI, auto simp: bit_simps)
qed

section \<open>Round trip of the addresses\<close>

lemma BTL_fields:
  assumes "b \<le> 0xff" and "t \<le> 0xff" and "l \<le> 0xff"
  shows "SPD_IOCTL_BTL_B (SPD_IOCTL_BTL b t l) = b"
    and "SPD_IOCTL_BTL_T (SPD_IOCTL_BTL b t l) = t"
    and "SPD_IOCTL_BTL_L (SPD_IOCTL_BTL b t l) = l"
proof -
  have m: "(0xff :: u32) = mask 8" by (simp add: mask_eq_exp_minus_1)
  have lo: "n < 8" if "bit w n" and "w \<le> 0xff" for w :: u32 and n
  proof (rule ccontr)
    assume "\<not> n < 8"
    from that(2) have "unat w < 2 ^ 8" by (simp add: word_le_nat_alt)
    then have "take_bit 8 (unat w) = unat w" by (simp add: take_bit_nat_eq_self)
    with \<open>\<not> n < 8\<close> have "\<not> bit (unat w) n" by (metis bit_take_bit_iff)
    with that(1) show False by (simp add: bit_unsigned_iff)
  qed
  note los = lo [OF _ assms(1)] lo [OF _ assms(2)] lo [OF _ assms(3)]
  show "SPD_IOCTL_BTL_B (SPD_IOCTL_BTL b t l) = b"
    unfolding SPD_IOCTL_BTL_B_def SPD_IOCTL_BTL_def m
    by (rule bit_word_eqI) (auto simp: bit_simps dest: los)
  show "SPD_IOCTL_BTL_T (SPD_IOCTL_BTL b t l) = t"
    unfolding SPD_IOCTL_BTL_T_def SPD_IOCTL_BTL_def m
    by (rule bit_word_eqI) (auto simp: bit_simps dest: los)
  show "SPD_IOCTL_BTL_L (SPD_IOCTL_BTL b t l) = l"
    unfolding SPD_IOCTL_BTL_L_def SPD_IOCTL_BTL_def m
    by (rule bit_word_eqI) (auto simp: bit_simps dest: los)
qed

lemma index_of_BTL [simp]: "i \<le> 0xff \<Longrightarrow> SPD_INDEX_FROM_BTL (SPD_BTL_FROM_INDEX i) = i"
  by (simp add: SPD_INDEX_FROM_BTL_def SPD_BTL_FROM_INDEX_def BTL_fields)

lemma BTL_of_index_bus_lun [simp]:
  "i \<le> 0xff \<Longrightarrow> SPD_IOCTL_BTL_B (SPD_BTL_FROM_INDEX i) = 0"
  "i \<le> 0xff \<Longrightarrow> SPD_IOCTL_BTL_L (SPD_BTL_FROM_INDEX i) = 0"
  by (simp_all add: SPD_BTL_FROM_INDEX_def BTL_fields)

lemma BTL_of_index_inject:
  "i \<le> 0xff \<Longrightarrow> j \<le> 0xff \<Longrightarrow> SPD_BTL_FROM_INDEX i = SPD_BTL_FROM_INDEX j \<longleftrightarrow> i = j"
  by (metis index_of_BTL)

end
