(* ===== verification/Srb.thy ===== *)
theory Srb
  imports Ioctl_Types
begin

text \<open>
  The SCSI request blocks and the memory that the driver shares with StorPort: the request
  blocks themselves with the accessors of src/sys/srbcompat.h, the extension that the
  driver keeps for each request (\<open>SPD_SRB_EXTENSION\<close> of src/sys/driver.h), and
  \<open>SpdSrbComplete\<close>, which hands a request back to StorPort.

  The memory is a store indexed by addresses: \<open>srbs\<close>, \<open>exts\<close> and \<open>bufs\<close> hold the request
  blocks, the extensions and the data and sense buffers. \<open>notifications\<close> is the list of
  requests for which the driver has called \<open>StorPortNotification(RequestComplete, ...)\<close>, each
  with the status it was completed with.
\<close>

section \<open>State\<close>

record SRB =
  Function :: u8
  SrbStatus :: u8
  ScsiStat :: u8
  PathId :: u8
  TargetId :: u8
  Lun :: u8
  SenseInfoBufferLength :: u8
  SrbFlags :: u32
  DataTransferLength :: u32
  DataBuffer :: ptr
  SenseInfoBuffer :: ptr
  NextSrb :: ptr
  SrbExtension :: ptr
  InternalStatus :: NTSTATUS
  Cdb :: bytes
  PnPAction :: u8
  SrbPnPFlags :: u32

record SPD_SRB_EXTENSION =
  StorageUnit :: ptr
  HashNext :: ptr
  Srb :: ptr
  SystemDataBuffer :: ptr
  SystemDataLength :: u32
  ChunkOffset :: u32

definition zero_ext :: SPD_SRB_EXTENSION where
  "zero_ext = \<lparr>StorageUnit = 0, HashNext = 0, Srb = 0, SystemDataBuffer = 0,
     SystemDataLength = 0, ChunkOffset = 0\<rparr>"

record kmem =
  srbs :: "ptr \<Rightarrow> SRB"
  exts :: "ptr \<Rightarrow> SPD_SRB_EXTENSION"
  bufs :: "ptr \<Rightarrow> bytes"
  notifications :: "(ptr \<times> u8) list"

definition upd_srb :: "ptr \<Rightarrow> (SRB \<Rightarrow> SRB) \<Rightarrow> kmem \<Rightarrow> kmem" where
  "upd_srb p f m = m\<lparr>srbs := (srbs m)(p := f (srbs m p))\<rparr>"

definition upd_ext :: "ptr \<Rightarrow> (SPD_SRB_EXTENSION \<Rightarrow> SPD_SRB_EXTENSION) \<Rightarrow> kmem \<Rightarrow> kmem" where
  "upd_ext p f m = m\<lparr>exts := (exts m)(p := f (exts m p))\<rparr>"

definition upd_buf :: "ptr \<Rightarrow> (bytes \<Rightarrow> bytes) \<Rightarrow> kmem \<Rightarrow> kmem" where
  "upd_buf p f m = m\<lparr>bufs := (bufs m)(p := f (bufs m p))\<rparr>"

lemmas mem_upd_defs = upd_srb_def upd_ext_def upd_buf_def

section \<open>Accessors\<close>

definition SrbGetCdb :: "kmem \<Rightarrow> ptr \<Rightarrow> bytes" where "SrbGetCdb m p = Cdb (srbs m p)"
definition SrbGetSrbFunction :: "kmem \<Rightarrow> ptr \<Rightarrow> u8" where
  "SrbGetSrbFunction m p = Function (srbs m p)"
definition SrbGetSenseInfoBuffer :: "kmem \<Rightarrow> ptr \<Rightarrow> ptr" where
  "SrbGetSenseInfoBuffer m p = SenseInfoBuffer (srbs m p)"
definition SrbGetSenseInfoBufferLength :: "kmem \<Rightarrow> ptr \<Rightarrow> u8" where
  "SrbGetSenseInfoBufferLength m p = SenseInfoBufferLength (srbs m p)"
definition SrbGetDataBuffer :: "kmem \<Rightarrow> ptr \<Rightarrow> ptr" where
  "SrbGetDataBuffer m p = DataBuffer (srbs m p)"
definition SrbGetDataTransferLength :: "kmem \<Rightarrow> ptr \<Rightarrow> u32" where
  "SrbGetDataTransferLength m p = DataTransferLength (srbs m p)"
definition SrbSetDataTransferLength :: "ptr \<Rightarrow> u32 \<Rightarrow> kmem \<Rightarrow> kmem" where
  "SrbSetDataTransferLength p n = upd_srb p (\<lambda>s. s\<lparr>DataTransferLength := n\<rparr>)"
definition SrbGetNextSrb :: "kmem \<Rightarrow> ptr \<Rightarrow> ptr" where "SrbGetNextSrb m p = NextSrb (srbs m p)"
definition SrbGetSrbFlags :: "kmem \<Rightarrow> ptr \<Rightarrow> u32" where "SrbGetSrbFlags m p = SrbFlags (srbs m p)"
definition SrbGetSystemStatus :: "kmem \<Rightarrow> ptr \<Rightarrow> NTSTATUS" where
  "SrbGetSystemStatus m p = InternalStatus (srbs m p)"
definition SrbSetSystemStatus :: "ptr \<Rightarrow> NTSTATUS \<Rightarrow> kmem \<Rightarrow> kmem" where
  "SrbSetSystemStatus p st = upd_srb p (\<lambda>s. s\<lparr>InternalStatus := st\<rparr>)"
definition SrbGetScsiStatus :: "kmem \<Rightarrow> ptr \<Rightarrow> u8" where "SrbGetScsiStatus m p = ScsiStat (srbs m p)"
definition SrbSetScsiStatus :: "ptr \<Rightarrow> u8 \<Rightarrow> kmem \<Rightarrow> kmem" where
  "SrbSetScsiStatus p st = upd_srb p (\<lambda>s. s\<lparr>ScsiStat := st\<rparr>)"
definition SrbGetPathTargetLun :: "kmem \<Rightarrow> ptr \<Rightarrow> u8 \<times> u8 \<times> u8" where
  "SrbGetPathTargetLun m p = (PathId (srbs m p), TargetId (srbs m p), Lun (srbs m p))"
definition SrbGetMiniportContext :: "kmem \<Rightarrow> ptr \<Rightarrow> ptr" where
  "SrbGetMiniportContext m p = SrbExtension (srbs m p)"
definition SrbGetSrbStatus :: "kmem \<Rightarrow> ptr \<Rightarrow> u8" where "SrbGetSrbStatus m p = SrbStatus (srbs m p)"

text \<open>Setting the status of a request keeps a flag \<open>SRB_STATUS_AUTOSENSE_VALID\<close> that is set.\<close>

definition SrbSetSrbStatus :: "ptr \<Rightarrow> u8 \<Rightarrow> kmem \<Rightarrow> kmem" where
  "SrbSetSrbStatus p st = upd_srb p (\<lambda>s.
     if SrbStatus s AND SRB_STATUS_AUTOSENSE_VALID \<noteq> 0
     then s\<lparr>SrbStatus := st OR SRB_STATUS_AUTOSENSE_VALID\<rparr>
     else s\<lparr>SrbStatus := st\<rparr>)"

lemmas srb_get_defs = SrbGetCdb_def SrbGetSrbFunction_def SrbGetSenseInfoBuffer_def
  SrbGetSenseInfoBufferLength_def SrbGetDataBuffer_def SrbGetDataTransferLength_def
  SrbGetNextSrb_def SrbGetSrbFlags_def SrbGetSystemStatus_def SrbGetScsiStatus_def
  SrbGetPathTargetLun_def SrbGetMiniportContext_def SrbGetSrbStatus_def

lemmas srb_set_defs = SrbSetDataTransferLength_def SrbSetSystemStatus_def SrbSetScsiStatus_def
  SrbSetSrbStatus_def

section \<open>Completion\<close>

definition SpdSrbComplete :: "ptr \<Rightarrow> u8 \<Rightarrow> kmem \<Rightarrow> kmem" where
  "SpdSrbComplete p st m =
     (let m = SrbSetSrbStatus p st m
      in m\<lparr>notifications := notifications m @ [(p, SrbGetSrbStatus m p)]\<rparr>)"

lemma SpdSrbComplete_frame [simp]:
  "exts (SpdSrbComplete p st m) = exts m"
  "bufs (SpdSrbComplete p st m) = bufs m"
  "map fst (notifications (SpdSrbComplete p st m)) = map fst (notifications m) @ [p]"
  "SrbExtension (srbs (SpdSrbComplete p st m) s) = SrbExtension (srbs m s)"
  by (simp_all add: SpdSrbComplete_def SrbSetSrbStatus_def upd_srb_def Let_def)

lemma SpdSrbComplete_status:
  "SrbStatus (srbs m p) AND SRB_STATUS_AUTOSENSE_VALID = 0 \<Longrightarrow>
   notifications (SpdSrbComplete p st m) = notifications m @ [(p, st)]"
  by (simp add: SpdSrbComplete_def SrbSetSrbStatus_def upd_srb_def Let_def srb_get_defs)

end
