(* ===== verification/Chain.thy ===== *)
theory Chain
  imports Prelude
begin

text \<open>
  Singly linked chains in a store: the shape of the hash buckets of the driver's I/O queue,
  where every element carries the address of the next one and 0 ends the chain.
\<close>

primrec chain :: "(ptr \<Rightarrow> ptr) \<Rightarrow> ptr \<Rightarrow> ptr list \<Rightarrow> bool" where
  "chain h p [] \<longleftrightarrow> p = 0"
| "chain h p (x # xs) \<longleftrightarrow> p = x \<and> x \<noteq> 0 \<and> chain h (h x) xs"

lemma chain_null [simp]: "chain h 0 xs \<longleftrightarrow> xs = []"
  by (cases xs) auto

lemma chain_not_null: "p \<noteq> 0 \<Longrightarrow> chain h p xs \<longleftrightarrow> (\<exists>ys. xs = p # ys \<and> chain h (h p) ys)"
  by (cases xs) auto

lemma chain_zero_notin: "chain h p xs \<Longrightarrow> 0 \<notin> set xs"
  by (induction xs arbitrary: p) auto

lemma chain_unique: "chain h p xs \<Longrightarrow> chain h p ys \<Longrightarrow> xs = ys"
  by (induction xs arbitrary: p ys) (auto simp: chain_not_null)

lemma chain_upd [simp]: "a \<notin> set xs \<Longrightarrow> chain (h(a := v)) p xs = chain h p xs"
  by (induction xs arbitrary: p) auto

lemma chain_cong: "(\<And>x. x \<in> set xs \<Longrightarrow> h' x = h x) \<Longrightarrow> chain h' p xs = chain h p xs"
  by (induction xs arbitrary: p) auto

lemma chain_suffix: "chain h p (ys @ x # zs) \<Longrightarrow> chain h x (x # zs)"
  by (induction ys arbitrary: p) auto

lemma chain_distinct: "chain h p xs \<Longrightarrow> distinct xs"
proof (induction xs arbitrary: p)
  case Nil
  show ?case by simp
next
  case (Cons x xs)
  have "x \<notin> set xs"
  proof
    assume "x \<in> set xs"
    then obtain ys zs where xs: "xs = ys @ x # zs" by (meson split_list)
    from Cons.prems have "chain h x (x # zs)"
      by (simp add: xs) (metis chain.simps(2) chain_suffix)
    moreover from Cons.prems have "chain h x (x # ys @ x # zs)" by (simp add: xs)
    ultimately have "x # zs = x # ys @ x # zs" by (rule chain_unique)
    then show False by simp
  qed
  with Cons show ?case by auto
qed

text \<open>Taking an element out: its predecessor, or the head, is made to point past it.\<close>

lemma chain_unlink_head: "chain h p (e # zs) \<Longrightarrow> chain h (h e) zs"
  by simp

lemma chain_unlink:
  assumes "chain h p (ys @ e # zs)" and "ys \<noteq> []"
  shows "chain (h(last ys := h e)) p (ys @ zs)"
  using assms chain_distinct [OF assms(1)]
proof (induction ys arbitrary: p)
  case Nil
  then show ?case by simp
next
  case (Cons y ys)
  show ?case
  proof (cases "ys = []")
    case True
    with Cons.prems show ?thesis by (auto simp del: fun_upd_apply simp add: fun_upd_same)
  next
    case False
    with Cons.prems have "chain (h(last ys := h e)) (h y) (ys @ zs)"
      by (intro Cons.IH) auto
    moreover from False Cons.prems have "last ys \<noteq> y" by auto
    ultimately show ?thesis
      using Cons.prems False by (simp del: fun_upd_apply add: fun_upd_other)
  qed
qed

end
