(* ===== verification/Ioq.thy ===== *)
theory Ioq
  imports Srb Chain
begin

text \<open>
  The I/O queue of a storage unit: src/sys/ioq.c, with the hash mix and the queued event of
  src/sys/driver.h. Requests wait in \<open>PendingList\<close> until a thread of the storage device takes
  them; they are then in \<open>ProcessList\<close>, and in one of the hash buckets, until the device
  responds. Entries are addresses of request extensions, the buckets are chains through their
  field \<open>HashNext\<close>.

  The two lists are doubly linked in the code; here they are lists, and \<open>RemoveEntryList\<close>, which
  is not told the list, takes the entry out of the one that holds it. An entry that is in no
  list has null links, and removing it is an access through a null pointer (\<open>None\<close>).
  Every routine runs under the spin lock of the queue from its first access to its last, so
  that it is one atomic step; only \<open>SpdIoqStartProcessingSrb\<close> waits before it takes the lock.
\<close>

section \<open>Hash mix\<close>

definition SpdHashMix32 :: "u32 \<Rightarrow> u32" where
  "SpdHashMix32 h =
     (let h = h XOR drop_bit 16 h;
          h = h * 0x85ebca6b;
          h = h XOR drop_bit 13 h;
          h = h * 0xc2b2ae35;
          h = h XOR drop_bit 16 h
      in h)"

definition SpdHashMix64 :: "u64 \<Rightarrow> u64" where
  "SpdHashMix64 k =
     (let k = k XOR drop_bit 33 k;
          k = k * 0xff51afd7ed558ccd;
          k = k XOR drop_bit 33 k;
          k = k * 0xc4ceb9fe1a85ec53;
          k = k XOR drop_bit 33 k
      in k)"

definition SpdHashMixPointer :: "ptr \<Rightarrow> u32" where
  "SpdHashMixPointer p = ucast (SpdHashMix64 p)"

section \<open>Queued events\<close>

text \<open>
  What \<open>KeRemoveQueueEx\<close> returns at each call is the kernel's: \<open>None\<close> is the dummy entry of the
  event, \<open>Some st\<close> a status. A wake-up also carries what the thread then reads: whether it is
  being terminated, whether its IRP is cancelled, and the time.
\<close>

record wakeup =
  wk_result :: "NTSTATUS option"
  wk_terminating :: bool
  wk_cancel :: bool
  wk_time :: u64

definition SpdQeventWait :: "wakeup \<Rightarrow> NTSTATUS" where
  "SpdQeventWait w = (case wk_result w of None \<Rightarrow> STATUS_SUCCESS | Some st \<Rightarrow> st)"

text \<open>The retry loop of \<open>SpdQeventCancellableWait\<close>; with no further wake-up it keeps waiting.\<close>

fun qevent_retry :: "u64 \<Rightarrow> bool \<Rightarrow> wakeup list \<Rightarrow> NTSTATUS option" where
  "qevent_retry ExpirationTime Irp [] = None"
| "qevent_retry ExpirationTime Irp (w # ws) =
     (let Result = SpdQeventWait w
      in if Result = STATUS_ALERTED
         then if wk_terminating w then Some STATUS_THREAD_IS_TERMINATING
              else if Irp \<and> wk_cancel w then Some STATUS_CANCELLED
              else if ExpirationTime \<noteq> 0 \<and> ExpirationTime \<le> wk_time w then Some STATUS_TIMEOUT
              else qevent_retry ExpirationTime Irp ws
         else Some Result)"

text \<open>A negative timeout is relative to now; \<open>None\<close> is the null pointer.\<close>

definition SpdQeventCancellableWait ::
    "u64 \<Rightarrow> u64 option \<Rightarrow> bool \<Rightarrow> wakeup list \<Rightarrow> NTSTATUS option" where
  "SpdQeventCancellableWait now PTimeout Irp ws =
     (let ExpirationTime = (case PTimeout of None \<Rightarrow> 0
                            | Some t \<Rightarrow> if sint t < 0 then now - t else 0)
      in qevent_retry ExpirationTime Irp ws)"

section \<open>State\<close>

record SPD_IOQ =
  Stopped :: bool
  PendingEvent :: bool
  PendingList :: "ptr list"
  ProcessList :: "ptr list"
  ProcessBucketCount :: u32
  ProcessBuckets :: "ptr list"

definition SpdQeventSetNoLock :: "SPD_IOQ \<Rightarrow> SPD_IOQ" where
  "SpdQeventSetNoLock q = (if \<not> PendingEvent q then q\<lparr>PendingEvent := True\<rparr> else q)"

definition PAGE_SIZE :: nat where "PAGE_SIZE = 4096"

text \<open>
  A queue takes one page; what its fields leave of it are the buckets. The size of the fields
  depends on structures of the kernel's headers and is a parameter, as is whether the pool has
  a page left.
\<close>

definition SpdIoqCreate :: "nat \<Rightarrow> bool \<Rightarrow> NTSTATUS \<times> SPD_IOQ option" where
  "SpdIoqCreate sizeof_Ioq allocated =
     (let BucketCount = (PAGE_SIZE - sizeof_Ioq) div 8
      in if \<not> allocated then (STATUS_INSUFFICIENT_RESOURCES, None)
         else (STATUS_SUCCESS,
               Some \<lparr>Stopped = False, PendingEvent = False, PendingList = [], ProcessList = [],
                 ProcessBucketCount = word_of_nat BucketCount,
                 ProcessBuckets = replicate BucketCount 0\<rparr>))"

section \<open>Lists\<close>

definition RemoveEntryList :: "ptr \<Rightarrow> SPD_IOQ \<Rightarrow> SPD_IOQ option" where
  "RemoveEntryList e q =
     (if e \<in> set (PendingList q) then Some (q\<lparr>PendingList := remove1 e (PendingList q)\<rparr>)
      else if e \<in> set (ProcessList q) then Some (q\<lparr>ProcessList := remove1 e (ProcessList q)\<rparr>)
      else None)"

section \<open>Hash buckets\<close>

definition bucket_index :: "SPD_IOQ \<Rightarrow> ptr \<Rightarrow> nat" where
  "bucket_index q e = unat (SpdHashMixPointer e mod ProcessBucketCount q)"

text \<open>The pointer \<open>P\<close> of the code's loops points to a bucket or to the field \<open>HashNext\<close> of an entry.\<close>

datatype slot = Bucket nat | NextOf ptr

fun read_slot :: "SPD_IOQ \<Rightarrow> kmem \<Rightarrow> slot \<Rightarrow> ptr" where
  "read_slot q m (Bucket i) = ProcessBuckets q ! i"
| "read_slot q m (NextOf e) = HashNext (exts m e)"

fun write_slot :: "slot \<Rightarrow> ptr \<Rightarrow> SPD_IOQ \<times> kmem \<Rightarrow> SPD_IOQ \<times> kmem" where
  "write_slot (Bucket i) v (q, m) = (q\<lparr>ProcessBuckets := (ProcessBuckets q)[i := v]\<rparr>, m)"
| "write_slot (NextOf e) v (q, m) = (q, upd_ext e (\<lambda>x. x\<lparr>HashNext := v\<rparr>) m)"

text \<open>
  \<open>for (P = ...; *P; P = &(*P)->HashNext) if (*P == SrbExtension)\<close>: the slot that holds the
  extension, \<open>Some None\<close> if the loop reaches the end of the chain.
\<close>

partial_function (option) bucket_scan ::
    "SPD_IOQ \<Rightarrow> kmem \<Rightarrow> slot \<Rightarrow> ptr \<Rightarrow> slot option option" where
  "bucket_scan q m P e =
     (let v = read_slot q m P
      in if v = 0 then Some None
         else if v = e then Some (Some P)
         else bucket_scan q m (NextOf v) e)"

section \<open>Operations\<close>

text \<open>Aborts every entry of a list; the link to the next entry is read before the completion.\<close>

fun abort_list :: "ptr list \<Rightarrow> kmem \<Rightarrow> kmem" where
  "abort_list [] m = m"
| "abort_list (e # es) m = abort_list es (SpdSrbComplete (Srb (exts m e)) SRB_STATUS_ABORTED m)"

definition SpdIoqReset :: "bool \<Rightarrow> SPD_IOQ \<times> kmem \<Rightarrow> SPD_IOQ \<times> kmem" where
  "SpdIoqReset Stop = (\<lambda>(q, m).
     if \<not> Stopped q then
       (let Pending = PendingList q; Process = ProcessList q;
            q = q\<lparr>PendingList := [], ProcessList := [],
                  ProcessBuckets := replicate (unat (ProcessBucketCount q)) 0\<rparr>;
            m = abort_list Pending m;
            m = abort_list Process m;
            q = (if Stop then SpdQeventSetNoLock (q\<lparr>Stopped := True\<rparr>) else q)
        in (q, m))
     else (q, m))"

text \<open>Deleting a queue aborts its requests; the queue is then freed.\<close>

definition SpdIoqDelete :: "SPD_IOQ \<Rightarrow> kmem \<Rightarrow> kmem" where
  "SpdIoqDelete q m = snd (SpdIoqReset False (q, m))"

definition SpdIoqStopped :: "SPD_IOQ \<Rightarrow> bool" where "SpdIoqStopped q = Stopped q"

definition SpdIoqCancelSrb :: "ptr \<Rightarrow> SPD_IOQ \<times> kmem \<Rightarrow> (NTSTATUS \<times> SPD_IOQ \<times> kmem) option" where
  "SpdIoqCancelSrb srb = (\<lambda>(q, m).
     if \<not> Stopped q then
       (let e = SrbGetMiniportContext m srb
        in do {
          found \<leftarrow> bucket_scan q m (Bucket (bucket_index q e)) e;
          let (q, m) = (case found of None \<Rightarrow> (q, m)
             | Some P \<Rightarrow> (case write_slot P (HashNext (exts m e)) (q, m) of
                 (q, m) \<Rightarrow> (q, upd_ext e (\<lambda>x. x\<lparr>HashNext := 0\<rparr>) m)));
          q \<leftarrow> RemoveEntryList e q;
          let m = upd_ext e (\<lambda>x. x\<lparr>Srb := 0\<rparr>) m;
          let m = SpdSrbComplete srb SRB_STATUS_ABORTED m;
          Some (STATUS_SUCCESS, q, m)
        })
     else Some (STATUS_UNSUCCESSFUL, q, m))"

definition SpdIoqPostSrb :: "ptr \<Rightarrow> SPD_IOQ \<times> kmem \<Rightarrow> NTSTATUS \<times> SPD_IOQ \<times> kmem" where
  "SpdIoqPostSrb srb = (\<lambda>(q, m).
     if \<not> Stopped q then
       (let e = SrbGetMiniportContext m srb;
            m = upd_ext e (\<lambda>x. x\<lparr>Srb := srb\<rparr>) m;
            q = q\<lparr>PendingList := PendingList q @ [e]\<rparr>;
            q = SpdQeventSetNoLock q
        in (STATUS_SUCCESS, q, m))
     else (STATUS_CANCELLED, q, m))"

text \<open>
  The part of \<open>SpdIoqStartProcessingSrb\<close> that runs under the lock. \<open>Prepare\<close> fills the context
  \<open>c\<close> of the caller (the request and the data buffer) from the extension.
\<close>

definition start_locked ::
    "(ptr \<Rightarrow> kmem \<Rightarrow> 'c \<Rightarrow> 'c) \<Rightarrow> 'c \<Rightarrow> SPD_IOQ \<times> kmem \<Rightarrow> NTSTATUS \<times> 'c \<times> SPD_IOQ \<times> kmem" where
  "start_locked Prepare c = (\<lambda>(q, m).
     if \<not> Stopped q then
       (case PendingList q of
          [] \<Rightarrow> (STATUS_UNSUCCESSFUL, c, q, m)
        | e # rest \<Rightarrow>
            (let Wake = rest \<noteq> [];
                 q = q\<lparr>PendingList := rest\<rparr>;
                 c = Prepare e m c;
                 q = q\<lparr>ProcessList := ProcessList q @ [e]\<rparr>;
                 i = bucket_index q e;
                 m = upd_ext e (\<lambda>x. x\<lparr>HashNext := ProcessBuckets q ! i\<rparr>) m;
                 q = q\<lparr>ProcessBuckets := (ProcessBuckets q)[i := e]\<rparr>;
                 q = (if Wake then SpdQeventSetNoLock q else q)
             in (STATUS_SUCCESS, c, q, m)))
     else (STATUS_CANCELLED, c, SpdQeventSetNoLock q, m))"

text \<open>
  The whole routine: the wait, which takes the event when it succeeds, then the locked part.
  \<open>waited\<close> is the result of \<open>SpdQeventCancellableWait\<close>.
\<close>

definition SpdIoqStartProcessingSrb ::
    "NTSTATUS \<Rightarrow> (ptr \<Rightarrow> kmem \<Rightarrow> 'c \<Rightarrow> 'c) \<Rightarrow> 'c \<Rightarrow> SPD_IOQ \<times> kmem \<Rightarrow>
     NTSTATUS \<times> 'c \<times> SPD_IOQ \<times> kmem" where
  "SpdIoqStartProcessingSrb waited Prepare c = (\<lambda>(q, m).
     if waited = STATUS_TIMEOUT then (STATUS_TIMEOUT, c, q, m)
     else if waited = STATUS_CANCELLED \<or> waited = STATUS_THREAD_IS_TERMINATING
     then (STATUS_CANCELLED, c, q, m)
     else start_locked Prepare c (q\<lparr>PendingEvent := False\<rparr>, m))"

text \<open>
  The response of the storage device names the request by its hint, which the device chooses;
  only a hint that is in a bucket is followed. \<open>Complete\<close> returns the status of the request,
  \<open>SRB_STATUS_PENDING\<close> when there are more chunks to transfer.
\<close>

definition SpdIoqEndProcessingSrb ::
    "u64 \<Rightarrow> (ptr \<Rightarrow> kmem \<Rightarrow> (u8 \<times> kmem) option) \<Rightarrow> SPD_IOQ \<times> kmem \<Rightarrow> (SPD_IOQ \<times> kmem) option" where
  "SpdIoqEndProcessingSrb Hint Complete = (\<lambda>(q, m).
     if \<not> Stopped q then
       (let e = Hint
        in do {
          found \<leftarrow> bucket_scan q m (Bucket (bucket_index q e)) e;
          (case found of None \<Rightarrow> Some (q, m)
           | Some P \<Rightarrow> do {
               let (q, m) = write_slot P (HashNext (exts m e)) (q, m);
               q \<leftarrow> RemoveEntryList e q;
               (SrbStatus', m) \<leftarrow> Complete e m;
               if SrbStatus' = SRB_STATUS_PENDING
               then Some (SpdQeventSetNoLock (q\<lparr>PendingList := e # PendingList q\<rparr>), m)
               else Some (q, SpdSrbComplete (Srb (exts m e)) SrbStatus' m)
             })
        })
     else Some (q, m))"

end
