(* ===== verification/Ioq_Props.thy ===== *)
theory Ioq_Props
  imports Ioq
begin

text \<open>
  The invariant of the I/O queue, the abstract queue that it implements, and what every
  operation does to them. The hash buckets are an index of the list of requests in process:
  the chain of bucket \<open>i\<close> is the entries of the list that hash to \<open>i\<close>, latest first.
\<close>

section \<open>Invariant\<close>

definition queued :: "SPD_IOQ \<Rightarrow> ptr list" where
  "queued q = PendingList q @ ProcessList q"

abbreviation hash_next :: "kmem \<Rightarrow> ptr \<Rightarrow> ptr" where
  "hash_next m \<equiv> \<lambda>e. HashNext (exts m e)"

definition bucket_members :: "SPD_IOQ \<Rightarrow> nat \<Rightarrow> ptr list" where
  "bucket_members q i = rev (filter (\<lambda>e. bucket_index q e = i) (ProcessList q))"

definition buckets_ok :: "SPD_IOQ \<Rightarrow> kmem \<Rightarrow> bool" where
  "buckets_ok q m \<longleftrightarrow> ProcessBucketCount q \<noteq> 0 \<and>
     length (ProcessBuckets q) = unat (ProcessBucketCount q) \<and>
     (\<forall>i < unat (ProcessBucketCount q). chain (hash_next m) (ProcessBuckets q ! i) (bucket_members q i))"

definition links_ok :: "SPD_IOQ \<Rightarrow> kmem \<Rightarrow> bool" where
  "links_ok q m \<longleftrightarrow> (\<forall>e \<in> set (queued q). e \<noteq> 0 \<and> SrbExtension (srbs m (Srb (exts m e))) = e)"

definition ioq_inv :: "SPD_IOQ \<times> kmem \<Rightarrow> bool" where
  "ioq_inv qm \<longleftrightarrow> (case qm of (q, m) \<Rightarrow>
     buckets_ok q m \<and> links_ok q m \<and> distinct (queued q) \<and> (Stopped q \<longrightarrow> queued q = []))"

lemma ioq_invD:
  assumes "ioq_inv (q, m)"
  shows "buckets_ok q m" "links_ok q m" "distinct (queued q)" "distinct (PendingList q)"
    "distinct (ProcessList q)" "Stopped q \<Longrightarrow> PendingList q = [] \<and> ProcessList q = []"
  using assms by (simp_all add: ioq_inv_def queued_def)

lemma bucket_index_less: "ProcessBucketCount q \<noteq> 0 \<Longrightarrow> bucket_index q e < unat (ProcessBucketCount q)"
  by (simp add: bucket_index_def unat_mod unat_gt_0)

lemma bucket_index_cong: "ProcessBucketCount q' = ProcessBucketCount q \<Longrightarrow> bucket_index q' = bucket_index q"
  by (simp add: fun_eq_iff bucket_index_def)

lemma in_bucket_members [simp]:
  "e \<in> set (bucket_members q i) \<longleftrightarrow> e \<in> set (ProcessList q) \<and> bucket_index q e = i"
  by (auto simp: bucket_members_def)

lemma SpdQeventSetNoLock_simps [simp]:
  "Stopped (SpdQeventSetNoLock q) = Stopped q"
  "PendingList (SpdQeventSetNoLock q) = PendingList q"
  "ProcessList (SpdQeventSetNoLock q) = ProcessList q"
  "ProcessBucketCount (SpdQeventSetNoLock q) = ProcessBucketCount q"
  "ProcessBuckets (SpdQeventSetNoLock q) = ProcessBuckets q"
  "PendingEvent (SpdQeventSetNoLock q)"
  by (simp_all add: SpdQeventSetNoLock_def)

section \<open>The abstract queue\<close>

text \<open>A queue as its clients see it: two lists of requests and whether it is stopped.\<close>

record aqueue =
  a_stopped :: bool
  a_pending :: "ptr list"
  a_process :: "ptr list"

definition abs_ioq :: "SPD_IOQ \<Rightarrow> aqueue" where
  "abs_ioq q = \<lparr>a_stopped = Stopped q, a_pending = PendingList q, a_process = ProcessList q\<rparr>"

definition a_post :: "ptr \<Rightarrow> aqueue \<Rightarrow> aqueue" where
  "a_post e a = (if a_stopped a then a else a\<lparr>a_pending := a_pending a @ [e]\<rparr>)"

definition a_start :: "aqueue \<Rightarrow> aqueue" where
  "a_start a = (if a_stopped a then a
     else case a_pending a of [] \<Rightarrow> a
          | e # rest \<Rightarrow> a\<lparr>a_pending := rest, a_process := a_process a @ [e]\<rparr>)"

definition a_end :: "ptr \<Rightarrow> u8 \<Rightarrow> aqueue \<Rightarrow> aqueue" where
  "a_end e st a =
     (if \<not> a_stopped a \<and> e \<in> set (a_process a)
      then if st = SRB_STATUS_PENDING
           then a\<lparr>a_pending := e # a_pending a, a_process := remove1 e (a_process a)\<rparr>
           else a\<lparr>a_process := remove1 e (a_process a)\<rparr>
      else a)"

definition a_cancel :: "ptr \<Rightarrow> aqueue \<Rightarrow> aqueue" where
  "a_cancel e a =
     (if a_stopped a then a
      else a\<lparr>a_pending := remove1 e (a_pending a), a_process := remove1 e (a_process a)\<rparr>)"

definition a_reset :: "bool \<Rightarrow> aqueue \<Rightarrow> aqueue" where
  "a_reset stop a = (if a_stopped a then a else \<lparr>a_stopped = stop, a_pending = [], a_process = []\<rparr>)"

section \<open>Scanning a bucket\<close>

lemma bucket_scan_notin:
  "chain (hash_next m) (read_slot q m P) xs \<Longrightarrow> e \<notin> set xs \<Longrightarrow> bucket_scan q m P e = Some None"
proof (induction xs arbitrary: P)
  case Nil
  then show ?case by (simp add: bucket_scan.simps [of q m P])
next
  case (Cons x xs)
  then have "bucket_scan q m (NextOf x) e = Some None" by (intro Cons.IH) auto
  with Cons.prems show ?case by (auto simp add: bucket_scan.simps [of q m P])
qed

lemma bucket_scan_in:
  "chain (hash_next m) (read_slot q m P) (ys @ e # zs) \<Longrightarrow> e \<notin> set ys \<Longrightarrow>
   bucket_scan q m P e = Some (Some (if ys = [] then P else NextOf (last ys)))"
proof (induction ys arbitrary: P)
  case Nil
  then show ?case by (simp add: bucket_scan.simps [of q m P])
next
  case (Cons y ys)
  then have "bucket_scan q m (NextOf y) e = Some (Some (if ys = [] then NextOf y else NextOf (last ys)))"
    by (intro Cons.IH) auto
  with Cons.prems show ?case by (auto simp add: bucket_scan.simps [of q m P])
qed

text \<open>The memory after a write to a chain differs in the field \<open>HashNext\<close> alone.\<close>

definition eq_mod_hash :: "kmem \<Rightarrow> kmem \<Rightarrow> bool" where
  "eq_mod_hash m m1 \<longleftrightarrow> srbs m1 = srbs m \<and> bufs m1 = bufs m \<and> notifications m1 = notifications m \<and>
     (\<forall>x. (exts m1 x)\<lparr>HashNext := 0\<rparr> = (exts m x)\<lparr>HashNext := 0\<rparr>)"

lemma eq_mod_hash_fields:
  assumes "eq_mod_hash m m1"
  shows "Srb (exts m1 x) = Srb (exts m x)" "srbs m1 = srbs m" "notifications m1 = notifications m"
    "StorageUnit (exts m1 x) = StorageUnit (exts m x)" "bufs m1 = bufs m"
    "SystemDataBuffer (exts m1 x) = SystemDataBuffer (exts m x)"
    "SystemDataLength (exts m1 x) = SystemDataLength (exts m x)"
    "ChunkOffset (exts m1 x) = ChunkOffset (exts m x)"
proof -
  have eq: "(exts m1 x)\<lparr>HashNext := 0\<rparr> = (exts m x)\<lparr>HashNext := 0\<rparr>"
    using assms by (simp add: eq_mod_hash_def)
  show "Srb (exts m1 x) = Srb (exts m x)" using arg_cong [OF eq, of Srb] by simp
  show "StorageUnit (exts m1 x) = StorageUnit (exts m x)" using arg_cong [OF eq, of StorageUnit] by simp
  show "SystemDataBuffer (exts m1 x) = SystemDataBuffer (exts m x)"
    using arg_cong [OF eq, of SystemDataBuffer] by simp
  show "SystemDataLength (exts m1 x) = SystemDataLength (exts m x)"
    using arg_cong [OF eq, of SystemDataLength] by simp
  show "ChunkOffset (exts m1 x) = ChunkOffset (exts m x)" using arg_cong [OF eq, of ChunkOffset] by simp
qed (use assms in \<open>simp_all add: eq_mod_hash_def\<close>)

lemma eq_mod_hash_refl [simp]: "eq_mod_hash m m"
  by (simp add: eq_mod_hash_def)

lemma eq_mod_hash_upd: "eq_mod_hash m m1 \<Longrightarrow> eq_mod_hash m (upd_ext e (\<lambda>x. x\<lparr>HashNext := v\<rparr>) m1)"
  by (auto simp: eq_mod_hash_def upd_ext_def)


lemma bucket_index_updates [simp]:
  "bucket_index (q\<lparr>PendingList := a\<rparr>) = bucket_index q"
  "bucket_index (q\<lparr>ProcessList := a\<rparr>) = bucket_index q"
  "bucket_index (q\<lparr>ProcessBuckets := a\<rparr>) = bucket_index q"
  "bucket_index (q\<lparr>Stopped := b\<rparr>) = bucket_index q"
  "bucket_index (q\<lparr>PendingEvent := b\<rparr>) = bucket_index q"
  "bucket_index (SpdQeventSetNoLock q) = bucket_index q"
  by (simp_all add: fun_eq_iff bucket_index_def)

lemma bucket_members_updates [simp]:
  "bucket_members (q\<lparr>PendingList := a\<rparr>) = bucket_members q"
  "bucket_members (q\<lparr>ProcessBuckets := a\<rparr>) = bucket_members q"
  "bucket_members (q\<lparr>Stopped := b\<rparr>) = bucket_members q"
  "bucket_members (q\<lparr>PendingEvent := b\<rparr>) = bucket_members q"
  "bucket_members (SpdQeventSetNoLock q) = bucket_members q"
  by (simp_all add: fun_eq_iff bucket_members_def)

lemma bucket_members_append:
  "bucket_members (q\<lparr>ProcessList := ProcessList q @ [e]\<rparr>) i =
   (if bucket_index q e = i then e # bucket_members q i else bucket_members q i)"
  by (simp add: bucket_members_def)

lemma bucket_members_remove1:
  "distinct (ProcessList q) \<Longrightarrow> ProcessBucketCount q' = ProcessBucketCount q \<Longrightarrow>
   ProcessList q' = remove1 e (ProcessList q) \<Longrightarrow>
   bucket_members q' i = removeAll e (bucket_members q i)"
  by (simp add: bucket_members_def bucket_index_cong [of q' q] distinct_remove1_removeAll
        removeAll_filter_not_eq rev_filter conj_commute)

text \<open>
  Taking an entry out of its bucket: the scan finds the slot that holds it, and writing its
  \<open>HashNext\<close> there leaves the buckets an index of the remaining entries.
\<close>

lemma unlink:
  assumes ok: "buckets_ok q m" and dist: "distinct (ProcessList q)" and e: "e \<in> set (ProcessList q)"
  obtains P q1 m1 where "bucket_scan q m (Bucket (bucket_index q e)) e = Some (Some P)"
    and "write_slot P (HashNext (exts m e)) (q, m) = (q1, m1)"
    and "eq_mod_hash m m1" and "q1 = q\<lparr>ProcessBuckets := ProcessBuckets q1\<rparr>"
    and "buckets_ok (q1\<lparr>ProcessList := remove1 e (ProcessList q)\<rparr>) m1"
proof -
  define i where "i = bucket_index q e"
  have i: "i < unat (ProcessBucketCount q)" and len: "length (ProcessBuckets q) = unat (ProcessBucketCount q)"
    using ok by (simp_all add: i_def buckets_ok_def bucket_index_less)
  have "distinct (bucket_members q i)" using dist by (simp add: bucket_members_def)
  moreover have "e \<in> set (bucket_members q i)" using e by (simp add: i_def)
  ultimately obtain ys zs where mem: "bucket_members q i = ys @ e # zs" and ys: "e \<notin> set ys"
    and zs: "e \<notin> set zs" and disj: "set ys \<inter> set zs = {}" and dy: "distinct ys"
    by (fastforce dest: split_list)
  have ch: "chain (hash_next m) (ProcessBuckets q ! i) (ys @ e # zs)"
    using ok i mem by (metis buckets_ok_def)
  have scan: "bucket_scan q m (Bucket i) e = Some (Some (if ys = [] then Bucket i else NextOf (last ys)))"
    using ch ys by (intro bucket_scan_in [where zs = zs]) simp_all
  have rest: "removeAll e (bucket_members q i) = ys @ zs"
    using ys zs by (simp add: mem)
  have upd: "bucket_members (q\<lparr>ProcessBuckets := b, ProcessList := remove1 e (ProcessList q)\<rparr>) j =
      removeAll e (bucket_members q j)" "bucket_members (q\<lparr>ProcessList := remove1 e (ProcessList q)\<rparr>) j =
      removeAll e (bucket_members q j)" for b j
    using dist by (simp_all add: bucket_members_remove1)
  have others: "removeAll e (bucket_members q j) = bucket_members q j" if "j \<noteq> i" for j
    using that by (intro removeAll_id) (simp add: i_def)
  show thesis
  proof (cases "ys = []")
    case True
    show thesis
      by (rule that [of "Bucket i" "q\<lparr>ProcessBuckets := (ProcessBuckets q)[i := HashNext (exts m e)]\<rparr>" m])
         (use ok ch i len True rest others scan dist in
           \<open>auto simp: i_def [symmetric] buckets_ok_def upd nth_list_update\<close>)
  next
    case False
    define m1 where "m1 = upd_ext (last ys) (\<lambda>x. x\<lparr>HashNext := HashNext (exts m e)\<rparr>) m"
    have hn: "hash_next m1 = (hash_next m)(last ys := HashNext (exts m e))"
      by (auto simp: m1_def upd_ext_def)
    have "chain (hash_next m1) (ProcessBuckets q ! i) (ys @ zs)"
      unfolding hn using chain_unlink [OF ch False] by simp
    moreover have "chain (hash_next m1) (ProcessBuckets q ! j) (bucket_members q j)"
      if "j < unat (ProcessBucketCount q)" and "j \<noteq> i" for j
    proof -
      have "last ys \<in> set (bucket_members q i)" using False by (simp add: mem)
      with that have "last ys \<notin> set (bucket_members q j)" by simp
      with ok that show ?thesis unfolding hn by (simp add: buckets_ok_def del: fun_upd_apply)
    qed
    ultimately have "chain (hash_next m1) (ProcessBuckets q ! j) (removeAll e (bucket_members q j))"
      if "j < unat (ProcessBucketCount q)" for j
      using that rest others by (cases "j = i") simp_all
    then have "buckets_ok (q\<lparr>ProcessList := remove1 e (ProcessList q)\<rparr>) m1"
      using ok by (simp add: buckets_ok_def upd)
    then show thesis
      using that [of "NextOf (last ys)" q m1] scan False by (simp add: i_def m1_def eq_mod_hash_upd)
  qed
qed

section \<open>What the operations do\<close>

text \<open>The invariant depends on the links of the queue and on no other part of the memory.\<close>

lemma buckets_ok_frame:
  assumes "buckets_ok q m" and "\<And>e. e \<in> set (ProcessList q) \<Longrightarrow> HashNext (exts m' e) = HashNext (exts m e)"
    and "ProcessBucketCount q' = ProcessBucketCount q" and "ProcessBuckets q' = ProcessBuckets q"
    and "ProcessList q' = ProcessList q"
  shows "buckets_ok q' m'"
proof -
  have "bucket_members q' = bucket_members q"
    using assms by (simp add: fun_eq_iff bucket_members_def bucket_index_cong [of q' q])
  moreover have "chain (hash_next m') p (bucket_members q i) = chain (hash_next m) p (bucket_members q i)" for p i
    by (rule chain_cong) (simp add: assms(2))
  ultimately show ?thesis using assms by (simp add: buckets_ok_def)
qed

lemma links_ok_frame:
  assumes "links_ok q m"
    and "\<And>e. e \<in> set (queued q') \<Longrightarrow> e \<in> set (queued q) \<and> Srb (exts m' e) = Srb (exts m e)"
    and "\<And>s. SrbExtension (srbs m' s) = SrbExtension (srbs m s)"
  shows "links_ok q' m'"
  using assms by (simp add: links_ok_def)

lemma ioq_inv_frame:
  assumes "ioq_inv (q, m)"
    and "\<And>e. HashNext (exts m' e) = HashNext (exts m e)" "\<And>e. Srb (exts m' e) = Srb (exts m e)"
    and "\<And>s. SrbExtension (srbs m' s) = SrbExtension (srbs m s)"
    and "ProcessBucketCount q' = ProcessBucketCount q" "ProcessBuckets q' = ProcessBuckets q"
    and "ProcessList q' = ProcessList q" "PendingList q' = PendingList q" "Stopped q' = Stopped q"
  shows "ioq_inv (q', m')"
  using assms buckets_ok_frame [of q m m' q'] links_ok_frame [of q m q' m']
  by (simp add: ioq_inv_def queued_def)

lemma buckets_ok_not_queued:
  "buckets_ok q m \<Longrightarrow> e \<notin> set (ProcessList q) \<Longrightarrow>
   bucket_scan q m (Bucket (bucket_index q e)) e = Some None"
  by (rule bucket_scan_notin [where xs = "bucket_members q (bucket_index q e)"])
     (auto simp: buckets_ok_def bucket_index_less)

lemma post_stopped: "Stopped q \<Longrightarrow> SpdIoqPostSrb s (q, m) = (STATUS_CANCELLED, q, m)"
  by (simp add: SpdIoqPostSrb_def)

lemma post_running:
  assumes inv: "ioq_inv (q, m)" and "\<not> Stopped q" and e: "SrbExtension (srbs m s) = e" "e \<noteq> 0"
    and new: "e \<notin> set (queued q)" and r: "SpdIoqPostSrb s (q, m) = (st, q', m')"
  shows "st = STATUS_SUCCESS" "ioq_inv (q', m')" "abs_ioq q' = a_post e (abs_ioq q)"
    "PendingEvent q'" "m' = upd_ext e (\<lambda>x. x\<lparr>Srb := s\<rparr>) m"
proof -
  have st: "st = STATUS_SUCCESS" and m': "m' = upd_ext e (\<lambda>x. x\<lparr>Srb := s\<rparr>) m"
    and q': "q' = SpdQeventSetNoLock (q\<lparr>PendingList := PendingList q @ [e]\<rparr>)"
    using r assms by (simp_all add: SpdIoqPostSrb_def Let_def SrbGetMiniportContext_def)
  have "buckets_ok q' m'"
    using inv by (auto intro: buckets_ok_frame simp: q' m' ioq_inv_def upd_ext_def)
  moreover have "links_ok q' m'"
    using inv e new by (auto simp: links_ok_def q' m' ioq_inv_def upd_ext_def queued_def)
  ultimately show "ioq_inv (q', m')"
    using inv new assms(2) by (auto simp: ioq_inv_def q' queued_def)
  show "abs_ioq q' = a_post e (abs_ioq q)"
    using assms(2) by (simp add: q' abs_ioq_def a_post_def)
  show "st = STATUS_SUCCESS" "PendingEvent q'" "m' = upd_ext e (\<lambda>x. x\<lparr>Srb := s\<rparr>) m"
    using st m' by (simp_all add: q')
qed

lemma start_locked_stopped:
  "Stopped q \<Longrightarrow> start_locked Prepare c (q, m) = (STATUS_CANCELLED, c, SpdQeventSetNoLock q, m)"
  by (simp add: start_locked_def)

lemma start_locked_empty:
  "\<not> Stopped q \<Longrightarrow> PendingList q = [] \<Longrightarrow> start_locked Prepare c (q, m) = (STATUS_UNSUCCESSFUL, c, q, m)"
  by (simp add: start_locked_def)

lemma buckets_ok_push:
  assumes ok: "buckets_ok q m" and e: "e \<noteq> 0" "e \<notin> set (ProcessList q)"
    and i: "i = bucket_index q e"
  shows "buckets_ok (q\<lparr>ProcessList := ProcessList q @ [e], ProcessBuckets := (ProcessBuckets q)[i := e]\<rparr>)
    (upd_ext e (\<lambda>x. x\<lparr>HashNext := ProcessBuckets q ! i\<rparr>) m)" (is "buckets_ok ?q ?m")
proof -
  have hn: "hash_next ?m = (hash_next m)(e := ProcessBuckets q ! i)"
    by (auto simp: upd_ext_def)
  have mem: "bucket_members ?q j = (if j = i then e # bucket_members q j else bucket_members q j)" for j
    using i by (auto simp: bucket_members_def bucket_index_cong [of ?q q])
  have old: "chain (hash_next ?m) (ProcessBuckets q ! j) (bucket_members q j)"
    if "j < unat (ProcessBucketCount q)" for j
    using ok e that unfolding hn by (simp add: buckets_ok_def del: fun_upd_apply)
  have "chain (hash_next ?m) (ProcessBuckets ?q ! j) (bucket_members ?q j)"
    if j: "j < unat (ProcessBucketCount q)" for j
  proof (cases "j = i")
    case True
    have "hash_next ?m e = ProcessBuckets q ! i" by (simp add: upd_ext_def)
    with True show ?thesis
      using ok e j old [OF j] unfolding mem by (simp add: buckets_ok_def)
  next
    case False
    with old [OF j] show ?thesis unfolding mem by simp
  qed
  with ok show ?thesis by (simp add: buckets_ok_def)
qed

lemma start_locked_take:
  assumes inv: "ioq_inv (q, m)" and "\<not> Stopped q" and pend: "PendingList q = e # rest"
    and r: "start_locked Prepare c (q, m) = (st, c', q', m')"
  shows "st = STATUS_SUCCESS" "c' = Prepare e m c" "ioq_inv (q', m')" "abs_ioq q' = a_start (abs_ioq q)"
    "eq_mod_hash m m'" "rest \<noteq> [] \<Longrightarrow> PendingEvent q'"
proof -
  define q1 where "q1 = q\<lparr>PendingList := rest\<rparr>"
  define i where "i = bucket_index q1 e"
  define q2 where "q2 = q1\<lparr>ProcessList := ProcessList q1 @ [e], ProcessBuckets := (ProcessBuckets q1)[i := e]\<rparr>"
  have st: "st = STATUS_SUCCESS" and c': "c' = Prepare e m c"
    and m': "m' = upd_ext e (\<lambda>x. x\<lparr>HashNext := ProcessBuckets q1 ! i\<rparr>) m"
    and q': "q' = (if rest \<noteq> [] then SpdQeventSetNoLock q2 else q2)"
    using r assms by (auto simp: start_locked_def Let_def q1_def q2_def i_def split: if_splits)
  have q'_fields: "Stopped q' = Stopped q" "PendingList q' = rest" "ProcessList q' = ProcessList q @ [e]"
    "rest \<noteq> [] \<Longrightarrow> PendingEvent q'"
    by (simp_all add: q' q2_def q1_def)
  from inv pend have e: "e \<noteq> 0" "e \<notin> set (ProcessList q1)"
    by (auto simp: ioq_inv_def links_ok_def queued_def q1_def)
  have ok: "buckets_ok q1 m"
    by (rule buckets_ok_frame [OF ioq_invD(1) [OF inv]]) (simp_all add: q1_def)
  have "buckets_ok q2 m'" unfolding q2_def m' by (rule buckets_ok_push [OF ok e i_def])
  then have "buckets_ok q' m'" by (rule buckets_ok_frame) (simp_all add: q')
  moreover have "links_ok q' m'"
    by (rule links_ok_frame [of q m])
       (use inv pend in \<open>auto simp: ioq_inv_def q'_fields queued_def m' upd_ext_def\<close>)
  ultimately show "ioq_inv (q', m')"
    using inv assms(2) pend by (auto simp: ioq_inv_def q'_fields queued_def)
  show "abs_ioq q' = a_start (abs_ioq q)"
    using assms(2) pend by (simp add: abs_ioq_def a_start_def q'_fields)
  show "eq_mod_hash m m'" unfolding m' by (rule eq_mod_hash_upd) simp
  show "st = STATUS_SUCCESS" "c' = Prepare e m c" "rest \<noteq> [] \<Longrightarrow> PendingEvent q'"
    using st c' q'_fields by simp_all
qed

text \<open>
  What the queue asks of the routine that completes a chunk: it leaves the links alone and
  sends no notification, and its verdict does not look at the links.
\<close>

locale srb_callback =
  fixes Complete :: "ptr \<Rightarrow> kmem \<Rightarrow> (u8 \<times> kmem) option"
  assumes keeps_next: "Complete e m = Some (v, m') \<Longrightarrow> HashNext (exts m' x) = HashNext (exts m x)"
    and keeps_srb: "Complete e m = Some (v, m') \<Longrightarrow> Srb (exts m' x) = Srb (exts m x)"
    and keeps_ext: "Complete e m = Some (v, m') \<Longrightarrow> SrbExtension (srbs m' s) = SrbExtension (srbs m s)"
    and keeps_notifications: "Complete e m = Some (v, m') \<Longrightarrow> notifications m' = notifications m"
    and verdict: "eq_mod_hash m m1 \<Longrightarrow> map_option fst (Complete e m1) = map_option fst (Complete e m)"
begin

lemma end_unknown:
  assumes "ioq_inv (q, m)" and "e \<notin> set (ProcessList q)"
  shows "SpdIoqEndProcessingSrb e Complete (q, m) = Some (q, m)"
  using buckets_ok_not_queued [OF ioq_invD(1) [OF assms(1)] assms(2)]
  by (simp add: SpdIoqEndProcessingSrb_def)

lemma end_fault:
  assumes inv: "ioq_inv (q, m)" and run: "\<not> Stopped q" and e: "e \<in> set (ProcessList q)"
    and C: "Complete e m = None"
  shows "SpdIoqEndProcessingSrb e Complete (q, m) = None"
proof -
  note invD = ioq_invD [OF inv]
  obtain P q1 m1 where u: "bucket_scan q m (Bucket (bucket_index q e)) e = Some (Some P)"
    "write_slot P (HashNext (exts m e)) (q, m) = (q1, m1)" "eq_mod_hash m m1"
    using unlink [OF invD(1) invD(5) e] by blast
  from verdict [OF u(3), of e] C have "Complete e m1 = None" by simp
  with u run show ?thesis
    by (simp add: SpdIoqEndProcessingSrb_def bind_eq_None_conv)
qed

lemma end_known:
  assumes inv: "ioq_inv (q, m)" and run: "\<not> Stopped q" and e: "e \<in> set (ProcessList q)"
    and C0: "Complete e m = Some (v, m0)"
  obtains q' m' where "SpdIoqEndProcessingSrb e Complete (q, m) = Some (q', m')"
    and "ioq_inv (q', m')" and "abs_ioq q' = a_end e v (abs_ioq q)"
    and "v = SRB_STATUS_PENDING \<Longrightarrow> PendingEvent q' \<and> notifications m' = notifications m"
    and "v \<noteq> SRB_STATUS_PENDING \<Longrightarrow> PendingEvent q' = PendingEvent q \<and>
      map fst (notifications m') = map fst (notifications m) @ [Srb (exts m e)]"
    and "\<And>x. Srb (exts m' x) = Srb (exts m x)"
    and "\<And>s. SrbExtension (srbs m' s) = SrbExtension (srbs m s)"
proof -
  note invD = ioq_invD [OF inv]
  obtain P q1 m1 where scan: "bucket_scan q m (Bucket (bucket_index q e)) e = Some (Some P)"
    and wr: "write_slot P (HashNext (exts m e)) (q, m) = (q1, m1)" and mh: "eq_mod_hash m m1"
    and q1: "q1 = q\<lparr>ProcessBuckets := ProcessBuckets q1\<rparr>"
    and ok: "buckets_ok (q1\<lparr>ProcessList := remove1 e (ProcessList q)\<rparr>) m1"
    using unlink [OF invD(1) invD(5) e] by blast
  define q2 where "q2 = q1\<lparr>ProcessList := remove1 e (ProcessList q)\<rparr>"
  have q1_fields: "PendingList q1 = PendingList q" "ProcessList q1 = ProcessList q"
    "Stopped q1 = Stopped q" "PendingEvent q1 = PendingEvent q"
    by (subst q1, simp)+
  have notp: "e \<notin> set (PendingList q)" using invD(3) e by (auto simp: queued_def)
  have rem: "RemoveEntryList e q1 = Some q2"
    using e notp by (simp add: RemoveEntryList_def q1_fields q2_def)
  have "map_option fst (Complete e m1) = Some v" using verdict [OF mh] C0 by simp
  then obtain m2 where C: "Complete e m1 = Some (v, m2)" by auto
  have srb2: "Srb (exts m2 x) = Srb (exts m x)" for x
    using keeps_srb [OF C] eq_mod_hash_fields(1) [OF mh] by simp
  have ext2: "SrbExtension (srbs m2 s) = SrbExtension (srbs m s)" for s
    using keeps_ext [OF C] eq_mod_hash_fields(2) [OF mh] by simp
  have ntf: "notifications m2 = notifications m"
    using keeps_notifications [OF C] eq_mod_hash_fields(3) [OF mh] by simp
  have ok2: "buckets_ok q2 m2"
    by (rule buckets_ok_frame [OF ok]) (simp_all add: q2_def keeps_next [OF C])
  define q' where "q' = (if v = SRB_STATUS_PENDING
    then SpdQeventSetNoLock (q2\<lparr>PendingList := e # PendingList q2\<rparr>) else q2)"
  define m' where "m' = (if v = SRB_STATUS_PENDING then m2 else SpdSrbComplete (Srb (exts m e)) v m2)"
  have run': "SpdIoqEndProcessingSrb e Complete (q, m) = Some (q', m')"
    using run scan wr rem C by (simp add: SpdIoqEndProcessingSrb_def q'_def m'_def srb2)
  have fields: "PendingList q' = (if v = SRB_STATUS_PENDING then e # PendingList q else PendingList q)"
    "ProcessList q' = remove1 e (ProcessList q)" "Stopped q' = Stopped q"
    by (simp_all add: q'_def q2_def q1_fields)
  have srb': "Srb (exts m' x) = Srb (exts m x)" for x by (simp add: m'_def srb2)
  have ext': "SrbExtension (srbs m' s) = SrbExtension (srbs m s)" for s by (simp add: m'_def ext2)
  have "buckets_ok q' m'" by (rule buckets_ok_frame [OF ok2]) (simp_all add: q'_def m'_def)
  moreover have "links_ok q' m'"
    by (rule links_ok_frame [OF invD(2)])
       (use e notin_set_remove1 in \<open>auto simp: queued_def fields srb' ext' split: if_splits dest: notin_set_remove1\<close>)
  moreover have "distinct (queued q')"
    using invD(3) e notp set_remove1_eq [OF invD(5)] by (auto simp: queued_def fields)
  ultimately have inv': "ioq_inv (q', m')" using run by (simp add: ioq_inv_def fields)
  have abs': "abs_ioq q' = a_end e v (abs_ioq q)"
    using run e by (simp add: abs_ioq_def a_end_def fields)
  show thesis
    by (rule that [OF run' inv' abs' _ _ srb' ext'])
       (simp_all add: q'_def m'_def ntf q2_def q1_fields)
qed

end

lemma cancel_queued:
  assumes inv: "ioq_inv (q, m)" and run: "\<not> Stopped q" and e: "e \<in> set (queued q)"
    and srb: "SrbExtension (srbs m s) = e"
  obtains q' m' where "SpdIoqCancelSrb s (q, m) = Some (STATUS_SUCCESS, q', m')"
    and "ioq_inv (q', m')" and "abs_ioq q' = a_cancel e (abs_ioq q)"
    and "map fst (notifications m') = map fst (notifications m) @ [s]"
    and "\<And>x. x \<noteq> e \<Longrightarrow> Srb (exts m' x) = Srb (exts m x)"
    and "\<And>s. SrbExtension (srbs m' s) = SrbExtension (srbs m s)"
    and "PendingEvent q' = PendingEvent q"
proof -
  note invD = ioq_invD [OF inv]
  define q0 where "q0 = q\<lparr>PendingList := remove1 e (PendingList q), ProcessList := remove1 e (ProcessList q)\<rparr>"
  have disj: "set (PendingList q) \<inter> set (ProcessList q) = {}" using invD(3) by (simp add: queued_def)
  obtain found q1 m1 q2 where scan: "bucket_scan q m (Bucket (bucket_index q e)) e = Some found"
    and step: "(case found of None \<Rightarrow> (q, m)
             | Some P \<Rightarrow> (case write_slot P (HashNext (exts m e)) (q, m) of
                 (q, m) \<Rightarrow> (q, upd_ext e (\<lambda>x. x\<lparr>HashNext := 0\<rparr>) m))) = (q1, m1)"
    and mh: "eq_mod_hash m m1" and rem: "RemoveEntryList e q1 = Some q2"
    and q2: "PendingList q2 = PendingList q0" "ProcessList q2 = ProcessList q0" "Stopped q2 = Stopped q"
      "PendingEvent q2 = PendingEvent q"
    and ok: "buckets_ok q2 m1"
  proof (cases "e \<in> set (ProcessList q)")
    case True
    obtain P q1 m1 where u: "bucket_scan q m (Bucket (bucket_index q e)) e = Some (Some P)"
      "write_slot P (HashNext (exts m e)) (q, m) = (q1, m1)" "eq_mod_hash m m1"
      and q1: "q1 = q\<lparr>ProcessBuckets := ProcessBuckets q1\<rparr>"
      and ok: "buckets_ok (q1\<lparr>ProcessList := remove1 e (ProcessList q)\<rparr>) m1"
      using unlink [OF invD(1) invD(5) True] by blast
    have q1_fields: "PendingList q1 = PendingList q" "ProcessList q1 = ProcessList q"
      "Stopped q1 = Stopped q" "PendingEvent q1 = PendingEvent q"
      by (subst q1, simp)+
    from True disj have "e \<notin> set (PendingList q)" by auto
    with True invD(5) show thesis
      using eq_mod_hash_upd [OF u(3)]
      by (intro that [of "Some P" q1 "upd_ext e (\<lambda>x. x\<lparr>HashNext := 0\<rparr>) m1"
            "q1\<lparr>ProcessList := remove1 e (ProcessList q)\<rparr>"] buckets_ok_frame [OF ok])
         (auto simp: u q1_fields RemoveEntryList_def q0_def remove1_idem upd_ext_def)
  next
    case False
    with e have "e \<in> set (PendingList q)" by (simp add: queued_def)
    with False show thesis
      by (intro that [of None q m "q\<lparr>PendingList := remove1 e (PendingList q)\<rparr>"]
            buckets_ok_frame [OF invD(1)])
         (simp_all add: buckets_ok_not_queued [OF invD(1)] RemoveEntryList_def q0_def remove1_idem)
  qed
  define m' where "m' = SpdSrbComplete s SRB_STATUS_ABORTED (upd_ext e (\<lambda>x. x\<lparr>Srb := 0\<rparr>) m1)"
  have run': "SpdIoqCancelSrb s (q, m) = Some (STATUS_SUCCESS, q2, m')"
    using run scan step rem by (simp add: SpdIoqCancelSrb_def SrbGetMiniportContext_def srb m'_def)
  note mf = eq_mod_hash_fields [OF mh]
  have srb': "Srb (exts m' x) = Srb (exts m x)" if "x \<noteq> e" for x
    using that by (simp add: m'_def upd_ext_def mf)
  have ext': "SrbExtension (srbs m' s) = SrbExtension (srbs m s)" for s
    by (simp add: m'_def upd_ext_def mf)
  have "buckets_ok q2 m'" by (rule buckets_ok_frame [OF ok]) (simp_all add: m'_def upd_ext_def)
  moreover have q2e: "e \<notin> set (queued q2)" and sub: "set (queued q2) \<subseteq> set (queued q)"
    using invD(3) by (auto simp: queued_def q2 q0_def dest: notin_set_remove1)
  then have "links_ok q2 m'"
    by (intro links_ok_frame [OF invD(2)] conjI srb' ext') auto
  moreover have "distinct (queued q2)"
    using invD(3) by (auto simp: queued_def q2 q0_def dest: notin_set_remove1)
  ultimately have inv': "ioq_inv (q2, m')" using run by (simp add: ioq_inv_def q2)
  have abs': "abs_ioq q2 = a_cancel e (abs_ioq q)"
    using run by (simp add: abs_ioq_def a_cancel_def q2 q0_def)
  have ntf: "map fst (notifications m') = map fst (notifications m) @ [s]"
    by (simp add: m'_def upd_ext_def mf)
  show thesis by (rule that [OF run' inv' abs' ntf srb' ext' q2(4)])
qed

lemma cancel_stopped: "Stopped q \<Longrightarrow> SpdIoqCancelSrb s (q, m) = Some (STATUS_UNSUCCESSFUL, q, m)"
  by (simp add: SpdIoqCancelSrb_def)

text \<open>Cancelling a request that is in no list faults.\<close>

lemma cancel_not_queued:
  assumes "ioq_inv (q, m)" and "\<not> Stopped q" and "SrbExtension (srbs m s) \<notin> set (queued q)"
  shows "SpdIoqCancelSrb s (q, m) = None"
  using assms buckets_ok_not_queued [OF ioq_invD(1) [OF assms(1)]]
  by (simp add: SpdIoqCancelSrb_def SrbGetMiniportContext_def queued_def RemoveEntryList_def)

lemma abort_list_frame [simp]:
  "exts (abort_list es m) = exts m" "bufs (abort_list es m) = bufs m"
  "SrbExtension (srbs (abort_list es m) s) = SrbExtension (srbs m s)"
  "map fst (notifications (abort_list es m)) =
     map fst (notifications m) @ map (\<lambda>e. Srb (exts m e)) es"
  by (induction es arbitrary: m) simp_all

lemma reset_stopped: "Stopped q \<Longrightarrow> SpdIoqReset stop (q, m) = (q, m)"
  by (simp add: SpdIoqReset_def)

lemma reset_running:
  assumes inv: "ioq_inv (q, m)" and run: "\<not> Stopped q" and r: "SpdIoqReset stop (q, m) = (q', m')"
  shows "ioq_inv (q', m')" "abs_ioq q' = a_reset stop (abs_ioq q)" "exts m' = exts m"
    "map fst (notifications m') = map fst (notifications m) @ map (\<lambda>e. Srb (exts m e)) (queued q)"
    "stop \<Longrightarrow> PendingEvent q'" "\<not> stop \<Longrightarrow> PendingEvent q' = PendingEvent q"
    "SrbExtension (srbs m' s) = SrbExtension (srbs m s)"
proof -
  define q1 where "q1 = q\<lparr>PendingList := [], ProcessList := [],
    ProcessBuckets := replicate (unat (ProcessBucketCount q)) 0\<rparr>"
  have q': "q' = (if stop then SpdQeventSetNoLock (q1\<lparr>Stopped := True\<rparr>) else q1)"
    and m': "m' = abort_list (ProcessList q) (abort_list (PendingList q) m)"
    using r run by (auto simp: SpdIoqReset_def Let_def q1_def)
  have fields: "PendingList q' = []" "ProcessList q' = []" "Stopped q' = stop"
    "ProcessBucketCount q' = ProcessBucketCount q"
    "ProcessBuckets q' = replicate (unat (ProcessBucketCount q)) 0"
    using run by (simp_all add: q' q1_def)
  have "buckets_ok q' m'"
    using ioq_invD(1) [OF inv] by (simp add: buckets_ok_def fields bucket_members_def)
  then show "ioq_inv (q', m')" by (simp add: ioq_inv_def links_ok_def queued_def fields)
  show "abs_ioq q' = a_reset stop (abs_ioq q)"
    using run by (simp add: abs_ioq_def a_reset_def fields)
  show "map fst (notifications m') = map fst (notifications m) @ map (\<lambda>e. Srb (exts m e)) (queued q)"
    by (simp add: m' queued_def)
  show "exts m' = exts m" "SrbExtension (srbs m' s) = SrbExtension (srbs m s)" by (simp_all add: m')
  show "stop \<Longrightarrow> PendingEvent q'" "\<not> stop \<Longrightarrow> PendingEvent q' = PendingEvent q"
    by (simp_all add: q' q1_def)
qed

end
