(* ===== verification/Ioq_Steps.thy ===== *)
theory Ioq_Steps
  imports Ioq_Props
begin

text \<open>
  The I/O queue as StorPort and the threads of a storage device drive it: a step relation in
  which posts, waits, starts, responses, aborts and resets interleave in any order. Each
  routine of src/sys/ioq.c is one step, because it runs under the spin lock of the queue, but
  \<open>SpdIoqStartProcessingSrb\<close> is two: the wait that consumes the event, and the locked part.

  Two ghost components record what the queue has promised: \<open>posted\<close>, the requests it has
  accepted, and \<open>inflight\<close>, the number of threads that have consumed the event and not yet
  taken the lock.
\<close>

record ioq_run =
  rq :: SPD_IOQ
  rm :: kmem
  posted :: "ptr list"
  inflight :: nat

text \<open>What the rest of the driver may do to the memory between two steps of the queue.\<close>

definition env_ok :: "kmem \<Rightarrow> kmem \<Rightarrow> bool" where
  "env_ok m m' \<longleftrightarrow> hash_next m' = hash_next m \<and> (\<lambda>e. Srb (exts m' e)) = (\<lambda>e. Srb (exts m e)) \<and>
     (\<lambda>s. SrbExtension (srbs m' s)) = (\<lambda>s. SrbExtension (srbs m s)) \<and>
     notifications m' = notifications m"

inductive ioq_step :: "('r \<Rightarrow> ptr \<Rightarrow> kmem \<Rightarrow> (u8 \<times> kmem) option) \<Rightarrow> ioq_run \<Rightarrow> ioq_run \<Rightarrow> bool"
  for Complete where
  post: "SrbExtension (srbs (rm r) s) \<noteq> 0 \<Longrightarrow> SrbExtension (srbs (rm r) s) \<notin> set (queued (rq r)) \<Longrightarrow>
    SpdIoqPostSrb s (rq r, rm r) = (st, q', m') \<Longrightarrow>
    ioq_step Complete r (r\<lparr>rq := q', rm := m',
      posted := (if st = STATUS_SUCCESS then posted r @ [s] else posted r)\<rparr>)"
| wait: "PendingEvent (rq r) \<Longrightarrow>
    ioq_step Complete r (r\<lparr>rq := (rq r)\<lparr>PendingEvent := False\<rparr>, inflight := inflight r + 1\<rparr>)"
| start: "inflight r \<noteq> 0 \<Longrightarrow> start_locked (\<lambda>_ _ c. c) () (rq r, rm r) = (st, c', q', m') \<Longrightarrow>
    ioq_step Complete r (r\<lparr>rq := q', rm := m', inflight := inflight r - 1\<rparr>)"
| done_: "SpdIoqEndProcessingSrb Hint (Complete rsp) (rq r, rm r) = Some (q', m') \<Longrightarrow>
    ioq_step Complete r (r\<lparr>rq := q', rm := m'\<rparr>)"
| cancel: "s \<in> (\<lambda>e. Srb (exts (rm r) e)) ` set (queued (rq r)) \<Longrightarrow>
    SpdIoqCancelSrb s (rq r, rm r) = Some (st, q', m') \<Longrightarrow>
    ioq_step Complete r (r\<lparr>rq := q', rm := m'\<rparr>)"
| reset: "SpdIoqReset stop (rq r, rm r) = (q', m') \<Longrightarrow>
    ioq_step Complete r (r\<lparr>rq := q', rm := m'\<rparr>)"
| env: "env_ok (rm r) m' \<Longrightarrow> ioq_step Complete r (r\<lparr>rm := m'\<rparr>)"

inductive ioq_reachable :: "('r \<Rightarrow> ptr \<Rightarrow> kmem \<Rightarrow> (u8 \<times> kmem) option) \<Rightarrow> ioq_run \<Rightarrow> bool"
  for Complete where
  create: "SpdIoqCreate sizeof_Ioq True = (STATUS_SUCCESS, Some q) \<Longrightarrow> sizeof_Ioq + 8 \<le> PAGE_SIZE \<Longrightarrow>
    notifications m = [] \<Longrightarrow>
    ioq_reachable Complete \<lparr>rq = q, rm = m, posted = [], inflight = 0\<rparr>"
| step: "ioq_reachable Complete r \<Longrightarrow> ioq_step Complete r r' \<Longrightarrow> ioq_reachable Complete r'"

inductive_cases ioq_stepE: "ioq_step Complete r r'"
inductive_simps ioq_reachable_iff: "ioq_reachable Complete r"

section \<open>The invariant of the runs\<close>

text \<open>Every accepted request is in the queue or has been completed, and it is so once.\<close>

definition accounted :: "ioq_run \<Rightarrow> bool" where
  "accounted r \<longleftrightarrow> mset (posted r) =
     mset (map (\<lambda>e. Srb (exts (rm r) e)) (queued (rq r))) + mset (map fst (notifications (rm r)))"

text \<open>While there is something to take, or to be told, some thread is awake or will wake.\<close>

definition no_lost_wakeup :: "ioq_run \<Rightarrow> bool" where
  "no_lost_wakeup r \<longleftrightarrow> PendingList (rq r) = [] \<and> \<not> Stopped (rq r) \<or>
     PendingEvent (rq r) \<or> inflight r \<noteq> 0"

definition run_inv :: "ioq_run \<Rightarrow> bool" where
  "run_inv r \<longleftrightarrow> ioq_inv (rq r, rm r) \<and> accounted r \<and> no_lost_wakeup r"

lemma run_inv_create:
  assumes "SpdIoqCreate sizeof_Ioq True = (STATUS_SUCCESS, Some q)" and "sizeof_Ioq + 8 \<le> PAGE_SIZE"
    and "notifications m = []"
  shows "run_inv \<lparr>rq = q, rm = m, posted = [], inflight = 0\<rparr>"
proof -
  define n where "n = (PAGE_SIZE - sizeof_Ioq) div 8"
  have n: "n \<noteq> 0" "n < 2 ^ 32" using assms(2) by (simp_all add: n_def PAGE_SIZE_def)
  then have un: "unat (word_of_nat n :: u32) = n" by (simp add: unat_of_nat)
  have "(word_of_nat n :: u32) \<noteq> 0" using un n by auto
  then show ?thesis
    using assms un by (auto simp: run_inv_def ioq_inv_def buckets_ok_def links_ok_def queued_def accounted_def
      no_lost_wakeup_def SpdIoqCreate_def Let_def bucket_members_def n_def [symmetric])
qed

text \<open>The multiset of the requests in the queue after an entry has moved or left.\<close>

lemma srbs_queued_remove:
  assumes "e \<in> set (queued q)" and "distinct (queued q)"
    and "mset (queued q') = mset (queued q) - {#e#}"
    and "\<And>x. x \<in> set (queued q') \<Longrightarrow> f' x = f x"
  shows "mset (map f (queued q)) = mset (map f' (queued q')) + {#f e#}"
proof -
  have "image_mset f' (mset (queued q')) = image_mset f (mset (queued q'))"
    using assms(4) by (intro image_mset_cong) simp
  moreover have "mset (queued q) = add_mset e (mset (queued q'))"
    using assms(1,3) by simp
  then have "image_mset f (mset (queued q)) = add_mset (f e) (image_mset f (mset (queued q')))"
    by (metis image_mset_add_mset)
  ultimately show ?thesis by simp
qed

lemma run_inv_post:
  assumes inv: "run_inv r" and e: "SrbExtension (srbs (rm r) s) \<noteq> 0"
    "SrbExtension (srbs (rm r) s) \<notin> set (queued (rq r))"
    and r: "SpdIoqPostSrb s (rq r, rm r) = (st, q', m')"
  shows "run_inv (r\<lparr>rq := q', rm := m',
      posted := (if st = STATUS_SUCCESS then posted r @ [s] else posted r)\<rparr>)"
proof (cases "Stopped (rq r)")
  case True
  with inv r show ?thesis by (auto simp: post_stopped run_inv_def accounted_def no_lost_wakeup_def)
next
  case False
  have i: "ioq_inv (rq r, rm r)" using inv by (simp add: run_inv_def)
  note p = post_running [OF i False refl e r]
  have lists: "PendingList q' = PendingList (rq r) @ [SrbExtension (srbs (rm r) s)]"
    "ProcessList q' = ProcessList (rq r)"
    using p(3) False by (simp_all add: abs_ioq_def a_post_def)
  have srb': "Srb (exts m' x) = (if x = SrbExtension (srbs (rm r) s) then s else Srb (exts (rm r) x))"
    and ntf: "notifications m' = notifications (rm r)" for x
    by (simp_all add: p(5) upd_ext_def)
  have "map (\<lambda>e. Srb (exts m' e)) (queued q') =
      map (\<lambda>e. Srb (exts (rm r) e)) (PendingList (rq r)) @ s # map (\<lambda>e. Srb (exts (rm r) e)) (ProcessList (rq r))"
    using e by (auto simp: queued_def lists srb')
  moreover have "map (\<lambda>e. Srb (exts (rm r) e)) (queued (rq r)) =
      map (\<lambda>e. Srb (exts (rm r) e)) (PendingList (rq r)) @ map (\<lambda>e. Srb (exts (rm r) e)) (ProcessList (rq r))"
    by (simp add: queued_def)
  ultimately show ?thesis
    using inv p(1,2,4) by (simp add: run_inv_def accounted_def no_lost_wakeup_def ntf del: mset_map)
qed

lemma run_inv_start:
  assumes inv: "run_inv r" and fl: "inflight r \<noteq> 0"
    and r: "start_locked (\<lambda>_ _ c. c) () (rq r, rm r) = (st, c', q', m')"
  shows "run_inv (r\<lparr>rq := q', rm := m', inflight := inflight r - 1\<rparr>)"
proof -
  have i: "ioq_inv (rq r, rm r)" using inv by (simp add: run_inv_def)
  show ?thesis
  proof (cases "Stopped (rq r)")
    case True
    with r have q': "q' = SpdQeventSetNoLock (rq r)" and m': "m' = rm r"
      by (simp_all add: start_locked_stopped)
    have "ioq_inv (q', m')"
      by (rule ioq_inv_frame [OF i]) (simp_all add: q' m')
    with inv show ?thesis by (simp add: run_inv_def accounted_def no_lost_wakeup_def q' m' queued_def)
  next
    case False
    show ?thesis
    proof (cases "PendingList (rq r)")
      case Nil
      with False r inv show ?thesis
        by (auto simp: start_locked_empty run_inv_def accounted_def no_lost_wakeup_def)
    next
      case (Cons e rest)
      note t = start_locked_take [OF i False Cons r]
      have lists: "PendingList q' = rest" "ProcessList q' = ProcessList (rq r) @ [e]" "\<not> Stopped q'"
        using t(4) False Cons by (simp_all add: abs_ioq_def a_start_def)
      show ?thesis
        using inv t(3,6) Cons lists
        by (auto simp: run_inv_def accounted_def no_lost_wakeup_def queued_def eq_mod_hash_fields [OF t(5)])
    qed
  qed
qed

lemma run_inv_cancel:
  assumes inv: "run_inv r" and s: "s \<in> (\<lambda>e. Srb (exts (rm r) e)) ` set (queued (rq r))"
    and r: "SpdIoqCancelSrb s (rq r, rm r) = Some (st, q', m')"
  shows "run_inv (r\<lparr>rq := q', rm := m'\<rparr>)"
proof -
  have i: "ioq_inv (rq r, rm r)" using inv by (simp add: run_inv_def)
  obtain e where e: "e \<in> set (queued (rq r))" "s = Srb (exts (rm r) e)" using s by auto
  then have ext: "SrbExtension (srbs (rm r) s) = e"
    using ioq_invD(2) [OF i] by (simp add: links_ok_def)
  have run: "\<not> Stopped (rq r)" using ioq_invD(6) [OF i] e by (auto simp: queued_def)
  obtain q1 m1 where c: "SpdIoqCancelSrb s (rq r, rm r) = Some (STATUS_SUCCESS, q1, m1)"
    and *: "ioq_inv (q1, m1)" "abs_ioq q1 = a_cancel e (abs_ioq (rq r))"
    "map fst (notifications m1) = map fst (notifications (rm r)) @ [s]"
    "\<And>x. x \<noteq> e \<Longrightarrow> Srb (exts m1 x) = Srb (exts (rm r) x)" "PendingEvent q1 = PendingEvent (rq r)"
    by (rule cancel_queued [OF i run e(1) ext]) blast
  from c r have [simp]: "q' = q1" "m' = m1" by simp_all
  have lists: "PendingList q1 = remove1 e (PendingList (rq r))"
    "ProcessList q1 = remove1 e (ProcessList (rq r))" "\<not> Stopped q1"
    using *(2) run by (simp_all add: abs_ioq_def a_cancel_def)
  have d: "distinct (queued (rq r))" by (rule ioq_invD(3) [OF i])
  have "e \<notin> set (queued q1)"
    using d by (auto simp: queued_def lists dest: notin_set_remove1)
  moreover have "queued q1 = remove1 e (queued (rq r))"
    using d by (auto simp: queued_def lists remove1_append intro!: remove1_idem)
  then have "mset (queued q1) = mset (queued (rq r)) - {#e#}" by simp
  ultimately have "mset (map (\<lambda>e. Srb (exts (rm r) e)) (queued (rq r))) =
      mset (map (\<lambda>e. Srb (exts m1 e)) (queued q1)) + {#s#}"
    unfolding e(2) by (intro srbs_queued_remove [OF e(1) d]) (auto intro!: *(4))
  then show ?thesis
    using inv * lists
    by (auto simp: run_inv_def accounted_def no_lost_wakeup_def simp del: mset_map)
qed

lemma run_inv_reset:
  assumes inv: "run_inv r" and r: "SpdIoqReset stop (rq r, rm r) = (q', m')"
  shows "run_inv (r\<lparr>rq := q', rm := m'\<rparr>)"
proof (cases "Stopped (rq r)")
  case True
  with r inv show ?thesis by (auto simp: reset_stopped run_inv_def accounted_def no_lost_wakeup_def)
next
  case False
  have i: "ioq_inv (rq r, rm r)" using inv by (simp add: run_inv_def)
  note t = reset_running [OF i False r]
  have lists: "PendingList q' = []" "ProcessList q' = []" "Stopped q' = stop"
    using t(2) False by (simp_all add: abs_ioq_def a_reset_def)
  show ?thesis
    using inv t(1,4,5) lists
    by (auto simp: run_inv_def accounted_def no_lost_wakeup_def queued_def simp del: mset_map)
qed

lemma run_inv_env: "run_inv r \<Longrightarrow> env_ok (rm r) m' \<Longrightarrow> run_inv (r\<lparr>rm := m'\<rparr>)"
  using ioq_inv_frame [of "rq r" "rm r" m' "rq r"]
  by (simp add: run_inv_def env_ok_def fun_eq_iff accounted_def no_lost_wakeup_def)

lemma run_inv_wait:
  "run_inv r \<Longrightarrow> run_inv (r\<lparr>rq := (rq r)\<lparr>PendingEvent := False\<rparr>, inflight := inflight r + 1\<rparr>)"
  using ioq_inv_frame [of "rq r" "rm r" "rm r" "(rq r)\<lparr>PendingEvent := False\<rparr>"]
  by (simp add: run_inv_def accounted_def no_lost_wakeup_def queued_def)

text \<open>A family of callbacks: one for each response of the storage device.\<close>

locale srb_callbacks =
  fixes Complete :: "'r \<Rightarrow> ptr \<Rightarrow> kmem \<Rightarrow> (u8 \<times> kmem) option"
  assumes callback: "srb_callback (Complete rsp)"
begin

lemma run_inv_end:
  assumes inv: "run_inv r" and r: "SpdIoqEndProcessingSrb h (Complete rsp) (rq r, rm r) = Some (q', m')"
  shows "run_inv (r\<lparr>rq := q', rm := m'\<rparr>)"
proof (cases "h \<in> set (ProcessList (rq r))")
  case False
  have i: "ioq_inv (rq r, rm r)" using inv by (simp add: run_inv_def)
  from srb_callback.end_unknown [OF callback i False] r inv show ?thesis
    by (auto simp: run_inv_def accounted_def no_lost_wakeup_def)
next
  case True
  have i: "ioq_inv (rq r, rm r)" using inv by (simp add: run_inv_def)
  have run: "\<not> Stopped (rq r)" using ioq_invD(6) [OF i] True by auto
  obtain v m0 where v: "Complete rsp h (rm r) = Some (v, m0)"
    using r srb_callback.end_fault [OF callback i run True] by (cases "Complete rsp h (rm r)") auto
  obtain q1 m1 where c: "SpdIoqEndProcessingSrb h (Complete rsp) (rq r, rm r) = Some (q1, m1)"
    and *: "ioq_inv (q1, m1)" "abs_ioq q1 = a_end h v (abs_ioq (rq r))"
      "v = SRB_STATUS_PENDING \<Longrightarrow> PendingEvent q1 \<and> notifications m1 = notifications (rm r)"
      "v \<noteq> SRB_STATUS_PENDING \<Longrightarrow> PendingEvent q1 = PendingEvent (rq r) \<and>
        map fst (notifications m1) = map fst (notifications (rm r)) @ [Srb (exts (rm r) h)]"
      "\<And>x. Srb (exts m1 x) = Srb (exts (rm r) x)"
    by (rule srb_callback.end_known [OF callback i run True v]) blast
  from c r have [simp]: "q' = q1" "m' = m1" by simp_all
  have lists: "PendingList q1 = (if v = SRB_STATUS_PENDING then h # PendingList (rq r) else PendingList (rq r))"
    "ProcessList q1 = remove1 h (ProcessList (rq r))" "\<not> Stopped q1"
    using *(2) run True by (auto simp: abs_ioq_def a_end_def split: if_splits)
  have d: "distinct (queued (rq r))" by (rule ioq_invD(3) [OF i])
  show ?thesis
  proof (cases "v = SRB_STATUS_PENDING")
    case p: True
    have "mset (queued q1) = mset (queued (rq r))"
      using True p by (simp add: queued_def lists)
    then have "image_mset (\<lambda>e. Srb (exts (rm r) e)) (mset (queued q1)) =
        image_mset (\<lambda>e. Srb (exts (rm r) e)) (mset (queued (rq r)))" by simp
    then show ?thesis
      using inv *(1,5) *(3) [OF p] lists p by (simp add: run_inv_def accounted_def no_lost_wakeup_def)
  next
    case np: False
    have hq: "h \<in> set (queued (rq r))" using True by (simp add: queued_def)
    have "mset (queued q1) = mset (queued (rq r)) - {#h#}"
      using True np by (auto simp: queued_def lists)
    then have "mset (map (\<lambda>e. Srb (exts (rm r) e)) (queued (rq r))) =
        mset (map (\<lambda>e. Srb (exts m1 e)) (queued q1)) + {#Srb (exts (rm r) h)#}"
      by (intro srbs_queued_remove [OF hq d]) (simp_all add: *(5))
    then show ?thesis
      using inv *(1) *(4) [OF np] lists np
      by (auto simp: run_inv_def accounted_def no_lost_wakeup_def simp del: mset_map)
  qed
qed

theorem run_inv_step: "ioq_step Complete r r' \<Longrightarrow> run_inv r \<Longrightarrow> run_inv r'"
  by (induction rule: ioq_step.induct)
     (blast intro: run_inv_post run_inv_start run_inv_end run_inv_cancel run_inv_reset run_inv_env
        run_inv_wait)+

theorem run_inv_reachable: "ioq_reachable Complete r \<Longrightarrow> run_inv r"
  by (induction rule: ioq_reachable.induct) (blast intro: run_inv_create run_inv_step)+

text \<open>A response faults only if completing the chunk faults.\<close>

lemma end_total:
  assumes "run_inv r" and C: "Complete rsp h (rm r) \<noteq> None"
  shows "\<exists>q' m'. SpdIoqEndProcessingSrb h (Complete rsp) (rq r, rm r) = Some (q', m')"
proof (cases "\<not> Stopped (rq r) \<and> h \<in> set (ProcessList (rq r))")
  case True
  from C obtain v m0 where "Complete rsp h (rm r) = Some (v, m0)" by auto
  with True show ?thesis
    using assms(1) srb_callback.end_known [OF callback] by (metis run_inv_def)
next
  case False
  have i: "ioq_inv (rq r, rm r)" using assms by (simp add: run_inv_def)
  from False ioq_invD(6) [OF i] have "h \<notin> set (ProcessList (rq r))" by auto
  from srb_callback.end_unknown [OF callback i this] show ?thesis by blast
qed

end

end
