(* ===== verification/StgUnit.thy ===== *)
theory StgUnit
  imports Ioq_Props
begin

text \<open>
  The storage units of the adapter: src/sys/stgunit.c. A unit lives in the kernel's memory
  (\<open>units\<close>, which forgets a unit that is freed, so that a later access through its address is
  \<open>None\<close>), and the device extension of the adapter lists the provisioned ones by index.

  The routines take the spin lock of the device extension for the part that touches the table
  and the reference counts. \<open>SpdStorageUnitUnprovision\<close> reads the unit again after it has
  released the lock; its two parts are definitions of their own, so that the interleavings
  of this gap can be stated.
\<close>

section \<open>State\<close>

record SPD_STORAGE_UNIT =
  RefCount :: u32
  StorageUnitParams :: SPD_IOCTL_STORAGE_UNIT_PARAMS
  SerialNumber :: bytes
  OwnerProcessId :: u32
  UnitIoq :: "SPD_IOQ option"
  DeviceObject :: ptr
  TransactProcessId :: u32

record SPD_DEVICE_EXTENSION =
  AdapterDeviceObject :: ptr
  StorageUnitCount :: u32
  StorageUnitCapacity :: u32
  StorageUnits :: "ptr list"

text \<open>
  The kernel as the driver sees it: the memory shared with StorPort, the units, the device
  extension of the adapter, the number of \<open>BusChangeDetected\<close> notifications, and the global
  variables: \<open>SpdGlobalDeviceExtension\<close> (0 until it is set), \<open>SpdStorageUnitCapacity\<close>, whether the
  process notification is registered, and how many shared holds there are of the resource.
\<close>

record kernel =
  mem :: kmem
  units :: "ptr \<rightharpoonup> SPD_STORAGE_UNIT"
  de :: SPD_DEVICE_EXTENSION
  bus_changes :: nat
  SpdGlobalDeviceExtension :: ptr
  SpdStorageUnitCapacity :: u32
  notify_registered :: bool
  resource_shared :: nat

definition set_unit :: "ptr \<Rightarrow> SPD_STORAGE_UNIT \<Rightarrow> kernel \<Rightarrow> kernel" where
  "set_unit p u k = k\<lparr>units := (units k)(p \<mapsto> u)\<rparr>"

definition free_unit :: "ptr \<Rightarrow> kernel \<Rightarrow> kernel" where
  "free_unit p k = k\<lparr>units := (units k)(p := None)\<rparr>"

definition upd_de :: "(SPD_DEVICE_EXTENSION \<Rightarrow> SPD_DEVICE_EXTENSION) \<Rightarrow> kernel \<Rightarrow> kernel" where
  "upd_de f k = k\<lparr>de := f (de k)\<rparr>"

lemmas kernel_upd_defs = set_unit_def free_unit_def upd_de_def

section \<open>Names of a unit\<close>

text \<open>The loop that blanks a name from its first octet that is not printable.\<close>

fun left_align_loop :: "bool \<Rightarrow> bytes \<Rightarrow> bytes" where
  "left_align_loop Spaces [] = []"
| "left_align_loop Spaces (P # Ps) =
     (if Spaces \<or> P < 0x20 \<or> 0x7f \<le> P then 0x20 # left_align_loop True Ps
      else P # left_align_loop Spaces Ps)"

definition left_align :: "bytes \<Rightarrow> bytes" where
  "left_align s = (if s ! 0 \<noteq> 0 then left_align_loop False s else s)"

text \<open>\<open>%08lx\<close> and the like: the low \<open>n\<close> hexadecimal digits of a number, the highest first.\<close>

definition hex_digit :: "nat \<Rightarrow> u8" where
  "hex_digit d = (if d < 10 then word_of_nat (48 + d) else word_of_nat (87 + d))"

fun hex_digits :: "nat \<Rightarrow> nat \<Rightarrow> bytes" where
  "hex_digits 0 v = []"
| "hex_digits (Suc n) v = hex_digits n (v div 16) @ [hex_digit (v mod 16)]"

definition serial_number :: "GUID \<Rightarrow> bytes" where
  "serial_number g =
     hex_digits 8 (unat (Data1 g)) @ [0x2d] @ hex_digits 4 (unat (Data2 g)) @ [0x2d] @
     hex_digits 4 (unat (Data3 g)) @ [0x2d] @
     concat (map (\<lambda>b. hex_digits 2 (unat b)) (take 2 (Data4 g))) @ [0x2d] @
     concat (map (\<lambda>b. hex_digits 2 (unat b)) (drop 2 (Data4 g)))"

section \<open>Dereference\<close>

definition SpdStorageUnitDereference :: "ptr \<Rightarrow> kernel \<Rightarrow> kernel option" where
  "SpdStorageUnitDereference p k = do {
     u \<leftarrow> units k p;
     let u = u\<lparr>RefCount := RefCount u - 1\<rparr>;
     let k = set_unit p u k;
     if RefCount u = 0 then do {
       q \<leftarrow> UnitIoq u;
       let k = k\<lparr>mem := SpdIoqDelete q (mem k)\<rparr>;
       Some (free_unit p k)
     } else Some k
   }"

section \<open>Provision\<close>

text \<open>
  The loop under the spin lock, over the slots from \<open>I\<close> on: the unit with the same GUID, and
  the address of the first free slot.
\<close>

fun provision_scan ::
    "(ptr \<rightharpoonup> SPD_STORAGE_UNIT) \<Rightarrow> GUID \<Rightarrow> ptr list \<Rightarrow> u32 \<Rightarrow> u32 \<Rightarrow> (ptr \<times> u32) option" where
  "provision_scan us g [] I Btl = Some (0, Btl)"
| "provision_scan us g (Unit # rest) I Btl =
     (if Unit = 0
      then provision_scan us g rest (I + 1) (if Btl = - 1 then SPD_BTL_FROM_INDEX I else Btl)
      else do {
        u \<leftarrow> us Unit;
        if g = Guid (StorageUnitParams u) then Some (Unit, Btl)
        else provision_scan us g rest (I + 1) Btl
      })"

definition init_unit :: "SPD_IOCTL_STORAGE_UNIT_PARAMS \<Rightarrow> u32 \<Rightarrow> SPD_STORAGE_UNIT" where
  "init_unit Params ProcessId =
     \<lparr>RefCount = 1,
      StorageUnitParams = Params\<lparr>ProductId := left_align (ProductId Params),
        ProductRevisionLevel := left_align (ProductRevisionLevel Params)\<rparr>,
      SerialNumber = serial_number (Guid Params),
      OwnerProcessId = ProcessId,
      UnitIoq = None,
      DeviceObject = 0,
      TransactProcessId = ProcessId\<rparr>"

text \<open>
  \<open>pool\<close> is the address that the pool returns for the unit (0 if it has none), \<open>ioq\<close> the result
  of \<open>SpdIoqCreate\<close>. The error exit reads \<open>StorageUnit->Ioq\<close> before it tests \<open>StorageUnit\<close>.
\<close>

definition provision_exit :: "ptr \<Rightarrow> NTSTATUS \<Rightarrow> kernel \<Rightarrow> (NTSTATUS \<times> u32 \<times> kernel) option" where
  "provision_exit p Result k =
     (if p = 0 then None
      else do {
        u \<leftarrow> units k p;
        let k = (case UnitIoq u of None \<Rightarrow> k | Some q \<Rightarrow> k\<lparr>mem := SpdIoqDelete q (mem k)\<rparr>);
        Some (Result, - 1, free_unit p k)
      })"

definition SpdStorageUnitProvision ::
    "ptr \<Rightarrow> NTSTATUS \<times> SPD_IOQ option \<Rightarrow> SPD_IOCTL_STORAGE_UNIT_PARAMS \<Rightarrow> u32 \<Rightarrow> kernel \<Rightarrow>
     (NTSTATUS \<times> u32 \<times> kernel) option" where
  "SpdStorageUnitProvision pool ioq Params ProcessId k =
     (if pool = 0 then provision_exit 0 STATUS_INSUFFICIENT_RESOURCES k
      else
        let u = init_unit Params ProcessId;
            k = set_unit pool u k
        in if \<not> NT_SUCCESS (fst ioq) then provision_exit pool (fst ioq) k
        else do {
          let u = u\<lparr>UnitIoq := snd ioq\<rparr>;
          let k = set_unit pool u k;
          (Duplicate, Btl) \<leftarrow> provision_scan (units k) (Guid (StorageUnitParams u))
             (take (unat (StorageUnitCapacity (de k))) (StorageUnits (de k))) 0 (- 1);
          let k = (if Duplicate = 0 \<and> Btl \<noteq> - 1
             then upd_de (\<lambda>d. d\<lparr>StorageUnits := (StorageUnits d)[unat (SPD_INDEX_FROM_BTL Btl) := pool],
                                StorageUnitCount := StorageUnitCount d + 1\<rparr>) k
             else k);
          if Duplicate \<noteq> 0 then provision_exit pool STATUS_OBJECT_NAME_COLLISION k
          else if Btl = - 1 then provision_exit pool STATUS_CANNOT_MAKE k
          else Some (STATUS_SUCCESS, Btl, k\<lparr>bus_changes := bus_changes k + 1\<rparr>)
        })"

section \<open>Unprovision\<close>

fun guid_scan ::
    "(ptr \<rightharpoonup> SPD_STORAGE_UNIT) \<Rightarrow> GUID \<Rightarrow> ptr list \<Rightarrow> u32 \<Rightarrow> (ptr \<times> u32) option option" where
  "guid_scan us g [] I = Some None"
| "guid_scan us g (Unit # rest) I =
     (if Unit = 0 then guid_scan us g rest (I + 1)
      else do {
        u \<leftarrow> us Unit;
        if g = Guid (StorageUnitParams u) then Some (Some (Unit, I)) else guid_scan us g rest (I + 1)
      })"

text \<open>The part under the spin lock: it takes the unit out of the table if the caller owns it.\<close>

definition unprovision_locked :: "GUID option \<Rightarrow> u32 \<Rightarrow> u32 \<Rightarrow> kernel \<Rightarrow> (ptr \<times> kernel) option" where
  "unprovision_locked g Index ProcessId k = do {
     (p, Index) \<leftarrow> (case g of
        Some g \<Rightarrow> do {
          r \<leftarrow> guid_scan (units k) g
                 (take (unat (StorageUnitCapacity (de k))) (StorageUnits (de k))) 0;
          Some (case r of None \<Rightarrow> (0, Index) | Some r \<Rightarrow> r)
        }
      | None \<Rightarrow> Some (if Index < StorageUnitCapacity (de k) then StorageUnits (de k) ! unat Index
                      else 0, Index));
     if p = 0 then Some (0, k)
     else do {
       u \<leftarrow> units k p;
       if ProcessId = OwnerProcessId u
       then Some (p, upd_de (\<lambda>d. d\<lparr>StorageUnitCount := StorageUnitCount d - 1,
                                   StorageUnits := (StorageUnits d)[unat Index := 0]\<rparr>) k)
       else Some (p, k)
     }
   }"

text \<open>The part after the lock is released.\<close>

definition unprovision_unlocked :: "ptr \<Rightarrow> u32 \<Rightarrow> kernel \<Rightarrow> (NTSTATUS \<times> kernel) option" where
  "unprovision_unlocked p ProcessId k =
     (if p = 0 then Some (STATUS_OBJECT_NAME_NOT_FOUND, k)
      else do {
        u \<leftarrow> units k p;
        if ProcessId \<noteq> OwnerProcessId u then Some (STATUS_ACCESS_DENIED, k)
        else do {
          q \<leftarrow> UnitIoq u;
          let (q, m) = SpdIoqReset True (q, mem k);
          let k = set_unit p (u\<lparr>UnitIoq := Some q\<rparr>) (k\<lparr>mem := m\<rparr>);
          k \<leftarrow> SpdStorageUnitDereference p k;
          Some (STATUS_SUCCESS, k\<lparr>bus_changes := bus_changes k + 1\<rparr>)
        }
      })"

definition SpdStorageUnitUnprovision ::
    "GUID option \<Rightarrow> u32 \<Rightarrow> u32 \<Rightarrow> kernel \<Rightarrow> (NTSTATUS \<times> kernel) option" where
  "SpdStorageUnitUnprovision g Index ProcessId k = do {
     (p, k) \<leftarrow> unprovision_locked g Index ProcessId k;
     unprovision_unlocked p ProcessId k
   }"

section \<open>References\<close>

definition add_ref :: "ptr \<Rightarrow> kernel \<Rightarrow> (ptr \<times> kernel) option" where
  "add_ref p k =
     (if p = 0 then Some (0, k)
      else do { u \<leftarrow> units k p; Some (p, set_unit p (u\<lparr>RefCount := RefCount u + 1\<rparr>) k) })"

definition SpdStorageUnitReferenceByBtl :: "u32 \<Rightarrow> kernel \<Rightarrow> (ptr \<times> kernel) option" where
  "SpdStorageUnitReferenceByBtl Btl k =
     (let B = SPD_IOCTL_BTL_B Btl; T = SPD_IOCTL_BTL_T Btl; L = SPD_IOCTL_BTL_L Btl
      in if B \<noteq> 0 \<or> L \<noteq> 0 then Some (0, k)
         else add_ref (if T < StorageUnitCapacity (de k) then StorageUnits (de k) ! unat T else 0) k)"

definition SpdStorageUnitReference :: "ptr \<Rightarrow> kernel \<Rightarrow> (ptr \<times> kernel) option" where
  "SpdStorageUnitReference srb k =
     (case SrbGetPathTargetLun (mem k) srb of (P, T, L) \<Rightarrow>
        SpdStorageUnitReferenceByBtl (SPD_IOCTL_BTL (ucast P) (ucast T) (ucast L)) k)"

fun device_scan :: "(ptr \<rightharpoonup> SPD_STORAGE_UNIT) \<Rightarrow> ptr \<Rightarrow> ptr list \<Rightarrow> ptr option" where
  "device_scan us d [] = Some 0"
| "device_scan us d (Unit # rest) =
     (if Unit = 0 then device_scan us d rest
      else do { u \<leftarrow> us Unit; if d = DeviceObject u then Some Unit else device_scan us d rest })"

definition SpdStorageUnitReferenceByDevice :: "ptr \<Rightarrow> kernel \<Rightarrow> (ptr \<times> kernel) option" where
  "SpdStorageUnitReferenceByDevice d k = do {
     p \<leftarrow> device_scan (units k) d (take (unat (StorageUnitCapacity (de k))) (StorageUnits (de k)));
     add_ref p k
   }"

section \<open>The use bitmap\<close>

fun bitmap_loop ::
    "(ptr \<rightharpoonup> SPD_STORAGE_UNIT) \<Rightarrow> u32 \<Rightarrow> u32 option \<Rightarrow> ptr list \<Rightarrow> u32 \<Rightarrow> bytes \<Rightarrow> u32 \<Rightarrow>
     (u32 \<times> bytes) option" where
  "bitmap_loop us UnitCount pid [] I Bitmap Count = Some (Count, Bitmap)"
| "bitmap_loop us UnitCount pid (Unit # rest) I Bitmap Count =
     (if Count < UnitCount then
        (if Unit = 0 then bitmap_loop us UnitCount pid rest (I + 1) Bitmap Count
         else do {
           match \<leftarrow> (case pid of None \<Rightarrow> Some True
                     | Some p \<Rightarrow> do { u \<leftarrow> us Unit; Some (p = OwnerProcessId u) });
           (if match
            then let B = unat (drop_bit 3 I)
                 in bitmap_loop us UnitCount pid rest (I + 1)
                      (Bitmap[B := Bitmap ! B OR push_bit (unat (I AND 7)) 1]) (Count + 1)
            else bitmap_loop us UnitCount pid rest (I + 1) Bitmap Count)
         })
      else Some (Count, Bitmap))"

definition SpdStorageUnitGetUseBitmap :: "u32 option \<Rightarrow> kernel \<Rightarrow> (u32 \<times> bytes) option" where
  "SpdStorageUnitGetUseBitmap pid k =
     bitmap_loop (units k) (StorageUnitCount (de k)) pid
       (take (unat (StorageUnitCapacity (de k))) (StorageUnits (de k))) 0 (replicate 32 0) 0"

section \<open>The device extension\<close>

text \<open>\<open>registered\<close> is the result of \<open>PsSetCreateProcessNotifyRoutine\<close>.\<close>

definition SpdDeviceExtensionInit :: "ptr \<Rightarrow> ptr \<Rightarrow> NTSTATUS \<Rightarrow> kernel \<Rightarrow> NTSTATUS \<times> kernel" where
  "SpdDeviceExtensionInit p BusInformation registered k =
     (if SpdGlobalDeviceExtension k \<noteq> 0
      then (if p = SpdGlobalDeviceExtension k then STATUS_SUCCESS else STATUS_INVALID_PARAMETER, k)
      else if \<not> NT_SUCCESS registered then (registered, k)
      else (STATUS_SUCCESS,
        (upd_de (\<lambda>d. d\<lparr>AdapterDeviceObject := BusInformation,
            StorageUnitCapacity := SpdStorageUnitCapacity k\<rparr>) k)
          \<lparr>SpdGlobalDeviceExtension := p, notify_registered := True\<rparr>))"

definition SpdDeviceExtensionFini :: "ptr \<Rightarrow> kernel \<Rightarrow> kernel" where
  "SpdDeviceExtensionFini p k =
     (if p = SpdGlobalDeviceExtension k
      then k\<lparr>notify_registered := False, SpdGlobalDeviceExtension := 0\<rparr> else k)"

definition SpdDeviceExtensionAcquire :: "kernel \<Rightarrow> ptr \<times> kernel" where
  "SpdDeviceExtensionAcquire k =
     (if SpdGlobalDeviceExtension k \<noteq> 0
      then (SpdGlobalDeviceExtension k, k\<lparr>resource_shared := resource_shared k + 1\<rparr>)
      else (0, k))"

definition SpdDeviceExtensionRelease :: "kernel \<Rightarrow> kernel" where
  "SpdDeviceExtensionRelease k = k\<lparr>resource_shared := resource_shared k - 1\<rparr>"

text \<open>When a process ends its units go: the loop over the bits of the bitmap from \<open>I\<close> on.\<close>

fun notify_loop :: "nat \<Rightarrow> u32 \<Rightarrow> bytes \<Rightarrow> u32 \<Rightarrow> u32 \<Rightarrow> kernel \<Rightarrow> kernel option" where
  "notify_loop 0 I Bitmap Count ProcessId k = Some k"
| "notify_loop (Suc n) I Bitmap Count ProcessId k =
     (if 0 < Count then
        (if Bitmap ! unat (drop_bit 3 I) AND push_bit (unat (I AND 7)) 1 \<noteq> 0
         then do {
           (_, k) \<leftarrow> SpdStorageUnitUnprovision None I ProcessId k;
           notify_loop n (I + 1) Bitmap (Count - 1) ProcessId k
         }
         else notify_loop n (I + 1) Bitmap Count ProcessId k)
      else Some k)"

definition SpdDeviceExtensionNotifyRoutine :: "u64 \<Rightarrow> bool \<Rightarrow> kernel \<Rightarrow> kernel option" where
  "SpdDeviceExtensionNotifyRoutine ProcessId0 Create k =
     (if Create then Some k
      else if SpdGlobalDeviceExtension k = 0 then None
      else do {
        let ProcessId = ucast ProcessId0;
        (Count, Bitmap) \<leftarrow> SpdStorageUnitGetUseBitmap (Some ProcessId) k;
        notify_loop (32 * 8) 0 Bitmap Count ProcessId k
      })"

section \<open>Units by disk device\<close>

text \<open>\<open>addr\<close> is the result of \<open>SpdGetScsiAddress\<close> for the device object.\<close>

definition SpdStorageUnitGlobalSetDevice ::
    "ptr \<Rightarrow> NTSTATUS \<times> u8 \<times> u8 \<times> u8 \<Rightarrow> kernel \<Rightarrow> (NTSTATUS \<times> kernel) option" where
  "SpdStorageUnitGlobalSetDevice d addr k =
     (case addr of (Result, P, T, L) \<Rightarrow>
        if \<not> NT_SUCCESS Result then Some (Result, k)
        else case SpdDeviceExtensionAcquire k of (g, k) \<Rightarrow>
          if g = 0 then Some (STATUS_OBJECT_NAME_NOT_FOUND, k)
          else do {
            (p, k) \<leftarrow> SpdStorageUnitReferenceByBtl (SPD_IOCTL_BTL (ucast P) (ucast T) (ucast L)) k;
            (Result, k) \<leftarrow> (if p = 0 then Some (STATUS_OBJECT_NAME_NOT_FOUND, k)
              else do {
                u \<leftarrow> units k p;
                let Result = (if DeviceObject u = 0 then STATUS_SUCCESS else STATUS_OBJECT_NAME_COLLISION);
                let k = (if DeviceObject u = 0 then set_unit p (u\<lparr>DeviceObject := d\<rparr>) k else k);
                k \<leftarrow> SpdStorageUnitDereference p k;
                Some (Result, k)
              });
            Some (Result, SpdDeviceExtensionRelease k)
          })"

definition SpdStorageUnitGlobalReferenceByDevice :: "ptr \<Rightarrow> kernel \<Rightarrow> (ptr \<times> kernel) option" where
  "SpdStorageUnitGlobalReferenceByDevice d k =
     (case SpdDeviceExtensionAcquire k of (g, k) \<Rightarrow>
        if g = 0 then Some (0, k)
        else do {
          (p, k) \<leftarrow> SpdStorageUnitReferenceByDevice d k;
          Some (p, if p = 0 then SpdDeviceExtensionRelease k else k)
        })"

definition SpdStorageUnitGlobalDereference :: "ptr \<Rightarrow> kernel \<Rightarrow> kernel option" where
  "SpdStorageUnitGlobalDereference p k = do {
     k \<leftarrow> SpdStorageUnitDereference p k;
     Some (SpdDeviceExtensionRelease k)
   }"

end
