(* ===== verification/Scsi_Data.thy ===== *)
theory Scsi_Data
  imports StgUnit
begin

text \<open>
  The SCSI commands that the driver answers itself, from the parameters of the storage unit:
  the first half of src/sys/scsi.c. A command block is a list of octets; the fields of the
  command blocks and of the data that is returned are at the offsets of the SCSI standards.

  A routine returns the status of the request and the memory; \<open>SpdScsiInquiry\<close> divides by the
  block length of the unit, and dividing by zero faults.
\<close>

section \<open>Operation codes\<close>

abbreviation SCSIOP_TEST_UNIT_READY :: u8 where "SCSIOP_TEST_UNIT_READY \<equiv> 0x00"
abbreviation SCSIOP_READ6 :: u8 where "SCSIOP_READ6 \<equiv> 0x08"
abbreviation SCSIOP_WRITE6 :: u8 where "SCSIOP_WRITE6 \<equiv> 0x0A"
abbreviation SCSIOP_INQUIRY :: u8 where "SCSIOP_INQUIRY \<equiv> 0x12"
abbreviation SCSIOP_MODE_SENSE :: u8 where "SCSIOP_MODE_SENSE \<equiv> 0x1A"
abbreviation SCSIOP_READ_CAPACITY :: u8 where "SCSIOP_READ_CAPACITY \<equiv> 0x25"
abbreviation SCSIOP_READ :: u8 where "SCSIOP_READ \<equiv> 0x28"
abbreviation SCSIOP_WRITE :: u8 where "SCSIOP_WRITE \<equiv> 0x2A"
abbreviation SCSIOP_SYNCHRONIZE_CACHE :: u8 where "SCSIOP_SYNCHRONIZE_CACHE \<equiv> 0x35"
abbreviation SCSIOP_UNMAP :: u8 where "SCSIOP_UNMAP \<equiv> 0x42"
abbreviation SCSIOP_MODE_SENSE10 :: u8 where "SCSIOP_MODE_SENSE10 \<equiv> 0x5A"
abbreviation SCSIOP_READ16 :: u8 where "SCSIOP_READ16 \<equiv> 0x88"
abbreviation SCSIOP_WRITE16 :: u8 where "SCSIOP_WRITE16 \<equiv> 0x8A"
abbreviation SCSIOP_SYNCHRONIZE_CACHE16 :: u8 where "SCSIOP_SYNCHRONIZE_CACHE16 \<equiv> 0x91"
abbreviation SCSIOP_SERVICE_ACTION_IN16 :: u8 where "SCSIOP_SERVICE_ACTION_IN16 \<equiv> 0x9E"
abbreviation SCSIOP_REPORT_LUNS :: u8 where "SCSIOP_REPORT_LUNS \<equiv> 0xA0"
abbreviation SCSIOP_READ12 :: u8 where "SCSIOP_READ12 \<equiv> 0xA8"
abbreviation SCSIOP_WRITE12 :: u8 where "SCSIOP_WRITE12 \<equiv> 0xAA"
abbreviation SERVICE_ACTION_READ_CAPACITY16 :: u8 where "SERVICE_ACTION_READ_CAPACITY16 \<equiv> 0x10"

abbreviation VPD_SUPPORTED_PAGES :: u8 where "VPD_SUPPORTED_PAGES \<equiv> 0x00"
abbreviation VPD_SERIAL_NUMBER :: u8 where "VPD_SERIAL_NUMBER \<equiv> 0x80"
abbreviation VPD_DEVICE_IDENTIFIERS :: u8 where "VPD_DEVICE_IDENTIFIERS \<equiv> 0x83"
abbreviation VPD_BLOCK_LIMITS :: u8 where "VPD_BLOCK_LIMITS \<equiv> 0xB0"
abbreviation VPD_LOGICAL_BLOCK_PROVISIONING :: u8 where "VPD_LOGICAL_BLOCK_PROVISIONING \<equiv> 0xB2"

abbreviation MODE_PAGE_CACHING :: u8 where "MODE_PAGE_CACHING \<equiv> 0x08"
abbreviation MODE_SENSE_RETURN_ALL :: u8 where "MODE_SENSE_RETURN_ALL \<equiv> 0x3f"
abbreviation MODE_SENSE_CHANGEABLE_VALUES :: u8 where "MODE_SENSE_CHANGEABLE_VALUES \<equiv> 0x40"
abbreviation MODE_DSP_WRITE_PROTECT :: u8 where "MODE_DSP_WRITE_PROTECT \<equiv> 0x80"
abbreviation MODE_DSP_FUA_SUPPORTED :: u8 where "MODE_DSP_FUA_SUPPORTED \<equiv> 0x10"

abbreviation SRB_FLAGS_DISABLE_AUTOSENSE :: u32 where "SRB_FLAGS_DISABLE_AUTOSENSE \<equiv> 0x20"

section \<open>Errors\<close>

text \<open>
  Fixed-format sense data, 18 octets: error code and valid bit, sense key, information,
  additional length, additional sense code and qualifier.
\<close>

definition sense_data :: "nat \<Rightarrow> u8 \<Rightarrow> u8 \<Rightarrow> u8 \<Rightarrow> u64 option \<Rightarrow> bytes \<Rightarrow> bytes" where
  "sense_data Len Key Code Qualifier PInformation b =
     (let b = zero_memory Len b;
          b = put_bits 0 0x7f 0x70 b;
          b = put_bits 2 0x0f Key b;
          b = put 12 [Code] b;
          b = put 13 [Qualifier] b;
          b = put 7 [10] b
      in case PInformation of None \<Rightarrow> b
         | Some i \<Rightarrow> put_bits 0 0x80 0x80 (put 3 (be32 (ucast i)) b))"

definition SpdScsiErrorEx ::
    "ptr \<Rightarrow> u8 \<Rightarrow> u8 \<Rightarrow> u8 \<Rightarrow> u64 option \<Rightarrow> kmem \<Rightarrow> u8 \<times> kmem" where
  "SpdScsiErrorEx srb Key Code Qualifier PInformation m =
     (let len = SrbGetSenseInfoBufferLength m srb;
          buf = SrbGetSenseInfoBuffer m srb
      in if buf \<noteq> 0 \<and> 18 \<le> len \<and> SrbGetSrbFlags m srb AND SRB_FLAGS_DISABLE_AUTOSENSE = 0
         then (SRB_STATUS_ERROR OR SRB_STATUS_AUTOSENSE_VALID,
               SrbSetScsiStatus srb SCSISTAT_CHECK_CONDITION
                 (upd_buf buf (sense_data (unat len) Key Code Qualifier PInformation) m))
         else (SRB_STATUS_ERROR, m))"

definition SpdScsiError :: "ptr \<Rightarrow> u8 \<Rightarrow> u8 \<Rightarrow> kmem \<Rightarrow> u8 \<times> kmem" where
  "SpdScsiError srb K A m = SpdScsiErrorEx srb K A 0 None m"

text \<open>
  What the routines below have in common: they need a data buffer, zero it, refuse one that is
  shorter than the answer, and set the transfer length to the length of the answer.
\<close>

definition zero_data_buffer :: "ptr \<Rightarrow> kmem \<Rightarrow> kmem" where
  "zero_data_buffer srb m =
     upd_buf (SrbGetDataBuffer m srb) (zero_memory (unat (SrbGetDataTransferLength m srb))) m"

definition reply :: "ptr \<Rightarrow> u32 \<Rightarrow> (bytes \<Rightarrow> bytes) \<Rightarrow> kmem \<Rightarrow> u8 \<times> kmem" where
  "reply srb Length f m =
     (if SrbGetDataTransferLength m srb < Length then (SRB_STATUS_DATA_OVERRUN, m)
      else (SRB_STATUS_SUCCESS,
            SrbSetDataTransferLength srb Length (upd_buf (SrbGetDataBuffer m srb) f m)))"

section \<open>REPORT LUNS\<close>

definition SpdScsiReportLuns :: "bool \<Rightarrow> ptr \<Rightarrow> kmem \<Rightarrow> u8 \<times> kmem" where
  "SpdScsiReportLuns has_unit srb m =
     (if SrbGetDataBuffer m srb = 0 then (SRB_STATUS_INTERNAL_ERROR, m)
      else
        let m = zero_data_buffer srb m;
            Length = (if has_unit then 8 else 0)
        in reply srb (8 + Length) (put 0 (be32 Length)) m)"

section \<open>INQUIRY\<close>

definition EnableVitalProductData :: "bytes \<Rightarrow> u8" where "EnableVitalProductData c = c ! 1 AND 1"
definition InquiryPageCode :: "bytes \<Rightarrow> u8" where "InquiryPageCode c = c ! 2"

text \<open>The first octet of every answer: device type and qualifier (active, that is 0).\<close>

definition put_device_type :: "SPD_STORAGE_UNIT \<Rightarrow> bytes \<Rightarrow> bytes" where
  "put_device_type u b = put_bits 0 0xe0 0 (put_bits 0 0x1f (DeviceType (StorageUnitParams u)) b)"

definition inquiry_data :: "SPD_STORAGE_UNIT \<Rightarrow> bytes \<Rightarrow> bytes" where
  "inquiry_data u b =
     (let b = put_device_type u b;
          b = put_bits 1 0x80 0 b;
          b = put 2 [5] b;
          b = put_bits 3 0x0f 2 b;
          b = put_bits 7 0x02 0x02 b;
          b = put 4 [36 - 5] b;
          b = put 8 SPD_IOCTL_VENDOR_ID b;
          b = put 16 (ProductId (StorageUnitParams u)) b;
          b = put 32 (ProductRevisionLevel (StorageUnitParams u)) b
      in b)"

definition PageCount :: u32 where "PageCount = 5"
definition Identifier0Length :: u32 where "Identifier0Length = 8 + 16 + 4 + 36"
definition Identifier1Length :: u32 where "Identifier1Length = 8"

definition vpd_header :: "SPD_STORAGE_UNIT \<Rightarrow> u8 \<Rightarrow> u8 \<Rightarrow> bytes \<Rightarrow> bytes" where
  "vpd_header u Page Len b = put 3 [Len] (put 1 [Page] (put_device_type u b))"

definition vpd_supported_pages :: "SPD_STORAGE_UNIT \<Rightarrow> bytes \<Rightarrow> bytes" where
  "vpd_supported_pages u b =
     put 4 [VPD_SUPPORTED_PAGES, VPD_SERIAL_NUMBER, VPD_DEVICE_IDENTIFIERS, VPD_BLOCK_LIMITS,
            VPD_LOGICAL_BLOCK_PROVISIONING]
       (vpd_header u VPD_SUPPORTED_PAGES (ucast PageCount) b)"

definition vpd_serial_number :: "SPD_STORAGE_UNIT \<Rightarrow> bytes \<Rightarrow> bytes" where
  "vpd_serial_number u b = put 4 (SerialNumber u) (vpd_header u VPD_SERIAL_NUMBER 36 b)"

text \<open>Two descriptors: the names of the unit in ASCII, then the owner's process and the eject flag.\<close>

definition vpd_identification :: "SPD_STORAGE_UNIT \<Rightarrow> bytes \<Rightarrow> bytes" where
  "vpd_identification u b =
     (let p = StorageUnitParams u;
          b = vpd_header u VPD_DEVICE_IDENTIFIERS
                (ucast (4 + Identifier0Length + 4 + Identifier1Length)) b;
          D = 4;
          b = put_bits D 0x0f 2 b;
          b = put_bits (D + 1) 0x0f 1 b;
          b = put_bits (D + 1) 0x30 0 b;
          b = put (D + 3) [ucast Identifier0Length] b;
          b = put (D + 4) SPD_IOCTL_VENDOR_ID b;
          b = put (D + 4 + 8) (ProductId p) b;
          b = put (D + 4 + 8 + 16) (ProductRevisionLevel p) b;
          b = put (D + 4 + 8 + 16 + 4) (SerialNumber u) b;
          D = D + 4 + unat Identifier0Length;
          b = put_bits D 0x0f 1 b;
          b = put_bits (D + 1) 0x0f 0 b;
          b = put_bits (D + 1) 0x30 0 b;
          b = put (D + 3) [ucast Identifier1Length] b;
          b = put (D + 4) [0x50, 0x49, 0x44, if EjectDisabled p then 0x58 else 0x20] b;
          b = put (D + 8) (be32 (OwnerProcessId u)) b
      in b)"

definition vpd_block_limits :: "SPD_STORAGE_UNIT \<Rightarrow> bytes \<Rightarrow> bytes" where
  "vpd_block_limits u b =
     (let p = StorageUnitParams u;
          b = put_device_type u b;
          b = put 1 [VPD_BLOCK_LIMITS] b;
          b = put 3 [64 - 4] b;
          b = put 8 (be32 (MaxTransferLength p div BlockLength p)) b
      in if UnmapSupported p
         then let b = put 20 (be32 0xffffffff) b
              in put 24 (be32 (MaxTransferLength p div 16)) b
         else b)"

definition vpd_logical_block_provisioning :: "SPD_STORAGE_UNIT \<Rightarrow> bytes \<Rightarrow> bytes" where
  "vpd_logical_block_provisioning u b =
     (let b = put_device_type u b;
          b = put 1 [VPD_LOGICAL_BLOCK_PROVISIONING] b;
          b = put 3 [8 - 4] b
      in if UnmapSupported (StorageUnitParams u)
         then put_bits 6 0x07 2 (put_bits 5 0x80 0x80 b) else b)"

definition SpdScsiInquiry :: "SPD_STORAGE_UNIT \<Rightarrow> ptr \<Rightarrow> bytes \<Rightarrow> kmem \<Rightarrow> (u8 \<times> kmem) option" where
  "SpdScsiInquiry u srb c m =
     (if SrbGetDataBuffer m srb = 0 then Some (SRB_STATUS_INTERNAL_ERROR, m)
      else
        let m = zero_data_buffer srb m in
        if EnableVitalProductData c = 0 then
          (if InquiryPageCode c \<noteq> 0
           then Some (SpdScsiError srb SCSI_SENSE_ILLEGAL_REQUEST SCSI_ADSENSE_INVALID_CDB m)
           else Some (reply srb 36 (inquiry_data u) m))
        else if InquiryPageCode c = VPD_SUPPORTED_PAGES
        then Some (reply srb (4 + PageCount) (vpd_supported_pages u) m)
        else if InquiryPageCode c = VPD_SERIAL_NUMBER
        then Some (reply srb (4 + 36) (vpd_serial_number u) m)
        else if InquiryPageCode c = VPD_DEVICE_IDENTIFIERS
        then Some (reply srb (4 + 4 + Identifier0Length + 4 + Identifier1Length)
               (vpd_identification u) m)
        else if InquiryPageCode c = VPD_BLOCK_LIMITS
        then (if 64 \<le> SrbGetDataTransferLength m srb \<and> BlockLength (StorageUnitParams u) = 0
              then None
              else Some (reply srb 64 (vpd_block_limits u) m))
        else if InquiryPageCode c = VPD_LOGICAL_BLOCK_PROVISIONING
        then Some (reply srb 8 (vpd_logical_block_provisioning u) m)
        else Some (SpdScsiError srb SCSI_SENSE_ILLEGAL_REQUEST SCSI_ADSENSE_INVALID_CDB m))"

section \<open>MODE SENSE\<close>

definition ModePageCode :: "bytes \<Rightarrow> u8" where "ModePageCode c = c ! 2 AND 0x3f"
definition ModePc :: "bytes \<Rightarrow> u8" where "ModePc c = drop_bit 6 (c ! 2)"

definition device_specific_parameter :: "SPD_STORAGE_UNIT \<Rightarrow> u8" where
  "device_specific_parameter u =
     (if WriteProtected (StorageUnitParams u) then MODE_DSP_WRITE_PROTECT else 0) OR
     (if CacheSupported (StorageUnitParams u) then MODE_DSP_FUA_SUPPORTED else 0)"

definition mode_caching_page :: "nat \<Rightarrow> SPD_STORAGE_UNIT \<Rightarrow> bytes \<Rightarrow> bytes" where
  "mode_caching_page P u b =
     (let b = put_bits P 0x3f MODE_PAGE_CACHING b;
          b = put_bits P 0x80 0 b;
          b = put (P + 1) [12 - 2] b;
          b = put_bits (P + 2) 0x01 (if CacheSupported (StorageUnitParams u) then 0 else 1) b;
          b = put_bits (P + 2) 0x04 (if CacheSupported (StorageUnitParams u) then 4 else 0) b
      in b)"

definition mode_data6 :: "SPD_STORAGE_UNIT \<Rightarrow> bytes \<Rightarrow> bytes" where
  "mode_data6 u b =
     mode_caching_page 4 u
       (put 3 [0] (put 2 [device_specific_parameter u] (put 1 [0] (put 0 [16 - 1] b))))"

definition mode_data10 :: "SPD_STORAGE_UNIT \<Rightarrow> bytes \<Rightarrow> bytes" where
  "mode_data10 u b =
     mode_caching_page 8 u
       (put 6 [0, 0] (put 3 [device_specific_parameter u] (put 2 [0] (put 0 [0, 20 - 2] b))))"

definition SpdScsiModeSense :: "SPD_STORAGE_UNIT \<Rightarrow> ptr \<Rightarrow> bytes \<Rightarrow> kmem \<Rightarrow> u8 \<times> kmem" where
  "SpdScsiModeSense u srb c m =
     (if SrbGetDataBuffer m srb = 0 then (SRB_STATUS_INTERNAL_ERROR, m)
      else
        let m = zero_data_buffer srb m in
        if ModePc c = MODE_SENSE_CHANGEABLE_VALUES \<or>
           (ModePageCode c \<noteq> MODE_PAGE_CACHING \<and> ModePageCode c \<noteq> MODE_SENSE_RETURN_ALL)
        then SpdScsiError srb SCSI_SENSE_ILLEGAL_REQUEST SCSI_ADSENSE_INVALID_CDB m
        else if c ! 0 = SCSIOP_MODE_SENSE
        then reply srb (4 + 12) (mode_data6 u) m
        else reply srb (8 + 12) (mode_data10 u) m)"

section \<open>READ CAPACITY\<close>

definition read_capacity10 :: "SPD_STORAGE_UNIT \<Rightarrow> bytes \<Rightarrow> bytes" where
  "read_capacity10 u b =
     (let p = StorageUnitParams u;
          LastBlock = (if BlockCount p < 0x100000000 then ucast (BlockCount p) - 1 else 0xffffffff)
      in put 4 (be32 (BlockLength p)) (put 0 (be32 LastBlock) b))"

definition read_capacity16 :: "bool \<Rightarrow> SPD_STORAGE_UNIT \<Rightarrow> bytes \<Rightarrow> bytes" where
  "read_capacity16 full u b =
     (let p = StorageUnitParams u;
          b = put 8 (be32 (BlockLength p)) (put 0 (be64 (BlockCount p - 1)) b)
      in if full \<and> UnmapSupported p then put_bits 14 0x80 0x80 b else b)"

definition SpdScsiReadCapacity :: "SPD_STORAGE_UNIT \<Rightarrow> ptr \<Rightarrow> bytes \<Rightarrow> kmem \<Rightarrow> u8 \<times> kmem" where
  "SpdScsiReadCapacity u srb c m =
     (if SrbGetDataBuffer m srb = 0 then (SRB_STATUS_INTERNAL_ERROR, m)
      else
        let m = zero_data_buffer srb m in
        if c ! 0 = SCSIOP_READ_CAPACITY then reply srb 8 (read_capacity10 u) m
        else if SrbGetDataTransferLength m srb < 12 then (SRB_STATUS_DATA_OVERRUN, m)
        else let full = 32 \<le> SrbGetDataTransferLength m srb
             in reply srb (if full then 32 else 12) (read_capacity16 full u) m)"

end
