(* ===== verification/Scsi.thy ===== *)
theory Scsi
  imports Scsi_Data
begin

text \<open>
  The SCSI commands that the storage device executes: the second half of src/sys/scsi.c. The
  routines that run in the context of StorPort check a read, a write, a cache flush or an
  unmap and post it to the queue of its unit; \<open>SpdSrbExecuteScsiPrepare\<close> turns the posted
  request, or its next chunk, into a request for the storage device, and
  \<open>SpdSrbExecuteScsiComplete\<close> takes the response.
\<close>

section \<open>Status of StorPort\<close>

datatype STOR_STATUS =
    STOR_STATUS_SUCCESS | STOR_STATUS_UNSUCCESSFUL | STOR_STATUS_NOT_IMPLEMENTED
  | STOR_STATUS_INSUFFICIENT_RESOURCES | STOR_STATUS_BUFFER_TOO_SMALL | STOR_STATUS_ACCESS_DENIED
  | STOR_STATUS_INVALID_PARAMETER | STOR_STATUS_INVALID_DEVICE_REQUEST | STOR_STATUS_INVALID_IRQL
  | STOR_STATUS_INVALID_DEVICE_STATE | STOR_STATUS_INVALID_BUFFER_SIZE
  | STOR_STATUS_UNSUPPORTED_VERSION | STOR_STATUS_BUSY | StorOther u32

fun SpdNtStatusFromStorStatus :: "STOR_STATUS \<Rightarrow> NTSTATUS" where
  "SpdNtStatusFromStorStatus STOR_STATUS_SUCCESS = STATUS_SUCCESS"
| "SpdNtStatusFromStorStatus STOR_STATUS_UNSUCCESSFUL = STATUS_UNSUCCESSFUL"
| "SpdNtStatusFromStorStatus STOR_STATUS_NOT_IMPLEMENTED = STATUS_NOT_IMPLEMENTED"
| "SpdNtStatusFromStorStatus STOR_STATUS_INSUFFICIENT_RESOURCES = STATUS_INSUFFICIENT_RESOURCES"
| "SpdNtStatusFromStorStatus STOR_STATUS_BUFFER_TOO_SMALL = STATUS_BUFFER_TOO_SMALL"
| "SpdNtStatusFromStorStatus STOR_STATUS_ACCESS_DENIED = STATUS_ACCESS_DENIED"
| "SpdNtStatusFromStorStatus STOR_STATUS_INVALID_PARAMETER = STATUS_INVALID_PARAMETER"
| "SpdNtStatusFromStorStatus STOR_STATUS_INVALID_DEVICE_REQUEST = STATUS_INVALID_DEVICE_REQUEST"
| "SpdNtStatusFromStorStatus STOR_STATUS_INVALID_IRQL = STATUS_INVALID_PARAMETER"
| "SpdNtStatusFromStorStatus STOR_STATUS_INVALID_DEVICE_STATE = STATUS_INVALID_DEVICE_STATE"
| "SpdNtStatusFromStorStatus STOR_STATUS_INVALID_BUFFER_SIZE = STATUS_INVALID_BUFFER_SIZE"
| "SpdNtStatusFromStorStatus STOR_STATUS_UNSUPPORTED_VERSION = STATUS_INVALID_PARAMETER"
| "SpdNtStatusFromStorStatus STOR_STATUS_BUSY = STATUS_INVALID_PARAMETER"
| "SpdNtStatusFromStorStatus (StorOther _) = STATUS_INVALID_PARAMETER"

section \<open>The range of a command\<close>

definition is_read :: "u8 \<Rightarrow> bool" where
  "is_read op \<longleftrightarrow> op = SCSIOP_READ6 \<or> op = SCSIOP_READ \<or> op = SCSIOP_READ12 \<or> op = SCSIOP_READ16"

definition is_write :: "u8 \<Rightarrow> bool" where
  "is_write op \<longleftrightarrow> op = SCSIOP_WRITE6 \<or> op = SCSIOP_WRITE \<or> op = SCSIOP_WRITE12 \<or> op = SCSIOP_WRITE16"

definition is_flush :: "u8 \<Rightarrow> bool" where
  "is_flush op \<longleftrightarrow> op = SCSIOP_SYNCHRONIZE_CACHE \<or> op = SCSIOP_SYNCHRONIZE_CACHE16"

lemmas op_class_defs = is_read_def is_write_def is_flush_def

definition word_bit3 :: "u8 \<Rightarrow> u32" where "word_bit3 b = ucast (drop_bit 3 b AND 1)"

text \<open>
  Block address, block count and force-unit-access bit, at the places where the group of the
  operation code puts them; the other groups leave the results unset.
\<close>

definition SpdCdbGetRange :: "bytes \<Rightarrow> (u64 \<times> u32 \<times> u32) option" where
  "SpdCdbGetRange c =
     (let group = c ! 0 AND 0xE0 in
      if group = push_bit 5 0
      then Some (push_bit 16 (ucast (c ! 1 AND 0x1f)) OR push_bit 8 (ucast (c ! 2)) OR ucast (c ! 3),
                 if c ! 4 \<noteq> 0 then ucast (c ! 4) else 256,
                 0)
      else if group = push_bit 5 1 \<or> group = push_bit 5 2
      then Some (push_bit 24 (ucast (c ! 2)) OR push_bit 16 (ucast (c ! 3)) OR
                   push_bit 8 (ucast (c ! 4)) OR ucast (c ! 5),
                 push_bit 8 (ucast (c ! 7)) OR ucast (c ! 8),
                 word_bit3 (c ! 1))
      else if group = push_bit 5 4
      then Some (get64 (slice c 2 8), get32 (slice c 10 4), word_bit3 (c ! 1))
      else if group = push_bit 5 5
      then Some (push_bit 24 (ucast (c ! 2)) OR push_bit 16 (ucast (c ! 3)) OR
                   push_bit 8 (ucast (c ! 4)) OR ucast (c ! 5),
                 get32 (slice c 6 4),
                 word_bit3 (c ! 1))
      else None)"

section \<open>Posting\<close>

text \<open>
  \<open>sysaddr\<close> is what \<open>StorPortGetSystemAddress\<close> returns for the request. The extension is cleared
  before the request is posted.
\<close>

definition SpdScsiPostSrb ::
    "STOR_STATUS \<times> ptr \<Rightarrow> ptr \<Rightarrow> ptr \<Rightarrow> u32 \<Rightarrow> kernel \<Rightarrow> (u8 \<times> kernel) option" where
  "SpdScsiPostSrb sysaddr p srb DataLength k =
     (let e = SrbGetMiniportContext (mem k) srb;
          m = upd_ext e (\<lambda>_. zero_ext\<lparr>StorageUnit := p\<rparr>) (mem k)
      in if DataLength \<noteq> 0 \<and> fst sysaddr \<noteq> STOR_STATUS_SUCCESS
         then Some (SRB_STATUS_INTERNAL_ERROR,
                k\<lparr>mem := SrbSetSystemStatus srb (SpdNtStatusFromStorStatus (fst sysaddr)) m\<rparr>)
         else
           let m = (if DataLength \<noteq> 0
                    then upd_ext e (\<lambda>x. x\<lparr>SystemDataBuffer := snd sysaddr,
                                         SystemDataLength := DataLength\<rparr>) m
                    else m)
           in do {
             u \<leftarrow> units k p;
             q \<leftarrow> UnitIoq u;
             let (Result, q, m) = SpdIoqPostSrb srb (q, m);
             let k = set_unit p (u\<lparr>UnitIoq := Some q\<rparr>) (k\<lparr>mem := m\<rparr>);
             Some (if NT_SUCCESS Result then SRB_STATUS_PENDING else SRB_STATUS_ABORTED, k)
           })"

text \<open>An early return of a routine that leaves the units alone.\<close>

definition ret_mem :: "kernel \<Rightarrow> u8 \<times> kmem \<Rightarrow> (u8 \<times> kernel) option" where
  "ret_mem k r = Some (fst r, k\<lparr>mem := snd r\<rparr>)"

text \<open>The test of both commands: the range neither wraps nor ends behind the last block.\<close>

definition range_ok :: "SPD_STORAGE_UNIT \<Rightarrow> u64 \<Rightarrow> u32 \<Rightarrow> bool" where
  "range_ok u BlockAddress BlockCount' =
     (let EndBlockAddress = BlockAddress + ucast BlockCount'
      in \<not> (EndBlockAddress < BlockAddress \<or> BlockCount (StorageUnitParams u) < EndBlockAddress))"

definition SpdScsiPostRangeSrb ::
    "STOR_STATUS \<times> ptr \<Rightarrow> ptr \<Rightarrow> SPD_STORAGE_UNIT \<Rightarrow> ptr \<Rightarrow> bytes \<Rightarrow> kernel \<Rightarrow> (u8 \<times> kernel) option" where
  "SpdScsiPostRangeSrb sysaddr p u srb c k =
     (let par = StorageUnitParams u;
          op = c ! 0
      in if is_write op \<and> WriteProtected par
         then ret_mem k (SpdScsiError srb SCSI_SENSE_DATA_PROTECT SCSI_ADSENSE_WRITE_PROTECT (mem k))
         else if is_flush op \<and> \<not> CacheSupported par then Some (SRB_STATUS_INVALID_REQUEST, k)
         else if is_flush op \<and> WriteProtected par
         then ret_mem k (SpdScsiError srb SCSI_SENSE_DATA_PROTECT SCSI_ADSENSE_WRITE_PROTECT (mem k))
         else if \<not> is_read op \<and> \<not> is_write op \<and> \<not> is_flush op
         then Some (SRB_STATUS_INVALID_REQUEST, k)
         else do {
           (BlockAddress, BlockCount', _) \<leftarrow> SpdCdbGetRange c;
           let DataLength = (if is_flush op then 0 else BlockCount' * BlockLength par);
           if \<not> is_flush op \<and> SrbGetDataTransferLength (mem k) srb < DataLength
           then Some (SRB_STATUS_INTERNAL_ERROR, k)
           else if BlockCount' = 0 then Some (SRB_STATUS_SUCCESS, k)
           else if \<not> range_ok u BlockAddress BlockCount'
           then ret_mem k (SpdScsiError srb SCSI_SENSE_ILLEGAL_REQUEST SCSI_ADSENSE_ILLEGAL_BLOCK (mem k))
           else SpdScsiPostSrb sysaddr p srb DataLength k
         })"

section \<open>UNMAP\<close>

text \<open>Descriptor \<open>I\<close> of an unmap list: 16 octets each, behind the header of 8.\<close>

definition unmap_src :: "bytes \<Rightarrow> nat \<Rightarrow> u64 \<times> u32" where
  "unmap_src b I = (get64 (slice b (8 + 16 * I) 8), get32 (slice b (8 + 16 * I + 8) 4))"

text \<open>The loop over the \<open>n\<close> descriptors from \<open>I\<close> on; it stops at the first bad range.\<close>

fun unmap_check :: "SPD_STORAGE_UNIT \<Rightarrow> bytes \<Rightarrow> nat \<Rightarrow> nat \<Rightarrow> bool" where
  "unmap_check u b 0 I = True"
| "unmap_check u b (Suc n) I =
     (case unmap_src b I of (BlockAddress, BlockCount') \<Rightarrow>
        if \<not> range_ok u BlockAddress BlockCount' then False else unmap_check u b n (I + 1))"

definition SpdScsiPostUnmapSrb ::
    "STOR_STATUS \<times> ptr \<Rightarrow> ptr \<Rightarrow> SPD_STORAGE_UNIT \<Rightarrow> ptr \<Rightarrow> bytes \<Rightarrow> kernel \<Rightarrow> (u8 \<times> kernel) option" where
  "SpdScsiPostUnmapSrb sysaddr p u srb c k =
     (let par = StorageUnitParams u;
          m = mem k;
          b = bufs m (SrbGetDataBuffer m srb);
          DataTransferLength = SrbGetDataTransferLength m srb;
          DataLength = get16 (slice b 2 2)
      in if \<not> UnmapSupported par then Some (SRB_STATUS_INVALID_REQUEST, k)
         else if WriteProtected par
         then ret_mem k (SpdScsiError srb SCSI_SENSE_DATA_PROTECT SCSI_ADSENSE_WRITE_PROTECT m)
         else if SrbGetDataBuffer m srb = 0 \<or> unat DataTransferLength < 8 \<or>
            unat DataTransferLength < 8 + unat DataLength
         then Some (SRB_STATUS_INTERNAL_ERROR, k)
         else if MaxTransferLength par < DataLength
         then ret_mem k (SpdScsiError srb SCSI_SENSE_ILLEGAL_REQUEST
                SCSI_ADSENSE_INVALID_FIELD_PARAMETER_LIST m)
         else if c ! 1 AND 1 \<noteq> 0
         then ret_mem k (SpdScsiError srb SCSI_SENSE_ILLEGAL_REQUEST SCSI_ADSENSE_INVALID_CDB m)
         else if DataLength = 0 then Some (SRB_STATUS_SUCCESS, k)
         else if \<not> unmap_check u b (unat (DataLength div 16)) 0
         then ret_mem k (SpdScsiError srb SCSI_SENSE_ILLEGAL_REQUEST SCSI_ADSENSE_ILLEGAL_BLOCK m)
         else SpdScsiPostSrb sysaddr p srb DataLength k)"

section \<open>The dispatcher\<close>

definition SpdSrbExecuteScsi :: "STOR_STATUS \<times> ptr \<Rightarrow> ptr \<Rightarrow> kernel \<Rightarrow> (u8 \<times> kernel) option" where
  "SpdSrbExecuteScsi sysaddr srb k =
     (let c = SrbGetCdb (mem k) srb; op = c ! 0
      in do {
        (p, k) \<leftarrow> SpdStorageUnitReference srb k;
        if p = 0
        then (if op = SCSIOP_REPORT_LUNS then ret_mem k (SpdScsiReportLuns False srb (mem k))
              else Some (SRB_STATUS_NO_DEVICE, k))
        else do {
          u \<leftarrow> units k p;
          (SrbStatus', k) \<leftarrow>
            (if op = SCSIOP_REPORT_LUNS then ret_mem k (SpdScsiReportLuns True srb (mem k))
             else if op = SCSIOP_TEST_UNIT_READY then Some (SRB_STATUS_SUCCESS, k)
             else if op = SCSIOP_INQUIRY
             then do { r \<leftarrow> SpdScsiInquiry u srb c (mem k); ret_mem k r }
             else if op = SCSIOP_MODE_SENSE \<or> op = SCSIOP_MODE_SENSE10
             then ret_mem k (SpdScsiModeSense u srb c (mem k))
             else if op = SCSIOP_READ_CAPACITY
             then ret_mem k (SpdScsiReadCapacity u srb c (mem k))
             else if is_read op \<or> is_write op \<or> is_flush op
             then SpdScsiPostRangeSrb sysaddr p u srb c k
             else if op = SCSIOP_UNMAP then SpdScsiPostUnmapSrb sysaddr p u srb c k
             else if op = SCSIOP_SERVICE_ACTION_IN16 \<and> c ! 1 AND 0x1f = SERVICE_ACTION_READ_CAPACITY16
             then ret_mem k (SpdScsiReadCapacity u srb c (mem k))
             else Some (SRB_STATUS_INVALID_REQUEST, k));
          k \<leftarrow> SpdStorageUnitDereference p k;
          Some (SrbStatus', k)
        }
      })"

section \<open>Transfer to the storage device\<close>

definition chunk_length :: "SPD_STORAGE_UNIT \<Rightarrow> SPD_SRB_EXTENSION \<Rightarrow> u32" where
  "chunk_length u x =
     (let ChunkLength = SystemDataLength x - ChunkOffset x
      in if MaxTransferLength (StorageUnitParams u) < ChunkLength
         then MaxTransferLength (StorageUnitParams u) else ChunkLength)"

text \<open>
  The request for the next chunk of a read or a write. The range of the command goes into the
  request first and is then adjusted in place, as the code does.
\<close>

definition chunk_req ::
    "SPD_STORAGE_UNIT \<Rightarrow> SPD_SRB_EXTENSION \<Rightarrow> u64 \<times> u32 \<times> u32 \<Rightarrow> TRANSACT_OP \<Rightarrow> TRANSACT_OP" where
  "chunk_req u x rg w =
     (case rg of (BlockAddress, BlockCount', ForceUnitAccess) \<Rightarrow>
        let par = StorageUnitParams u;
            w = Op_set_BlockCount BlockCount' (Op_set_BlockAddress BlockAddress w);
            w = Op_set_ForceUnitAccess (if CacheSupported par then ForceUnitAccess else 1) w;
            w = Op_set_BlockAddress (Op_BlockAddress w + ucast (ChunkOffset x div BlockLength par)) w
        in Op_set_BlockCount (chunk_length u x div BlockLength par) w)"

text \<open>The loop that translates the descriptors of an unmap, \<open>n\<close> of them from \<open>I\<close> on.\<close>

fun unmap_copy :: "bytes \<Rightarrow> nat \<Rightarrow> nat \<Rightarrow> bytes \<Rightarrow> bytes" where
  "unmap_copy src 0 I dst = dst"
| "unmap_copy src (Suc n) I dst =
     (case unmap_src src I of (BlockAddress, BlockCount') \<Rightarrow>
        unmap_copy src n (I + 1)
          (put (16 * I) (le64 BlockAddress @ le32 BlockCount' @ le32 0) dst))"

text \<open>The context is the request to fill and the data buffer of the caller.\<close>

definition SpdSrbExecuteScsiPrepare ::
    "(ptr \<rightharpoonup> SPD_STORAGE_UNIT) \<Rightarrow> ptr \<Rightarrow> kmem \<Rightarrow> (SPD_IOCTL_TRANSACT_REQ \<times> bytes) option \<Rightarrow>
     (SPD_IOCTL_TRANSACT_REQ \<times> bytes) option" where
  "SpdSrbExecuteScsiPrepare us e m ctx = do {
     (Req, Data) \<leftarrow> ctx;
     let x = exts m e;
     let c = SrbGetCdb m (Srb x);
     let op = c ! 0;
     if is_read op \<or> is_write op then do {
       u \<leftarrow> us (StorageUnit x);
       rg \<leftarrow> SpdCdbGetRange c;
       if BlockLength (StorageUnitParams u) = 0 then None
       else Some (Req\<lparr>Req_Hint := e,
           Req_Kind := (if is_read op then SpdIoctlTransactReadKind else SpdIoctlTransactWriteKind),
           Req_Op := chunk_req u x rg (Req_Op Req)\<rparr>,
         if is_read op then Data
         else put 0 (slice (bufs m (SystemDataBuffer x)) (unat (ChunkOffset x)) (unat (chunk_length u x))) Data)
     }
     else if is_flush op then do {
       (BlockAddress, BlockCount', _) \<leftarrow> SpdCdbGetRange c;
       Some (Req\<lparr>Req_Hint := e, Req_Kind := SpdIoctlTransactFlushKind,
           Req_Op := Op_set_BlockCount BlockCount' (Op_set_BlockAddress BlockAddress (Req_Op Req))\<rparr>, Data)
     }
     else if op = SCSIOP_UNMAP then
       (let N = SystemDataLength x div 16
        in Some (Req\<lparr>Req_Hint := e, Req_Kind := SpdIoctlTransactUnmapKind,
             Req_Op := Op_set_UnmapCount N (Req_Op Req)\<rparr>,
           unmap_copy (bufs m (SystemDataBuffer x)) (unat N) 0 Data))
     else Some (Req, Data)
   }"

text \<open>\<open>Data\<close> is the data buffer of the response, \<open>None\<close> when the pointer is null.\<close>

definition SpdSrbExecuteScsiComplete ::
    "(ptr \<rightharpoonup> SPD_STORAGE_UNIT) \<Rightarrow> SPD_IOCTL_TRANSACT_RSP \<Rightarrow> bytes option \<Rightarrow> ptr \<Rightarrow> kmem \<Rightarrow>
     (u8 \<times> kmem) option" where
  "SpdSrbExecuteScsiComplete us Rsp Data e m =
     (let x = exts m e; srb = Srb x; st = Rsp_Status Rsp
      in if ScsiStatus st \<noteq> SCSISTAT_GOOD
         then Some (SpdScsiErrorEx srb (SenseKey st) (ASC st) (ASCQ st)
                (if InformationValid st then Some (Information st) else None) m)
         else
           let op = SrbGetCdb m srb ! 0
           in if is_read op \<or> is_write op then do {
                u \<leftarrow> us (StorageUnit x);
                let n = chunk_length u x;
                let m = (if is_read op
                   then upd_buf (SystemDataBuffer x)
                          (put (unat (ChunkOffset x))
                            (case Data of Some d \<Rightarrow> slice d 0 (unat n)
                                        | None \<Rightarrow> replicate (unat n) 0)) m
                   else m);
                let m = upd_ext e (\<lambda>x. x\<lparr>ChunkOffset := ChunkOffset x + n\<rparr>) m;
                Some (if SystemDataLength (exts m e) \<le> ChunkOffset (exts m e)
                      then SRB_STATUS_SUCCESS else SRB_STATUS_PENDING, m)
              }
              else if is_flush op \<or> op = SCSIOP_UNMAP then Some (SRB_STATUS_SUCCESS, m)
              else Some (SRB_STATUS_ABORTED, m))"

end
