(* ===== verification/Queue_Thms.thy ===== *)
theory Queue_Thms
  imports Ioq_Steps Scsi
begin

text \<open>
  The queue with the completion routine that the driver really uses: the interpretation of the
  queue's contract on \<open>SpdSrbExecuteScsiComplete\<close>, and the properties of the queue that rest on it.
\<close>

section \<open>The contract\<close>

lemma ErrorEx_frame [simp]:
  "exts (snd (SpdScsiErrorEx srb K A Q i m)) = exts m"
  "SrbExtension (srbs (snd (SpdScsiErrorEx srb K A Q i m)) s) = SrbExtension (srbs m s)"
  "notifications (snd (SpdScsiErrorEx srb K A Q i m)) = notifications m"
  by (simp_all add: SpdScsiErrorEx_def Let_def srb_set_defs mem_upd_defs)

lemma ErrorEx_verdict:
  "srbs m1 = srbs m \<Longrightarrow> fst (SpdScsiErrorEx srb K A Q i m1) = fst (SpdScsiErrorEx srb K A Q i m)"
  by (simp add: SpdScsiErrorEx_def Let_def srb_get_defs)

lemma Complete_error:
  "ScsiStatus (Rsp_Status Rsp) \<noteq> SCSISTAT_GOOD \<Longrightarrow>
   SpdSrbExecuteScsiComplete us Rsp Data e m =
     Some (SpdScsiErrorEx (Srb (exts m e)) (SenseKey (Rsp_Status Rsp)) (ASC (Rsp_Status Rsp))
       (ASCQ (Rsp_Status Rsp))
       (if InformationValid (Rsp_Status Rsp) then Some (Information (Rsp_Status Rsp)) else None) m)"
  by (simp add: SpdSrbExecuteScsiComplete_def Let_def)

lemma Complete_frame:
  assumes "SpdSrbExecuteScsiComplete us Rsp Data e m = Some (v, m')"
  shows "HashNext (exts m' x) = HashNext (exts m x)" "Srb (exts m' x) = Srb (exts m x)"
    "SrbExtension (srbs m' s) = SrbExtension (srbs m s)" "notifications m' = notifications m"
proof -
  have "HashNext (exts m' x) = HashNext (exts m x) \<and> Srb (exts m' x) = Srb (exts m x) \<and>
    SrbExtension (srbs m' s) = SrbExtension (srbs m s) \<and> notifications m' = notifications m"
  proof (cases "ScsiStatus (Rsp_Status Rsp) = SCSISTAT_GOOD")
    case False
    from assms have "m' = snd (SpdScsiErrorEx (Srb (exts m e)) (SenseKey (Rsp_Status Rsp))
        (ASC (Rsp_Status Rsp)) (ASCQ (Rsp_Status Rsp))
        (if InformationValid (Rsp_Status Rsp) then Some (Information (Rsp_Status Rsp)) else None) m)"
      by (simp add: Complete_error [OF False])
    then show ?thesis by simp
  next
    case True
    with assms show ?thesis
      by (auto simp: SpdSrbExecuteScsiComplete_def Let_def mem_upd_defs split: if_splits bind_splits)
  qed
  then show "HashNext (exts m' x) = HashNext (exts m x)" "Srb (exts m' x) = Srb (exts m x)"
    "SrbExtension (srbs m' s) = SrbExtension (srbs m s)" "notifications m' = notifications m"
    by simp_all
qed

lemma chunk_length_cong:
  "SystemDataLength x = SystemDataLength y \<Longrightarrow> ChunkOffset x = ChunkOffset y \<Longrightarrow>
   chunk_length u x = chunk_length u y"
  by (simp add: chunk_length_def)

text \<open>The verdict alone, and how it is found.\<close>

definition complete_verdict ::
    "(ptr \<rightharpoonup> SPD_STORAGE_UNIT) \<Rightarrow> u8 \<Rightarrow> SPD_SRB_EXTENSION \<Rightarrow> u8 option" where
  "complete_verdict us op x =
     (if is_read op \<or> is_write op
      then map_option (\<lambda>u. if SystemDataLength x \<le> ChunkOffset x + chunk_length u x
                            then SRB_STATUS_SUCCESS else SRB_STATUS_PENDING) (us (StorageUnit x))
      else if is_flush op \<or> op = SCSIOP_UNMAP then Some SRB_STATUS_SUCCESS
      else Some SRB_STATUS_ABORTED)"

lemma Complete_good:
  assumes "ScsiStatus (Rsp_Status Rsp) = SCSISTAT_GOOD"
  shows "map_option fst (SpdSrbExecuteScsiComplete us Rsp Data e m) =
    complete_verdict us (SrbGetCdb m (Srb (exts m e)) ! 0) (exts m e)"
  using assms
  by (cases "us (StorageUnit (exts m e))")
     (simp_all add: SpdSrbExecuteScsiComplete_def complete_verdict_def Let_def mem_upd_defs)

lemma complete_verdict_cong:
  assumes "eq_mod_hash m m1"
  shows "complete_verdict us op (exts m1 e) = complete_verdict us op (exts m e)"
proof -
  note f = eq_mod_hash_fields [OF assms]
  have "chunk_length u (exts m1 e) = chunk_length u (exts m e)" for u
    by (rule chunk_length_cong) (simp_all add: f)
  then show ?thesis by (simp add: complete_verdict_def f)
qed

lemma Complete_verdict:
  assumes mh: "eq_mod_hash m m1"
  shows "map_option fst (SpdSrbExecuteScsiComplete us Rsp Data e m1) =
    map_option fst (SpdSrbExecuteScsiComplete us Rsp Data e m)"
proof (cases "ScsiStatus (Rsp_Status Rsp) = SCSISTAT_GOOD")
  case False
  then show ?thesis
    by (simp add: Complete_error ErrorEx_verdict [OF eq_mod_hash_fields(2) [OF mh]]
          eq_mod_hash_fields(1) [OF mh])
next
  case True
  have "SrbGetCdb m1 (Srb (exts m1 e)) = SrbGetCdb m (Srb (exts m e))"
    by (simp only: SrbGetCdb_def eq_mod_hash_fields [OF mh])
  then show ?thesis
    by (simp only: Complete_good [OF True] complete_verdict_cong [OF mh])
qed

lemma scsi_callback: "srb_callback (SpdSrbExecuteScsiComplete us Rsp Data)"
  by (rule srb_callback.intro)
     (erule Complete_frame, erule Complete_frame, erule Complete_frame, erule Complete_frame,
      erule Complete_verdict)

interpretation scsi: srb_callbacks "\<lambda>(Rsp, Data). SpdSrbExecuteScsiComplete us Rsp Data" for us
  by (rule srb_callbacks.intro) (simp only: split_def scsi_callback)

section \<open>Runs of the driver's queue\<close>

abbreviation driver_complete ::
    "(ptr \<rightharpoonup> SPD_STORAGE_UNIT) \<Rightarrow> SPD_IOCTL_TRANSACT_RSP \<times> bytes option \<Rightarrow> ptr \<Rightarrow> kmem \<Rightarrow>
     (u8 \<times> kmem) option" where
  "driver_complete us \<equiv> \<lambda>(Rsp, Data). SpdSrbExecuteScsiComplete us Rsp Data"

text \<open>
  A concrete run: a queue with two buckets, one request posted and then taken by a thread. The
  extension of the request at \<open>s\<close> is at \<open>s + 0x1000\<close>.
\<close>

definition demo_srb :: "ptr \<Rightarrow> SRB" where
  "demo_srb s = \<lparr>Function = 0, SrbStatus = 0, ScsiStat = 0, PathId = 0, TargetId = 0, Lun = 0,
     SenseInfoBufferLength = 0, SrbFlags = 0, DataTransferLength = 0, DataBuffer = 0,
     SenseInfoBuffer = 0, NextSrb = 0, SrbExtension = s + 0x1000, InternalStatus = STATUS_SUCCESS,
     Cdb = replicate 16 0, PnPAction = 0, SrbPnPFlags = 0\<rparr>"

definition demo_mem :: kmem where
  "demo_mem = \<lparr>srbs = demo_srb, exts = \<lambda>_. zero_ext, bufs = \<lambda>_. [], notifications = []\<rparr>"

definition demo_queue :: SPD_IOQ where
  "demo_queue = \<lparr>Stopped = False, PendingEvent = False, PendingList = [], ProcessList = [],
     ProcessBucketCount = 2, ProcessBuckets = [0, 0]\<rparr>"

definition demo_run :: ioq_run where
  "demo_run = \<lparr>rq = demo_queue\<lparr>PendingEvent := True, PendingList := [0x1001]\<rparr>,
     rm = upd_ext 0x1001 (\<lambda>x. x\<lparr>Srb := 1\<rparr>) demo_mem, posted = [1], inflight = 0\<rparr>"

lemma demo_create: "ioq_reachable C \<lparr>rq = demo_queue, rm = demo_mem, posted = [], inflight = 0\<rparr>"
  by (rule ioq_reachable.create [of 4080])
     (simp_all add: SpdIoqCreate_def PAGE_SIZE_def demo_queue_def demo_mem_def numeral_2_eq_2)

lemma demo_post: "SpdIoqPostSrb 1 (demo_queue, demo_mem) = (STATUS_SUCCESS, rq demo_run, rm demo_run)"
  by (simp add: SpdIoqPostSrb_def demo_queue_def demo_mem_def demo_run_def demo_srb_def Let_def
        SrbGetMiniportContext_def upd_ext_def SpdQeventSetNoLock_def)

lemma demo_reachable: "ioq_reachable C demo_run"
proof -
  let ?r = "\<lparr>rq = demo_queue, rm = demo_mem, posted = [], inflight = 0\<rparr>"
  have "ioq_step C ?r (?r\<lparr>rq := rq demo_run, rm := rm demo_run,
      posted := (if STATUS_SUCCESS = STATUS_SUCCESS then posted ?r @ [1] else posted ?r)\<rparr>)"
    by (rule ioq_step.post [where s = 1])
       (simp_all add: demo_post, simp_all add: demo_mem_def demo_srb_def queued_def demo_queue_def)
  then show ?thesis
    using ioq_reachable.step [OF demo_create] by (simp add: demo_run_def)
qed

section \<open>The abstract queue\<close>

text \<open>The steps of the queue that the clients see.\<close>

inductive a_step :: "aqueue \<Rightarrow> aqueue \<Rightarrow> bool" where
  post: "\<not> a_stopped a \<Longrightarrow> e \<notin> set (a_pending a @ a_process a) \<Longrightarrow> a_step a (a_post e a)"
| start: "a_step a (a_start a)"
| done_: "e \<in> set (a_process a) \<Longrightarrow> a_step a (a_end e v a)"
| cancel: "e \<in> set (a_pending a @ a_process a) \<Longrightarrow> a_step a (a_cancel e a)"
| reset: "a_step a (a_reset stop a)"
| idle: "a_step a a"

lemma abs_simps [simp]:
  "a_stopped (abs_ioq q) = Stopped q" "a_pending (abs_ioq q) = PendingList q"
  "a_process (abs_ioq q) = ProcessList q"
  "abs_ioq (q\<lparr>PendingEvent := b\<rparr>) = abs_ioq q" "abs_ioq (SpdQeventSetNoLock q) = abs_ioq q"
  by (simp_all add: abs_ioq_def)

lemma refine_post:
  assumes "run_inv r" "SrbExtension (srbs (rm r) s) \<noteq> 0"
    "SrbExtension (srbs (rm r) s) \<notin> set (queued (rq r))" "SpdIoqPostSrb s (rq r, rm r) = (st, q', m')"
  shows "a_step (abs_ioq (rq r)) (abs_ioq q')"
proof (cases "Stopped (rq r)")
  case True
  with assms show ?thesis by (simp add: post_stopped a_step.idle)
next
  case False
  with assms post_running(3) [of "rq r" "rm r" s _ st q' m'] show ?thesis
    by (simp add: run_inv_def a_step.post queued_def)
qed

lemma refine_start:
  assumes "run_inv r" "start_locked (\<lambda>_ _ c. c) () (rq r, rm r) = (st, c', q', m')"
  shows "a_step (abs_ioq (rq r)) (abs_ioq q')"
proof (cases "Stopped (rq r)")
  case True
  with assms have "q' = SpdQeventSetNoLock (rq r)" by (simp add: start_locked_stopped)
  then show ?thesis by (simp add: a_step.idle)
next
  case False
  show ?thesis
  proof (cases "PendingList (rq r)")
    case Nil
    with assms False show ?thesis by (simp add: start_locked_empty a_step.idle)
  next
    case (Cons e rest)
    with assms False start_locked_take(4) [of "rq r" "rm r" e rest _ "()" st c' q' m']
    show ?thesis by (simp add: run_inv_def a_step.start)
  qed
qed

lemma refine_end:
  assumes "run_inv r" "SpdIoqEndProcessingSrb h (SpdSrbExecuteScsiComplete us Rsp Data) (rq r, rm r) = Some (q', m')"
  shows "a_step (abs_ioq (rq r)) (abs_ioq q')"
proof (cases "h \<in> set (ProcessList (rq r))")
  case False
  with assms srb_callback.end_unknown [OF scsi_callback, of "rq r" "rm r" h us Rsp Data] show ?thesis
    by (simp add: run_inv_def a_step.idle)
next
  case True
  have i: "ioq_inv (rq r, rm r)" using assms(1) by (simp add: run_inv_def)
  have run: "\<not> Stopped (rq r)" using ioq_invD(6) [OF i] True by auto
  obtain v m0 where C: "SpdSrbExecuteScsiComplete us Rsp Data h (rm r) = Some (v, m0)"
    using srb_callback.end_fault [OF scsi_callback i run True] assms(2)
    by (cases "SpdSrbExecuteScsiComplete us Rsp Data h (rm r)") auto
  obtain q1 m1 where "SpdIoqEndProcessingSrb h (SpdSrbExecuteScsiComplete us Rsp Data) (rq r, rm r) = Some (q1, m1)"
    "abs_ioq q1 = a_end h v (abs_ioq (rq r))"
    by (rule srb_callback.end_known [OF scsi_callback i run True C]) blast
  with assms(2) True show ?thesis by (simp add: a_step.done_)
qed

lemma refine_cancel:
  assumes "run_inv r" and s: "s \<in> (\<lambda>e. Srb (exts (rm r) e)) ` set (queued (rq r))"
    and r: "SpdIoqCancelSrb s (rq r, rm r) = Some (st, q', m')"
  shows "a_step (abs_ioq (rq r)) (abs_ioq q')"
proof -
  have i: "ioq_inv (rq r, rm r)" using assms(1) by (simp add: run_inv_def)
  obtain e where e: "e \<in> set (queued (rq r))" "s = Srb (exts (rm r) e)" using s by auto
  then have ext: "SrbExtension (srbs (rm r) s) = e"
    using ioq_invD(2) [OF i] by (simp add: links_ok_def)
  have run: "\<not> Stopped (rq r)" using ioq_invD(6) [OF i] e by (auto simp: queued_def)
  obtain q1 m1 where "SpdIoqCancelSrb s (rq r, rm r) = Some (STATUS_SUCCESS, q1, m1)"
    "abs_ioq q1 = a_cancel e (abs_ioq (rq r))"
    by (rule cancel_queued [OF i run e(1) ext]) blast
  with r e show ?thesis by (simp add: a_step.cancel queued_def)
qed

lemma refine_reset:
  assumes "run_inv r" "SpdIoqReset stop (rq r, rm r) = (q', m')"
  shows "a_step (abs_ioq (rq r)) (abs_ioq q')"
proof (cases "Stopped (rq r)")
  case True
  with assms show ?thesis by (simp add: reset_stopped a_step.idle)
next
  case False
  with assms reset_running(2) [of "rq r" "rm r" stop q' m'] show ?thesis
    by (simp add: run_inv_def a_step.reset)
qed

lemma refine_step: "ioq_step (driver_complete us) r r' \<Longrightarrow> run_inv r \<Longrightarrow> a_step (abs_ioq (rq r)) (abs_ioq (rq r'))"
proof (induction rule: ioq_step.induct)
  case (done_ Hint rsp r q' m')
  then show ?case by (cases rsp) (simp add: refine_end)
qed (auto intro: a_step.idle refine_post refine_start refine_cancel refine_reset)

section \<open>Properties\<close>

text \<open>C1: Every request that the queue accepts is accounted for exactly once: at any point of any
  interleaving of posts, waits, takes, responses, aborts and resets, the accepted requests are,
  as a multiset, those still in the queue together with those completed to StorPort. So no request
  is lost and none is completed twice, whatever hints the storage device sends.\<close>

theorem requests_completed_once:
  assumes "ioq_reachable (driver_complete us) r"
  shows "mset (posted r) = mset (map (\<lambda>e. Srb (exts (rm r) e)) (queued (rq r))) +
    mset (map fst (notifications (rm r)))"
  using scsi.run_inv_reachable [OF assms] by (simp add: run_inv_def accounted_def)

theorem requests_completed_once_witness:
  "mset (posted demo_run) = mset (map (\<lambda>e. Srb (exts (rm demo_run) e)) (queued (rq demo_run))) +
    mset (map fst (notifications (rm demo_run))) \<and> posted demo_run = [1]"
  using requests_completed_once [OF demo_reachable] by (simp add: demo_run_def)

text \<open>C13: No wake-up is lost: in every reachable state, if requests are pending or the queue is
  stopped, and no thread is between its wait and the lock, then the event of the queue is set, so
  that the next waiting thread returns.\<close>

theorem no_lost_wakeups:
  assumes "ioq_reachable (driver_complete us) r" and "inflight r = 0"
    and "PendingList (rq r) \<noteq> [] \<or> Stopped (rq r)"
  shows "PendingEvent (rq r)"
  using scsi.run_inv_reachable [OF assms(1)] assms by (auto simp: run_inv_def no_lost_wakeup_def)

theorem no_lost_wakeups_witness: "PendingEvent (rq demo_run) \<and> PendingList (rq demo_run) \<noteq> []"
  using no_lost_wakeups [OF demo_reachable] by (simp add: demo_run_def)



text \<open>A response is always handled without a fault: whatever the hint is, even one that is the
  address of nothing, the search of the bucket ends and the response is taken or ignored, provided
  the units of the requests in process are still allocated.\<close>

lemma response_never_faults:
  assumes "ioq_reachable (driver_complete us) r"
    and "\<And>e. e \<in> set (ProcessList (rq r)) \<Longrightarrow> us (StorageUnit (exts (rm r) e)) \<noteq> None"
  shows "SpdIoqEndProcessingSrb Hint (SpdSrbExecuteScsiComplete us Rsp Data) (rq r, rm r) \<noteq> None"
proof (cases "Hint \<in> set (ProcessList (rq r))")
  case True
  have "SpdSrbExecuteScsiComplete us Rsp Data Hint (rm r) \<noteq> None"
    using assms(2) [OF True]
    by (auto simp: SpdSrbExecuteScsiComplete_def Let_def)
  then show ?thesis
    using scsi.end_total [OF scsi.run_inv_reachable [OF assms(1)], where rsp = "(Rsp, Data)"] by auto
next
  case False
  then show ?thesis
    using srb_callback.end_unknown [OF scsi_callback, of "rq r" "rm r" Hint]
      scsi.run_inv_reachable [OF assms(1)] by (simp add: run_inv_def)
qed

lemma response_never_faults_witness:
  "SpdIoqEndProcessingSrb 12345 (SpdSrbExecuteScsiComplete Map.empty zero_rsp None) (rq demo_run, rm demo_run)
     \<noteq> None"
  by (rule response_never_faults [OF demo_reachable]) (simp add: demo_run_def demo_queue_def)

text \<open>A request with more chunks keeps its place: when its chunk is completed and the verdict is
  pending, the next thread that takes a request gets the same one, prepared from the memory with
  the advanced offset, before any request that waits behind it.\<close>

lemma next_chunk_first:
  assumes "ioq_inv (q, m)" and "\<not> Stopped q" and "e \<in> set (ProcessList q)"
    and "SpdSrbExecuteScsiComplete us Rsp Data e m = Some (SRB_STATUS_PENDING, m0)"
  shows "\<exists>q1 m1 q2 m2. SpdIoqEndProcessingSrb e (SpdSrbExecuteScsiComplete us Rsp Data) (q, m) = Some (q1, m1) \<and>
    SpdIoqStartProcessingSrb STATUS_SUCCESS Prepare c (q1, m1) = (STATUS_SUCCESS, Prepare e m1 c, q2, m2) \<and>
    ProcessList q2 = remove1 e (ProcessList q) @ [e] \<and> PendingList q2 = PendingList q \<and> ioq_inv (q2, m2)"
proof -
  obtain q1 m1 where e: "SpdIoqEndProcessingSrb e (SpdSrbExecuteScsiComplete us Rsp Data) (q, m) = Some (q1, m1)"
    and i1: "ioq_inv (q1, m1)" and a1: "abs_ioq q1 = a_end e SRB_STATUS_PENDING (abs_ioq q)"
    by (rule srb_callback.end_known [OF scsi_callback assms(1-4)]) blast
  have l1: "PendingList q1 = e # PendingList q" "ProcessList q1 = remove1 e (ProcessList q)" "\<not> Stopped q1"
    using a1 assms(2,3) by (simp_all add: abs_ioq_def a_end_def)
  let ?q1 = "q1\<lparr>PendingEvent := False\<rparr>"
  have i1': "ioq_inv (?q1, m1)" by (rule ioq_inv_frame [OF i1]) simp_all
  obtain st c' q2 m2 where s: "start_locked Prepare c (?q1, m1) = (st, c', q2, m2)"
    by (metis prod_cases4)
  have "PendingList ?q1 = e # PendingList q" "\<not> Stopped ?q1" using l1 by simp_all
  note t = start_locked_take [OF i1' this(2) this(1) s]
  have "ProcessList q2 = remove1 e (ProcessList q) @ [e]" "PendingList q2 = PendingList q"
    using t(4) l1 by (simp_all add: abs_ioq_def a_start_def)
  with e s t show ?thesis by (simp add: SpdIoqStartProcessingSrb_def)
qed

text \<open>A request of two chunks in process: READ(10) of two blocks, on a unit that takes one at a time.\<close>

definition chunk_unit :: SPD_STORAGE_UNIT where
  "chunk_unit = \<lparr>RefCount = 1, StorageUnitParams = \<lparr>Guid = NullGuid, BlockCount = 8, BlockLength = 512,
       ProductId = [], ProductRevisionLevel = [], DeviceType = 0, WriteProtected = False,
       CacheSupported = False, UnmapSupported = False, EjectDisabled = False, MaxTransferLength = 512\<rparr>,
     SerialNumber = [], OwnerProcessId = 0, UnitIoq = None, DeviceObject = 0, TransactProcessId = 0\<rparr>"

definition chunk_mem :: kmem where
  "chunk_mem = demo_mem\<lparr>
     srbs := \<lambda>s. (demo_srb s)\<lparr>Cdb := [SCSIOP_READ, 0, 0, 0, 0, 0, 0, 0, 2, 0, 0, 0, 0, 0, 0, 0]\<rparr>,
     exts := \<lambda>_. zero_ext\<lparr>StorageUnit := 7, Srb := 1, SystemDataLength := 1024\<rparr>\<rparr>"

definition chunk_queue :: SPD_IOQ where
  "chunk_queue = demo_queue\<lparr>PendingList := [0x1001]\<rparr>"

lemma chunk_queue_inv: "ioq_inv (chunk_queue, chunk_mem)"
proof -
  have i: "i < 2 \<Longrightarrow> [0, 0] ! i = (0 :: ptr)" for i by (auto simp: less_2_cases_iff)
  have "buckets_ok chunk_queue chunk_mem"
    by (simp add: buckets_ok_def chunk_queue_def demo_queue_def bucket_members_def i)
  then show ?thesis
    by (simp add: ioq_inv_def links_ok_def queued_def chunk_queue_def demo_queue_def chunk_mem_def demo_srb_def)
qed

theorem next_chunk_first_witness:
  "\<exists>q m q1 m1 q2 m2. ProcessList q = [0x1001] \<and>
    SpdIoqEndProcessingSrb 0x1001 (SpdSrbExecuteScsiComplete [7 \<mapsto> chunk_unit] zero_rsp None) (q, m) = Some (q1, m1) \<and>
    SpdIoqStartProcessingSrb STATUS_SUCCESS (\<lambda>_ _ c. c) () (q1, m1) = (STATUS_SUCCESS, (), q2, m2) \<and>
    ProcessList q2 = [0x1001]"
proof -
  have run: "\<not> Stopped chunk_queue" and pend: "PendingList chunk_queue = 0x1001 # []"
    by (simp_all add: chunk_queue_def demo_queue_def)
  obtain st c q m where s: "start_locked (\<lambda>_ _ c. c) () (chunk_queue, chunk_mem) = (st, c, q, m)"
    by (metis prod_cases4)
  note t = start_locked_take [OF chunk_queue_inv run pend s]
  have q: "ProcessList q = [0x1001]" "\<not> Stopped q"
    using t(4) by (simp_all add: abs_ioq_def a_start_def chunk_queue_def demo_queue_def)
  have "map_option fst (SpdSrbExecuteScsiComplete [7 \<mapsto> chunk_unit] zero_rsp None 0x1001 m) =
      map_option fst (SpdSrbExecuteScsiComplete [7 \<mapsto> chunk_unit] zero_rsp None 0x1001 chunk_mem)"
    by (rule Complete_verdict [OF t(5)])
  also have "\<dots> = Some SRB_STATUS_PENDING"
    by (simp add: Complete_good zero_rsp_def zero_status_def complete_verdict_def chunk_mem_def SrbGetCdb_def
        op_class_defs chunk_length_def chunk_unit_def zero_ext_def Let_def)
  finally obtain m0 where C: "SpdSrbExecuteScsiComplete [7 \<mapsto> chunk_unit] zero_rsp None 0x1001 m =
      Some (SRB_STATUS_PENDING, m0)" by auto
  have "0x1001 \<in> set (ProcessList q)" by (simp add: q)
  from next_chunk_first [OF t(3) q(2) this C, of "\<lambda>_ _ c. c" "()"] q(1) show ?thesis by fastforce
qed

end
