(* ===== verification/Unit_Thms.thy ===== *)
theory Unit_Thms
  imports StgUnit
begin

text \<open>
  The table of storage units: its invariant with the references that are held to the units, the
  scans of the table, and what provision, unprovision, reference and dereference do to it.
\<close>

section \<open>Invariant\<close>

definition live :: "kernel \<Rightarrow> ptr list" where
  "live k = filter (\<lambda>p. p \<noteq> 0) (StorageUnits (de k))"

definition unit_guid :: "kernel \<Rightarrow> ptr \<Rightarrow> GUID" where
  "unit_guid k p = Guid (StorageUnitParams (the (units k p)))"

text \<open>
  \<open>refs p\<close> is the number of references to the unit at \<open>p\<close> that callers hold. A provisioned unit
  has one more, of the table.
\<close>

definition table_ok :: "kernel \<Rightarrow> bool" where
  "table_ok k \<longleftrightarrow> unat (StorageUnitCapacity (de k)) \<le> 64 \<and>
     length (StorageUnits (de k)) = unat (StorageUnitCapacity (de k)) \<and>
     distinct (live k) \<and> unat (StorageUnitCount (de k)) = length (live k) \<and>
     distinct (map (unit_guid k) (live k)) \<and>
     (\<forall>p \<in> set (live k). units k p \<noteq> None)"

definition counted :: "bool \<Rightarrow> nat \<Rightarrow> SPD_STORAGE_UNIT \<Rightarrow> bool" where
  "counted listed n u \<longleftrightarrow> UnitIoq u \<noteq> None \<and> (listed \<or> 0 < n) \<and>
     unat (RefCount u) = (if listed then 1 else 0) + n"

definition counts_ok :: "(ptr \<Rightarrow> nat) \<Rightarrow> kernel \<Rightarrow> bool" where
  "counts_ok refs k \<longleftrightarrow> units k 0 = None \<and> (\<forall>p. units k p = None \<longrightarrow> refs p = 0) \<and>
     (\<forall>p u. units k p = Some u \<longrightarrow> counted (p \<in> set (live k)) (refs p) u)"

definition units_inv :: "(ptr \<Rightarrow> nat) \<Rightarrow> kernel \<Rightarrow> bool" where
  "units_inv refs k \<longleftrightarrow> table_ok k \<and> counts_ok refs k"

lemma counts_okD:
  "counts_ok refs k \<Longrightarrow> units k p = Some u \<Longrightarrow> counted (p \<in> set (live k)) (refs p) u"
  unfolding counts_ok_def by blast

text \<open>The invariant looks at the table and at the units, and at no other part of the kernel.\<close>

lemma units_inv_frame:
  assumes "units k' = units k" and "StorageUnits (de k') = StorageUnits (de k)"
    and "StorageUnitCount (de k') = StorageUnitCount (de k)"
    and "StorageUnitCapacity (de k') = StorageUnitCapacity (de k)"
  shows "units_inv r k' = units_inv r k" and "live k' = live k"
proof -
  have "unit_guid k' = unit_guid k" by (simp add: fun_eq_iff unit_guid_def assms)
  moreover show l: "live k' = live k" by (simp add: live_def assms)
  ultimately show "units_inv r k' = units_inv r k"
    by (simp add: units_inv_def table_ok_def counts_ok_def assms)
qed

lemma take_capacity: "table_ok k \<Longrightarrow> take (unat (StorageUnitCapacity (de k))) (StorageUnits (de k)) = StorageUnits (de k)"
  by (simp add: table_ok_def)

lemma in_live: "p \<in> set (live k) \<longleftrightarrow> p \<in> set (StorageUnits (de k)) \<and> p \<noteq> 0"
  by (simp add: live_def)

section \<open>Addresses\<close>

lemma BTL_FROM_INDEX_ne [simp]: "SPD_BTL_FROM_INDEX i \<noteq> - 1"
proof
  assume "SPD_BTL_FROM_INDEX i = - 1"
  then have "bit (SPD_BTL_FROM_INDEX i) 0 = bit (- 1 :: u32) 0" by simp
  then show False by (simp add: SPD_BTL_FROM_INDEX_def SPD_IOCTL_BTL_def bit_simps)
qed

lemma index_small: "n < 256 \<Longrightarrow> unat (SPD_INDEX_FROM_BTL (SPD_BTL_FROM_INDEX (word_of_nat n))) = n"
proof -
  assume n: "n < 256"
  then have u: "unat (word_of_nat n :: u32) = n" by (simp add: unat_of_nat)
  then have "(word_of_nat n :: u32) \<le> 0xff" using n by (simp add: word_le_nat_alt)
  with u show ?thesis by simp
qed

section \<open>Scans\<close>

lemma provision_scan_spec:
  assumes "\<And>p. p \<in> set T \<Longrightarrow> p \<noteq> 0 \<Longrightarrow> us p \<noteq> None"
  obtains d b where "provision_scan us g T I B = Some (d, b)"
    and "d \<noteq> 0 \<longleftrightarrow> (\<exists>p \<in> set T. p \<noteq> 0 \<and> Guid (StorageUnitParams (the (us p))) = g)"
    and "d = 0 \<Longrightarrow> b = (if B \<noteq> - 1 then B
      else if 0 \<in> set T then SPD_BTL_FROM_INDEX (I + word_of_nat (length (takeWhile (\<lambda>p. p \<noteq> 0) T)))
      else - 1)"
  using assms
proof (induction T arbitrary: I B thesis)
  case Nil
  show ?case by (rule Nil.prems(1)) auto
next
  case (Cons p T)
  show ?case
  proof (cases "p = 0")
    case True
    define B' where "B' = (if B = - 1 then SPD_BTL_FROM_INDEX I else B)"
    have B': "B' \<noteq> - 1" by (simp add: B'_def)
    obtain d b where s: "provision_scan us g T (I + 1) B' = Some (d, b)"
      and d: "d \<noteq> 0 \<longleftrightarrow> (\<exists>p \<in> set T. p \<noteq> 0 \<and> Guid (StorageUnitParams (the (us p))) = g)"
      and b: "d = 0 \<Longrightarrow> b = B'"
      by (rule Cons.IH [of "I + 1" B']) (use B' Cons.prems(2) in auto)
    show ?thesis
      by (rule Cons.prems(1) [of d b]) (use True s d b in \<open>auto simp: B'_def\<close>)
  next
    case False
    with Cons.prems(2) [of p] obtain u where u: "us p = Some u" by auto
    show ?thesis
    proof (cases "g = Guid (StorageUnitParams u)")
      case True
      show ?thesis
        by (rule Cons.prems(1) [of p B]) (use True False u in auto)
    next
      case g: False
      obtain d b where s: "provision_scan us g T (I + 1) B = Some (d, b)"
        and d: "d \<noteq> 0 \<longleftrightarrow> (\<exists>p \<in> set T. p \<noteq> 0 \<and> Guid (StorageUnitParams (the (us p))) = g)"
        and b: "d = 0 \<Longrightarrow> b = (if B \<noteq> - 1 then B
          else if 0 \<in> set T then SPD_BTL_FROM_INDEX (I + 1 + word_of_nat (length (takeWhile (\<lambda>p. p \<noteq> 0) T)))
          else - 1)"
        by (rule Cons.IH [of "I + 1" B]) (use Cons.prems(2) in auto)
      show ?thesis
        by (rule Cons.prems(1) [of d b]) (use s d b False g u in \<open>auto simp: algebra_simps\<close>)
    qed
  qed
qed

lemma first_free:
  assumes "0 \<in> set T"
  defines "n \<equiv> length (takeWhile (\<lambda>p. p \<noteq> 0) T)"
  shows "n < length T" "T ! n = 0"
proof -
  have "takeWhile (\<lambda>p. p \<noteq> 0) T \<noteq> T" using assms(1) by (metis (full_types) set_takeWhileD)
  then show "n < length T"
    unfolding n_def by (metis length_takeWhile_le le_neq_implies_less takeWhile_eq_take take_all_iff order_refl)
  then show "T ! n = 0" unfolding n_def using nth_length_takeWhile by blast
qed

lemma filter_update_zero:
  assumes "n < length T" and "T ! n = 0" and "p \<noteq> (0::ptr)"
  shows "filter (\<lambda>p. p \<noteq> 0) (T[n := p]) =
    filter (\<lambda>p. p \<noteq> 0) (take n T) @ p # filter (\<lambda>p. p \<noteq> 0) (drop (Suc n) T)"
    and "filter (\<lambda>p. p \<noteq> 0) T = filter (\<lambda>p. p \<noteq> 0) (take n T) @ filter (\<lambda>p. p \<noteq> 0) (drop (Suc n) T)"
proof -
  show "filter (\<lambda>p. p \<noteq> 0) (T[n := p]) =
    filter (\<lambda>p. p \<noteq> 0) (take n T) @ p # filter (\<lambda>p. p \<noteq> 0) (drop (Suc n) T)"
    using assms by (simp add: upd_conv_take_nth_drop)
  have "T = take n T @ 0 # drop (Suc n) T"
    using id_take_nth_drop [OF assms(1)] assms(2) by simp
  then have "filter (\<lambda>p. p \<noteq> 0) T = filter (\<lambda>p. p \<noteq> 0) (take n T @ 0 # drop (Suc n) T)" by simp
  then show "filter (\<lambda>p. p \<noteq> 0) T = filter (\<lambda>p. p \<noteq> 0) (take n T) @ filter (\<lambda>p. p \<noteq> 0) (drop (Suc n) T)"
    by simp
qed

section \<open>Provision\<close>

definition fresh_ioq :: "SPD_IOQ \<Rightarrow> bool" where
  "fresh_ioq q \<longleftrightarrow> PendingList q = [] \<and> ProcessList q = []"

lemma delete_fresh: "fresh_ioq q \<Longrightarrow> SpdIoqDelete q m = m"
  by (simp add: SpdIoqDelete_def SpdIoqReset_def fresh_ioq_def Let_def)

lemma create_fresh: "SpdIoqCreate n b = (st, Some q) \<Longrightarrow> fresh_ioq q \<and> st = STATUS_SUCCESS"
  by (auto simp: SpdIoqCreate_def fresh_ioq_def Let_def split: if_splits)

lemma init_unit_fields [simp]:
  "RefCount (init_unit P pid) = 1" "OwnerProcessId (init_unit P pid) = pid"
  "TransactProcessId (init_unit P pid) = pid" "SerialNumber (init_unit P pid) = serial_number (Guid P)"
  "Guid (StorageUnitParams (init_unit P pid)) = Guid P"
  "BlockCount (StorageUnitParams (init_unit P pid)) = BlockCount P"
  "BlockLength (StorageUnitParams (init_unit P pid)) = BlockLength P"
  "MaxTransferLength (StorageUnitParams (init_unit P pid)) = MaxTransferLength P"
  by (simp_all add: init_unit_def)

text \<open>The unit that a successful provision makes, and the kernel's state after it.\<close>

definition provisioned :: "ptr \<Rightarrow> SPD_IOQ \<Rightarrow> SPD_IOCTL_STORAGE_UNIT_PARAMS \<Rightarrow> u32 \<Rightarrow> nat \<Rightarrow> kernel \<Rightarrow> kernel" where
  "provisioned p q P pid n k =
     (upd_de (\<lambda>d. d\<lparr>StorageUnits := (StorageUnits d)[n := p], StorageUnitCount := StorageUnitCount d + 1\<rparr>)
        (set_unit p ((init_unit P pid)\<lparr>UnitIoq := Some q\<rparr>) k))\<lparr>bus_changes := bus_changes k + 1\<rparr>"

lemma provision_cases:
  assumes inv: "units_inv refs k" and p: "p \<noteq> 0" "units k p = None" and q: "fresh_ioq q"
  shows "SpdStorageUnitProvision p (STATUS_SUCCESS, Some q) P pid k =
    (if Guid P \<in> unit_guid k ` set (live k) then Some (STATUS_OBJECT_NAME_COLLISION, - 1, k)
     else if 0 \<notin> set (StorageUnits (de k)) then Some (STATUS_CANNOT_MAKE, - 1, k)
     else let n = length (takeWhile (\<lambda>p. p \<noteq> 0) (StorageUnits (de k)))
          in Some (STATUS_SUCCESS, SPD_BTL_FROM_INDEX (word_of_nat n), provisioned p q P pid n k))"
proof -
  define T where "T = StorageUnits (de k)"
  define us where "us = (units k)(p \<mapsto> (init_unit P pid)\<lparr>UnitIoq := Some q\<rparr>)"
  have tab: "table_ok k" using inv by (simp add: units_inv_def)
  have T: "x \<in> set T \<Longrightarrow> x \<noteq> 0 \<Longrightarrow> units k x \<noteq> None" for x using tab by (auto simp: table_ok_def T_def in_live)
  have pT: "p \<notin> set T" using T [of p] p by blast
  have us_same: "x \<in> set T \<Longrightarrow> us x = units k x" for x using pT by (auto simp: us_def)
  have undo: "(units k)(p := None) = units k" using p by auto
  have fail: "provision_exit p st (set_unit p ((init_unit P pid)\<lparr>UnitIoq := Some q\<rparr>) k) = Some (st, - 1, k)" for st
    using p(1) q undo by (simp add: provision_exit_def kernel_upd_defs delete_fresh)
  obtain d b where scan: "provision_scan us (Guid P) T 0 (- 1) = Some (d, b)"
    and d: "d \<noteq> 0 \<longleftrightarrow> (\<exists>x \<in> set T. x \<noteq> 0 \<and> Guid (StorageUnitParams (the (us x))) = Guid P)"
    and b: "d = 0 \<Longrightarrow> b = (if (- 1 :: u32) \<noteq> - 1 then - 1
      else if 0 \<in> set T then SPD_BTL_FROM_INDEX (0 + word_of_nat (length (takeWhile (\<lambda>p. p \<noteq> 0) T)))
      else - 1)"
    using T us_same by (rule_tac provision_scan_spec [of T us "Guid P" 0 "- 1"]) auto
  have dup: "d \<noteq> 0 \<longleftrightarrow> Guid P \<in> unit_guid k ` set (live k)"
    unfolding d unit_guid_def image_iff Bex_def in_live using us_same by (auto simp: T_def)
  have cap: "take (unat (StorageUnitCapacity (de k))) (StorageUnits (de k)) = T"
    using take_capacity [OF tab] by (simp add: T_def)
  have unfold: "SpdStorageUnitProvision p (STATUS_SUCCESS, Some q) P pid k =
    (let k1 = set_unit p ((init_unit P pid)\<lparr>UnitIoq := Some q\<rparr>) k;
         k2 = (if d = 0 \<and> b \<noteq> - 1
             then upd_de (\<lambda>x. x\<lparr>StorageUnits := (StorageUnits x)[unat (SPD_INDEX_FROM_BTL b) := p],
                                StorageUnitCount := StorageUnitCount x + 1\<rparr>) k1
             else k1)
     in if d \<noteq> 0 then provision_exit p STATUS_OBJECT_NAME_COLLISION k2
        else if b = - 1 then provision_exit p STATUS_CANNOT_MAKE k2
        else Some (STATUS_SUCCESS, b, k2\<lparr>bus_changes := bus_changes k2 + 1\<rparr>))"
    using p(1) scan cap by (simp add: SpdStorageUnitProvision_def Let_def set_unit_def us_def)
  show ?thesis
  proof (cases "d = 0")
    case False
    then show ?thesis using dup by (simp add: unfold fail)
  next
    case True
    show ?thesis
    proof (cases "0 \<in> set T")
      case False
      then show ?thesis using dup True b by (simp add: unfold fail T_def)
    next
      case free: True
      define n where "n = length (takeWhile (\<lambda>p. p \<noteq> 0) T)"
      have n: "n < length T" using first_free(1) [OF free] by (simp add: n_def)
      moreover have "length T \<le> 64" using tab by (simp add: table_ok_def T_def)
      ultimately have "unat (SPD_INDEX_FROM_BTL (SPD_BTL_FROM_INDEX (word_of_nat n))) = n"
        by (intro index_small) simp
      then show ?thesis
        using dup True b free
        by (simp add: unfold T_def [symmetric] n_def [symmetric] provisioned_def Let_def kernel_upd_defs)
    qed
  qed
qed

lemma provisioned_inv:
  assumes inv: "units_inv refs k" and p: "p \<noteq> 0" "units k p = None"
    and g: "Guid P \<notin> unit_guid k ` set (live k)" and n: "n < length (StorageUnits (de k))"
    "StorageUnits (de k) ! n = 0"
  shows "units_inv refs (provisioned p q P pid n k)" (is "units_inv refs ?k")
proof -
  define A where "A = filter (\<lambda>p. p \<noteq> 0) (take n (StorageUnits (de k)))"
  define B where "B = filter (\<lambda>p. p \<noteq> 0) (drop (Suc n) (StorageUnits (de k)))"
  have T: "StorageUnits (de ?k) = (StorageUnits (de k))[n := p]"
    by (simp add: provisioned_def kernel_upd_defs)
  have l: "live k = A @ B" and l': "live ?k = A @ p # B"
    unfolding live_def T A_def B_def using filter_update_zero [OF n p(1)] by simp_all
  have us: "units ?k = (units k)(p \<mapsto> (init_unit P pid)\<lparr>UnitIoq := Some q\<rparr>)"
    by (simp add: provisioned_def kernel_upd_defs)
  have tab: "table_ok k" and cnt: "counts_ok refs k" using inv by (simp_all add: units_inv_def)
  have pl: "p \<notin> set A" "p \<notin> set B"
    using tab p(2) unfolding table_ok_def l by fastforce+
  have gd: "unit_guid ?k x = unit_guid k x" if "x \<noteq> p" for x
    using that by (simp add: unit_guid_def us)
  have gp: "unit_guid ?k p = Guid P" by (simp add: unit_guid_def us)
  have mapAB: "map (unit_guid ?k) A = map (unit_guid k) A" "map (unit_guid ?k) B = map (unit_guid k) B"
    using pl by (auto intro!: gd)
  have len: "length (A @ B) < 64" 
  proof -
    have "length (live ?k) \<le> length (StorageUnits (de k))"
      unfolding live_def T by (metis length_filter_le length_list_update)
    then show ?thesis using tab by (simp add: l' table_ok_def)
  qed
  have c: "unat (StorageUnitCount (de k)) = length (A @ B)" using tab by (simp add: table_ok_def l)
  have c': "unat (StorageUnitCount (de ?k)) = Suc (length (A @ B))"
  proof -
    have "unat (StorageUnitCount (de k) + 1) = Suc (unat (StorageUnitCount (de k)))"
      using c len by (simp add: unat_add_no_wrap)
    then show ?thesis using c by (simp add: provisioned_def kernel_upd_defs)
  qed
  have "table_ok ?k"
    unfolding table_ok_def
  proof (intro conjI)
    show "distinct (live ?k)" using tab pl by (auto simp: l' l table_ok_def)
    show "distinct (map (unit_guid ?k) (live ?k))"
      using tab g by (auto simp: l' l table_ok_def mapAB gp)
    show "\<forall>p \<in> set (live ?k). units ?k p \<noteq> None"
      using tab by (auto simp: l' l table_ok_def us)
    show "unat (StorageUnitCount (de ?k)) = length (live ?k)" by (simp add: c' l')
  qed (use tab in \<open>simp_all add: table_ok_def T provisioned_def kernel_upd_defs\<close>)
  moreover have "counts_ok refs ?k"
  proof -
    have "counted (x \<in> set (live ?k)) (refs x) u" if "units ?k x = Some u" for x u
    proof (cases "x = p")
      case True
      have "refs p = 0" using cnt p by (simp add: counts_ok_def)
      moreover have "u = (init_unit P pid)\<lparr>UnitIoq := Some q\<rparr>" using that True by (simp add: us)
      moreover have "x \<in> set (live ?k)" using True by (simp add: l')
      ultimately show ?thesis using True by (simp add: counted_def)
    next
      case False
      then have iff: "x \<in> set (live ?k) \<longleftrightarrow> x \<in> set (live k)" by (auto simp: l l')
      from that False have "units k x = Some u" by (simp add: us)
      show ?thesis unfolding iff by (rule counts_okD [OF cnt \<open>units k x = Some u\<close>])
    qed
    moreover have "units ?k 0 = None" and "units ?k x = None \<Longrightarrow> refs x = 0" for x
      using cnt p by (auto simp: counts_ok_def us split: if_splits)
    ultimately show ?thesis unfolding counts_ok_def by blast
  qed
  ultimately show ?thesis by (simp add: units_inv_def)
qed

section \<open>Dereference\<close>

text \<open>Changing a unit in place, but for its reference count and its identity, keeps the invariant.\<close>

lemma set_unit_inv:
  assumes inv: "units_inv refs k" and u: "units k p = Some u"
    and u': "RefCount u' = RefCount u" "Guid (StorageUnitParams u') = Guid (StorageUnitParams u)"
      "UnitIoq u' \<noteq> None"
  shows "units_inv refs (set_unit p u' (k\<lparr>mem := m\<rparr>))" (is "units_inv refs ?k")
proof -
  have l: "live ?k = live k" by (simp add: live_def kernel_upd_defs)
  have us: "units ?k = (units k)(p \<mapsto> u')" by (simp add: kernel_upd_defs)
  have "unit_guid ?k = unit_guid k" using u u' by (auto simp: unit_guid_def us fun_eq_iff)
  moreover have "units ?k x = None \<longleftrightarrow> units k x = None" for x using u by (simp add: us)
  moreover have "counts_ok refs ?k"
  proof -
    have cnt: "counts_ok refs k" using inv by (simp add: units_inv_def)
    have "counted (x \<in> set (live ?k)) (refs x) v" if v: "units ?k x = Some v" for x v
    proof (cases "x = p")
      case True
      with v have "v = u'" by (simp add: us)
      with u' True counts_okD [OF cnt u] show ?thesis unfolding l counted_def by simp
    next
      case False
      with v have "units k x = Some v" by (simp add: us)
      then show ?thesis unfolding l by (rule counts_okD [OF cnt])
    qed
    moreover have "units ?k 0 = None" and "units ?k x = None \<Longrightarrow> refs x = 0" for x
      using cnt u by (auto simp: counts_ok_def us split: if_splits)
    ultimately show ?thesis unfolding counts_ok_def by blast
  qed
  ultimately show ?thesis
    using inv by (simp add: units_inv_def table_ok_def l) (simp add: kernel_upd_defs)
qed

lemma dereference:
  assumes inv: "units_inv refs k" and r: "0 < refs p"
  obtains u k' where "units k p = Some u" and "SpdStorageUnitDereference p k = Some k'"
    and "units_inv (refs(p := refs p - 1)) k'" and "de k' = de k" and "\<And>x. x \<noteq> p \<Longrightarrow> units k' x = units k x"
    and "units k' p = None \<longleftrightarrow> p \<notin> set (live k) \<and> refs p = 1" and "bus_changes k' = bus_changes k"
proof -
  have tab: "table_ok k" and cnt: "counts_ok refs k" using inv by (simp_all add: units_inv_def)
  obtain u where u: "units k p = Some u" using cnt r by (fastforce simp: counts_ok_def)
  note c = counts_okD [OF cnt u, unfolded counted_def]
  then obtain q where q: "UnitIoq u = Some q" by auto
  have p0: "p \<noteq> 0" using u cnt by (auto simp: counts_ok_def)
  define u' where "u' = u\<lparr>RefCount := RefCount u - 1\<rparr>"
  have rc: "unat (RefCount u') = unat (RefCount u) - 1"
    using c r unfolding u'_def by (auto simp: unat_sub_if' word_le_nat_alt)
  have zero: "RefCount u' = 0 \<longleftrightarrow> p \<notin> set (live k) \<and> refs p = 1"
    using c rc r by (auto simp: unat_eq_0 [symmetric])
  define k1 where "k1 = set_unit p u' k"
  define k' where "k' = (if RefCount u' = 0
    then free_unit p (k1\<lparr>mem := SpdIoqDelete q (mem k1)\<rparr>) else k1)"
  have run: "SpdStorageUnitDereference p k = Some k'"
    using u q by (simp add: SpdStorageUnitDereference_def k'_def k1_def u'_def Let_def)
  have us: "units k' = (units k)(p := if RefCount u' = 0 then None else Some u')"
    by (simp add: k'_def k1_def kernel_upd_defs)
  have de: "de k' = de k" by (simp add: k'_def k1_def kernel_upd_defs)
  have l: "live k' = live k" by (simp add: live_def de)
  have gd: "unit_guid k' x = unit_guid k x" if "x \<in> set (live k)" for x
    using that zero u by (auto simp: unit_guid_def us u'_def)
  have "table_ok k'"
  proof -
    have "map (unit_guid k') (live k) = map (unit_guid k) (live k)" by (rule map_cong [OF refl gd])
    moreover have "\<forall>x \<in> set (live k). units k' x \<noteq> None"
      using tab zero unfolding table_ok_def us by auto
    ultimately show ?thesis using tab unfolding table_ok_def l de by metis
  qed
  moreover have "counts_ok (refs(p := refs p - 1)) k'"
  proof -
    have "counted (x \<in> set (live k)) ((refs(p := refs p - 1)) x) v"
      if v: "units k' x = Some v" for x v
    proof (cases "x = p")
      case True
      with v have "v = u'" "RefCount u' \<noteq> 0" by (auto simp: us split: if_splits)
      moreover from this zero have "p \<in> set (live k) \<or> 0 < refs p - 1" using r by auto
      moreover have "UnitIoq u' \<noteq> None" using q by (simp add: u'_def)
      ultimately show ?thesis using c rc True r by (auto simp: counted_def)
    next
      case False
      with v have "units k x = Some v" by (simp add: us)
      with counts_okD [OF cnt this] False show ?thesis by simp
    qed
    moreover have "units k' x = None \<Longrightarrow> (refs(p := refs p - 1)) x = 0" for x
      using cnt zero by (auto simp: us counts_ok_def split: if_splits)
    ultimately show ?thesis
      using cnt p0 unfolding counts_ok_def l by (simp add: us)
  qed
  ultimately have "units_inv (refs(p := refs p - 1)) k'" by (simp add: units_inv_def)
  then show thesis
    using that [OF u run] zero by (simp add: us de k'_def k1_def kernel_upd_defs)
qed

section \<open>References\<close>

lemma add_ref_inv:
  assumes inv: "units_inv refs k" and p: "p \<in> set (live k)" and small: "refs p < 2 ^ 32 - 2"
  obtains k' where "add_ref p k = Some (p, k')" and "units_inv (refs(p := refs p + 1)) k'" and "de k' = de k"
    and "\<And>x. units k' x = None \<longleftrightarrow> units k x = None" and "mem k' = mem k"
proof -
  have tab: "table_ok k" and cnt: "counts_ok refs k" using inv by (simp_all add: units_inv_def)
  have "units k p \<noteq> None" using tab p unfolding table_ok_def by blast
  then obtain u where u: "units k p = Some u" by blast
  note c = counts_okD [OF cnt u, unfolded counted_def]
  have p0: "p \<noteq> 0" using p by (simp add: in_live)
  define u' where "u' = u\<lparr>RefCount := RefCount u + 1\<rparr>"
  have rc: "unat (RefCount u') = unat (RefCount u) + 1"
    using c p small by (simp add: u'_def unat_add_no_wrap)
  define k' where "k' = set_unit p u' k"
  have run: "add_ref p k = Some (p, k')" using u p0 by (simp add: add_ref_def k'_def u'_def)
  have us: "units k' = (units k)(p \<mapsto> u')" and de: "de k' = de k" and mm: "mem k' = mem k"
    by (simp_all add: k'_def kernel_upd_defs)
  have l: "live k' = live k" by (simp add: live_def de)
  have dom: "units k' x = None \<longleftrightarrow> units k x = None" for x using u by (simp add: us)
  have "unit_guid k' = unit_guid k" using u by (auto simp: unit_guid_def us u'_def fun_eq_iff)
  then have "table_ok k'" using tab by (simp add: table_ok_def l de dom)
  moreover have "counts_ok (refs(p := refs p + 1)) k'"
  proof -
    have "counted (x \<in> set (live k)) ((refs(p := refs p + 1)) x) v"
      if v: "units k' x = Some v" for x v
    proof (cases "x = p")
      case True
      have "UnitIoq u' \<noteq> None" using c by (simp add: u'_def)
      moreover have "v = u'" using True v by (simp add: us)
      ultimately show ?thesis using c rc True by (simp add: counted_def)
    next
      case False
      with v have "units k x = Some v" by (simp add: us)
      with counts_okD [OF cnt this] False show ?thesis by simp
    qed
    then show ?thesis using cnt u unfolding counts_ok_def l dom by auto
  qed
  ultimately have "units_inv (refs(p := refs p + 1)) k'" by (simp add: units_inv_def)
  then show thesis by (rule that [OF run _ de dom mm])
qed

section \<open>Unprovision\<close>

lemma guid_scan_spec:
  assumes "\<And>p. p \<in> set T \<Longrightarrow> p \<noteq> 0 \<Longrightarrow> us p \<noteq> None"
  shows "(guid_scan us g T I = Some None \<and>
      (\<forall>p \<in> set T. p \<noteq> 0 \<longrightarrow> Guid (StorageUnitParams (the (us p))) \<noteq> g)) \<or>
    (\<exists>n < length T. guid_scan us g T I = Some (Some (T ! n, I + word_of_nat n)) \<and> T ! n \<noteq> 0 \<and>
      Guid (StorageUnitParams (the (us (T ! n)))) = g)"
  using assms
proof (induction T arbitrary: I)
  case (Cons p T)
  note IH = Cons.IH [of "I + 1"]
  have T: "x \<in> set T \<Longrightarrow> x \<noteq> 0 \<Longrightarrow> us x \<noteq> None" for x using Cons.prems by simp
  show ?case
  proof (cases "p \<noteq> 0 \<and> Guid (StorageUnitParams (the (us p))) = g")
    case True
    with Cons.prems [of p] have "guid_scan us g (p # T) I = Some (Some (p, I))" by auto
    with True show ?thesis by (intro disjI2 exI [of _ 0]) simp
  next
    case False
    have step: "guid_scan us g (p # T) I = guid_scan us g T (I + 1)"
      using Cons.prems [of p] False by (cases "p = 0") auto
    from IH T consider "guid_scan us g T (I + 1) = Some None"
        "\<forall>p \<in> set T. p \<noteq> 0 \<longrightarrow> Guid (StorageUnitParams (the (us p))) \<noteq> g"
      | n where "n < length T" "guid_scan us g T (I + 1) = Some (Some (T ! n, I + 1 + word_of_nat n))"
        "T ! n \<noteq> 0" "Guid (StorageUnitParams (the (us (T ! n)))) = g" by blast
    then show ?thesis
    proof cases
      case 1
      with False step show ?thesis by auto
    next
      case 2
      then show ?thesis using step
        by (intro disjI2 exI [of _ "Suc n"]) (simp add: add.commute add.left_commute)
    qed
  qed
qed simp

text \<open>Taking a unit out of the table turns the reference of the table into one of the caller.\<close>

lemma remove_slot_inv:
  assumes inv: "units_inv refs k" and n: "n < length (StorageUnits (de k))"
    and p: "StorageUnits (de k) ! n = p" "p \<noteq> 0"
  defines "k' \<equiv> upd_de (\<lambda>d. d\<lparr>StorageUnitCount := StorageUnitCount d - 1,
      StorageUnits := (StorageUnits d)[n := 0]\<rparr>) k"
  shows "units_inv (refs(p := refs p + 1)) k'" and "live k' = remove1 p (live k)" and "p \<in> set (live k)"
proof -
  define A where "A = filter (\<lambda>p. p \<noteq> 0) (take n (StorageUnits (de k)))"
  define B where "B = filter (\<lambda>p. p \<noteq> 0) (drop (Suc n) (StorageUnits (de k)))"
  have T: "StorageUnits (de k') = (StorageUnits (de k))[n := 0]" by (simp add: k'_def upd_de_def)
  have same: "(StorageUnits (de k))[n := 0, n := p] = StorageUnits (de k)" using p(1) by auto
  have l: "live k = A @ p # B" and l': "live k' = A @ B"
    unfolding live_def T A_def B_def
    using filter_update_zero [of n "(StorageUnits (de k))[n := 0]" p] n p same by simp_all
  have us: "units k' = units k" by (simp add: k'_def upd_de_def)
  have gd: "unit_guid k' = unit_guid k" by (simp add: fun_eq_iff unit_guid_def us)
  have tab: "table_ok k" and cnt: "counts_ok refs k" using inv by (simp_all add: units_inv_def)
  have pl: "p \<notin> set A" "p \<notin> set B" using tab unfolding table_ok_def l by auto
  show "live k' = remove1 p (live k)" using pl by (simp add: l l' remove1_append)
  show "p \<in> set (live k)" by (simp add: l)
  have c: "unat (StorageUnitCount (de k)) = Suc (length (A @ B))" using tab by (simp add: table_ok_def l)
  have "unat (StorageUnitCount (de k')) = length (live k')"
  proof -
    have "unat (StorageUnitCount (de k) - 1) = unat (StorageUnitCount (de k)) - 1"
      using c by (simp add: unat_sub_if' word_le_nat_alt)
    then show ?thesis using c l' by (simp add: k'_def upd_de_def)
  qed
  then have "table_ok k'"
    using tab unfolding table_ok_def gd us l l' T by (simp add: k'_def upd_de_def)
  moreover have "counts_ok (refs(p := refs p + 1)) k'"
  proof -
    have "counted (x \<in> set (live k')) ((refs(p := refs p + 1)) x) u" if "units k' x = Some u" for x u
      using counts_okD [OF cnt, of x u] that pl unfolding us l l' by (auto simp: counted_def)
    moreover have "(refs(p := refs p + 1)) x = 0" if "units k' x = None" for x
    proof -
      have "units k p \<noteq> None" using tab unfolding table_ok_def l by auto
      with cnt that show ?thesis by (auto simp: us counts_ok_def)
    qed
    ultimately show ?thesis using cnt unfolding counts_ok_def us by blast
  qed
  ultimately show "units_inv (refs(p := refs p + 1)) k'" by (simp add: units_inv_def)
qed

text \<open>The unit that a GUID, or without one an index, selects; 0 when there is none.\<close>

definition selected :: "GUID option \<Rightarrow> u32 \<Rightarrow> kernel \<Rightarrow> ptr" where
  "selected g Index k = (case g of
     None \<Rightarrow> if Index < StorageUnitCapacity (de k) then StorageUnits (de k) ! unat Index else 0
   | Some g \<Rightarrow> (case find (\<lambda>p. unit_guid k p = g) (live k) of None \<Rightarrow> 0 | Some p \<Rightarrow> p))"

abbreviation owner :: "kernel \<Rightarrow> ptr \<Rightarrow> u32" where
  "owner k p \<equiv> OwnerProcessId (the (units k p))"

lemma live_unit: "units_inv refs k \<Longrightarrow> p \<in> set (live k) \<Longrightarrow> units k p \<noteq> None"
  unfolding units_inv_def table_ok_def by blast

lemma find_distinct:
  "distinct (map f xs) \<Longrightarrow> x \<in> set xs \<Longrightarrow> find (\<lambda>y. f y = f x) xs = Some x"
  by (induction xs) auto

lemma unprovision_locked_cases:
  assumes inv: "units_inv refs k"
  shows "selected g Index k = 0 \<and> unprovision_locked g Index pid k = Some (0, k) \<or>
    (\<exists>n < length (StorageUnits (de k)). StorageUnits (de k) ! n = selected g Index k \<and>
       selected g Index k \<noteq> 0 \<and>
       unprovision_locked g Index pid k = Some (selected g Index k,
         if pid = owner k (selected g Index k)
         then upd_de (\<lambda>d. d\<lparr>StorageUnitCount := StorageUnitCount d - 1,
                StorageUnits := (StorageUnits d)[n := 0]\<rparr>) k
         else k))"
proof -
  define T where "T = StorageUnits (de k)"
  have tab: "table_ok k" using inv by (simp add: units_inv_def)
  then have len: "length T \<le> 64" "length T = unat (StorageUnitCapacity (de k))"
    and g_dist: "distinct (map (unit_guid k) (live k))"
    and cap: "take (unat (StorageUnitCapacity (de k))) (StorageUnits (de k)) = T"
    by (simp_all add: table_ok_def T_def)
  have T: "x \<in> set T \<Longrightarrow> x \<noteq> 0 \<Longrightarrow> units k x \<noteq> None" for x
    using live_unit [OF inv, of x] by (simp add: T_def in_live)
  show ?thesis
  proof (cases g)
    case None
    show ?thesis
    proof (cases "Index < StorageUnitCapacity (de k) \<and> T ! unat Index \<noteq> 0")
      case True
      then have n: "unat Index < length T" using len by (simp add: word_less_nat_alt)
      moreover obtain u where "units k (T ! unat Index) = Some u"
        using T [of "T ! unat Index"] n True by auto
      ultimately show ?thesis using None True
        by (intro disjI2 exI [of _ "unat Index"])
           (simp add: selected_def unprovision_locked_def T_def [symmetric] del: not_None_eq)
    next
      case False
      with None show ?thesis
        by (intro disjI1) (auto simp: selected_def unprovision_locked_def T_def [symmetric])
    qed
  next
    case (Some g0)
    have scan: "unprovision_locked g Index pid k = do {
        r \<leftarrow> guid_scan (units k) g0 T 0;
        case case r of None \<Rightarrow> (0, Index) | Some r \<Rightarrow> r of (p, Index) \<Rightarrow>
          if p = 0 then Some (0, k)
          else do {
            u \<leftarrow> units k p;
            if pid = OwnerProcessId u
            then Some (p, upd_de (\<lambda>d. d\<lparr>StorageUnitCount := StorageUnitCount d - 1,
                                       StorageUnits := (StorageUnits d)[unat Index := 0]\<rparr>) k)
            else Some (p, k)
          } }"
      by (simp add: unprovision_locked_def Some cap)
    from guid_scan_spec [of T "units k" g0 0] T consider "guid_scan (units k) g0 T 0 = Some None"
        "\<forall>p \<in> set T. p \<noteq> 0 \<longrightarrow> Guid (StorageUnitParams (the (units k p))) \<noteq> g0"
      | n where "n < length T" "guid_scan (units k) g0 T 0 = Some (Some (T ! n, word_of_nat n))"
        "T ! n \<noteq> 0" "Guid (StorageUnitParams (the (units k (T ! n)))) = g0"
      by fastforce
    then show ?thesis
    proof cases
      case 1
      then have "find (\<lambda>p. unit_guid k p = g0) (live k) = None"
        by (auto simp: find_None_iff live_def unit_guid_def T_def)
      then have "selected g Index k = 0" by (simp add: selected_def Some)
      moreover have "unprovision_locked g Index pid k = Some (0, k)" by (simp add: scan 1(1))
      ultimately show ?thesis by blast
    next
      case 2
      then have "T ! n \<in> set (live k)" by (auto simp: in_live T_def)
      from find_distinct [OF g_dist this] 2 have sel: "selected g Index k = T ! n"
        by (simp add: selected_def Some unit_guid_def)
      obtain u where "units k (T ! n) = Some u" using T [of "T ! n"] 2 by auto
      moreover have "unat (word_of_nat n :: u32) = n" using 2(1) len(1) by (simp add: unat_of_nat)
      ultimately show ?thesis using 2 unfolding sel scan
        by (intro disjI2 exI [of _ n]) (simp add: T_def [symmetric])
    qed
  qed
qed

lemma unprovision_cases:
  fixes g Index
  assumes inv: "units_inv refs k"
  defines "p \<equiv> selected g Index k"
  obtains "p = 0" "SpdStorageUnitUnprovision g Index pid k = Some (STATUS_OBJECT_NAME_NOT_FOUND, k)"
    | "p \<in> set (live k)" "owner k p \<noteq> pid"
      "SpdStorageUnitUnprovision g Index pid k = Some (STATUS_ACCESS_DENIED, k)"
    | k' where "p \<in> set (live k)" "owner k p = pid"
      "SpdStorageUnitUnprovision g Index pid k = Some (STATUS_SUCCESS, k')"
      "units_inv refs k'" "live k' = remove1 p (live k)" "units k' p = None \<longleftrightarrow> refs p = 0"
      "\<And>x. x \<noteq> p \<Longrightarrow> units k' x = units k x" "bus_changes k' = bus_changes k + 1"
      "\<exists>n < length (StorageUnits (de k)). StorageUnits (de k) ! n = p \<and>
        StorageUnits (de k') = (StorageUnits (de k))[n := 0]"
proof -
  from unprovision_locked_cases [OF inv, of g Index pid, folded p_def]
  consider "p = 0" "unprovision_locked g Index pid k = Some (0, k)"
    | n where "n < length (StorageUnits (de k))" "StorageUnits (de k) ! n = p" "p \<noteq> 0"
      "unprovision_locked g Index pid k = Some (p, if pid = owner k p
         then upd_de (\<lambda>d. d\<lparr>StorageUnitCount := StorageUnitCount d - 1,
                StorageUnits := (StorageUnits d)[n := 0]\<rparr>) k else k)"
    by blast
  then show thesis
  proof cases
    case 1
    then show ?thesis by (intro that(1)) (simp_all add: SpdStorageUnitUnprovision_def unprovision_unlocked_def)
  next
    case 2
    note rm = remove_slot_inv [OF inv 2(1-3)]
    obtain u where u: "units k p = Some u" using live_unit [OF inv rm(3)] by auto
    show ?thesis
    proof (cases "pid = owner k p")
      case False
      with 2 u rm(3) show ?thesis
        by (intro that(2)) (auto simp: SpdStorageUnitUnprovision_def unprovision_unlocked_def)
    next
      case True
      define k1 where "k1 = upd_de (\<lambda>d. d\<lparr>StorageUnitCount := StorageUnitCount d - 1,
          StorageUnits := (StorageUnits d)[n := 0]\<rparr>) k"
      have u1: "units k1 = units k" by (simp add: k1_def upd_de_def)
      note rm = rm [folded k1_def]
      from u1 u counts_okD [of _ k1 p u] rm(1) obtain q where q: "UnitIoq u = Some q"
        by (auto simp: units_inv_def counted_def)
      obtain q' m' where rs: "SpdIoqReset True (q, mem k1) = (q', m')" by fastforce
      define k2 where "k2 = set_unit p (u\<lparr>UnitIoq := Some q'\<rparr>) (k1\<lparr>mem := m'\<rparr>)"
      have inv2: "units_inv (refs(p := refs p + 1)) k2"
        unfolding k2_def by (rule set_unit_inv [OF rm(1)]) (simp_all add: u1 u)
      have l2: "live k2 = live k1" by (simp add: live_def k2_def set_unit_def)
      have "p \<notin> set (live k2)"
        using inv rm unfolding l2 by (simp add: units_inv_def table_ok_def)
      obtain k3 where k3: "SpdStorageUnitDereference p k2 = Some k3"
        "units_inv refs k3" "de k3 = de k2" "\<And>x. x \<noteq> p \<Longrightarrow> units k3 x = units k2 x"
        "units k3 p = None \<longleftrightarrow> refs p = 0" "bus_changes k3 = bus_changes k2"
        by (rule dereference [OF inv2, of p]) (use \<open>p \<notin> set (live k2)\<close> in simp_all)
      have run: "SpdStorageUnitUnprovision g Index pid k =
          Some (STATUS_SUCCESS, k3\<lparr>bus_changes := bus_changes k3 + 1\<rparr>)"
        using 2(3,4) True u u1 q rs k3(1)
        by (simp add: SpdStorageUnitUnprovision_def unprovision_unlocked_def k1_def [symmetric] k2_def)
      have bc: "units_inv r (x\<lparr>bus_changes := c\<rparr>) = units_inv r x" "live (x\<lparr>bus_changes := c\<rparr>) = live x" for r x c
        by (rule units_inv_frame; simp)+
      show ?thesis
      proof (rule that(3) [OF _ _ run])
        show "live (k3\<lparr>bus_changes := bus_changes k3 + 1\<rparr>) = remove1 p (live k)"
          using rm(2) l2 k3(3) by (simp add: bc live_def)
        show "\<exists>n < length (StorageUnits (de k)). StorageUnits (de k) ! n = p \<and>
            StorageUnits (de (k3\<lparr>bus_changes := bus_changes k3 + 1\<rparr>)) = (StorageUnits (de k))[n := 0]"
          using 2(1,2) k3(3) by (auto simp: k2_def k1_def kernel_upd_defs)
      qed (use rm(3) True k3 u1 in \<open>simp_all add: bc k2_def k1_def kernel_upd_defs\<close>)
    qed
  qed
qed

end
