(* ===== verification/Unit_Steps.thy ===== *)
theory Unit_Steps
  imports Unit_Thms
begin

text \<open>
  The life of the storage units: any interleaving of provision, unprovision, references,
  dereferences and operations of their queues, with the number of references that callers hold;
  the use bitmap and the end of a process; and the properties of the component.
\<close>

section \<open>Steps\<close>

text \<open>
  A caller takes references with \<open>SpdStorageUnitReferenceByBtl\<close> and gives back only those it has;
  fewer than \<open>2 ^ 32 - 2\<close> are outstanding for one unit. The part of unprovision that runs after the
  lock is released counts as one step with the part before.
\<close>

type_synonym units_state = "(ptr \<Rightarrow> nat) \<times> kernel"

inductive unit_step :: "units_state \<Rightarrow> units_state \<Rightarrow> bool" where
  provision: "p \<noteq> 0 \<Longrightarrow> units k p = None \<Longrightarrow>
    SpdStorageUnitProvision p (SpdIoqCreate n b) P pid k = Some (st, btl, k') \<Longrightarrow>
    unit_step (refs, k) (refs, k')"
| unprovision: "SpdStorageUnitUnprovision g Index pid k = Some (st, k') \<Longrightarrow>
    unit_step (refs, k) (refs, k')"
| no_reference: "SpdStorageUnitReferenceByBtl btl k = Some (0, k') \<Longrightarrow> unit_step (refs, k) (refs, k')"
| reference: "SpdStorageUnitReferenceByBtl btl k = Some (p, k') \<Longrightarrow> p \<noteq> 0 \<Longrightarrow> refs p < 2 ^ 32 - 2 \<Longrightarrow>
    unit_step (refs, k) (refs(p := refs p + 1), k')"
| dereference: "0 < refs p \<Longrightarrow> SpdStorageUnitDereference p k = Some k' \<Longrightarrow>
    unit_step (refs, k) (refs(p := refs p - 1), k')"
| queue: "units k p = Some u \<Longrightarrow>
    unit_step (refs, k) (refs, set_unit p (u\<lparr>UnitIoq := Some q\<rparr>) (k\<lparr>mem := m\<rparr>))"

inductive unit_reachable :: "units_state \<Rightarrow> bool" where
  init: "units k = Map.empty \<Longrightarrow> unat (StorageUnitCapacity (de k)) \<le> 64 \<Longrightarrow> StorageUnitCount (de k) = 0 \<Longrightarrow>
    StorageUnits (de k) = replicate (unat (StorageUnitCapacity (de k))) 0 \<Longrightarrow>
    unit_reachable ((\<lambda>_. 0), k)"
| step: "unit_reachable s \<Longrightarrow> unit_step s s' \<Longrightarrow> unit_reachable s'"

lemma init_inv:
  assumes "units k = Map.empty" "unat (StorageUnitCapacity (de k)) \<le> 64" "StorageUnitCount (de k) = 0"
    "StorageUnits (de k) = replicate (unat (StorageUnitCapacity (de k))) 0"
  shows "units_inv (\<lambda>_. 0) k"
  using assms by (simp add: units_inv_def table_ok_def counts_ok_def live_def)

lemma index_nth_live:
  "units_inv refs k \<Longrightarrow> i < StorageUnitCapacity (de k) \<Longrightarrow> StorageUnits (de k) ! unat i \<noteq> 0 \<Longrightarrow>
   StorageUnits (de k) ! unat i \<in> set (live k)"
  by (simp add: in_live units_inv_def table_ok_def word_less_nat_alt)

text \<open>The unit at an address, if there is one.\<close>

definition unit_at :: "u32 \<Rightarrow> kernel \<Rightarrow> ptr" where
  "unit_at btl k =
     (if SPD_IOCTL_BTL_B btl = 0 \<and> SPD_IOCTL_BTL_L btl = 0 \<and> SPD_IOCTL_BTL_T btl < StorageUnitCapacity (de k)
      then StorageUnits (de k) ! unat (SPD_IOCTL_BTL_T btl) else 0)"

lemma ReferenceByBtl_add_ref: "SpdStorageUnitReferenceByBtl btl k = add_ref (unit_at btl k) k"
  by (simp add: SpdStorageUnitReferenceByBtl_def unit_at_def add_ref_def Let_def)

lemma unit_at_live: "units_inv refs k \<Longrightarrow> unit_at btl k \<noteq> 0 \<Longrightarrow> unit_at btl k \<in> set (live k)"
  by (auto simp: unit_at_def index_nth_live split: if_splits)

lemma add_ref_0 [simp]: "add_ref 0 k = Some (0, k)"
  by (simp add: add_ref_def)

lemma provision_outcome:
  assumes inv: "units_inv refs k" and p: "p \<noteq> 0" "units k p = None"
  obtains "\<not> b" "SpdStorageUnitProvision p (SpdIoqCreate n b) P pid k =
      Some (STATUS_INSUFFICIENT_RESOURCES, - 1, k)"
    | "b" "Guid P \<in> unit_guid k ` set (live k)"
      "SpdStorageUnitProvision p (SpdIoqCreate n b) P pid k = Some (STATUS_OBJECT_NAME_COLLISION, - 1, k)"
    | "b" "Guid P \<notin> unit_guid k ` set (live k)" "0 \<notin> set (StorageUnits (de k))"
      "SpdStorageUnitProvision p (SpdIoqCreate n b) P pid k = Some (STATUS_CANNOT_MAKE, - 1, k)"
    | i q where "b" "Guid P \<notin> unit_guid k ` set (live k)" "i < length (StorageUnits (de k))"
      "StorageUnits (de k) ! i = 0" "0 \<notin> set (take i (StorageUnits (de k)))" "i < 64"
      "SpdStorageUnitProvision p (SpdIoqCreate n b) P pid k =
         Some (STATUS_SUCCESS, SPD_BTL_FROM_INDEX (word_of_nat i), provisioned p q P pid i k)"
      "units_inv refs (provisioned p q P pid i k)"
proof (cases b)
  case False
  have undo: "(units k)(p := None) = units k" using p by auto
  from False show thesis
    using p(1) by (intro that(1)) (simp_all add: SpdStorageUnitProvision_def SpdIoqCreate_def Let_def
        provision_exit_def kernel_upd_defs init_unit_def undo)
next
  case True
  then obtain q where c: "SpdIoqCreate n b = (STATUS_SUCCESS, Some q)"
    by (simp add: SpdIoqCreate_def Let_def)
  note cases = provision_cases [OF inv p conjunct1 [OF create_fresh [OF c]], of P pid, folded c]
  show thesis
  proof (cases "Guid P \<in> unit_guid k ` set (live k)")
    case dup: True
    with True cases show thesis by (intro that(2)) simp_all
  next
    case new: False
    show thesis
    proof (cases "0 \<in> set (StorageUnits (de k))")
      case False
      with True new cases show thesis by (intro that(3)) simp_all
    next
      case free: True
      define i where "i = length (takeWhile (\<lambda>p. p \<noteq> 0) (StorageUnits (de k)))"
      note i = first_free [OF free, folded i_def]
      have "length (StorageUnits (de k)) \<le> 64" using inv by (simp add: units_inv_def table_ok_def)
      moreover have "take i (StorageUnits (de k)) = takeWhile (\<lambda>p. p \<noteq> 0) (StorageUnits (de k))"
        unfolding i_def by (simp add: takeWhile_eq_take [symmetric])
      ultimately show thesis
        using True new free cases i provisioned_inv [OF inv p new i, of q pid]
        by (intro that(4) [of i q]) (auto simp: i_def [symmetric] Let_def dest: set_takeWhileD)
    qed
  qed
qed

lemma reference_inv:
  assumes inv: "units_inv refs k" and r: "SpdStorageUnitReferenceByBtl btl k = Some (p, k')"
    and p: "p \<noteq> 0" "refs p < 2 ^ 32 - 2"
  shows "units_inv (refs(p := refs p + 1)) k'"
proof -
  have at: "unit_at btl k = p"
    using r p by (auto simp: ReferenceByBtl_add_ref add_ref_def split: if_splits bind_splits)
  with p unit_at_live [OF inv] have "p \<in> set (live k)" by auto
  from add_ref_inv [OF inv this p(2)] r at show ?thesis
    by (metis ReferenceByBtl_add_ref option.inject prod.inject)
qed

lemma unit_step_inv: "unit_step s s' \<Longrightarrow> units_inv (fst s) (snd s) \<Longrightarrow> units_inv (fst s') (snd s')"
proof (induction rule: unit_step.induct)
  case (provision p k n b P pid st btl k' refs)
  then have inv: "units_inv refs k" by simp
  show ?case
    by (rule provision_outcome [OF inv provision(1,2), of b n P pid]) (use provision inv in simp_all)
next
  case (unprovision g Index pid k st k' refs)
  then have inv: "units_inv refs k" by simp
  show ?case
    by (rule unprovision_cases [OF inv, of g Index pid]) (use unprovision inv in simp_all)
next
  case (no_reference btl k k' refs)
  then show ?case
    by (auto simp: ReferenceByBtl_add_ref add_ref_def split: if_splits bind_splits)
next
  case (reference btl k p k' refs)
  then have inv: "units_inv refs k" by simp
  show ?case unfolding fst_conv snd_conv by (rule reference_inv [OF inv reference(1-3)])
next
  case (dereference refs p k k')
  then have inv: "units_inv refs k" by simp
  show ?case unfolding fst_conv snd_conv
    by (rule Unit_Thms.dereference [OF inv dereference(1)]) (use dereference(2) in \<open>simp only: option.inject\<close>)
next
  case (queue k p u refs q m)
  then have inv: "units_inv refs k" by simp
  show ?case unfolding fst_conv snd_conv by (rule set_unit_inv [OF inv queue(1)]) simp_all
qed

lemma reachable_inv: "unit_reachable s \<Longrightarrow> units_inv (fst s) (snd s)"
  by (induction rule: unit_reachable.induct) (auto intro: init_inv unit_step_inv)

inductive_cases unit_stepE: "unit_step (refs, k) (refs', k')"

section \<open>The use bitmap\<close>

definition bitmap_bit :: "bytes \<Rightarrow> nat \<Rightarrow> bool" where
  "bitmap_bit B i \<longleftrightarrow> bit (B ! (i div 8)) (i mod 8)"

text \<open>Whether a slot holds a unit of the process, or of any when none is given.\<close>

definition in_use :: "kernel \<Rightarrow> u32 option \<Rightarrow> ptr \<Rightarrow> bool" where
  "in_use k pid p \<longleftrightarrow> p \<noteq> 0 \<and> (case pid of None \<Rightarrow> True | Some x \<Rightarrow> owner k p = x)"

lemma bitmap_word:
  assumes "n < 256"
  shows "unat (drop_bit 3 (word_of_nat n :: u32)) = n div 8" "unat ((word_of_nat n :: u32) AND 7) = n mod 8"
proof -
  have u: "unat (word_of_nat n :: u32) = n" using assms by (simp add: unat_of_nat)
  show "unat (drop_bit 3 (word_of_nat n :: u32)) = n div 8"
    using u by (simp add: drop_bit_eq_div unat_div)
  have "(word_of_nat n :: u32) AND 7 = take_bit 3 (word_of_nat n)"
    by (simp add: take_bit_eq_mask mask_eq_exp_minus_1)
  then show "unat ((word_of_nat n :: u32) AND 7) = n mod 8"
    using u by (simp add: take_bit_eq_mod unat_mod)
qed

lemma bitmap_set:
  assumes "length B = 32" "n < 256" "i < 256"
  shows "bitmap_bit (B[n div 8 := B ! (n div 8) OR push_bit (n mod 8) 1]) i \<longleftrightarrow> bitmap_bit B i \<or> i = n"
proof (cases "i div 8 = n div 8")
  case True
  have "i div 8 < 32" using assms by simp
  moreover have "i = n \<longleftrightarrow> i mod 8 = n mod 8"
    using True by (metis div_mult_mod_eq)
  ultimately show ?thesis using True assms
    by (auto simp: bitmap_bit_def bit_simps)
next
  case False
  then show ?thesis using assms by (auto simp: bitmap_bit_def)
qed

lemma bitmap_loop_spec:
  assumes "\<And>p. p \<in> set T \<Longrightarrow> p \<noteq> 0 \<Longrightarrow> units k p \<noteq> None"
    and "n + length T \<le> 256" and "length B = 32"
    and "unat C + length (filter (\<lambda>p. p \<noteq> 0) T) \<le> unat UC"
  shows "\<exists>C' B'. bitmap_loop (units k) UC pid T (word_of_nat n) B C = Some (C', B') \<and>
    unat C' = unat C + length (filter (in_use k pid) T) \<and> length B' = 32 \<and>
    (\<forall>i < 256. bitmap_bit B' i \<longleftrightarrow>
       bitmap_bit B i \<or> (n \<le> i \<and> i < n + length T \<and> in_use k pid (T ! (i - n))))"
  using assms
proof (induction T arbitrary: n B C)
  case (Cons p T)
  show ?case
  proof (cases "C < UC")
    case False
    then have "length (filter (\<lambda>p. p \<noteq> 0) (p # T)) = 0"
      using Cons.prems(4) unfolding word_less_nat_alt by linarith
    then have none: "filter (\<lambda>p. p \<noteq> 0) (p # T) = []" by (simp only: length_0_conv)
    then have no: "\<not> in_use k pid x" if "x \<in> set (p # T)" for x
      using that none unfolding filter_empty_conv in_use_def by blast
    have e: "filter (in_use k pid) (p # T) = []"
      unfolding filter_empty_conv using no by blast
    have "\<not> in_use k pid ((p # T) ! (i - n))" if "n \<le> i" "i < n + length (p # T)" for i
      using that by (intro no nth_mem) linarith
    then show ?thesis using False Cons.prems(3) unfolding e by auto
  next
    case C: True
    have T: "x \<in> set T \<Longrightarrow> x \<noteq> 0 \<Longrightarrow> units k x \<noteq> None" for x using Cons.prems(1) by simp
    have n: "Suc n + length T \<le> 256" "n < 256" using Cons.prems(2) by simp_all
    have shift: "(n \<le> i \<and> i < n + length (p # T) \<and> in_use k pid ((p # T) ! (i - n))) \<longleftrightarrow>
        i = n \<and> in_use k pid p \<or>
        (Suc n \<le> i \<and> i < Suc n + length T \<and> in_use k pid (T ! (i - Suc n)))" for i
      by (cases "i = n") (auto simp: nth_Cons')
    show ?thesis
    proof (cases "in_use k pid p")
      case True
      then obtain u where u: "units k p = Some u" and p: "p \<noteq> 0"
        using Cons.prems(1) [of p] by (auto simp: in_use_def)
      define B1 where "B1 = B[n div 8 := B ! (n div 8) OR push_bit (n mod 8) 1]"
      have step: "bitmap_loop (units k) UC pid (p # T) (word_of_nat n) B C =
          bitmap_loop (units k) UC pid T (word_of_nat (Suc n)) B1 (C + 1)"
        using C p u True n(2)
        by (simp add: B1_def bitmap_word in_use_def add.commute Let_def split: option.splits)
      have C1: "unat (C + 1) = unat C + 1"
        using C by (rule unat_succ)
      have B1: "length B1 = 32" "i < 256 \<Longrightarrow> bitmap_bit B1 i \<longleftrightarrow> bitmap_bit B i \<or> i = n" for i
        using Cons.prems(3) by (simp_all add: B1_def bitmap_set [OF _ n(2)] del: push_bit_of_1)
      have "unat (C + 1) + length (filter (\<lambda>p. p \<noteq> 0) T) \<le> unat UC" using C1 Cons.prems(4) p by simp
      then obtain C' B' where r: "bitmap_loop (units k) UC pid T (word_of_nat (Suc n)) B1 (C + 1) = Some (C', B')"
        "unat C' = unat (C + 1) + length (filter (in_use k pid) T)" "length B' = 32"
        "\<And>i. i < 256 \<Longrightarrow> bitmap_bit B' i \<longleftrightarrow> bitmap_bit B1 i \<or>
           (Suc n \<le> i \<and> i < Suc n + length T \<and> in_use k pid (T ! (i - Suc n)))"
        using Cons.IH [of "Suc n" B1 "C + 1", OF T n(1) B1(1)] by blast
      then show ?thesis
        unfolding step shift using True C1 B1(2) by (intro exI [of _ C'] exI [of _ B']) auto
    next
      case False
      have step: "bitmap_loop (units k) UC pid (p # T) (word_of_nat n) B C =
          bitmap_loop (units k) UC pid T (word_of_nat (Suc n)) B C"
        using C False Cons.prems(1) [of p]
        by (auto simp: in_use_def add.commute split: option.splits)
      have "unat C + length (filter (\<lambda>p. p \<noteq> 0) T) \<le> unat UC" using Cons.prems(4) by (simp split: if_splits)
      then show ?thesis
        using Cons.IH [of "Suc n" B C, OF T n(1)] Cons.prems(3) False
        unfolding step shift by auto
    qed
  qed
qed auto

lemma zero_bitmap: "i < 256 \<Longrightarrow> \<not> bitmap_bit (replicate 32 0) i"
  by (simp add: bitmap_bit_def)

lemma use_bitmap:
  assumes inv: "units_inv refs k"
  obtains C B where "SpdStorageUnitGetUseBitmap pid k = Some (C, B)"
    and "unat C = length (filter (in_use k pid) (live k))" and "length B = 32"
    and "\<And>i. i < 256 \<Longrightarrow> bitmap_bit B i \<longleftrightarrow>
      i < length (StorageUnits (de k)) \<and> in_use k pid (StorageUnits (de k) ! i)"
proof -
  define T where "T = StorageUnits (de k)"
  have tab: "table_ok k" using inv by (simp add: units_inv_def)
  have T: "x \<in> set T \<Longrightarrow> x \<noteq> 0 \<Longrightarrow> units k x \<noteq> None" for x
    using live_unit [OF inv, of x] by (simp add: T_def in_live)
  have len: "0 + length T \<le> 256" using tab by (simp add: table_ok_def T_def)
  have count: "unat (0 :: u32) + length (filter (\<lambda>p. p \<noteq> 0) T) \<le> unat (StorageUnitCount (de k))"
    using tab by (simp add: table_ok_def T_def live_def)
  have f: "filter (in_use k pid) T = filter (in_use k pid) (live k)"
    unfolding live_def T_def filter_filter by (rule filter_cong) (auto simp: in_use_def)
  show thesis
    using bitmap_loop_spec [of T k 0 "replicate 32 0" 0 "StorageUnitCount (de k)" pid, OF T len _ count]
      take_capacity [OF tab] that
    by (auto simp: SpdStorageUnitGetUseBitmap_def T_def [symmetric] f zero_bitmap)
qed

section \<open>The end of a process\<close>

lemma live_nth_inj:
  assumes "distinct (filter (\<lambda>p. p \<noteq> (0::ptr)) T)" "i < length T" "j < length T" "T ! i = T ! j" "T ! i \<noteq> 0"
  shows "i = j"
  using assms
proof (induction T arbitrary: i j)
  case (Cons p T)
  show ?case
  proof (cases i; cases j)
    fix a b assume "i = Suc a" "j = Suc b"
    with Cons.prems Cons.IH [of a b] show ?thesis by (auto split: if_splits)
  qed (use Cons.prems nth_mem in \<open>fastforce split: if_splits\<close>)+
qed simp

lemma unprovision_index:
  assumes inv: "units_inv refs k" and i: "i < length (StorageUnits (de k))"
    and p: "StorageUnits (de k) ! i = p" "p \<noteq> 0" "owner k p = pid"
  obtains k' where "SpdStorageUnitUnprovision None (word_of_nat i) pid k = Some (STATUS_SUCCESS, k')"
    and "units_inv refs k'" and "StorageUnits (de k') = (StorageUnits (de k))[i := 0]"
    and "\<And>x. x \<noteq> p \<Longrightarrow> units k' x = units k x"
proof -
  have tab: "table_ok k" using inv by (simp add: units_inv_def)
  then have len: "length (StorageUnits (de k)) \<le> 64"
    "length (StorageUnits (de k)) = unat (StorageUnitCapacity (de k))" by (simp_all add: table_ok_def)
  then have u: "unat (word_of_nat i :: u32) = i" using i by (simp add: unat_of_nat)
  have sel: "selected None (word_of_nat i) k = p"
    using i len p by (simp add: selected_def u word_less_nat_alt)
  have inj: "n = i" if "n < length (StorageUnits (de k))" "StorageUnits (de k) ! n = p" for n
    using live_nth_inj [of "StorageUnits (de k)" n i] tab that i p by (simp add: table_ok_def live_def)
  show thesis
    by (rule unprovision_cases [OF inv, of None "word_of_nat i" pid, unfolded sel])
       (use p that inj in blast)+
qed

lemma notify_loop_spec:
  assumes inv: "units_inv refs k" and i: "n + i = 256" and len: "length B = 32"
    and bits: "\<And>j. i \<le> j \<Longrightarrow> j < 256 \<Longrightarrow> bitmap_bit B j \<longleftrightarrow>
      j < length (StorageUnits (de k)) \<and> in_use k (Some pid) (StorageUnits (de k) ! j)"
    and count: "unat C = length (filter (in_use k (Some pid)) (drop i (StorageUnits (de k))))"
  shows "\<exists>k'. notify_loop n (word_of_nat i) B C pid k = Some k' \<and> units_inv refs k' \<and>
    StorageUnits (de k') = take i (StorageUnits (de k)) @
      map (\<lambda>p. if in_use k (Some pid) p then 0 else p) (drop i (StorageUnits (de k))) \<and>
    (\<forall>x. \<not> in_use k (Some pid) x \<longrightarrow> units k' x = units k x)"
  using assms
proof (induction n arbitrary: i C k)
  case 0
  have "length (StorageUnits (de k)) \<le> 64" using 0 by (simp add: units_inv_def table_ok_def)
  with 0 show ?case by simp
next
  case (Suc n)
  define T where "T = StorageUnits (de k)"
  define Z where "Z = (\<lambda>p. if in_use k (Some pid) p then 0 else p)"
  have i: "i < 256" using Suc.prems(2) by simp
  note bw = bitmap_word [OF i]
  have next_i: "word_of_nat i + (1 :: u32) = word_of_nat (Suc i)" by simp
  have test: "B ! unat (drop_bit 3 (word_of_nat i :: u32)) AND push_bit (unat ((word_of_nat i :: u32) AND 7)) 1 \<noteq> 0 \<longleftrightarrow>
      bitmap_bit B i"
    by (simp add: bw bitmap_bit_def and_exp_eq_0_iff_not_bit)
  show ?case
  proof (cases "0 < C")
    case False
    then have "C = 0" using word_neq_0_conv by blast
    then have "length (filter (in_use k (Some pid)) (drop i T)) = 0"
      using Suc.prems(5) by (simp add: T_def del: length_0_conv)
    then have "filter (in_use k (Some pid)) (drop i T) = []" by (simp only: length_0_conv)
    then have "map Z (drop i T) = drop i T"
      unfolding filter_empty_conv Z_def by (intro map_idI) simp
    then have "take i T @ map Z (drop i T) = T" by simp
    with False Suc.prems(1) show ?thesis by (simp add: T_def Z_def)
  next
    case C: True
    show ?thesis
    proof (cases "bitmap_bit B i")
      case True
      then have it: "i < length T" and use: "in_use k (Some pid) (T ! i)"
        using Suc.prems(4) [of i] i by (simp_all add: T_def)
      define p where "p = T ! i"
      have p: "p \<noteq> 0" "owner k p = pid" using use by (simp_all add: in_use_def p_def)
      obtain k1 where run: "SpdStorageUnitUnprovision None (word_of_nat i) pid k = Some (STATUS_SUCCESS, k1)"
        and inv1: "units_inv refs k1" and T1: "StorageUnits (de k1) = T[i := 0]"
        and us: "\<And>x. x \<noteq> p \<Longrightarrow> units k1 x = units k x"
        by (rule unprovision_index [OF Suc.prems(1), of i p pid])
           (use it p in \<open>simp_all add: T_def p_def\<close>)
      have dist: "distinct (filter (\<lambda>p. p \<noteq> 0) T)"
        using Suc.prems(1) by (simp add: units_inv_def table_ok_def live_def T_def)
      have same: "in_use k1 (Some pid) x = in_use k (Some pid) x" if "x \<noteq> p" for x
        using us [OF that] by (simp add: in_use_def)
      have ne: "T ! j \<noteq> p" if "j < length T" "j \<noteq> i" for j
        using live_nth_inj [OF dist that(1) it] that p by (auto simp: p_def)
      have ne': "x \<noteq> p" if "x \<in> set (drop (Suc i) T)" for x
      proof -
        from that obtain a where "a < length T - Suc i" "x = T ! (Suc i + a)"
          by (auto simp: in_set_conv_nth)
        with ne [of "Suc i + a"] show ?thesis by simp
      qed
      have d1: "drop (Suc i) (T[i := 0]) = drop (Suc i) T" by simp
      have f1: "filter (in_use k1 (Some pid)) (drop (Suc i) T) = filter (in_use k (Some pid)) (drop (Suc i) T)"
        using ne' same by (intro filter_cong) auto
      have bits1: "bitmap_bit B j \<longleftrightarrow> j < length (StorageUnits (de k1)) \<and>
          in_use k1 (Some pid) (StorageUnits (de k1) ! j)" if "Suc i \<le> j" "j < 256" for j
        using that Suc.prems(4) [of j] ne [of j] same [of "T ! j"] by (auto simp: T1 T_def [symmetric])
      have "unat C = Suc (length (filter (in_use k (Some pid)) (drop (Suc i) T)))"
        using Suc.prems(5) it use by (simp add: T_def [symmetric] Cons_nth_drop_Suc [symmetric])
      then have "unat (C - 1) = length (filter (in_use k1 (Some pid)) (drop (Suc i) (StorageUnits (de k1))))"
        by (simp add: T1 f1 unat_sub_if' word_le_nat_alt)
      from Suc.IH [OF inv1 _ Suc.prems(3) bits1 this] Suc.prems(2)
      obtain k2 where k2: "notify_loop n (word_of_nat (Suc i)) B (C - 1) pid k1 = Some k2"
        "units_inv refs k2" "StorageUnits (de k2) = take (Suc i) (T[i := 0]) @
          map (\<lambda>p. if in_use k1 (Some pid) p then 0 else p) (drop (Suc i) T)"
        "\<And>x. \<not> in_use k1 (Some pid) x \<Longrightarrow> units k2 x = units k1 x"
        by (auto simp: T1)
      have z: "map (\<lambda>p. if in_use k1 (Some pid) p then 0 else p) (drop (Suc i) T) = map Z (drop (Suc i) T)"
        using ne' same by (auto simp: Z_def)
      have "take (Suc i) (T[i := 0]) = take i T @ [0]"
        using it by (simp add: take_Suc_conv_app_nth)
      then have "StorageUnits (de k2) = take i T @ map Z (drop i T)"
        using it use by (simp add: k2(3) z Cons_nth_drop_Suc [symmetric] Z_def)
      moreover have "units k2 x = units k x" if "\<not> in_use k (Some pid) x" for x
      proof -
        from that p have "x \<noteq> p" by (auto simp: in_use_def)
        with that k2(4) same us show ?thesis by simp
      qed
      ultimately show ?thesis
        using C True run k2(1,2) unfolding T_def [symmetric] Z_def [symmetric] test notify_loop.simps next_i by simp
    next
      case False
      then have nu: "i < length T \<Longrightarrow> \<not> in_use k (Some pid) (T ! i)"
        using Suc.prems(4) [of i] i by (simp add: T_def)
      have "drop i T = (if i < length T then T ! i # drop (Suc i) T else [])"
        by (simp add: Cons_nth_drop_Suc)
      then have f: "filter (in_use k (Some pid)) (drop i T) = filter (in_use k (Some pid)) (drop (Suc i) T)"
        and z: "take i T @ map Z (drop i T) = take (Suc i) T @ map Z (drop (Suc i) T)"
        using nu by (auto simp: Z_def take_Suc_conv_app_nth)
      from Suc.IH [of k "Suc i" C, OF Suc.prems(1) _ Suc.prems(3)] Suc.prems(2,4,5) f
      obtain k2 where k2: "notify_loop n (word_of_nat (Suc i)) B C pid k = Some k2"
        "units_inv refs k2" "StorageUnits (de k2) = take (Suc i) T @ map Z (drop (Suc i) T)"
        "\<And>x. \<not> in_use k (Some pid) x \<Longrightarrow> units k2 x = units k x"
        by (auto simp: T_def Z_def)
      then show ?thesis
        using C False unfolding T_def [symmetric] Z_def [symmetric] test notify_loop.simps next_i z by simp
    qed
  qed
qed

lemma notify_routine:
  assumes inv: "units_inv refs k" and g: "SpdGlobalDeviceExtension k \<noteq> 0"
  obtains k' where "SpdDeviceExtensionNotifyRoutine pid False k = Some k'" and "units_inv refs k'"
    and "StorageUnits (de k') = map (\<lambda>p. if in_use k (Some (ucast pid)) p then 0 else p) (StorageUnits (de k))"
    and "\<And>x. \<not> in_use k (Some (ucast pid)) x \<Longrightarrow> units k' x = units k x"
proof -
  obtain C B where b: "SpdStorageUnitGetUseBitmap (Some (ucast pid)) k = Some (C, B)" "length B = 32"
    "unat C = length (filter (in_use k (Some (ucast pid))) (live k))"
    "\<And>i. i < 256 \<Longrightarrow> bitmap_bit B i \<longleftrightarrow>
      i < length (StorageUnits (de k)) \<and> in_use k (Some (ucast pid)) (StorageUnits (de k) ! i)"
    by (rule use_bitmap [OF inv, of "Some (ucast pid)"]) blast
  have f: "filter (in_use k (Some (ucast pid))) (live k) = filter (in_use k (Some (ucast pid))) (drop 0 (StorageUnits (de k)))"
    unfolding live_def filter_filter drop_0 by (rule filter_cong) (auto simp: in_use_def)
  from notify_loop_spec [OF inv, of 256 0 B "ucast pid" C] b f g that show thesis
    by (auto simp: SpdDeviceExtensionNotifyRoutine_def)
qed

section \<open>Demonstration\<close>

text \<open>An adapter with two slots, and one unit at address 1 that process 7 has provisioned.\<close>

definition demo_guid :: GUID where
  "demo_guid = \<lparr>Data1 = 1, Data2 = 0, Data3 = 0, Data4 = replicate 8 0\<rparr>"

definition demo_params :: SPD_IOCTL_STORAGE_UNIT_PARAMS where
  "demo_params = \<lparr>Guid = demo_guid, BlockCount = 1024, BlockLength = 512,
     ProductId = replicate 16 0x41, ProductRevisionLevel = replicate 4 0x31, DeviceType = 0,
     WriteProtected = False, CacheSupported = True, UnmapSupported = True, EjectDisabled = False,
     MaxTransferLength = 65536\<rparr>"

definition empty_mem :: kmem where
  "empty_mem = \<lparr>srbs = \<lambda>_. \<lparr>Function = 0, SrbStatus = 0, ScsiStat = 0, PathId = 0, TargetId = 0, Lun = 0,
     SenseInfoBufferLength = 0, SrbFlags = 0, DataTransferLength = 0, DataBuffer = 0,
     SenseInfoBuffer = 0, NextSrb = 0, SrbExtension = 0, InternalStatus = STATUS_SUCCESS,
     Cdb = replicate 16 0, PnPAction = 0, SrbPnPFlags = 0\<rparr>,
     exts = \<lambda>_. zero_ext, bufs = \<lambda>_. [], notifications = []\<rparr>"

definition empty_kernel :: kernel where
  "empty_kernel = \<lparr>mem = empty_mem, units = Map.empty,
     de = \<lparr>AdapterDeviceObject = 0, StorageUnitCount = 0, StorageUnitCapacity = 2, StorageUnits = [0, 0]\<rparr>,
     bus_changes = 0, SpdGlobalDeviceExtension = 5, SpdStorageUnitCapacity = 2,
     notify_registered = True, resource_shared = 0\<rparr>"

definition demo_ioq :: SPD_IOQ where
  "demo_ioq = \<lparr>Stopped = False, PendingEvent = False, PendingList = [], ProcessList = [],
     ProcessBucketCount = 2, ProcessBuckets = [0, 0]\<rparr>"

definition demo_kernel :: kernel where
  "demo_kernel = provisioned 1 demo_ioq demo_params 7 0 empty_kernel"

end
