(* ===== verification/Unit_Props.thy ===== *)
theory Unit_Props
  imports Unit_Steps
begin

text \<open>
  The properties of the storage units: what provision, unprovision, references and the end of a
  process do to the table, and the life time of the units.
\<close>

section \<open>Serial numbers\<close>

lemma length_hex_digits [simp]: "length (hex_digits n v) = n"
  by (induction n arbitrary: v) auto

lemma unat_hex_digit: "d < 16 \<Longrightarrow> unat (hex_digit d) = (if d < 10 then 48 + d else 87 + d)"
  unfolding hex_digit_def by (simp add: unat_of_nat del: of_nat_add)

lemma hex_digit_inject:
  assumes "d < 16" and "d' < 16"
  shows "hex_digit d = hex_digit d' \<longleftrightarrow> d = d'"
proof
  assume "hex_digit d = hex_digit d'"
  then have "unat (hex_digit d) = unat (hex_digit d')" by simp
  then show "d = d'" unfolding unat_hex_digit [OF assms(1)] unat_hex_digit [OF assms(2)]
    by (simp split: if_splits)
qed simp

lemma hex_digits_inject:
  "v < 16 ^ n \<Longrightarrow> v' < 16 ^ n \<Longrightarrow> hex_digits n v = hex_digits n v' \<longleftrightarrow> v = v'"
proof (induction n arbitrary: v v')
  case (Suc n)
  have "v div 16 < 16 ^ n" "v' div 16 < 16 ^ n" using Suc.prems by (simp_all add: less_mult_imp_div_less mult.commute)
  note IH = Suc.IH [OF this]
  have "hex_digits (Suc n) v = hex_digits (Suc n) v' \<longleftrightarrow> v div 16 = v' div 16 \<and> v mod 16 = v' mod 16"
    by (simp add: IH hex_digit_inject)
  also have "\<dots> \<longleftrightarrow> v = v'" by (metis div_mult_mod_eq)
  finally show ?case .
qed simp

lemma hex_digits_word:
  "LENGTH('a) \<le> 4 * n \<Longrightarrow> hex_digits n (unat (a :: 'a::len word)) = hex_digits n (unat b) \<longleftrightarrow> a = b"
proof -
  assume n: "LENGTH('a) \<le> 4 * n"
  have "unat w < 16 ^ n" for w :: "'a word"
  proof -
    have "unat w < 2 ^ LENGTH('a)" by (rule unsigned_less)
    also have "(2::nat) ^ LENGTH('a) \<le> 2 ^ (4 * n)" using n by (intro power_increasing) simp_all
    finally show ?thesis by (simp add: power_mult)
  qed
  then show ?thesis by (simp add: hex_digits_inject word_unat_eq_iff)
qed

lemma hex_octets_inject:
  "length bs = length bs' \<Longrightarrow>
   concat (map (\<lambda>b. hex_digits 2 (unat (b :: u8))) bs) = concat (map (\<lambda>b. hex_digits 2 (unat b)) bs') \<longleftrightarrow> bs = bs'"
  by (induction bs bs' rule: list_induct2) (simp_all add: hex_digits_word)

lemma length_hex_octets: "length (concat (map (\<lambda>b. hex_digits 2 (unat (b :: u8))) bs)) = 2 * length bs"
  by (induction bs) simp_all

lemma serial_number_identifies_length: "length (Data4 g) = 8 \<Longrightarrow> length (serial_number g) = 36"
  by (simp add: serial_number_def length_hex_octets)

text \<open>The serial number of a unit identifies it: the 36 octets that are made from a GUID are
  equal for two GUIDs exactly when the GUIDs are.\<close>

lemma serial_number_identifies:
  assumes "length (Data4 g) = 8" and "length (Data4 g') = 8"
  shows "length (serial_number g) = 36 \<and> (serial_number g = serial_number g' \<longleftrightarrow> g = (g' :: GUID))"
proof -
  have len: "length (take 2 (Data4 g)) = length (take 2 (Data4 g'))"
    "length (drop 2 (Data4 g)) = length (drop 2 (Data4 g'))" using assms by simp_all
  have t: "take 2 (Data4 g) = take 2 (Data4 g') \<and> drop 2 (Data4 g) = drop 2 (Data4 g') \<longleftrightarrow> Data4 g = Data4 g'"
    by (metis append_take_drop_id)
  have "serial_number g = serial_number g' \<longleftrightarrow>
      Data1 g = Data1 g' \<and> Data2 g = Data2 g' \<and> Data3 g = Data3 g' \<and>
      take 2 (Data4 g) = take 2 (Data4 g') \<and> drop 2 (Data4 g) = drop 2 (Data4 g')"
    using assms
    by (simp add: serial_number_def hex_digits_word length_hex_octets hex_octets_inject [OF len(1)]
          hex_octets_inject [OF len(2)])
  also have "\<dots> \<longleftrightarrow> g = g'" unfolding t by auto
  finally show ?thesis using assms by (simp add: serial_number_def length_hex_octets)
qed

theorem serial_number_identifies_witness:
  "length (serial_number NullGuid) = 36 \<and> serial_number NullGuid \<noteq> serial_number demo_guid"
  using serial_number_identifies [of NullGuid demo_guid] by (simp add: NullGuid_def demo_guid_def)

section \<open>Provision and unprovision\<close>

abbreviation slots :: "kernel \<Rightarrow> ptr list" where
  "slots k \<equiv> StorageUnits (de k)"

text \<open>Provision adds the new unit or changes nothing. With a consistent table it never faults;
  with no memory for the queue, a GUID that a listed unit has, or no free slot it returns the error
  for that and leaves the kernel as it was (the unit it made is freed); otherwise the unit goes into
  the first free slot, its address names that slot, it belongs to the caller with one reference, no
  other unit changes, and the table stays consistent.\<close>

lemma provision_adds_or_keeps:
  assumes "units_inv refs k" and "p \<noteq> 0" and "units k p = None"
  shows "\<exists>st btl k'. SpdStorageUnitProvision p (SpdIoqCreate n b) P pid k = Some (st, btl, k') \<and>
    units_inv refs k' \<and>
    (if \<not> b then st = STATUS_INSUFFICIENT_RESOURCES \<and> k' = k
     else if Guid P \<in> unit_guid k ` set (live k) then st = STATUS_OBJECT_NAME_COLLISION \<and> k' = k
     else if 0 \<notin> set (slots k) then st = STATUS_CANNOT_MAKE \<and> k' = k
     else st = STATUS_SUCCESS \<and>
       (let i = unat (SPD_INDEX_FROM_BTL btl)
        in i < length (slots k) \<and> slots k ! i = 0 \<and> 0 \<notin> set (take i (slots k)) \<and>
           slots k' = (slots k)[i := p] \<and> unit_at btl k' = p) \<and>
       owner k' p = pid \<and> RefCount (the (units k' p)) = 1 \<and> unit_guid k' p = Guid P \<and>
       (\<forall>x. x \<noteq> p \<longrightarrow> units k' x = units k x))"
proof (rule provision_outcome [OF assms, of b n P pid])
  fix i q
  assume b: "b" "Guid P \<notin> unit_guid k ` set (live k)"
    and i: "i < length (slots k)" "slots k ! i = 0" "0 \<notin> set (take i (slots k))" "i < 64"
    and r: "SpdStorageUnitProvision p (SpdIoqCreate n b) P pid k =
         Some (STATUS_SUCCESS, SPD_BTL_FROM_INDEX (word_of_nat i), provisioned p q P pid i k)"
    and inv: "units_inv refs (provisioned p q P pid i k)"
  have small: "(word_of_nat i :: u32) \<le> 0xff" using i(4) by (simp add: word_le_nat_alt unat_of_nat)
  have T: "SPD_IOCTL_BTL_T (SPD_BTL_FROM_INDEX (word_of_nat i)) = word_of_nat i"
    using index_of_BTL [OF small] by (simp add: SPD_INDEX_FROM_BTL_def)
  have u: "unat (word_of_nat i :: u32) = i" using i(4) by (simp add: unat_of_nat)
  have cap: "length (slots k) = unat (StorageUnitCapacity (de k))"
    using assms(1) by (simp add: units_inv_def table_ok_def)
  have free: "0 \<in> set (slots k)" using i by (metis nth_mem)
  have "unit_at (SPD_BTL_FROM_INDEX (word_of_nat i)) (provisioned p q P pid i k) = p"
    using i cap by (simp add: unit_at_def T BTL_of_index_bus_lun [OF small] provisioned_def kernel_upd_defs u
        word_less_nat_alt)
  then show ?thesis
    using r inv b i free index_small [of i]
    by (simp add: provisioned_def kernel_upd_defs unit_guid_def Let_def)
qed (use assms in simp_all)

lemma replicate_2: "replicate 2 x = [x, x]"
  by (simp add: numeral_2_eq_2)

lemma empty_inv: "units_inv (\<lambda>_. 0) empty_kernel"
  by (rule init_inv) (simp_all add: empty_kernel_def replicate_2)

lemma demo_inv: "units_inv (\<lambda>_. 0) demo_kernel"
  unfolding demo_kernel_def
  by (rule provisioned_inv [OF empty_inv]) (simp_all add: empty_kernel_def live_def)

lemma demo_slots [simp]: "slots demo_kernel = [1, 0]" "live demo_kernel = [1]"
  by (simp_all add: demo_kernel_def provisioned_def kernel_upd_defs empty_kernel_def live_def)

lemma demo_units: "units demo_kernel = [1 \<mapsto> (init_unit demo_params 7)\<lparr>UnitIoq := Some demo_ioq\<rparr>]"
  by (simp add: demo_kernel_def provisioned_def kernel_upd_defs empty_kernel_def)

lemma provision_adds_or_keeps_witness:
  "\<exists>btl. SpdStorageUnitProvision 2 (SpdIoqCreate 4000 True) demo_params 8 demo_kernel =
      Some (STATUS_OBJECT_NAME_COLLISION, btl, demo_kernel)"
  using provision_adds_or_keeps [OF demo_inv, of 2 4000 True demo_params 8]
  by (auto simp: demo_units unit_guid_def demo_params_def)

lemma demo_selected: "selected (Some demo_guid) 0 demo_kernel = 1" "owner demo_kernel 1 = 7"
  by (simp_all add: selected_def unit_guid_def demo_units demo_params_def)

text \<open>Unprovision removes exactly the unit that the GUID or the index names, and only for its
  owner. With a consistent table it never faults; a name that selects nothing is not found and a unit
  of another process is denied, both without any change; otherwise the unit leaves the table, the
  other units stay as they are, the table stays consistent, and the unit is freed at once unless
  someone still holds a reference to it.\<close>

lemma unprovision_removes_or_keeps:
  assumes "units_inv refs k"
  shows "\<exists>st k'. SpdStorageUnitUnprovision g Index pid k = Some (st, k') \<and> units_inv refs k' \<and>
    (let p = selected g Index k
     in if p = 0 then st = STATUS_OBJECT_NAME_NOT_FOUND \<and> k' = k
        else if owner k p \<noteq> pid then st = STATUS_ACCESS_DENIED \<and> k' = k
        else st = STATUS_SUCCESS \<and> p \<in> set (live k) \<and> live k' = remove1 p (live k) \<and>
          (units k' p = None \<longleftrightarrow> refs p = 0) \<and> (\<forall>x. x \<noteq> p \<longrightarrow> units k' x = units k x))"
  by (rule unprovision_cases [OF assms, of g Index pid])
     (use assms in \<open>auto simp: Let_def in_live\<close>)

lemma unprovision_removes_or_keeps_witness:
  "\<exists>k'. SpdStorageUnitUnprovision (Some demo_guid) 0 7 demo_kernel = Some (STATUS_SUCCESS, k') \<and>
     live k' = [] \<and> units k' 1 = None"
  using unprovision_removes_or_keeps [OF demo_inv, of "Some demo_guid" 0 7]
  by (auto simp: demo_selected Let_def)

section \<open>Life time\<close>

lemma empty_reachable: "unit_reachable ((\<lambda>_. 0), empty_kernel)"
  by (rule unit_reachable.init) (simp_all add: empty_kernel_def replicate_2)

text \<open>The unit of the demonstration with one reference.\<close>

definition demo_referenced :: kernel where
  "demo_referenced = set_unit 1 ((init_unit demo_params 7)\<lparr>UnitIoq := Some demo_ioq, RefCount := 2\<rparr>) demo_kernel"

lemma demo_create_ioq: "SpdIoqCreate 4080 True = (STATUS_SUCCESS, Some demo_ioq)"
  by (simp add: SpdIoqCreate_def PAGE_SIZE_def demo_ioq_def replicate_2)

lemma demo_units_reachable: "unit_reachable ((\<lambda>_. 0), demo_kernel)"
proof -
  have "SpdStorageUnitProvision 1 (SpdIoqCreate 4080 True) demo_params 7 empty_kernel =
      Some (STATUS_SUCCESS, SPD_BTL_FROM_INDEX (word_of_nat 0), demo_kernel)"
    unfolding demo_create_ioq demo_kernel_def
    by (subst provision_cases [OF empty_inv]) (simp_all add: empty_kernel_def live_def fresh_ioq_def demo_ioq_def)
  then show ?thesis
    by (intro unit_reachable.step [OF empty_reachable unit_step.provision]) (simp_all add: empty_kernel_def)
qed

lemma demo_referenced_reachable: "unit_reachable ((\<lambda>_. 0)(1 := 1), demo_referenced)"
proof -
  have at: "unit_at 0 demo_kernel = 1"
    by (simp add: unit_at_def SPD_IOCTL_BTL_B_def SPD_IOCTL_BTL_L_def SPD_IOCTL_BTL_T_def)
       (simp add: demo_kernel_def provisioned_def kernel_upd_defs empty_kernel_def)
  have r: "SpdStorageUnitReferenceByBtl 0 demo_kernel = Some (1, demo_referenced)"
    by (simp add: ReferenceByBtl_add_ref at add_ref_def demo_units demo_referenced_def)
  from unit_reachable.step [OF demo_units_reachable unit_step.reference [OF r, of "\<lambda>_. 0"]]
  show ?thesis by simp
qed

text \<open>C8: A reference keeps its unit alive. Whatever provisions, unprovisions, references, dereferences
  and queue operations came before, in any order, a holder of a reference finds the unit allocated with
  its queue, giving the reference back does not fault, and the memory of the unit is freed exactly when
  it was the last reference and the unit is no longer in the table.\<close>

theorem references_keep_units_alive:
  assumes "unit_reachable (refs, k)" and "0 < refs p"
  shows "\<exists>u k'. units k p = Some u \<and> UnitIoq u \<noteq> None \<and> SpdStorageUnitDereference p k = Some k' \<and>
    units_inv (refs(p := refs p - 1)) k' \<and>
    (units k' p = None \<longleftrightarrow> p \<notin> set (slots k) \<and> refs p = 1)"
proof -
  have inv: "units_inv refs k" using reachable_inv [OF assms(1)] by simp
  obtain u k' where u: "units k p = Some u" and d: "SpdStorageUnitDereference p k = Some k'"
    "units_inv (refs(p := refs p - 1)) k'" "units k' p = None \<longleftrightarrow> p \<notin> set (live k) \<and> refs p = 1"
    by (rule Unit_Thms.dereference [OF inv assms(2)]) (rule that)
  have cnt: "counts_ok refs k" using inv by (simp add: units_inv_def)
  have "p \<noteq> 0" using cnt u by (auto simp: counts_ok_def)
  then show ?thesis using u d counts_okD [OF cnt u] by (auto simp: counted_def in_live)
qed

theorem references_keep_units_alive_witness:
  "\<exists>k'. SpdStorageUnitDereference 1 demo_referenced = Some k' \<and> units k' 1 \<noteq> None"
proof -
  have "slots demo_referenced = [1, 0]"
    using demo_slots(1) by (simp add: demo_referenced_def set_unit_def)
  then show ?thesis using references_keep_units_alive [OF demo_referenced_reachable, of 1] by auto
qed

text \<open>The gap in unprovision is a use after free. A process that does not own a unit selects it
  and releases the lock; if the owner then unprovisions the unit, to which no reference is held, the
  rest of the first call reads the owner from memory that is freed.\<close>

lemma unprovision_race:
  assumes "units_inv refs k" and "selected g Index k = p" and "p \<noteq> 0" and "refs p = 0"
    and "owner k p = pid" and "other \<noteq> pid"
  shows "\<exists>k1 k2. unprovision_locked g Index other k = Some (p, k1) \<and>
    SpdStorageUnitUnprovision g Index pid k1 = Some (STATUS_SUCCESS, k2) \<and>
    unprovision_unlocked p other k2 = None"
proof -
  have "unprovision_locked g Index other k = Some (p, k)"
    using unprovision_locked_cases [OF assms(1), of g Index other] assms by auto
  moreover obtain k' where "SpdStorageUnitUnprovision g Index pid k = Some (STATUS_SUCCESS, k')"
    "units k' p = None"
    by (rule unprovision_cases [OF assms(1), of g Index pid]) (use assms in auto)
  ultimately show ?thesis using assms(3) by (simp add: unprovision_unlocked_def)
qed

lemma unprovision_race_witness:
  "\<exists>k1 k2. unprovision_locked (Some demo_guid) 0 8 demo_kernel = Some (1, k1) \<and>
    SpdStorageUnitUnprovision (Some demo_guid) 0 7 k1 = Some (STATUS_SUCCESS, k2) \<and>
    unprovision_unlocked 1 8 k2 = None"
  by (rule unprovision_race [OF demo_inv demo_selected(1)]) (simp_all add: demo_selected)

section \<open>Lists of units and the end of a process\<close>

text \<open>The use bitmap has the bit of an index set exactly when the slot holds a unit, of the given
  process if one is given, although the scan stops when it has found as many units as there are; the
  count is the number of bits set, and the bitmap keeps its 32 octets.\<close>

lemma use_bitmap_exact:
  assumes "units_inv refs k"
  shows "\<exists>n B. SpdStorageUnitGetUseBitmap pid k = Some (n, B) \<and> length B = 32 \<and>
    unat n = length (filter (in_use k pid) (slots k)) \<and>
    (\<forall>i < 256. bit (B ! (i div 8)) (i mod 8) \<longleftrightarrow> i < length (slots k) \<and> in_use k pid (slots k ! i))"
proof -
  have "filter (in_use k pid) (live k) = filter (in_use k pid) (slots k)"
    unfolding live_def filter_filter by (rule filter_cong) (auto simp: in_use_def)
  then show ?thesis
    by (rule_tac use_bitmap [OF assms, of pid]) (fastforce simp: bitmap_bit_def)
qed

lemma use_bitmap_exact_witness:
  "\<exists>n B. SpdStorageUnitGetUseBitmap (Some 7) demo_kernel = Some (n, B) \<and> unat n = 1 \<and> bit (B ! 0) 0 \<and> \<not> bit (B ! 0) 1"
proof -
  have "in_use demo_kernel (Some 7) 1" "\<not> in_use demo_kernel (Some 7) 0"
    by (simp_all add: in_use_def demo_selected)
  moreover from use_bitmap_exact [OF demo_inv, of "Some 7"]
  obtain n B where r: "SpdStorageUnitGetUseBitmap (Some 7) demo_kernel = Some (n, B)"
    "unat n = length (filter (in_use demo_kernel (Some 7)) [1, 0])"
    and b: "\<And>i. i < 256 \<Longrightarrow> bit (B ! (i div 8)) (i mod 8) \<longleftrightarrow> i < length [1, 0 :: ptr] \<and> in_use demo_kernel (Some 7) ([1, 0] ! i)"
    unfolding demo_slots by blast
  moreover note b [of 0] b [of 1]
  ultimately show ?thesis by auto
qed

text \<open>C22: When a process ends, its units go and no others: the process notification empties exactly the
  slots of the units that the process owned, leaves every other unit as it was, and keeps the table
  consistent.\<close>

theorem process_end_removes_its_units:
  assumes "units_inv refs k" and "SpdGlobalDeviceExtension k \<noteq> 0"
  shows "\<exists>k'. SpdDeviceExtensionNotifyRoutine pid False k = Some k' \<and> units_inv refs k' \<and>
    slots k' = map (\<lambda>p. if p \<noteq> 0 \<and> owner k p = ucast pid then 0 else p) (slots k) \<and>
    (\<forall>p. p \<noteq> 0 \<and> owner k p \<noteq> ucast pid \<longrightarrow> units k' p = units k p)"
  by (rule notify_routine [OF assms, of pid]) (auto simp: in_use_def)

theorem process_end_removes_its_units_witness:
  "\<exists>k'. SpdDeviceExtensionNotifyRoutine 7 False demo_kernel = Some k' \<and> slots k' = [0, 0]"
proof -
  have "SpdGlobalDeviceExtension demo_kernel \<noteq> 0"
    by (simp add: demo_kernel_def provisioned_def kernel_upd_defs empty_kernel_def)
  from process_end_removes_its_units [OF demo_inv this, of 7] show ?thesis by (auto simp: demo_selected)
qed

end
