(* ===== verification/Scsi_Props.thy ===== *)
theory Scsi_Props
  imports Queue_Thms Unit_Props
begin

text \<open>
  The properties of the SCSI commands: what the driver answers itself stays inside the buffers and
  can be read back, what it posts lies inside the device, and the chunks of a transfer move exactly
  the data of the command.
\<close>

section \<open>Answers stay inside the buffers\<close>

lemma length_Identifier [simp]: "unat Identifier0Length = 64" "unat Identifier1Length = 8" "unat PageCount = 5"
  by (simp_all add: Identifier0Length_def Identifier1Length_def PageCount_def)

lemma length_vendor [simp]: "length SPD_IOCTL_VENDOR_ID = 8"
  by (simp add: SPD_IOCTL_VENDOR_ID_def)

text \<open>The arrays in a unit have their sizes.\<close>

definition unit_sized :: "SPD_STORAGE_UNIT \<Rightarrow> bool" where
  "unit_sized u \<longleftrightarrow> length (ProductId (StorageUnitParams u)) = 16 \<and>
     length (ProductRevisionLevel (StorageUnitParams u)) = 4 \<and> length (SerialNumber u) = 36"

named_theorems answer_lengths "the answers keep the length of a buffer that is long enough"

lemma length_put_device_type [simp]: "length (put_device_type u b) = length b"
  by (simp add: put_device_type_def)

lemma length_vpd_header [answer_lengths]: "4 \<le> length b \<Longrightarrow> length (vpd_header u P L b) = length b"
  by (simp add: vpd_header_def buf_simps)

lemma length_inquiry_data [answer_lengths]:
  "unit_sized u \<Longrightarrow> 36 \<le> length b \<Longrightarrow> length (inquiry_data u b) = length b"
  by (simp add: inquiry_data_def Let_def buf_simps unit_sized_def)

lemma length_vpd_supported_pages [answer_lengths]:
  "9 \<le> length b \<Longrightarrow> length (vpd_supported_pages u b) = length b"
  by (simp add: vpd_supported_pages_def buf_simps answer_lengths)

lemma length_vpd_serial_number [answer_lengths]:
  "unit_sized u \<Longrightarrow> 40 \<le> length b \<Longrightarrow> length (vpd_serial_number u b) = length b"
  by (simp add: vpd_serial_number_def buf_simps answer_lengths unit_sized_def)

lemma length_vpd_identification [answer_lengths]:
  "unit_sized u \<Longrightarrow> 84 \<le> length b \<Longrightarrow> length (vpd_identification u b) = length b"
  by (simp add: vpd_identification_def Let_def buf_simps answer_lengths unit_sized_def codec_simps)

lemma length_vpd_block_limits [answer_lengths]:
  "64 \<le> length b \<Longrightarrow> length (vpd_block_limits u b) = length b"
  by (simp add: vpd_block_limits_def Let_def buf_simps codec_simps)

lemma length_vpd_lbp [answer_lengths]:
  "8 \<le> length b \<Longrightarrow> length (vpd_logical_block_provisioning u b) = length b"
  by (simp add: vpd_logical_block_provisioning_def Let_def buf_simps)

lemma length_mode_caching_page [answer_lengths]:
  "P + 12 \<le> length b \<Longrightarrow> length (mode_caching_page P u b) = length b"
  by (simp add: mode_caching_page_def Let_def buf_simps)

lemma length_mode_data6 [answer_lengths]: "16 \<le> length b \<Longrightarrow> length (mode_data6 u b) = length b"
  by (simp add: mode_data6_def buf_simps answer_lengths)

lemma length_mode_data10 [answer_lengths]: "20 \<le> length b \<Longrightarrow> length (mode_data10 u b) = length b"
  by (simp add: mode_data10_def buf_simps answer_lengths)

lemma length_read_capacity [answer_lengths]:
  "8 \<le> length b \<Longrightarrow> length (read_capacity10 u b) = length b"
  "(if full then 32 else 12) \<le> length b \<Longrightarrow> length (read_capacity16 full u b) = length b"
  by (simp_all add: read_capacity10_def read_capacity16_def Let_def buf_simps codec_simps split: if_splits)

lemma length_sense_data [answer_lengths]:
  "18 \<le> n \<Longrightarrow> n \<le> length b \<Longrightarrow> length (sense_data n K A Q i b) = length b"
  by (simp add: sense_data_def Let_def buf_simps codec_simps split: option.splits)

text \<open>
  What an answer may do to the memory: a buffer that it is not given stays as it is, the buffers keep
  their lengths, and the extensions, the other requests and the notifications stay.
\<close>

definition buffers_fit :: "ptr \<Rightarrow> kmem \<Rightarrow> bool" where
  "buffers_fit srb m \<longleftrightarrow>
     (SrbGetDataBuffer m srb \<noteq> 0 \<longrightarrow>
        unat (SrbGetDataTransferLength m srb) \<le> length (bufs m (SrbGetDataBuffer m srb))) \<and>
     (SrbGetSenseInfoBuffer m srb \<noteq> 0 \<longrightarrow>
        unat (SrbGetSenseInfoBufferLength m srb) \<le> length (bufs m (SrbGetSenseInfoBuffer m srb)))"

definition answers :: "ptr \<Rightarrow> kmem \<Rightarrow> kmem \<Rightarrow> bool" where
  "answers srb m m' \<longleftrightarrow> (\<forall>p. length (bufs m' p) = length (bufs m p)) \<and>
     (\<forall>p. p \<noteq> SrbGetDataBuffer m srb \<and> p \<noteq> SrbGetSenseInfoBuffer m srb \<longrightarrow> bufs m' p = bufs m p) \<and>
     exts m' = exts m \<and> notifications m' = notifications m \<and>
     (\<forall>s. s \<noteq> srb \<longrightarrow> srbs m' s = srbs m s) \<and>
     SrbGetDataTransferLength m' srb \<le> SrbGetDataTransferLength m srb"

lemma answers_refl: "answers srb m m"
  by (simp add: answers_def)

lemma length_zero_buf: "buffers_fit srb m \<Longrightarrow> SrbGetDataBuffer m srb \<noteq> 0 \<Longrightarrow>
    length (zero_memory (unat (SrbGetDataTransferLength m srb)) (bufs m (SrbGetDataBuffer m srb))) =
      length (bufs m (SrbGetDataBuffer m srb))"
  by (simp add: length_zero_memory buffers_fit_def)

lemma zero_answers:
  "buffers_fit srb m \<Longrightarrow> SrbGetDataBuffer m srb \<noteq> 0 \<Longrightarrow>
   answers srb m (zero_data_buffer srb m) \<and> buffers_fit srb (zero_data_buffer srb m) \<and>
   srbs (zero_data_buffer srb m) = srbs m"
  by (auto simp: answers_def zero_data_buffer_def mem_upd_defs length_zero_memory buffers_fit_def
        srb_get_defs)

lemma answers_trans:
  "answers srb m m1 \<Longrightarrow> srbs m1 = srbs m \<Longrightarrow> answers srb m1 m2 \<Longrightarrow> answers srb m m2"
  by (simp add: answers_def srb_get_defs)

lemma reply_answers:
  assumes "buffers_fit srb m" and "SrbGetDataBuffer m srb \<noteq> 0"
    and "\<And>b. unat n \<le> length b \<Longrightarrow> length (f b) = length b"
  shows "answers srb m (snd (reply srb n f m))"
proof (cases "SrbGetDataTransferLength m srb < n")
  case True
  then show ?thesis by (simp add: reply_def answers_refl)
next
  case False
  then have "unat n \<le> length (bufs m (SrbGetDataBuffer m srb))"
    using assms(1,2) by (simp add: buffers_fit_def word_less_nat_alt)
  with False assms(3) show ?thesis
    by (simp add: reply_def answers_def srb_set_defs mem_upd_defs srb_get_defs)
qed

lemma ErrorEx_answers:
  assumes "buffers_fit srb m"
  shows "answers srb m (snd (SpdScsiErrorEx srb K A Q i m))"
  using assms
  by (auto simp: SpdScsiErrorEx_def Let_def answers_def srb_set_defs mem_upd_defs srb_get_defs
        buffers_fit_def word_le_nat_alt answer_lengths)

lemma reply_zero_answers:
  assumes "buffers_fit srb m" and "SrbGetDataBuffer m srb \<noteq> 0"
    and "\<And>b. unat n \<le> length b \<Longrightarrow> length (f b) = length b"
  shows "answers srb m (snd (reply srb n f (zero_data_buffer srb m)))"
proof -
  note z = zero_answers [OF assms(1,2)]
  have "SrbGetDataBuffer (zero_data_buffer srb m) srb \<noteq> 0" using z assms(2) by (simp add: srb_get_defs)
  with z show ?thesis by (blast intro: answers_trans reply_answers assms(3))
qed

lemma error_zero_answers:
  assumes "buffers_fit srb m" and "SrbGetDataBuffer m srb \<noteq> 0"
  shows "answers srb m (snd (SpdScsiError srb K A (zero_data_buffer srb m)))"
  unfolding SpdScsiError_def
  using zero_answers [OF assms] by (blast intro: answers_trans ErrorEx_answers)

lemma ReportLuns_answers:
  "buffers_fit srb m \<Longrightarrow> answers srb m (snd (SpdScsiReportLuns b srb m))"
  by (auto simp: SpdScsiReportLuns_def Let_def answers_refl buf_simps codec_simps intro!: reply_zero_answers)

lemma ModeSense_answers:
  "buffers_fit srb m \<Longrightarrow> answers srb m (snd (SpdScsiModeSense u srb c m))"
  by (auto simp: SpdScsiModeSense_def Let_def answers_refl answer_lengths
        intro!: reply_zero_answers error_zero_answers)

lemma ReadCapacity_answers:
  assumes "buffers_fit srb m"
  shows "answers srb m (snd (SpdScsiReadCapacity u srb c m))"
proof (cases "SrbGetDataBuffer m srb = 0")
  case False
  note z = zero_answers [OF assms False]
  show ?thesis
    using assms False z
    by (auto simp: SpdScsiReadCapacity_def Let_def answer_lengths intro!: reply_zero_answers)
qed (simp add: SpdScsiReadCapacity_def answers_refl)

lemma Inquiry_answers:
  assumes "buffers_fit srb m" and "unit_sized u" and "SpdScsiInquiry u srb c m = Some (st, m')"
  shows "answers srb m m'"
proof (cases "SrbGetDataBuffer m srb = 0")
  case False
  have n: "unat (4 + PageCount) = 9" "unat (12 + Identifier0Length + Identifier1Length) = 84"
    by (simp_all add: PageCount_def Identifier0Length_def Identifier1Length_def)
  define mz where "mz = zero_data_buffer srb m"
  have "answers srb m (snd (reply srb 36 (inquiry_data u) mz))"
    "answers srb m (snd (reply srb (4 + PageCount) (vpd_supported_pages u) mz))"
    "answers srb m (snd (reply srb (4 + 36) (vpd_serial_number u) mz))"
    "answers srb m (snd (reply srb (4 + 4 + Identifier0Length + 4 + Identifier1Length) (vpd_identification u) mz))"
    "answers srb m (snd (reply srb 64 (vpd_block_limits u) mz))"
    "answers srb m (snd (reply srb 8 (vpd_logical_block_provisioning u) mz))"
    unfolding mz_def
    by (rule reply_zero_answers [OF assms(1) False], simp add: answer_lengths n assms(2))+
  moreover have "answers srb m
      (snd (SpdScsiError srb SCSI_SENSE_ILLEGAL_REQUEST SCSI_ADSENSE_INVALID_CDB mz))"
    unfolding mz_def by (rule error_zero_answers [OF assms(1) False])
  ultimately show ?thesis using assms(3) False
    by (auto simp: SpdScsiInquiry_def Let_def mz_def [symmetric] split: if_splits)
qed (use assms in \<open>simp add: SpdScsiInquiry_def answers_refl\<close>)

section \<open>The whole command\<close>

text \<open>What a command may do to the buffers: the same, without the extensions and notifications.\<close>

definition buffers_safe :: "ptr \<Rightarrow> kmem \<Rightarrow> kmem \<Rightarrow> bool" where
  "buffers_safe srb m m' \<longleftrightarrow> (\<forall>p. length (bufs m' p) = length (bufs m p)) \<and>
     (\<forall>p. p \<noteq> SrbGetDataBuffer m srb \<and> p \<noteq> SrbGetSenseInfoBuffer m srb \<longrightarrow> bufs m' p = bufs m p)"

lemma answers_safe: "answers srb m m' \<Longrightarrow> buffers_safe srb m m'"
  by (simp add: answers_def buffers_safe_def)

lemma safe_same: "bufs m' = bufs m \<Longrightarrow> buffers_safe srb m m'"
  by (simp add: buffers_safe_def)

lemma safe_then_same: "buffers_safe srb m m1 \<Longrightarrow> bufs m2 = bufs m1 \<Longrightarrow> buffers_safe srb m m2"
  by (simp add: buffers_safe_def)

lemma SpdIoqDelete_bufs [simp]: "bufs (SpdIoqDelete q m) = bufs m"
  by (simp add: SpdIoqDelete_def SpdIoqReset_def Let_def)

lemma Dereference_bufs: "SpdStorageUnitDereference p k = Some k' \<Longrightarrow> bufs (mem k') = bufs (mem k)"
  by (auto simp: SpdStorageUnitDereference_def Let_def kernel_upd_defs split: if_splits bind_splits)

lemma PostSrb_bufs: "SpdScsiPostSrb sa p srb n k = Some (st, k') \<Longrightarrow> bufs (mem k') = bufs (mem k)"
  by (auto simp: SpdScsiPostSrb_def SpdIoqPostSrb_def Let_def kernel_upd_defs mem_upd_defs srb_set_defs
        split: if_splits bind_splits prod.splits)

text \<open>Results that are safe, along the structure of the routines.\<close>

definition safe_result :: "ptr \<Rightarrow> kmem \<Rightarrow> ('a \<times> kernel) option \<Rightarrow> bool" where
  "safe_result srb m r \<longleftrightarrow> (\<forall>st k'. r = Some (st, k') \<longrightarrow> buffers_safe srb m (mem k'))"

named_theorems safe_intros "introduction rules of safe results"

lemma safe_if [safe_intros]:
  "(c \<Longrightarrow> safe_result srb m a) \<Longrightarrow> (\<not> c \<Longrightarrow> safe_result srb m b) \<Longrightarrow> safe_result srb m (if c then a else b)"
  by simp

lemma safe_bind [safe_intros]:
  "(\<And>x. a = Some x \<Longrightarrow> safe_result srb m (f x)) \<Longrightarrow> safe_result srb m (a \<bind> f)"
  by (cases a) (simp_all add: safe_result_def)

lemma safe_ret: "buffers_safe srb m (snd r) \<Longrightarrow> safe_result srb m (ret_mem k r)"
  by (simp add: safe_result_def ret_mem_def)

lemma safe_keep: "bufs (mem k) = bufs m \<Longrightarrow> safe_result srb m (Some (st, k))"
  by (simp add: safe_result_def safe_same)

lemma safe_post: "bufs (mem k) = bufs m \<Longrightarrow> safe_result srb m (SpdScsiPostSrb sa p srb n k)"
  by (auto simp: safe_result_def dest!: PostSrb_bufs intro: safe_same)

lemma safe_prod [safe_intros]:
  "(\<And>a b. x = (a, b) \<Longrightarrow> safe_result srb m (f a b)) \<Longrightarrow> safe_result srb m (case x of (a, b) \<Rightarrow> f a b)"
  by (cases x) simp

lemma ErrorEx_safe: "buffers_fit srb m \<Longrightarrow> buffers_safe srb m (snd (SpdScsiError srb K A m))"
  unfolding SpdScsiError_def by (intro answers_safe ErrorEx_answers)

lemma PostRange_safe:
  "buffers_fit srb (mem k) \<Longrightarrow> safe_result srb (mem k) (SpdScsiPostRangeSrb sa p u srb c k)"
  unfolding SpdScsiPostRangeSrb_def Let_def
  by (intro safe_intros safe_ret safe_keep safe_post ErrorEx_safe refl)

lemma PostUnmap_safe:
  "buffers_fit srb (mem k) \<Longrightarrow> safe_result srb (mem k) (SpdScsiPostUnmapSrb sa p u srb c k)"
  unfolding SpdScsiPostUnmapSrb_def Let_def
  by (intro safe_intros safe_ret safe_keep safe_post ErrorEx_safe refl)

lemma Inquiry_safe:
  "buffers_fit srb (mem k) \<Longrightarrow> unit_sized u \<Longrightarrow>
   safe_result srb (mem k) (do { r \<leftarrow> SpdScsiInquiry u srb c (mem k); ret_mem k r })"
  by (rule safe_bind, rule safe_ret, rule answers_safe) (metis Inquiry_answers prod.collapse)

lemma Reference_mem: "SpdStorageUnitReference srb k = Some (p, k') \<Longrightarrow> mem k' = mem k \<and>
    (\<forall>u'. p \<noteq> 0 \<longrightarrow> units k' p = Some u' \<longrightarrow> (\<exists>u. units k p = Some u \<and> u' = u\<lparr>RefCount := RefCount u + 1\<rparr>))"
  by (auto simp: SpdStorageUnitReference_def ReferenceByBtl_add_ref add_ref_def kernel_upd_defs
        split: if_splits bind_splits prod.splits)

lemma safe_command:
  assumes "buffers_fit srb (mem k)" and "unit_sized u"
  shows "safe_result srb (mem k)
    (if op = SCSIOP_REPORT_LUNS then ret_mem k (SpdScsiReportLuns True srb (mem k))
     else if op = SCSIOP_TEST_UNIT_READY then Some (SRB_STATUS_SUCCESS, k)
     else if op = SCSIOP_INQUIRY
     then do { r \<leftarrow> SpdScsiInquiry u srb c (mem k); ret_mem k r }
     else if op = SCSIOP_MODE_SENSE \<or> op = SCSIOP_MODE_SENSE10
     then ret_mem k (SpdScsiModeSense u srb c (mem k))
     else if op = SCSIOP_READ_CAPACITY
     then ret_mem k (SpdScsiReadCapacity u srb c (mem k))
     else if is_read op \<or> is_write op \<or> is_flush op
     then SpdScsiPostRangeSrb sa p u srb c k
     else if op = SCSIOP_UNMAP then SpdScsiPostUnmapSrb sa p u srb c k
     else if op = SCSIOP_SERVICE_ACTION_IN16 \<and> c ! 1 AND 0x1f = SERVICE_ACTION_READ_CAPACITY16
     then ret_mem k (SpdScsiReadCapacity u srb c (mem k))
     else Some (SRB_STATUS_INVALID_REQUEST, k))"
  by (intro safe_if PostRange_safe PostUnmap_safe Inquiry_safe safe_ret safe_keep refl assms
        answers_safe ReportLuns_answers ModeSense_answers ReadCapacity_answers)

lemma safe_dereference:
  assumes "safe_result srb m X"
  shows "safe_result srb m (do { (st, k2) \<leftarrow> X; k3 \<leftarrow> SpdStorageUnitDereference p k2; Some (st, k3) })"
proof (cases X)
  case (Some x)
  obtain st2 k2 where x: "x = (st2, k2)" by (cases x)
  have "buffers_safe srb m (mem k2)" using assms by (simp add: safe_result_def Some x)
  then show ?thesis
    by (auto simp: safe_result_def Some x bind_eq_Some_conv dest!: Dereference_bufs intro: safe_then_same)
qed (simp add: safe_result_def)

lemma safe_on_unit:
  assumes ref: "SpdStorageUnitReference srb k = Some (p, k1)" and fit: "buffers_fit srb (mem k)"
    and sized: "\<And>p u. units k p = Some u \<Longrightarrow> unit_sized u"
    and X: "\<And>u. buffers_fit srb (mem k1) \<Longrightarrow> unit_sized u \<Longrightarrow> safe_result srb (mem k1) (X u)"
  shows "safe_result srb (mem k) (if p = 0
      then if op = SCSIOP_REPORT_LUNS then ret_mem k1 (SpdScsiReportLuns False srb (mem k1))
           else Some (SRB_STATUS_NO_DEVICE, k1)
      else do { u \<leftarrow> units k1 p; (st, k2) \<leftarrow> X u; k3 \<leftarrow> SpdStorageUnitDereference p k2; Some (st, k3) })"
proof -
  note m1 = Reference_mem [OF ref]
  then have m: "mem k = mem k1" and fit1: "buffers_fit srb (mem k1)" using fit by simp_all
  show ?thesis
    unfolding m
  proof (rule safe_if)
    show "safe_result srb (mem k1) (if op = SCSIOP_REPORT_LUNS
        then ret_mem k1 (SpdScsiReportLuns False srb (mem k1)) else Some (SRB_STATUS_NO_DEVICE, k1))"
      by (intro safe_if safe_ret safe_keep answers_safe ReportLuns_answers fit1 refl)
  next
    assume p: "p \<noteq> 0"
    show "safe_result srb (mem k1)
        (do { u \<leftarrow> units k1 p; (st, k2) \<leftarrow> X u; k3 \<leftarrow> SpdStorageUnitDereference p k2; Some (st, k3) })"
    proof (rule safe_bind)
      fix u assume "units k1 p = Some u"
      then have "unit_sized u" using m1 p sized by (fastforce simp: unit_sized_def)
      then show "safe_result srb (mem k1)
          (do { (st, k2) \<leftarrow> X u; k3 \<leftarrow> SpdStorageUnitDereference p k2; Some (st, k3) })"
        by (intro safe_dereference X fit1)
    qed
  qed
qed

lemma ExecuteScsi_safe:
  assumes "buffers_fit srb (mem k)" and "\<And>p u. units k p = Some u \<Longrightarrow> unit_sized u"
  shows "safe_result srb (mem k) (SpdSrbExecuteScsi sa srb k)"
  unfolding SpdSrbExecuteScsi_def Let_def
  by (rule safe_bind, rule safe_prod, hypsubst, rule safe_on_unit [OF _ assms], assumption+)
     (rule safe_command)

text \<open>
  A concrete request: the unit of the demonstration gets an INQUIRY for 36 octets at address 0x100,
  with 18 octets for sense data at 0x200.
\<close>

definition inquiry_srb :: SRB where
  "inquiry_srb = \<lparr>Function = 0, SrbStatus = 0, ScsiStat = 0, PathId = 0, TargetId = 0, Lun = 0,
     SenseInfoBufferLength = 18, SrbFlags = 0, DataTransferLength = 36, DataBuffer = 0x100,
     SenseInfoBuffer = 0x200, NextSrb = 0, SrbExtension = 0x1001, InternalStatus = STATUS_SUCCESS,
     Cdb = [SCSIOP_INQUIRY, 0, 0, 0, 36, 0, 0, 0, 0, 0, 0, 0, 0, 0, 0, 0], PnPAction = 0, SrbPnPFlags = 0\<rparr>"

definition inquiry_mem :: kmem where
  "inquiry_mem = \<lparr>srbs = \<lambda>_. inquiry_srb, exts = \<lambda>_. zero_ext,
     bufs = \<lambda>p. if p = 0x100 then replicate 36 0 else if p = 0x200 then replicate 18 0 else [],
     notifications = []\<rparr>"

definition inquiry_kernel :: kernel where
  "inquiry_kernel = demo_kernel\<lparr>mem := inquiry_mem\<rparr>"

definition demo_unit :: SPD_STORAGE_UNIT where
  "demo_unit = (init_unit demo_params 7)\<lparr>UnitIoq := Some demo_ioq\<rparr>"

lemma inquiry_kernel_fields:
  "units inquiry_kernel = [1 \<mapsto> demo_unit]" "mem inquiry_kernel = inquiry_mem"
  "unit_at 0 inquiry_kernel = 1"
  by (simp_all add: inquiry_kernel_def demo_units demo_unit_def unit_at_def SPD_IOCTL_BTL_B_def
        SPD_IOCTL_BTL_L_def SPD_IOCTL_BTL_T_def)
     (simp add: demo_kernel_def provisioned_def kernel_upd_defs empty_kernel_def)

lemma length_left_align [simp]: "length (left_align s) = length s"
proof -
  have "length (left_align_loop b s) = length s" for b by (induction b s rule: left_align_loop.induct) auto
  then show ?thesis by (simp add: left_align_def)
qed

lemma init_unit_sized: "params_sized P \<Longrightarrow> unit_sized (init_unit P pid)"
  using serial_number_identifies_length [of "Guid P"]
  by (simp add: params_sized_def unit_sized_def init_unit_def)

lemma unit_sized_upd [simp]:
  "unit_sized (u\<lparr>RefCount := n\<rparr>) = unit_sized u" "unit_sized (u\<lparr>UnitIoq := q\<rparr>) = unit_sized u"
  by (simp_all add: unit_sized_def)

lemma demo_unit_sized: "unit_sized demo_unit"
  unfolding demo_unit_def unit_sized_upd
  by (rule init_unit_sized) (simp add: params_sized_def demo_params_def demo_guid_def)

text \<open>C11: A command stays inside the buffers of its request: whatever the command block is, no octet
  behind the data buffer or the sense buffer is written (a buffer would grow), and no other buffer is
  touched, provided that the lengths in the request are not larger than the buffers.\<close>

theorem scsi_commands_stay_in_buffers:
  assumes "buffers_fit srb (mem k)" and "\<And>p u. units k p = Some u \<Longrightarrow> unit_sized u"
    and "SpdSrbExecuteScsi sysaddr srb k = Some (st, k')"
  shows "(\<forall>p. length (bufs (mem k') p) = length (bufs (mem k) p)) \<and>
    (\<forall>p. p \<noteq> SrbGetDataBuffer (mem k) srb \<and> p \<noteq> SrbGetSenseInfoBuffer (mem k) srb \<longrightarrow>
      bufs (mem k') p = bufs (mem k) p)"
  using ExecuteScsi_safe [OF assms(1,2), where sa = sysaddr] assms(3)
  by (auto simp: safe_result_def buffers_safe_def)

lemma inquiry_run: "\<exists>k'. SpdSrbExecuteScsi (STOR_STATUS_SUCCESS, 0) 1 inquiry_kernel = Some (SRB_STATUS_SUCCESS, k')"
proof -
  have ref: "SpdStorageUnitReference 1 inquiry_kernel =
      Some (1, set_unit 1 (demo_unit\<lparr>RefCount := 2\<rparr>) inquiry_kernel)"
    by (simp add: SpdStorageUnitReference_def ReferenceByBtl_add_ref inquiry_kernel_fields srb_get_defs
          inquiry_mem_def inquiry_srb_def SPD_IOCTL_BTL_def add_ref_def)
       (simp add: demo_unit_def init_unit_def)
  have u: "units (set_unit 1 (demo_unit\<lparr>RefCount := 2\<rparr>) inquiry_kernel) 1 = Some (demo_unit\<lparr>RefCount := 2\<rparr>)"
    by (simp add: set_unit_def)
  have i: "\<exists>m. SpdScsiInquiry (demo_unit\<lparr>RefCount := 2\<rparr>) 1 (SrbGetCdb inquiry_mem 1) inquiry_mem = Some (SRB_STATUS_SUCCESS, m)"
    by (simp add: SpdScsiInquiry_def inquiry_mem_def inquiry_srb_def srb_get_defs Let_def reply_def
          EnableVitalProductData_def InquiryPageCode_def zero_data_buffer_def upd_buf_def)
  have cdb: "SrbGetCdb inquiry_mem 1 ! 0 = SCSIOP_INQUIRY"
    by (simp add: srb_get_defs inquiry_mem_def inquiry_srb_def)
  from i show ?thesis
    by (auto simp: SpdSrbExecuteScsi_def Let_def ref u ret_mem_def inquiry_kernel_fields cdb set_unit_def
          SpdStorageUnitDereference_def)
qed

lemma inquiry_fits: "buffers_fit 1 (mem inquiry_kernel)"
  by (simp add: inquiry_kernel_fields buffers_fit_def srb_get_defs inquiry_mem_def inquiry_srb_def)

lemma inquiry_sized: "units inquiry_kernel p = Some u \<Longrightarrow> unit_sized u"
  by (auto simp: inquiry_kernel_fields demo_unit_sized split: if_splits)

theorem scsi_commands_stay_in_buffers_witness:
  "\<exists>k'. SpdSrbExecuteScsi (STOR_STATUS_SUCCESS, 0) 1 inquiry_kernel = Some (SRB_STATUS_SUCCESS, k') \<and>
     length (bufs (mem k') 0x100) = 36 \<and> length (bufs (mem k') 0x200) = 18 \<and> bufs (mem k') 0x300 = []"
proof -
  obtain k' where r: "SpdSrbExecuteScsi (STOR_STATUS_SUCCESS, 0) 1 inquiry_kernel = Some (SRB_STATUS_SUCCESS, k')"
    using inquiry_run by blast
  have "SrbGetDataBuffer (mem inquiry_kernel) 1 = 0x100" "SrbGetSenseInfoBuffer (mem inquiry_kernel) 1 = 0x200"
    "length (bufs (mem inquiry_kernel) 0x100) = 36" "length (bufs (mem inquiry_kernel) 0x200) = 18"
    "bufs (mem inquiry_kernel) 0x300 = []"
    by (simp_all add: inquiry_kernel_fields srb_get_defs inquiry_mem_def inquiry_srb_def)
  with scsi_commands_stay_in_buffers [OF inquiry_fits inquiry_sized r] r show ?thesis by simp
qed

section \<open>Answers read back\<close>

lemma reply_zero:
  assumes "SrbGetDataBuffer m srb \<noteq> 0" and "n \<le> SrbGetDataTransferLength m srb" and "buffers_fit srb m"
  obtains m' where "reply srb n f (zero_data_buffer srb m) = (SRB_STATUS_SUCCESS, m')"
    and "bufs m' (SrbGetDataBuffer m srb) =
      f (zero_memory (unat (SrbGetDataTransferLength m srb)) (bufs m (SrbGetDataBuffer m srb)))"
    and "SrbGetDataTransferLength m' srb = n"
    and "unat n \<le> length (zero_memory (unat (SrbGetDataTransferLength m srb)) (bufs m (SrbGetDataBuffer m srb)))"
proof -
  note len = length_zero_buf [OF assms(3,1)]
  have "unat n \<le> length (bufs m (SrbGetDataBuffer m srb))"
    using assms by (simp add: buffers_fit_def word_le_nat_alt)
  with assms(2) show thesis
    by (intro that [of "SrbSetDataTransferLength srb n (upd_buf (SrbGetDataBuffer m srb) f (zero_data_buffer srb m))"])
       (simp_all add: reply_def zero_data_buffer_def srb_get_defs srb_set_defs mem_upd_defs
          len [unfolded srb_get_defs] not_less)
qed

lemma slice_put_bits_after: "k < i \<or> i + n \<le> k \<Longrightarrow> slice (put_bits k m v b) i n = slice b i n"
  by (rule slice_put_bits_other) auto

text \<open>READ CAPACITY tells the size of the unit. The 16-octet form answers the last block and the
  block length exactly; the 10-octet form answers the same, or 0xffffffff for a unit of more than
  2^32 - 1 blocks, as the standard asks.\<close>

lemma read_capacity_reads_back:
  assumes "SrbGetDataBuffer m srb \<noteq> 0" and "buffers_fit srb m" and "32 \<le> SrbGetDataTransferLength m srb"
  shows "\<exists>m'. SpdScsiReadCapacity u srb c m = (SRB_STATUS_SUCCESS, m') \<and>
    (let b = bufs m' (SrbGetDataBuffer m srb); par = StorageUnitParams u
     in if c ! 0 = SCSIOP_READ_CAPACITY
        then SrbGetDataTransferLength m' srb = 8 \<and> get32 (slice b 4 4) = BlockLength par \<and>
          get32 (slice b 0 4) = (if BlockCount par < 0x100000000 then ucast (BlockCount par) - 1 else 0xffffffff)
        else SrbGetDataTransferLength m' srb = 32 \<and> get32 (slice b 8 4) = BlockLength par \<and>
          get64 (slice b 0 8) = BlockCount par - 1)"
proof -
  have dz: "SrbGetDataTransferLength (zero_data_buffer srb m) srb = SrbGetDataTransferLength m srb"
    by (simp add: zero_data_buffer_def srb_get_defs mem_upd_defs)
  have le: "8 \<le> SrbGetDataTransferLength m srb" "\<not> SrbGetDataTransferLength m srb < 12"
    using assms(3) by (auto simp: word_le_nat_alt word_less_nat_alt)
  show ?thesis
  proof (cases "c ! 0 = SCSIOP_READ_CAPACITY")
    case True
    obtain m' where m': "reply srb 8 (read_capacity10 u) (zero_data_buffer srb m) = (SRB_STATUS_SUCCESS, m')"
      "bufs m' (SrbGetDataBuffer m srb) = read_capacity10 u
        (zero_memory (unat (SrbGetDataTransferLength m srb)) (bufs m (SrbGetDataBuffer m srb)))"
      "SrbGetDataTransferLength m' srb = 8"
      "unat (8 :: u32) \<le> length (zero_memory (unat (SrbGetDataTransferLength m srb)) (bufs m (SrbGetDataBuffer m srb)))"
      by (rule reply_zero [OF assms(1) le(1) assms(2)])
    have fields: "get32 (slice (read_capacity10 u b) 4 4) = BlockLength (StorageUnitParams u)"
      "get32 (slice (read_capacity10 u b) 0 4) = (if BlockCount (StorageUnitParams u) < 0x100000000
        then ucast (BlockCount (StorageUnitParams u)) - 1 else 0xffffffff)" if "8 \<le> length b" for b
      using that by (simp_all add: read_capacity10_def Let_def buf_simps codec_simps f32.dec_enc)
    with True assms(1) m' show ?thesis
      by (intro exI [of _ m']) (simp add: SpdScsiReadCapacity_def Let_def)
  next
    case False
    obtain m' where m': "reply srb 32 (read_capacity16 True u) (zero_data_buffer srb m) = (SRB_STATUS_SUCCESS, m')"
      "bufs m' (SrbGetDataBuffer m srb) = read_capacity16 True u
        (zero_memory (unat (SrbGetDataTransferLength m srb)) (bufs m (SrbGetDataBuffer m srb)))"
      "SrbGetDataTransferLength m' srb = 32"
      "unat (32 :: u32) \<le> length (zero_memory (unat (SrbGetDataTransferLength m srb)) (bufs m (SrbGetDataBuffer m srb)))"
      by (rule reply_zero [OF assms(1,3,2)])
    have fields: "get32 (slice (read_capacity16 True u b) 8 4) = BlockLength (StorageUnitParams u)"
      "get64 (slice (read_capacity16 True u b) 0 8) = BlockCount (StorageUnitParams u) - 1" if "32 \<le> length b" for b
      using that by (simp_all add: read_capacity16_def Let_def buf_simps codec_simps f32.dec_enc f64.dec_enc)
    with False assms(1,3) m' le(2) show ?thesis
      by (intro exI [of _ m']) (simp add: SpdScsiReadCapacity_def Let_def dz)
  qed
qed

definition capacity_mem :: kmem where
  "capacity_mem = inquiry_mem\<lparr>srbs := \<lambda>_. inquiry_srb\<lparr>Cdb := SCSIOP_READ_CAPACITY # replicate 15 0\<rparr>\<rparr>"

lemma read_capacity_reads_back_witness:
  "\<exists>m'. SpdScsiReadCapacity demo_unit 1 (SrbGetCdb capacity_mem 1) capacity_mem = (SRB_STATUS_SUCCESS, m') \<and>
     get32 (slice (bufs m' 0x100) 0 4) = 1023 \<and> get32 (slice (bufs m' 0x100) 4 4) = 512"
proof -
  have f: "SrbGetDataBuffer capacity_mem 1 = 0x100" "SrbGetDataTransferLength capacity_mem 1 = 36"
    "SrbGetCdb capacity_mem 1 ! 0 = SCSIOP_READ_CAPACITY" "buffers_fit 1 capacity_mem"
    by (simp_all add: capacity_mem_def inquiry_mem_def inquiry_srb_def srb_get_defs buffers_fit_def)
  have p: "BlockCount (StorageUnitParams demo_unit) = 1024" "BlockLength (StorageUnitParams demo_unit) = 512"
    by (simp_all add: demo_unit_def demo_params_def)
  show ?thesis
    using read_capacity_reads_back [of capacity_mem 1 demo_unit "SrbGetCdb capacity_mem 1"] f p
    by (auto simp: Let_def)
qed

lemma slice_update_before: "k < i \<Longrightarrow> slice (xs[k := v]) i n = slice xs i n"
  by (simp add: slice_def)

text \<open>A check condition carries its sense data: when the request has a sense buffer of at least 18
  octets, error code, key, additional codes and the information can be read back at their places, and
  the length octet is that of 18 octets. The information field has 32 bits: of a larger value only
  the low half arrives, although the valid bit is set.\<close>

lemma sense_data_reads_back:
  assumes "18 \<le> n" and "n \<le> length b"
  shows "let s = sense_data n Key Code Qualifier Info b in
    length s = length b \<and> s ! 0 AND 0x7f = 0x70 \<and> s ! 2 AND 0x0f = Key AND 0x0f \<and>
    s ! 7 = 10 \<and> s ! 12 = Code \<and> s ! 13 = Qualifier \<and>
    (case Info of None \<Rightarrow> s ! 0 AND 0x80 = 0
     | Some i \<Rightarrow> s ! 0 AND 0x80 = 0x80 \<and> get32 (slice s 3 4) = ucast i)"
proof -
  define z where "z = zero_memory n b"
  have z: "length z = length b" "z ! 0 = 0" "18 \<le> length z"
    using assms by (simp_all add: z_def length_zero_memory)
       (simp add: zero_memory_def splice_def nth_append)
  have ne: "b \<noteq> []" "z \<noteq> []" using assms z by auto
  show ?thesis
  proof (cases Info)
    case None
    then show ?thesis
      using assms z ne by (simp add: sense_data_def Let_def z_def [symmetric] buf_simps put_bits_def put_def nth_splice
          word_bw_assocs bit.conj_disj_distrib2)
  next
    case (Some i)
    then show ?thesis
      using assms z ne by (simp add: sense_data_def Let_def z_def [symmetric] buf_simps put_bits_def put_def nth_splice
          word_bw_assocs bit.conj_disj_distrib2 codec_simps f32.dec_enc slice_update_before)
  qed
qed

lemma sense_data_reads_back_witness:
  "let s = sense_data 18 5 0x24 1 (Some 0x100000007) (replicate 20 0xff)
   in length s = 20 \<and> s ! 2 AND 0x0f = 5 \<and> s ! 12 = 0x24 \<and> s ! 13 = 1 \<and> get32 (slice s 3 4) = 7"
  using sense_data_reads_back [where n = 18 and b = "replicate 20 0xff" and Key = 5 and Code = "0x24" and Qualifier = 1
      and Info = "Some 0x100000007"]
  by (simp add: Let_def)

section \<open>MODE SENSE\<close>

lemma ModePc_small: "ModePc c \<noteq> MODE_SENSE_CHANGEABLE_VALUES"
proof
  assume "ModePc c = MODE_SENSE_CHANGEABLE_VALUES"
  then have "bit (drop_bit 6 (c ! 2)) 6 = bit (0x40 :: u8) 6" by (simp add: ModePc_def)
  then show False by (auto simp: bit_simps dest: bit_imp_le_length)
qed

text \<open>MODE SENSE does not look at the page control. The code tests the two bits of the field against
  the constant 0x40, which is the value of the bits in place, so the test never holds and a request for
  the changeable values is answered with the current ones.\<close>

lemma mode_sense_ignores_page_control:
  assumes "3 \<le> length c"
  shows "SpdScsiModeSense u srb (c[2 := (c ! 2 AND 0x3f) OR pc AND 0xc0]) m = SpdScsiModeSense u srb c m"
proof -
  have "((c ! 2 AND 0x3f) OR pc AND 0xc0) AND 0x3f = c ! 2 AND 0x3f"
    by (simp add: bit.conj_disj_distrib2 word_bw_assocs)
  then have "ModePageCode (c[2 := (c ! 2 AND 0x3f) OR pc AND 0xc0]) = ModePageCode c"
    using assms by (simp add: ModePageCode_def)
  moreover have "c[2 := (c ! 2 AND 0x3f) OR pc AND 0xc0] ! 0 = c ! 0" by simp
  ultimately show ?thesis unfolding SpdScsiModeSense_def using ModePc_small by presburger
qed

theorem mode_sense_ignores_page_control_witness:
  "SpdScsiModeSense demo_unit 1 [SCSIOP_MODE_SENSE, 0, 0x48, 0, 16, 0] capacity_mem =
   SpdScsiModeSense demo_unit 1 [SCSIOP_MODE_SENSE, 0, 0x08, 0, 16, 0] capacity_mem"
  using mode_sense_ignores_page_control [where c = "[SCSIOP_MODE_SENSE, 0, 0x08, 0, 16, 0]" and u = demo_unit
      and srb = 1 and pc = "0x40" and m = capacity_mem]
  by simp

end
