(* ===== verification/StgHandle.thy ===== *)
theory StgHandle
  imports Ioctl_Types
begin

text \<open>
  The handle of a storage unit in user mode: src/shared/stghandle.c. A handle is a device of the
  driver or a named pipe that takes the place of the driver; here is the pipe.

  The outcome of each asynchronous operation on the pipe is an argument. What the unit does to
  the pipe is a result: the list of the messages it wrote and of its disconnects.
\<close>

section \<open>Errors\<close>

abbreviation ERROR_SUCCESS :: u32 where "ERROR_SUCCESS \<equiv> 0"
abbreviation ERROR_FILE_NOT_FOUND :: u32 where "ERROR_FILE_NOT_FOUND \<equiv> 2"
abbreviation ERROR_NO_MORE_FILES :: u32 where "ERROR_NO_MORE_FILES \<equiv> 18"
abbreviation ERROR_CANNOT_MAKE :: u32 where "ERROR_CANNOT_MAKE \<equiv> 82"
abbreviation ERROR_INVALID_PARAMETER :: u32 where "ERROR_INVALID_PARAMETER \<equiv> 87"
abbreviation ERROR_BROKEN_PIPE :: u32 where "ERROR_BROKEN_PIPE \<equiv> 109"
abbreviation ERROR_INSUFFICIENT_BUFFER :: u32 where "ERROR_INSUFFICIENT_BUFFER \<equiv> 122"
abbreviation ERROR_ALREADY_EXISTS :: u32 where "ERROR_ALREADY_EXISTS \<equiv> 183"
abbreviation ERROR_NO_DATA :: u32 where "ERROR_NO_DATA \<equiv> 232"
abbreviation ERROR_PIPE_CONNECTED :: u32 where "ERROR_PIPE_CONNECTED \<equiv> 535"
abbreviation ERROR_OPERATION_ABORTED :: u32 where "ERROR_OPERATION_ABORTED \<equiv> 995"
abbreviation ERROR_IO_PENDING :: u32 where "ERROR_IO_PENDING \<equiv> 997"
abbreviation ERROR_NO_SYSTEM_RESOURCES :: u32 where "ERROR_NO_SYSTEM_RESOURCES \<equiv> 1450"

section \<open>State\<close>

text \<open>A bucket of the hint table is the list of its items, from the head on.\<close>

record STORAGE_UNIT =
  su_Params :: SPD_IOCTL_STORAGE_UNIT_PARAMS
  su_Event :: bool
  su_Connected :: u32
  su_HashBuckets :: "(u64 \<times> u32) list list"

text \<open>
  The global table, null until it is allocated, and the units that are allocated. \<open>su_Event\<close> is
  whether the event that stops the unit is set.
\<close>

record pipe_units =
  su_table :: "ptr list option"
  su_heap :: "ptr \<rightharpoonup> STORAGE_UNIT"

definition HashMix64 :: "u64 \<Rightarrow> u64" where
  "HashMix64 k =
     (let k = k XOR drop_bit 33 k;
          k = k * 0xff51afd7ed558ccd;
          k = k XOR drop_bit 33 k;
          k = k * 0xc4ceb9fe1a85ec53;
          k = k XOR drop_bit 33 k
      in k)"

definition HashIndex :: "u64 \<Rightarrow> nat" where "HashIndex Hint = unat (HashMix64 Hint mod 61)"

section \<open>Hints\<close>

text \<open>The loop that unlinks the first item with the hint: its value and the rest of the bucket.\<close>

fun take_hint_loop :: "u64 \<Rightarrow> (u64 \<times> u32) list \<Rightarrow> u32 \<times> (u64 \<times> u32) list" where
  "take_hint_loop Hint [] = (0, [])"
| "take_hint_loop Hint (Item # rest) =
     (if fst Item = Hint then (snd Item, rest)
      else case take_hint_loop Hint rest of (v, rest) \<Rightarrow> (v, Item # rest))"

definition TakeHintValue :: "u64 \<Rightarrow> STORAGE_UNIT \<Rightarrow> u32 \<times> STORAGE_UNIT" where
  "TakeHintValue Hint su =
     (let i = HashIndex Hint
      in case take_hint_loop Hint (su_HashBuckets su ! i) of
           (v, b) \<Rightarrow> (v, su\<lparr>su_HashBuckets := (su_HashBuckets su)[i := b]\<rparr>))"

text \<open>A hint that is there already is refused; \<open>allocated\<close> is whether there is memory for an item.\<close>

definition PutHintValue :: "bool \<Rightarrow> u64 \<Rightarrow> u32 \<Rightarrow> STORAGE_UNIT \<Rightarrow> bool \<times> STORAGE_UNIT" where
  "PutHintValue allocated Hint Value su =
     (let i = HashIndex Hint;
          b = su_HashBuckets su ! i
      in if Hint \<in> fst ` set b then (False, su)
         else if \<not> allocated then (False, su)
         else (True, su\<lparr>su_HashBuckets := (su_HashBuckets su)[i := (Hint, Value) # b]\<rparr>))"

text \<open>Field by field, the octets of the last one each on its own.\<close>

definition GuidEqual :: "GUID \<Rightarrow> GUID \<Rightarrow> bool" where
  "GuidEqual a b \<longleftrightarrow> Data1 a = Data1 b \<and> Data2 a = Data2 b \<and> Data3 a = Data3 b \<and>
     (\<forall>i \<in> {..<8}. Data4 a ! i = Data4 b ! i)"

section \<open>Opening a pipe\<close>

fun pipe_scan ::
    "(ptr \<rightharpoonup> STORAGE_UNIT) \<Rightarrow> GUID \<Rightarrow> ptr list \<Rightarrow> u32 \<Rightarrow> u32 \<Rightarrow> (ptr \<times> u32) option" where
  "pipe_scan us g [] I Btl = Some (0, Btl)"
| "pipe_scan us g (Unit # rest) I Btl =
     (if Unit = 0
      then pipe_scan us g rest (I + 1) (if Btl = - 1 then SPD_BTL_FROM_INDEX I else Btl)
      else do {
        u \<leftarrow> us Unit;
        if GuidEqual g (Guid (su_Params u)) then Some (Unit, Btl)
        else pipe_scan us g rest (I + 1) Btl
      })"

definition new_pipe_unit :: "SPD_IOCTL_STORAGE_UNIT_PARAMS \<Rightarrow> STORAGE_UNIT" where
  "new_pipe_unit Params =
     \<lparr>su_Params = Params, su_Event = False, su_Connected = 0, su_HashBuckets = replicate 61 []\<rparr>"

text \<open>The exit of an error: the slot that was taken is freed again, and the unit.\<close>

definition open_pipe_fail ::
    "u32 \<Rightarrow> ptr \<Rightarrow> ptr \<Rightarrow> u32 \<Rightarrow> pipe_units \<Rightarrow> u32 \<times> ptr \<times> u32 \<times> pipe_units" where
  "open_pipe_fail Error Duplicate p Btl s =
     (let s = (if Duplicate = 0 \<and> Btl \<noteq> - 1
               then s\<lparr>su_table := map_option (\<lambda>t. t[unat (SPD_INDEX_FROM_BTL Btl) := 0]) (su_table s)\<rparr>
               else s);
          s = (if p \<noteq> 0 then s\<lparr>su_heap := (su_heap s)(p := None)\<rparr> else s)
      in (Error, 0, - 1, s))"

text \<open>
  \<open>table_allocated\<close> and \<open>pool\<close> are the results of the two allocations, \<open>event\<close> and \<open>pipe\<close> the
  errors of \<open>CreateEventW\<close> and \<open>CreateNamedPipeW\<close>. The result is the error, the unit (0 for an
  invalid handle) and its address.
\<close>

definition SpdStorageUnitHandleOpenPipe ::
    "bool \<Rightarrow> ptr \<Rightarrow> u32 \<Rightarrow> u32 \<Rightarrow> SPD_IOCTL_STORAGE_UNIT_PARAMS \<Rightarrow> pipe_units \<Rightarrow>
     (u32 \<times> ptr \<times> u32 \<times> pipe_units) option" where
  "SpdStorageUnitHandleOpenPipe table_allocated pool event pipe Params s =
     (if su_table s = None \<and> \<not> table_allocated
      then Some (open_pipe_fail ERROR_NO_SYSTEM_RESOURCES 0 0 (- 1) s)
      else
        let table = (case su_table s of Some t \<Rightarrow> t
              | None \<Rightarrow> replicate (unat SPD_IOCTL_STORAGE_UNIT_MAX_CAPACITY) 0);
            s = s\<lparr>su_table := Some table\<rparr>
        in if pool = 0 then Some (open_pipe_fail ERROR_NO_SYSTEM_RESOURCES 0 0 (- 1) s)
           else do {
             let s = s\<lparr>su_heap := (su_heap s)(pool \<mapsto> new_pipe_unit Params)\<rparr>;
             (Duplicate, Btl) \<leftarrow> pipe_scan (su_heap s) (Guid Params)
                (take (unat SPD_IOCTL_STORAGE_UNIT_MAX_CAPACITY) table) 0 (- 1);
             let s = (if Duplicate = 0 \<and> Btl \<noteq> - 1
                      then s\<lparr>su_table := Some (table[unat (SPD_INDEX_FROM_BTL Btl) := pool])\<rparr>
                      else s);
             Some (if Duplicate \<noteq> 0 then open_pipe_fail ERROR_ALREADY_EXISTS Duplicate pool Btl s
                   else if Btl = - 1 then open_pipe_fail ERROR_CANNOT_MAKE 0 pool Btl s
                   else if event \<noteq> ERROR_SUCCESS then open_pipe_fail event 0 pool Btl s
                   else if pipe \<noteq> ERROR_SUCCESS then open_pipe_fail pipe 0 pool Btl s
                   else (ERROR_SUCCESS, pool, Btl, s))
           })"

section \<open>Asynchronous operations\<close>

datatype wait_result = WAIT_OBJECT_0 | WAIT_OBJECT_1 | WAIT_FAILED

text \<open>
  What the system does with one operation: whether it started at once and if not its error, which
  of the two events ended the wait, and the result of the operation.
\<close>

record overlapped =
  ov_success :: bool
  ov_last_error :: u32
  ov_wait :: wait_result
  ov_wait_error :: u32
  ov_result :: bool
  ov_result_error :: u32
  ov_bytes :: u32

definition WaitOverlappedResult :: "overlapped \<Rightarrow> u32 \<times> u32" where
  "WaitOverlappedResult ov =
     (if \<not> ov_success ov \<and> ov_last_error ov \<noteq> ERROR_IO_PENDING then (ov_last_error ov, 0)
      else case ov_wait ov of
          WAIT_OBJECT_0 \<Rightarrow> (ERROR_OPERATION_ABORTED, ov_bytes ov)
        | WAIT_OBJECT_1 \<Rightarrow> if \<not> ov_result ov then (ov_result_error ov, ov_bytes ov)
                            else (ERROR_SUCCESS, ov_bytes ov)
        | WAIT_FAILED \<Rightarrow> (ov_wait_error ov, 0))"

section \<open>Transact\<close>

datatype pipe_out =
    WroteParams SPD_IOCTL_STORAGE_UNIT_PARAMS
  | WroteRsp SPD_IOCTL_TRANSACT_RSP bytes
  | Disconnected

definition sizeof_TRANSACT_MSG :: u32 where "sizeof_TRANSACT_MSG = 48"

text \<open>
  The outcomes for one call: the event for the overlapped structure, the memory for the message
  and for a hint, the four operations, and the message that the read put into the buffer.
\<close>

record transact_io =
  io_init_error :: u32
  io_msg_allocated :: bool
  io_hint_allocated :: bool
  io_connect :: overlapped
  io_params :: overlapped
  io_write :: overlapped
  io_read :: overlapped
  io_msg_req :: SPD_IOCTL_TRANSACT_REQ
  io_msg_data :: bytes

definition set_su :: "ptr \<Rightarrow> STORAGE_UNIT \<Rightarrow> pipe_units \<Rightarrow> pipe_units" where
  "set_su p u s = s\<lparr>su_heap := (su_heap s)(p \<mapsto> u)\<rparr>"

text \<open>
  The connect, under the lock of the unit. \<open>Connected\<close> is positive while a client is connected and
  grows with each client; a disconnect makes it negative.
\<close>

definition pipe_connect :: "transact_io \<Rightarrow> STORAGE_UNIT \<Rightarrow> u32 \<times> pipe_out list \<times> STORAGE_UNIT" where
  "pipe_connect io su =
     (if sint (su_Connected su) \<le> 0 then
        (let Error = fst (WaitOverlappedResult (io_connect io))
         in if Error = ERROR_SUCCESS \<or> Error = ERROR_PIPE_CONNECTED then
              (let Error = fst (WaitOverlappedResult (io_params io))
               in if Error = ERROR_SUCCESS
                  then (ERROR_SUCCESS, [WroteParams (su_Params su)],
                        su\<lparr>su_Connected := - su_Connected su + 1\<rparr>)
                  else (ERROR_NO_DATA, [Disconnected], su))
            else (Error, [], su))
      else (ERROR_SUCCESS, [], su))"

text \<open>The disconnect, which happens only if no other thread has done it since.\<close>

definition pipe_disconnect :: "u32 \<Rightarrow> STORAGE_UNIT \<Rightarrow> pipe_out list \<times> STORAGE_UNIT" where
  "pipe_disconnect Connected su =
     (if Connected = su_Connected su
      then ([Disconnected], su\<lparr>su_Connected := - su_Connected su\<rparr>) else ([], su))"

text \<open>
  The data of a write or an unmap request: what came with the message, and zeros behind it. The
  result is the new contents of the caller's buffer.
\<close>

definition receive_data :: "u32 \<Rightarrow> u32 \<Rightarrow> bytes \<Rightarrow> bytes \<Rightarrow> bytes" where
  "receive_data BytesTransferred DataLength msg Data =
     (let n = BytesTransferred - sizeof_TRANSACT_MSG;
          n = (if DataLength < n then DataLength else n)
      in put (unat n) (replicate (unat (DataLength - n)) 0) (put 0 (slice msg 0 (unat n)) Data))"

text \<open>How the request half of a call ends.\<close>

datatype req_result = Disconnect | ZeroOut | Deliver SPD_IOCTL_TRANSACT_REQ bytes

definition pipe_receive :: "transact_io \<Rightarrow> bytes \<Rightarrow> STORAGE_UNIT \<Rightarrow> req_result \<times> STORAGE_UNIT" where
  "pipe_receive io Data su =
     (let par = su_Params su;
          Req = io_msg_req io
      in case WaitOverlappedResult (io_read io) of (Error, BytesTransferred) \<Rightarrow>
           if Error \<noteq> ERROR_SUCCESS then (Disconnect, su)
           else if BytesTransferred < sizeof_TRANSACT_MSG then (ZeroOut, su)
           else if Req_Kind Req = SpdIoctlTransactReadKind then
             (let DataLength = Op_BlockCount (Req_Op Req) * BlockLength par
              in if MaxTransferLength par < DataLength then (ZeroOut, su)
                 else case PutHintValue (io_hint_allocated io) (Req_Hint Req) DataLength su of
                        (ok, su) \<Rightarrow> if \<not> ok then (ZeroOut, su) else (Deliver Req Data, su))
           else if Req_Kind Req = SpdIoctlTransactWriteKind then
             (let DataLength = Op_BlockCount (Req_Op Req) * BlockLength par
              in if MaxTransferLength par < DataLength then (ZeroOut, su)
                 else (Deliver Req (receive_data BytesTransferred DataLength (io_msg_data io) Data), su))
           else if Req_Kind Req = SpdIoctlTransactUnmapKind then
             (let DataLength = Op_UnmapCount (Req_Op Req) * 16
              in if MaxTransferLength par < DataLength then (ZeroOut, su)
                 else (Deliver Req (receive_data BytesTransferred DataLength (io_msg_data io) Data), su))
           else (Deliver Req Data, su))"

text \<open>
  The response half: the message carries the data of a read, as much as the read asked for. Data
  that the message buffer has no room for would be written behind it.
\<close>

definition pipe_respond ::
    "transact_io \<Rightarrow> SPD_IOCTL_TRANSACT_RSP \<Rightarrow> bytes option \<Rightarrow> STORAGE_UNIT \<Rightarrow>
     (u32 \<times> pipe_out list \<times> STORAGE_UNIT) option" where
  "pipe_respond io Rsp Data su =
     (case (if Rsp_Kind Rsp = SpdIoctlTransactReadKind \<and> Data \<noteq> None
            then TakeHintValue (Rsp_Hint Rsp) su else (0, su)) of (DataLength, su) \<Rightarrow>
        if MaxTransferLength (su_Params su) < DataLength then None
        else
          let d = (case Data of Some d \<Rightarrow> slice d 0 (unat DataLength) | None \<Rightarrow> []);
              Error = fst (WaitOverlappedResult (io_write io))
          in Some (Error, if Error = ERROR_SUCCESS then [WroteRsp Rsp d] else [], su))"

text \<open>
  The whole call, for the unit at \<open>p\<close>. \<open>want\<close> is whether the caller passed a request to fill. The
  result is the error, the request, the data buffer and what was done to the pipe.
\<close>

definition SpdStorageUnitHandleTransactPipe ::
    "transact_io \<Rightarrow> ptr \<Rightarrow> u32 \<Rightarrow> SPD_IOCTL_TRANSACT_RSP option \<Rightarrow> SPD_IOCTL_TRANSACT_REQ option \<Rightarrow>
     bytes option \<Rightarrow> pipe_units \<Rightarrow>
     (u32 \<times> SPD_IOCTL_TRANSACT_REQ option \<times> bytes option \<times> pipe_out list \<times> pipe_units) option" where
  "SpdStorageUnitHandleTransactPipe io p Btl Rsp Req Data s =
     (let zeroed = map_option (\<lambda>_. zero_req) Req
      in if (Req = None \<and> Rsp = None) \<or> (Req \<noteq> None \<and> Data = None)
         then Some (ERROR_INVALID_PARAMETER, Req, Data, [], s)
         else if io_init_error io \<noteq> ERROR_SUCCESS then Some (io_init_error io, Req, Data, [], s)
         else do {
           table \<leftarrow> su_table s;
           let i = unat (SPD_INDEX_FROM_BTL Btl);
           if length table \<le> i then None
           else if table ! i \<noteq> p then Some (ERROR_FILE_NOT_FOUND, Req, Data, [], s)
           else if \<not> io_msg_allocated io then Some (ERROR_NO_SYSTEM_RESOURCES, Req, Data, [], s)
           else do {
             su \<leftarrow> su_heap s p;
             let (Error, out1, su) = pipe_connect io su;
             let Connected = su_Connected su;
             if Error = ERROR_NO_DATA then Some (ERROR_SUCCESS, zeroed, Data, out1, set_su p su s)
             else if Error \<noteq> ERROR_SUCCESS then Some (Error, Req, Data, out1, set_su p su s)
             else do {
               (Error, out2, su) \<leftarrow> (case Rsp of None \<Rightarrow> Some (ERROR_SUCCESS, [], su)
                  | Some Rsp \<Rightarrow> pipe_respond io Rsp Data su);
               if Error \<noteq> ERROR_SUCCESS
               then (case pipe_disconnect Connected su of (out3, su) \<Rightarrow>
                       Some (ERROR_SUCCESS, zeroed, Data, out1 @ out2 @ out3, set_su p su s))
               else (case (Req, Data) of
                   (Some _, Some d) \<Rightarrow>
                     (case pipe_receive io d su of
                        (Disconnect, su) \<Rightarrow>
                          (case pipe_disconnect Connected su of (out3, su) \<Rightarrow>
                             Some (ERROR_SUCCESS, zeroed, Data, out1 @ out2 @ out3, set_su p su s))
                      | (ZeroOut, su) \<Rightarrow>
                          Some (ERROR_SUCCESS, zeroed, Data, out1 @ out2, set_su p su s)
                      | (Deliver req d, su) \<Rightarrow>
                          Some (ERROR_SUCCESS, Some req, Some d, out1 @ out2, set_su p su s))
                 | _ \<Rightarrow> Some (ERROR_SUCCESS, Req, Data, out1 @ out2, set_su p su s))
             }
           }
         })"

section \<open>Shutdown and close\<close>

fun pipe_guid_scan ::
    "(ptr \<rightharpoonup> STORAGE_UNIT) \<Rightarrow> GUID \<Rightarrow> ptr list \<Rightarrow> nat \<Rightarrow> nat option option" where
  "pipe_guid_scan us g [] I = Some None"
| "pipe_guid_scan us g (Unit # rest) I =
     (if Unit = 0 then pipe_guid_scan us g rest (I + 1)
      else do {
        u \<leftarrow> us Unit;
        if GuidEqual g (Guid (su_Params u)) then Some (Some I) else pipe_guid_scan us g rest (I + 1)
      })"

definition SpdStorageUnitHandleShutdownPipe :: "ptr \<Rightarrow> GUID \<Rightarrow> pipe_units \<Rightarrow> (u32 \<times> pipe_units) option" where
  "SpdStorageUnitHandleShutdownPipe p g s = do {
     table \<leftarrow> su_table s;
     r \<leftarrow> pipe_guid_scan (su_heap s) g (take (unat SPD_IOCTL_STORAGE_UNIT_MAX_CAPACITY) table) 0;
     (case r of
        Some i \<Rightarrow>
          if table ! i = p then do {
            su \<leftarrow> su_heap s p;
            Some (ERROR_SUCCESS, set_su p (su\<lparr>su_Event := True\<rparr>) (s\<lparr>su_table := Some (table[i := 0])\<rparr>))
          } else Some (ERROR_FILE_NOT_FOUND, s)
      | None \<Rightarrow> Some (ERROR_FILE_NOT_FOUND, s))
   }"

definition SpdStorageUnitHandleClosePipe :: "ptr \<Rightarrow> pipe_units \<Rightarrow> (u32 \<times> pipe_units) option" where
  "SpdStorageUnitHandleClosePipe p s = do {
     su \<leftarrow> su_heap s p;
     Some (ERROR_SUCCESS, s\<lparr>su_heap := (su_heap s)(p := None)\<rparr>)
   }"

section \<open>Pipes and devices\<close>

text \<open>Opening a device provisions the unit; the device is closed again if that fails.\<close>

definition SpdStorageUnitHandleOpenDevice ::
    "u32 \<times> ptr \<Rightarrow> u32 \<times> u32 \<Rightarrow> u32 \<times> ptr option \<times> u32 \<times> bool" where
  "SpdStorageUnitHandleOpenDevice open_device provision =
     (case open_device of (Error, Handle) \<Rightarrow>
        if Error \<noteq> ERROR_SUCCESS then (Error, None, - 1, False)
        else case provision of (Error, Btl) \<Rightarrow>
          if Error \<noteq> ERROR_SUCCESS then (Error, None, - 1, True)
          else (ERROR_SUCCESS, Some Handle, Btl, False))"

text \<open>The prefix of a name that selects a pipe, backslash backslash dot backslash pipe backslash.\<close>

definition is_pipe_name :: "u16 list \<Rightarrow> bool" where
  "is_pipe_name Name \<longleftrightarrow> take 9 Name = [0x5c, 0x5c, 0x2e, 0x5c, 0x70, 0x69, 0x70, 0x65, 0x5c]"

text \<open>A pipe is marked in the lowest bit of its handle.\<close>

definition IsPipeHandle :: "ptr \<Rightarrow> bool" where "IsPipeHandle h \<longleftrightarrow> h AND 1 \<noteq> 0"
definition GetPipeHandle :: "ptr \<Rightarrow> ptr" where "GetPipeHandle h = h AND NOT 1"
definition SetPipeHandle :: "ptr \<Rightarrow> ptr" where "SetPipeHandle h = h OR 1"

end
