(* ===== verification/Dispatcher.thy ===== *)
theory Dispatcher
  imports StgHandle
begin

text \<open>
  The dispatcher of a storage unit in user mode: src/shared/stgunit.c, with the inline functions
  of inc/winspd/winspd.h. A thread of the dispatcher sends the response to its last request, takes
  the next request, and calls the operation of the storage device for it.

  The device's operations and the transport are arguments. An operation works on a state of the
  device of any type \<open>'w\<close>, which the transport may change, too.
\<close>

section \<open>State\<close>

text \<open>
  An operation gets the data buffer, the address, the count and whether to flush, and returns
  whether it is complete, the new data buffer and the status. Each may be missing.
\<close>

record 'w SPD_STORAGE_UNIT_INTERFACE =
  ReadOp :: "(bytes \<Rightarrow> u64 \<Rightarrow> u32 \<Rightarrow> u32 \<Rightarrow> SPD_IOCTL_STORAGE_UNIT_STATUS \<Rightarrow> 'w \<Rightarrow>
    bool \<times> bytes \<times> SPD_IOCTL_STORAGE_UNIT_STATUS \<times> 'w) option"
  WriteOp :: "(bytes \<Rightarrow> u64 \<Rightarrow> u32 \<Rightarrow> u32 \<Rightarrow> SPD_IOCTL_STORAGE_UNIT_STATUS \<Rightarrow> 'w \<Rightarrow>
    bool \<times> bytes \<times> SPD_IOCTL_STORAGE_UNIT_STATUS \<times> 'w) option"
  FlushOp :: "(u64 \<Rightarrow> u32 \<Rightarrow> SPD_IOCTL_STORAGE_UNIT_STATUS \<Rightarrow> 'w \<Rightarrow>
    bool \<times> SPD_IOCTL_STORAGE_UNIT_STATUS \<times> 'w) option"
  UnmapOp :: "(bytes \<Rightarrow> u32 \<Rightarrow> SPD_IOCTL_STORAGE_UNIT_STATUS \<Rightarrow> 'w \<Rightarrow>
    bool \<times> bytes \<times> SPD_IOCTL_STORAGE_UNIT_STATUS \<times> 'w) option"

record unit_object =
  uo_Params :: SPD_IOCTL_STORAGE_UNIT_PARAMS
  uo_Handle :: ptr
  uo_Btl :: u32
  uo_DispatcherThread :: bool
  uo_DispatcherThreadCount :: u32
  uo_DispatcherError :: u32
  uo_DebugLog :: u32

section \<open>Sense\<close>

definition SpdStorageUnitStatusSetSense ::
    "u8 \<Rightarrow> u8 \<Rightarrow> u64 option \<Rightarrow> SPD_IOCTL_STORAGE_UNIT_STATUS \<Rightarrow> SPD_IOCTL_STORAGE_UNIT_STATUS" where
  "SpdStorageUnitStatusSetSense Key Code PInformation st =
     (let st = st\<lparr>ScsiStatus := SCSISTAT_CHECK_CONDITION, SenseKey := Key, ASC := Code\<rparr>
      in case PInformation of None \<Rightarrow> st
         | Some i \<Rightarrow> st\<lparr>Information := i, InformationValid := True\<rparr>)"

text \<open>The first error stays.\<close>

definition SpdStorageUnitSetDispatcherError :: "u32 \<Rightarrow> unit_object \<Rightarrow> unit_object" where
  "SpdStorageUnitSetDispatcherError Error uo =
     (if Error = ERROR_SUCCESS then uo
      else if uo_DispatcherError uo = ERROR_SUCCESS then uo\<lparr>uo_DispatcherError := Error\<rparr> else uo)"

definition SpdStorageUnitGetDispatcherError :: "unit_object \<Rightarrow> u32" where
  "SpdStorageUnitGetDispatcherError uo = uo_DispatcherError uo"

section \<open>One request\<close>

definition invalid_op :: "SPD_IOCTL_STORAGE_UNIT_STATUS \<Rightarrow> SPD_IOCTL_STORAGE_UNIT_STATUS" where
  "invalid_op st = SpdStorageUnitStatusSetSense SCSI_SENSE_ILLEGAL_REQUEST SCSI_ADSENSE_ILLEGAL_COMMAND None st"

text \<open>The switch over the kind of the request, on a response that has been cleared.\<close>

definition dispatch_op ::
    "'w SPD_STORAGE_UNIT_INTERFACE \<Rightarrow> SPD_IOCTL_TRANSACT_REQ \<Rightarrow> bytes \<Rightarrow> 'w \<Rightarrow>
     bool \<times> bytes \<times> SPD_IOCTL_STORAGE_UNIT_STATUS \<times> 'w" where
  "dispatch_op Interface Req Data w =
     (let st = zero_status; u = Req_Op Req; invalid = (True, Data, invalid_op st, w)
      in if Req_Kind Req = SpdIoctlTransactReadKind then
           (case ReadOp Interface of None \<Rightarrow> invalid
            | Some f \<Rightarrow> f Data (Op_BlockAddress u) (Op_BlockCount u) (Op_ForceUnitAccess u) st w)
         else if Req_Kind Req = SpdIoctlTransactWriteKind then
           (case WriteOp Interface of None \<Rightarrow> invalid
            | Some f \<Rightarrow> f Data (Op_BlockAddress u) (Op_BlockCount u) (Op_ForceUnitAccess u) st w)
         else if Req_Kind Req = SpdIoctlTransactFlushKind then
           (case FlushOp Interface of None \<Rightarrow> invalid
            | Some f \<Rightarrow> (case f (Op_BlockAddress u) (Op_BlockCount u) st w of (c, st, w) \<Rightarrow> (c, Data, st, w)))
         else if Req_Kind Req = SpdIoctlTransactUnmapKind then
           (case UnmapOp Interface of None \<Rightarrow> invalid
            | Some f \<Rightarrow> f Data (Op_UnmapCount u) st w)
         else invalid)"

text \<open>
  One turn of the loop. The transport is called with the response to the last request and a zeroed
  request. \<open>Inl\<close> is the error that ends the thread, \<open>Inr\<close> the response for the next turn, if
  there is one.
\<close>

type_synonym 'w transport =
  "SPD_IOCTL_TRANSACT_RSP option \<Rightarrow> SPD_IOCTL_TRANSACT_REQ \<Rightarrow> bytes \<Rightarrow> 'w \<Rightarrow>
   u32 \<times> SPD_IOCTL_TRANSACT_REQ \<times> bytes \<times> 'w"

definition dispatcher_turn ::
    "'w transport \<Rightarrow> 'w SPD_STORAGE_UNIT_INTERFACE \<Rightarrow>
     SPD_IOCTL_TRANSACT_RSP option \<times> bytes \<times> 'w \<Rightarrow>
     u32 + SPD_IOCTL_TRANSACT_RSP option \<times> bytes \<times> 'w" where
  "dispatcher_turn transact Interface = (\<lambda>(Response, Data, w).
     case transact Response zero_req Data w of (Error, Request, Data, w) \<Rightarrow>
       if Error \<noteq> ERROR_SUCCESS then Inl Error
       else if Req_Hint Request = 0 then Inr (None, Data, w)
       else case dispatch_op Interface Request Data w of (Complete, Data, st, w) \<Rightarrow>
         Inr (if Complete then Some \<lparr>Rsp_Hint = Req_Hint Request, Rsp_Kind = Req_Kind Request, Rsp_Status = st\<rparr>
              else None, Data, w))"

text \<open>The loop ends only with an error of the transport; \<open>None\<close> while it runs.\<close>

fun dispatcher_loop ::
    "nat \<Rightarrow> 'w transport \<Rightarrow> 'w SPD_STORAGE_UNIT_INTERFACE \<Rightarrow>
     SPD_IOCTL_TRANSACT_RSP option \<times> bytes \<times> 'w \<Rightarrow> u32 option" where
  "dispatcher_loop 0 transact Interface s = None"
| "dispatcher_loop (Suc n) transact Interface s =
     (case dispatcher_turn transact Interface s of
        Inl Error \<Rightarrow> Some Error
      | Inr s \<Rightarrow> dispatcher_loop n transact Interface s)"

text \<open>
  The frame of a thread: the data buffer, the next thread, which is created before the loop while
  the count is above 1, and at the end a flush of the cache by the first thread. \<open>run\<close> is the
  error with which the loop ended. The result is the error, the unit and whether the flush is done.
\<close>

definition SpdStorageUnitDispatcherThread ::
    "bool \<Rightarrow> u32 \<Rightarrow> u32 \<Rightarrow> bool \<Rightarrow> bool \<Rightarrow> unit_object \<Rightarrow> u32 \<times> unit_object \<times> bool" where
  "SpdStorageUnitDispatcherThread buffer_allocated create_error run first_thread has_flush uo =
     (let more = buffer_allocated \<and> 1 < uo_DispatcherThreadCount uo;
          uo = (if more then uo\<lparr>uo_DispatcherThreadCount := uo_DispatcherThreadCount uo - 1\<rparr> else uo);
          Error = (if \<not> buffer_allocated then ERROR_NO_SYSTEM_RESOURCES
                   else if more \<and> create_error \<noteq> ERROR_SUCCESS then create_error else run);
          uo = SpdStorageUnitSetDispatcherError Error uo
      in (Error, uo, first_thread \<and> CacheSupported (uo_Params uo) \<and> has_flush))"

section \<open>Starting\<close>

text \<open>The loop that counts the processors of an affinity mask.\<close>

function count_processors :: "u64 \<Rightarrow> u32 \<Rightarrow> u32" where
  "count_processors ProcessMask ThreadCount =
     (if ProcessMask = 0 then ThreadCount
      else count_processors (drop_bit 1 ProcessMask) (ThreadCount + ucast (ProcessMask AND 1)))"
  by pat_completeness auto

termination
proof (relation "measure (\<lambda>(m, _). unat m)")
  fix ProcessMask :: u64 and ThreadCount :: u32
  assume "ProcessMask \<noteq> 0"
  then have "0 < unat ProcessMask" by (simp add: unat_gt_0)
  moreover have "unat (drop_bit 1 ProcessMask) = unat ProcessMask div 2"
    by (simp add: drop_bit_eq_div unat_div)
  ultimately show "((drop_bit 1 ProcessMask, ThreadCount + ucast (ProcessMask AND 1)), ProcessMask, ThreadCount)
      \<in> measure (\<lambda>(m, _). unat m)"
    by simp
qed simp

declare count_processors.simps [simp del]

text \<open>
  \<open>affinity\<close> is the affinity mask or the error of asking for it, \<open>create_error\<close> the error of creating
  the thread, \<open>resume\<close> the result of \<open>ResumeThread\<close>, which is the previous suspend count.
\<close>

definition SpdStorageUnitStartDispatcher ::
    "u32 + u64 \<Rightarrow> u32 \<Rightarrow> u32 \<Rightarrow> u32 \<Rightarrow> u32 \<Rightarrow> unit_object \<Rightarrow> u32 \<times> unit_object" where
  "SpdStorageUnitStartDispatcher affinity create_error resume last_error ThreadCount uo =
     (if uo_DispatcherThread uo then (ERROR_INVALID_PARAMETER, uo)
      else case (if ThreadCount = 0
                 then (case affinity of Inl e \<Rightarrow> Inl e | Inr m \<Rightarrow> Inr (count_processors m 0))
                 else Inr ThreadCount) of
          Inl e \<Rightarrow> (e, uo)
        | Inr ThreadCount \<Rightarrow>
            let uo = uo\<lparr>uo_DispatcherThreadCount := ThreadCount\<rparr>
            in if create_error \<noteq> ERROR_SUCCESS then (create_error, uo)
               else let uo = uo\<lparr>uo_DispatcherThread := True\<rparr>
                    in if resume = 0 then (last_error, uo) else (ERROR_SUCCESS, uo))"

definition SpdStorageUnitWaitDispatcher :: "unit_object \<Rightarrow> unit_object" where
  "SpdStorageUnitWaitDispatcher uo =
     (if \<not> uo_DispatcherThread uo then uo else uo\<lparr>uo_DispatcherThread := False\<rparr>)"

text \<open>A response that an operation sends later; an error of the transport shuts the unit down.\<close>

definition SpdStorageUnitSendResponse :: "u32 \<Rightarrow> unit_object \<Rightarrow> bool \<times> unit_object" where
  "SpdStorageUnitSendResponse Error uo =
     (if Error \<noteq> ERROR_SUCCESS then (True, SpdStorageUnitSetDispatcherError Error uo) else (False, uo))"

section \<open>Creating\<close>

record tls =
  TlsCount :: u32
  TlsKey :: "u32 option"

definition SpdStorageUnitTlsInit :: "u32 option \<Rightarrow> tls \<Rightarrow> tls" where
  "SpdStorageUnitTlsInit TlsAlloc t =
     (let t = t\<lparr>TlsCount := TlsCount t + 1\<rparr>
      in if TlsCount t = 1 then t\<lparr>TlsKey := TlsAlloc\<rparr> else t)"

definition SpdStorageUnitTlsFini :: "tls \<Rightarrow> tls" where
  "SpdStorageUnitTlsFini t =
     (let t = t\<lparr>TlsCount := TlsCount t - 1\<rparr>
      in if TlsCount t = 0 \<and> TlsKey t \<noteq> None then t\<lparr>TlsKey := None\<rparr> else t)"

text \<open>
  \<open>opened\<close> is the result of \<open>SpdStorageUnitHandleOpen\<close>: an error, or the handle and the address.
\<close>

definition SpdStorageUnitCreate ::
    "u32 option \<Rightarrow> bool \<Rightarrow> u32 + ptr \<times> u32 \<Rightarrow> SPD_IOCTL_STORAGE_UNIT_PARAMS \<Rightarrow> tls \<Rightarrow>
     (u32 + unit_object) \<times> tls" where
  "SpdStorageUnitCreate TlsAlloc allocated opened Params t =
     (let t = SpdStorageUnitTlsInit TlsAlloc t
      in if TlsKey t = None then (Inl ERROR_NO_SYSTEM_RESOURCES, SpdStorageUnitTlsFini t)
         else if \<not> allocated then (Inl ERROR_NO_SYSTEM_RESOURCES, SpdStorageUnitTlsFini t)
         else case opened of
             Inl Error \<Rightarrow> (Inl Error, SpdStorageUnitTlsFini t)
           | Inr (Handle, Btl) \<Rightarrow>
               (Inr \<lparr>uo_Params = Params, uo_Handle = Handle, uo_Btl = Btl, uo_DispatcherThread = False,
                  uo_DispatcherThreadCount = 0, uo_DispatcherError = 0, uo_DebugLog = 0\<rparr>, t))"

definition SpdStorageUnitDelete :: "tls \<Rightarrow> tls" where
  "SpdStorageUnitDelete t = SpdStorageUnitTlsFini t"

end
