(* ===== verification/Block_Device.thy ===== *)
theory Block_Device
  imports Dispatcher
begin

text \<open>
  What the driver and the dispatcher rely on when they hand a read or a write to the operations of a
  storage device: an interface over the routine that acts on a request (\<open>dispatch_op\<close> of an interface)
  and the octets of the device.
\<close>

text \<open>The blocks of a request are inside the device, and its data fits in the data buffer.\<close>

definition req_octets :: "nat \<Rightarrow> SPD_IOCTL_TRANSACT_REQ \<Rightarrow> nat" where
  "req_octets BL Req = unat (Op_BlockCount (Req_Op Req)) * BL"

definition req_offset :: "nat \<Rightarrow> SPD_IOCTL_TRANSACT_REQ \<Rightarrow> nat" where
  "req_offset BL Req = unat (Op_BlockAddress (Req_Op Req)) * BL"

definition request_inside :: "nat \<Rightarrow> SPD_IOCTL_TRANSACT_REQ \<Rightarrow> bytes \<Rightarrow> bool" where
  "request_inside BL Req disk \<longleftrightarrow>
     req_offset BL Req + req_octets BL Req \<le> length disk \<and> req_octets BL Req < 2 ^ 32"

definition request_fits :: "nat \<Rightarrow> SPD_IOCTL_TRANSACT_REQ \<Rightarrow> bytes \<Rightarrow> bytes \<Rightarrow> bool" where
  "request_fits BL Req Data disk \<longleftrightarrow> request_inside BL Req disk \<and> req_octets BL Req \<le> length Data"

text \<open>
  A device in working order does what a request that fits asks for, answers with good status at once,
  and stays in working order.
\<close>

locale block_device =
  fixes act :: "SPD_IOCTL_TRANSACT_REQ \<Rightarrow> bytes \<Rightarrow> 'w \<Rightarrow> bool \<times> bytes \<times> SPD_IOCTL_STORAGE_UNIT_STATUS \<times> 'w"
    and disk :: "'w \<Rightarrow> bytes" and ok :: "'w \<Rightarrow> bool" and BL :: nat
  assumes act_read: "ok w \<Longrightarrow> Req_Kind Req = SpdIoctlTransactReadKind \<Longrightarrow> request_fits BL Req Data (disk w) \<Longrightarrow>
      \<exists>Data' w'. act Req Data w = (True, Data', zero_status, w') \<and> ok w' \<and> disk w' = disk w \<and>
        length Data' = length Data \<and>
        slice Data' 0 (req_octets BL Req) = slice (disk w) (req_offset BL Req) (req_octets BL Req)"
    and act_write: "ok w \<Longrightarrow> Req_Kind Req = SpdIoctlTransactWriteKind \<Longrightarrow> request_fits BL Req Data (disk w) \<Longrightarrow>
      \<exists>Data' w'. act Req Data w = (True, Data', zero_status, w') \<and> ok w' \<and> length Data' = length Data \<and>
        disk w' = put (req_offset BL Req) (slice Data 0 (req_octets BL Req)) (disk w)"

text \<open>The descriptors of an unmap as octet ranges.\<close>

definition unmap_range :: "nat \<Rightarrow> bytes \<Rightarrow> nat \<Rightarrow> nat \<times> nat" where
  "unmap_range BL Data I =
     (unat (getl64 (slice Data (16 * I) 8)) * BL, unat (getl32 (slice Data (16 * I + 8) 4)) * BL)"

definition unmap_ok :: "nat \<Rightarrow> bytes \<Rightarrow> nat \<Rightarrow> bytes \<Rightarrow> bool" where
  "unmap_ok BL Data I disk \<longleftrightarrow>
     (case unmap_range BL Data I of (off, n) \<Rightarrow> off + n \<le> length disk \<and> n < 2 ^ 32)"

text \<open>
  A device that also flushes and unmaps: a flush keeps the octets, an unmap of descriptors inside the
  device makes the octets of their blocks zero and keeps the others.
\<close>

locale thin_device = block_device act disk ok BL
  for act :: "SPD_IOCTL_TRANSACT_REQ \<Rightarrow> bytes \<Rightarrow> 'w \<Rightarrow> bool \<times> bytes \<times> SPD_IOCTL_STORAGE_UNIT_STATUS \<times> 'w"
    and disk :: "'w \<Rightarrow> bytes" and ok :: "'w \<Rightarrow> bool" and BL :: nat +
  assumes act_flush: "ok w \<Longrightarrow> Req_Kind Req = SpdIoctlTransactFlushKind \<Longrightarrow> request_inside BL Req (disk w) \<Longrightarrow>
      \<exists>Data' w'. act Req Data w = (True, Data', zero_status, w') \<and> ok w' \<and> disk w' = disk w \<and>
        length Data' = length Data"
    and act_unmap: "ok w \<Longrightarrow> Req_Kind Req = SpdIoctlTransactUnmapKind \<Longrightarrow>
      \<forall>I < unat (Op_UnmapCount (Req_Op Req)). unmap_ok BL Data I (disk w) \<Longrightarrow>
      \<exists>Data' w'. act Req Data w = (True, Data', zero_status, w') \<and> ok w' \<and> length Data' = length Data \<and>
        length (disk w') = length (disk w) \<and>
        (\<forall>i < length (disk w). disk w' ! i =
          (if \<exists>I < unat (Op_UnmapCount (Req_Op Req)).
              fst (unmap_range BL Data I) \<le> i \<and> i < fst (unmap_range BL Data I) + snd (unmap_range BL Data I)
           then 0 else disk w ! i))"

end
