(* ===== verification/Io.thy ===== *)
theory Io
  imports Scsi
begin

text \<open>
  The entry points that StorPort calls for requests and for the adapter: src/sys/io.c and
  src/sys/adapter.c.
\<close>

abbreviation SRB_FUNCTION_EXECUTE_SCSI :: u8 where "SRB_FUNCTION_EXECUTE_SCSI \<equiv> 0x00"
abbreviation SRB_FUNCTION_SHUTDOWN :: u8 where "SRB_FUNCTION_SHUTDOWN \<equiv> 0x07"
abbreviation SRB_FUNCTION_FLUSH :: u8 where "SRB_FUNCTION_FLUSH \<equiv> 0x08"
abbreviation SRB_FUNCTION_ABORT_COMMAND :: u8 where "SRB_FUNCTION_ABORT_COMMAND \<equiv> 0x10"
abbreviation SRB_FUNCTION_RESET_BUS :: u8 where "SRB_FUNCTION_RESET_BUS \<equiv> 0x12"
abbreviation SRB_FUNCTION_RESET_DEVICE :: u8 where "SRB_FUNCTION_RESET_DEVICE \<equiv> 0x13"
abbreviation SRB_FUNCTION_WMI :: u8 where "SRB_FUNCTION_WMI \<equiv> 0x17"
abbreviation SRB_FUNCTION_RESET_LOGICAL_UNIT :: u8 where "SRB_FUNCTION_RESET_LOGICAL_UNIT \<equiv> 0x20"
abbreviation SRB_FUNCTION_PNP :: u8 where "SRB_FUNCTION_PNP \<equiv> 0x25"
abbreviation StorQueryCapabilities :: u8 where "StorQueryCapabilities \<equiv> 0x09"
abbreviation SRB_PNP_FLAGS_ADAPTER_REQUEST :: u32 where "SRB_PNP_FLAGS_ADAPTER_REQUEST \<equiv> 1"

section \<open>Resets and aborts\<close>

text \<open>\<open>SpdIoqReset(StorageUnit->Ioq, Stop)\<close> for the unit at \<open>p\<close>.\<close>

definition reset_unit :: "bool \<Rightarrow> ptr \<Rightarrow> kernel \<Rightarrow> kernel option" where
  "reset_unit Stop p k = do {
     u \<leftarrow> units k p;
     q \<leftarrow> UnitIoq u;
     let (q, m) = SpdIoqReset Stop (q, mem k);
     Some (set_unit p (u\<lparr>UnitIoq := Some q\<rparr>) (k\<lparr>mem := m\<rparr>))
   }"

definition SpdSrbAbortCommand :: "ptr \<Rightarrow> kernel \<Rightarrow> (u8 \<times> kernel) option" where
  "SpdSrbAbortCommand srb k = do {
     (p, k) \<leftarrow> SpdStorageUnitReference srb k;
     if p = 0 then Some (SRB_STATUS_NO_DEVICE, k)
     else do {
       u \<leftarrow> units k p;
       q \<leftarrow> UnitIoq u;
       (Result, q, m) \<leftarrow> SpdIoqCancelSrb srb (q, mem k);
       let k = set_unit p (u\<lparr>UnitIoq := Some q\<rparr>) (k\<lparr>mem := m\<rparr>);
       k \<leftarrow> SpdStorageUnitDereference p k;
       Some (if NT_SUCCESS Result then SRB_STATUS_SUCCESS else SRB_STATUS_ABORT_FAILED, k)
     }
   }"

text \<open>
  The loop of \<open>SpdHwResetBus\<close> and of \<open>SpdHwCompleteServiceIrp\<close>, which differ in \<open>Stop\<close>, over the
  \<open>n\<close> targets from \<open>I\<close> on.
\<close>

fun reset_units_loop :: "bool \<Rightarrow> nat \<Rightarrow> u32 \<Rightarrow> kernel \<Rightarrow> kernel option" where
  "reset_units_loop Stop 0 I k = Some k"
| "reset_units_loop Stop (Suc n) I k = do {
     (p, k) \<leftarrow> SpdStorageUnitReferenceByBtl (SPD_IOCTL_BTL 0 I 0) k;
     if p = 0 then reset_units_loop Stop n (I + 1) k
     else do {
       k \<leftarrow> reset_unit Stop p k;
       k \<leftarrow> SpdStorageUnitDereference p k;
       reset_units_loop Stop n (I + 1) k
     }
   }"

definition SpdHwResetBus :: "u32 \<Rightarrow> kernel \<Rightarrow> (bool \<times> kernel) option" where
  "SpdHwResetBus Path k =
     (if Path = 0
      then do { k \<leftarrow> reset_units_loop False (unat (StorageUnitCapacity (de k))) 0 k; Some (True, k) }
      else Some (False, k))"

definition SpdSrbResetBus :: "ptr \<Rightarrow> kernel \<Rightarrow> (u8 \<times> kernel) option" where
  "SpdSrbResetBus srb k =
     (case SrbGetPathTargetLun (mem k) srb of (P, T, L) \<Rightarrow>
        if P \<noteq> 0 then Some (SRB_STATUS_NO_DEVICE, k)
        else do { (_, k) \<leftarrow> SpdHwResetBus 0 k; Some (SRB_STATUS_SUCCESS, k) })"

definition SpdSrbResetDevice :: "ptr \<Rightarrow> kernel \<Rightarrow> (u8 \<times> kernel) option" where
  "SpdSrbResetDevice srb k =
     (case SrbGetPathTargetLun (mem k) srb of (P, T, L) \<Rightarrow> do {
        (p, k) \<leftarrow> SpdStorageUnitReferenceByBtl (SPD_IOCTL_BTL (ucast P) (ucast T) 0) k;
        if p = 0 then Some (SRB_STATUS_NO_DEVICE, k)
        else do {
          k \<leftarrow> reset_unit False p k;
          k \<leftarrow> SpdStorageUnitDereference p k;
          Some (SRB_STATUS_SUCCESS, k)
        }
      })"

definition SpdSrbResetLogicalUnit :: "ptr \<Rightarrow> kernel \<Rightarrow> (u8 \<times> kernel) option" where
  "SpdSrbResetLogicalUnit srb k = do {
     (p, k) \<leftarrow> SpdStorageUnitReference srb k;
     if p = 0 then Some (SRB_STATUS_NO_DEVICE, k)
     else do {
       k \<leftarrow> reset_unit False p k;
       k \<leftarrow> SpdStorageUnitDereference p k;
       Some (SRB_STATUS_SUCCESS, k)
     }
   }"

section \<open>The other functions\<close>

definition SpdSrbFlush :: u8 where "SpdSrbFlush = SRB_STATUS_SUCCESS"
definition SpdSrbShutdown :: u8 where "SpdSrbShutdown = SRB_STATUS_SUCCESS"
definition SpdSrbWmi :: u8 where "SpdSrbWmi = SRB_STATUS_INVALID_REQUEST"

text \<open>
  \<open>STOR_DEVICE_CAPABILITIES\<close> is 8 octets; its flags start at offset 4: \<open>Removable\<close> is bit 4,
  \<open>SilentInstall\<close> bit 7 and \<open>SurpriseRemovalOK\<close> bit 8.
\<close>

definition SpdPnpSetDeviceCapabilities :: "bytes \<Rightarrow> bytes" where
  "SpdPnpSetDeviceCapabilities b = put_bits 5 0x01 0x01 (put_bits 4 0x80 0x80 (put_bits 4 0x10 0x10 b))"

definition SpdSrbPnp :: "ptr \<Rightarrow> kmem \<Rightarrow> u8 \<times> kmem" where
  "SpdSrbPnp srb m =
     (if PnPAction (srbs m srb) = StorQueryCapabilities \<and>
         SrbPnPFlags (srbs m srb) AND SRB_PNP_FLAGS_ADAPTER_REQUEST = 0 \<and>
         SrbGetDataBuffer m srb \<noteq> 0 \<and> 8 \<le> SrbGetDataTransferLength m srb
      then (SRB_STATUS_SUCCESS, upd_buf (SrbGetDataBuffer m srb) SpdPnpSetDeviceCapabilities m)
      else (SRB_STATUS_INVALID_REQUEST, m))"

section \<open>The dispatcher\<close>

definition start_io_dispatch :: "STOR_STATUS \<times> ptr \<Rightarrow> ptr \<Rightarrow> kernel \<Rightarrow> (u8 \<times> kernel) option" where
  "start_io_dispatch sysaddr srb k =
     (let f = SrbGetSrbFunction (mem k) srb
      in if f = SRB_FUNCTION_EXECUTE_SCSI then SpdSrbExecuteScsi sysaddr srb k
         else if f = SRB_FUNCTION_ABORT_COMMAND then SpdSrbAbortCommand srb k
         else if f = SRB_FUNCTION_RESET_BUS then SpdSrbResetBus srb k
         else if f = SRB_FUNCTION_RESET_DEVICE then SpdSrbResetDevice srb k
         else if f = SRB_FUNCTION_RESET_LOGICAL_UNIT then SpdSrbResetLogicalUnit srb k
         else if f = SRB_FUNCTION_FLUSH then Some (SpdSrbFlush, k)
         else if f = SRB_FUNCTION_SHUTDOWN then Some (SpdSrbShutdown, k)
         else if f = SRB_FUNCTION_PNP then ret_mem k (SpdSrbPnp srb (mem k))
         else if f = SRB_FUNCTION_WMI then Some (SpdSrbWmi, k)
         else Some (SRB_STATUS_INVALID_REQUEST, k))"

definition start_io_finish :: "ptr \<Rightarrow> u8 \<Rightarrow> kmem \<Rightarrow> kmem" where
  "start_io_finish srb st m =
     (if SRB_STATUS st = SRB_STATUS_PENDING then m
      else
        let m = (if SRB_STATUS st = SRB_STATUS_INTERNAL_ERROR \<and> SrbGetSystemStatus m srb = STATUS_SUCCESS
                 then SrbSetSystemStatus srb STATUS_INVALID_PARAMETER m else m)
        in SpdSrbComplete srb st m)"

definition SpdHwStartIo :: "STOR_STATUS \<times> ptr \<Rightarrow> ptr \<Rightarrow> kernel \<Rightarrow> (bool \<times> kernel) option" where
  "SpdHwStartIo sysaddr srb k = do {
     (st, k) \<leftarrow> start_io_dispatch sysaddr srb k;
     Some (True, k\<lparr>mem := start_io_finish srb st (mem k)\<rparr>)
   }"

section \<open>The adapter\<close>

abbreviation SP_UNINITIALIZED_VALUE :: u32 where "SP_UNINITIALIZED_VALUE \<equiv> 0xffffffff"

record PORT_CONFIGURATION_INFORMATION =
  MaximumTransferLength :: u32
  NumberOfPhysicalBreaks :: u32
  AlignmentMask :: u32
  NumberOfBuses :: u8
  ScatterGather :: bool
  Master :: bool
  CachesData :: bool
  MaximumNumberOfTargets :: u8
  MaximumNumberOfLogicalUnits :: u8
  WmiDataProvider :: bool
  FullDuplex :: bool
  VirtualDevice :: bool

text \<open>The result is whether the adapter was found.\<close>

definition SpdHwFindAdapter ::
    "ptr \<Rightarrow> ptr \<Rightarrow> NTSTATUS \<Rightarrow> PORT_CONFIGURATION_INFORMATION \<Rightarrow> kernel \<Rightarrow>
     bool \<times> PORT_CONFIGURATION_INFORMATION \<times> kernel" where
  "SpdHwFindAdapter p BusInformation registered ConfigInfo k =
     (case SpdDeviceExtensionInit p BusInformation registered k of (Result, k) \<Rightarrow>
        if NT_SUCCESS Result
        then (True,
          ConfigInfo\<lparr>MaximumTransferLength := SP_UNINITIALIZED_VALUE,
            NumberOfPhysicalBreaks := SP_UNINITIALIZED_VALUE, AlignmentMask := 0,
            NumberOfBuses := 1, ScatterGather := True, Master := True, CachesData := True,
            MaximumNumberOfTargets := ucast (StorageUnitCapacity (de k)),
            MaximumNumberOfLogicalUnits := 1, WmiDataProvider := False, FullDuplex := True,
            VirtualDevice := True\<rparr>, k)
        else (False, ConfigInfo, k))"

definition SpdHwFreeAdapterResources :: "ptr \<Rightarrow> kernel \<Rightarrow> kernel" where
  "SpdHwFreeAdapterResources p k = SpdDeviceExtensionFini p k"

definition SpdHwInitialize :: bool where "SpdHwInitialize = True"

datatype SCSI_ADAPTER_CONTROL_TYPE =
  ScsiQuerySupportedControlTypes | ScsiStopAdapter | ScsiRestartAdapter | ScsiOtherControl nat

text \<open>The list of supported types is indexed by the number of a control type.\<close>

definition set_supported :: "nat \<Rightarrow> bool list \<Rightarrow> bool list" where
  "set_supported i types = (if i < length types then types[i := True] else types)"

definition SpdHwAdapterControl :: "SCSI_ADAPTER_CONTROL_TYPE \<Rightarrow> bool list \<Rightarrow> bool \<times> bool list" where
  "SpdHwAdapterControl t types =
     (case t of
        ScsiQuerySupportedControlTypes \<Rightarrow>
          (True, set_supported 2 (set_supported 1 (set_supported 0 types)))
      | ScsiStopAdapter \<Rightarrow> (True, types)
      | ScsiRestartAdapter \<Rightarrow> (True, types)
      | ScsiOtherControl _ \<Rightarrow> (False, types))"

end
