(* ===== verification/Ioctl.thy ===== *)
theory Ioctl
  imports Io
begin

text \<open>
  The control requests of the driver: src/sys/ioctl.c. A request is an IRP with one system
  buffer that holds the parameters on entry and the results on return. \<open>sysbuffer\<close> has one
  field for every field of the parameter structures of inc/winspd/ioctl.h; a request uses the
  ones of its code.

  \<open>SpdIoctlTransact\<close> waits for a request between two accesses to the kernel's state. What the rest
  of the kernel does while it waits is an argument: each round of the wait is a pair of a change
  of the kernel's state and of the result of the wait. When the rounds are used up the call
  has not returned (\<open>None\<close>).
\<close>

section \<open>Requests\<close>

record sysbuffer =
  Base_Size :: u16
  Base_Code :: u16
  Par_StorageUnitParams :: SPD_IOCTL_STORAGE_UNIT_PARAMS
  Par_Guid :: GUID
  Par_Btl :: u32
  Par_ProcessId :: u32
  ReqValid :: bool
  RspValid :: bool
  DataPtr :: u64
  Dir_Req :: SPD_IOCTL_TRANSACT_REQ
  Dir_Rsp :: SPD_IOCTL_TRANSACT_RSP
  Ret_Btl :: u32
  Out_List :: "u32 list"

record IRP =
  InputBufferLength :: u32
  OutputBufferLength :: u32
  SystemBuffer :: "sysbuffer option"
  RequestorProcessId :: u32
  RequestorUserMode :: bool
  UserData :: bytes
  IoStatus :: NTSTATUS
  IoInformation :: nat

text \<open>The sizes of the parameter structures.\<close>

definition sizeof_BASE_PARAMS :: u32 where "sizeof_BASE_PARAMS = 8"
definition sizeof_PROVISION_PARAMS :: u32 where "sizeof_PROVISION_PARAMS = 8 + 128"
definition sizeof_UNPROVISION_PARAMS :: u32 where "sizeof_UNPROVISION_PARAMS = 8 + 16"
definition sizeof_LIST_PARAMS :: u32 where "sizeof_LIST_PARAMS = 8"
definition sizeof_TRANSACT_PARAMS :: u32 where "sizeof_TRANSACT_PARAMS = 24 + 48"
definition sizeof_SET_TRANSACT_PID_PARAMS :: u32 where "sizeof_SET_TRANSACT_PID_PARAMS = 16"

lemmas sizeof_defs = sizeof_BASE_PARAMS_def sizeof_PROVISION_PARAMS_def sizeof_UNPROVISION_PARAMS_def
  sizeof_LIST_PARAMS_def sizeof_TRANSACT_PARAMS_def sizeof_SET_TRANSACT_PID_PARAMS_def

text \<open>The codes are the letters \<open>p u l t i\<close>.\<close>

definition SPD_IOCTL_PROVISION :: u16 where "SPD_IOCTL_PROVISION = 0x70"
definition SPD_IOCTL_UNPROVISION :: u16 where "SPD_IOCTL_UNPROVISION = 0x75"
definition SPD_IOCTL_LIST :: u16 where "SPD_IOCTL_LIST = 0x6c"
definition SPD_IOCTL_TRANSACT :: u16 where "SPD_IOCTL_TRANSACT = 0x74"
definition SPD_IOCTL_SET_TRANSACT_PID :: u16 where "SPD_IOCTL_SET_TRANSACT_PID = 0x69"

lemmas ioctl_code_defs = SPD_IOCTL_PROVISION_def SPD_IOCTL_UNPROVISION_def SPD_IOCTL_LIST_def
  SPD_IOCTL_TRANSACT_def SPD_IOCTL_SET_TRANSACT_PID_def

definition set_status :: "NTSTATUS \<Rightarrow> IRP \<Rightarrow> IRP" where "set_status st irp = irp\<lparr>IoStatus := st\<rparr>"

definition set_result :: "NTSTATUS \<Rightarrow> nat \<Rightarrow> IRP \<Rightarrow> IRP" where
  "set_result st n irp = irp\<lparr>IoStatus := st, IoInformation := n\<rparr>"

section \<open>Provision and unprovision\<close>

definition provision_params_ok :: "SPD_IOCTL_STORAGE_UNIT_PARAMS \<Rightarrow> bool" where
  "provision_params_ok p \<longleftrightarrow>
     \<not> (Guid p = NullGuid \<or> BlockCount p = 0 \<or> BlockLength p < 16 \<or> DeviceType p \<noteq> 0 \<or>
        MaxTransferLength p = 0 \<or> MaxTransferLength p mod BlockLength p \<noteq> 0)"

text \<open>On success the whole structure is zeroed before the results are written to it.\<close>

definition zero_sysbuffer :: "sysbuffer \<Rightarrow> sysbuffer" where
  "zero_sysbuffer b = b\<lparr>Base_Size := 0, Base_Code := 0,
     Par_StorageUnitParams := \<lparr>Guid = NullGuid, BlockCount = 0, BlockLength = 0,
       ProductId = replicate 16 0, ProductRevisionLevel = replicate 4 0, DeviceType = 0,
       WriteProtected = False, CacheSupported = False, UnmapSupported = False,
       EjectDisabled = False, MaxTransferLength = 0\<rparr>, Ret_Btl := 0\<rparr>"

definition SpdIoctlProvision ::
    "ptr \<Rightarrow> NTSTATUS \<times> SPD_IOQ option \<Rightarrow> sysbuffer \<Rightarrow> IRP \<Rightarrow> kernel \<Rightarrow> (IRP \<times> kernel) option" where
  "SpdIoctlProvision pool ioq Params irp k =
     (if InputBufferLength irp < sizeof_PROVISION_PARAMS \<or>
         OutputBufferLength irp < sizeof_PROVISION_PARAMS
      then Some (set_status STATUS_INVALID_PARAMETER irp, k)
      else if \<not> provision_params_ok (Par_StorageUnitParams Params)
      then Some (set_status STATUS_INVALID_PARAMETER irp, k)
      else do {
        (st, Btl, k) \<leftarrow> SpdStorageUnitProvision pool ioq (Par_StorageUnitParams Params)
                          (RequestorProcessId irp) k;
        if \<not> NT_SUCCESS st then Some (set_status st irp, k)
        else Some (set_result STATUS_SUCCESS (unat sizeof_PROVISION_PARAMS)
               (irp\<lparr>SystemBuffer := Some ((zero_sysbuffer Params)
                  \<lparr>Base_Size := ucast sizeof_PROVISION_PARAMS, Base_Code := SPD_IOCTL_PROVISION,
                   Ret_Btl := Btl\<rparr>)\<rparr>), k)
      })"

definition SpdIoctlUnprovision :: "sysbuffer \<Rightarrow> IRP \<Rightarrow> kernel \<Rightarrow> (IRP \<times> kernel) option" where
  "SpdIoctlUnprovision Params irp k =
     (if InputBufferLength irp < sizeof_UNPROVISION_PARAMS
      then Some (set_status STATUS_INVALID_PARAMETER irp, k)
      else do {
        (st, k) \<leftarrow> SpdStorageUnitUnprovision (Some (Par_Guid Params)) 0 (RequestorProcessId irp) k;
        if \<not> NT_SUCCESS st then Some (set_status st irp, k)
        else Some (set_result STATUS_SUCCESS 0 irp, k)
      })"

section \<open>List\<close>

text \<open>
  The loop over the bits from \<open>I\<close> on; \<open>room\<close> is the length of the output buffer. The result is
  \<open>None\<close> when a unit does not fit.
\<close>

fun list_loop :: "nat \<Rightarrow> u32 \<Rightarrow> bytes \<Rightarrow> u32 \<Rightarrow> u32 \<Rightarrow> u32 list \<Rightarrow> u32 list option" where
  "list_loop 0 I Bitmap Count room Btls = Some Btls"
| "list_loop (Suc n) I Bitmap Count room Btls =
     (if 0 < Count then
        (if Bitmap ! unat (drop_bit 3 I) AND push_bit (unat (I AND 7)) 1 \<noteq> 0
         then if unat room < 4 * (length Btls + 1) then None
              else list_loop n (I + 1) Bitmap (Count - 1) room (Btls @ [SPD_BTL_FROM_INDEX I])
         else list_loop n (I + 1) Bitmap Count room Btls)
      else Some Btls)"

definition SpdIoctlGetList :: "sysbuffer \<Rightarrow> IRP \<Rightarrow> kernel \<Rightarrow> (IRP \<times> kernel) option" where
  "SpdIoctlGetList Params irp k =
     (if InputBufferLength irp < sizeof_LIST_PARAMS
      then Some (set_status STATUS_INVALID_PARAMETER irp, k)
      else do {
        (Count, Bitmap) \<leftarrow> SpdStorageUnitGetUseBitmap None k;
        (case list_loop (32 * 8) 0 Bitmap Count (OutputBufferLength irp) [] of
           None \<Rightarrow> Some (set_status STATUS_BUFFER_TOO_SMALL irp, k)
         | Some Btls \<Rightarrow> Some (set_result STATUS_SUCCESS (4 * length Btls)
                (irp\<lparr>SystemBuffer := Some (Params\<lparr>Out_List := Btls\<rparr>)\<rparr>), k))
      })"

section \<open>Transact\<close>

text \<open>How mapping the caller's data buffer ends.\<close>

datatype lock_result = Locked | NoResources | Raised NTSTATUS

definition lock_data :: "lock_result \<Rightarrow> bool \<Rightarrow> IRP \<Rightarrow> bool \<times> IRP" where
  "lock_data lock needed irp =
     (if needed then
        (case lock of
           Raised code \<Rightarrow> (False, set_status code irp)
         | NoResources \<Rightarrow> (False, set_status STATUS_INSUFFICIENT_RESOURCES irp)
         | Locked \<Rightarrow> (NT_SUCCESS (IoStatus irp), irp))
      else (True, irp))"

definition transact_respond ::
    "ptr \<Rightarrow> SPD_IOCTL_TRANSACT_RSP \<Rightarrow> bytes option \<Rightarrow> kernel \<Rightarrow> kernel option" where
  "transact_respond p Rsp Data k = do {
     u \<leftarrow> units k p;
     q \<leftarrow> UnitIoq u;
     (q, m) \<leftarrow> SpdIoqEndProcessingSrb (Rsp_Hint Rsp)
                 (SpdSrbExecuteScsiComplete (units k) Rsp Data) (q, mem k);
     Some (set_unit p (u\<lparr>UnitIoq := Some q\<rparr>) (k\<lparr>mem := m\<rparr>))
   }"

fun transact_wait ::
    "ptr \<Rightarrow> ((kernel \<Rightarrow> kernel) \<times> NTSTATUS) list \<Rightarrow> (SPD_IOCTL_TRANSACT_REQ \<times> bytes) option \<Rightarrow> kernel \<Rightarrow>
     (NTSTATUS \<times> (SPD_IOCTL_TRANSACT_REQ \<times> bytes) option \<times> kernel) option" where
  "transact_wait p [] ctx k = None"
| "transact_wait p ((env, waited) # rounds) ctx k = do {
     let k = env k;
     u \<leftarrow> units k p;
     q \<leftarrow> UnitIoq u;
     let (st, ctx, q, m) = SpdIoqStartProcessingSrb waited
           (SpdSrbExecuteScsiPrepare (units k)) ctx (q, mem k);
     let k = set_unit p (u\<lparr>UnitIoq := Some q\<rparr>) (k\<lparr>mem := m\<rparr>);
     if st = STATUS_UNSUCCESSFUL
     then (if SpdIoqStopped q then Some (STATUS_CANCELLED, ctx, k) else transact_wait p rounds ctx k)
     else Some (st, ctx, k)
   }"

text \<open>The part of \<open>SpdIoctlTransact\<close> between the reference to the unit and its release.\<close>

definition transact_body ::
    "lock_result \<Rightarrow> ((kernel \<Rightarrow> kernel) \<times> NTSTATUS) list \<Rightarrow> ptr \<Rightarrow> sysbuffer \<Rightarrow> IRP \<Rightarrow> kernel \<Rightarrow>
     (IRP \<times> kernel) option" where
  "transact_body lock rounds p Params irp k = do {
     u \<leftarrow> units k p;
     if RequestorProcessId irp \<noteq> TransactProcessId u
     then Some (set_status STATUS_ACCESS_DENIED irp, k)
     else
       case lock_data lock (DataPtr Params \<noteq> 0 \<and> RequestorUserMode irp) irp of
         (False, irp) \<Rightarrow> Some (irp, k)
       | (True, irp) \<Rightarrow> do {
           let Data = (if DataPtr Params \<noteq> 0 then Some (UserData irp) else None);
           k \<leftarrow> (if RspValid Params then transact_respond p (Dir_Rsp Params) Data k else Some k);
           if ReqValid Params then do {
             let Params = Params\<lparr>ReqValid := False, RspValid := False, Dir_Req := zero_req\<rparr>;
             (st, ctx, k) \<leftarrow> transact_wait p rounds (Some (zero_req, UserData irp)) k;
             (Req, Data) \<leftarrow> ctx;
             let irp = irp\<lparr>UserData := Data, SystemBuffer := Some (Params\<lparr>Dir_Req := Req\<rparr>)\<rparr>;
             if \<not> NT_SUCCESS st then Some (set_status st irp, k)
             else if st = STATUS_TIMEOUT then Some (set_result STATUS_SUCCESS 0 irp, k)
             else Some (set_result STATUS_SUCCESS (unat sizeof_TRANSACT_PARAMS)
                    (irp\<lparr>SystemBuffer := Some (Params\<lparr>Dir_Req := Req, ReqValid := True\<rparr>)\<rparr>), k)
           }
           else Some (set_result STATUS_SUCCESS 0 irp, k)
         }
   }"

definition SpdIoctlTransact ::
    "lock_result \<Rightarrow> ((kernel \<Rightarrow> kernel) \<times> NTSTATUS) list \<Rightarrow> sysbuffer \<Rightarrow> IRP \<Rightarrow> kernel \<Rightarrow>
     (IRP \<times> kernel) option" where
  "SpdIoctlTransact lock rounds Params irp k =
     (if InputBufferLength irp < sizeof_TRANSACT_PARAMS \<or>
         OutputBufferLength irp < sizeof_TRANSACT_PARAMS
      then Some (set_status STATUS_INVALID_PARAMETER irp, k)
      else if (\<not> ReqValid Params \<and> \<not> RspValid Params) \<or> (ReqValid Params \<and> DataPtr Params = 0)
      then Some (set_status STATUS_INVALID_PARAMETER irp, k)
      else do {
        (p, k) \<leftarrow> SpdStorageUnitReferenceByBtl (Par_Btl Params) k;
        if p = 0 then Some (set_status STATUS_CANCELLED irp, k)
        else do {
          (irp, k) \<leftarrow> transact_body lock rounds p Params irp k;
          k \<leftarrow> SpdStorageUnitDereference p k;
          Some (irp, k)
        }
      })"

section \<open>Transact process\<close>

definition SpdIoctlSetTransactProcessId :: "sysbuffer \<Rightarrow> IRP \<Rightarrow> kernel \<Rightarrow> (IRP \<times> kernel) option" where
  "SpdIoctlSetTransactProcessId Params irp k =
     (if InputBufferLength irp < sizeof_SET_TRANSACT_PID_PARAMS
      then Some (set_status STATUS_INVALID_PARAMETER irp, k)
      else do {
        (p, k) \<leftarrow> SpdStorageUnitReferenceByBtl (Par_Btl Params) k;
        if p = 0 then Some (set_status STATUS_CANCELLED irp, k)
        else do {
          u \<leftarrow> units k p;
          let k = set_unit p (u\<lparr>TransactProcessId := Par_ProcessId Params\<rparr>) k;
          k \<leftarrow> SpdStorageUnitDereference p k;
          Some (set_result STATUS_SUCCESS 0 irp, k)
        }
      })"

section \<open>The dispatcher\<close>

definition service_dispatch ::
    "ptr \<Rightarrow> NTSTATUS \<times> SPD_IOQ option \<Rightarrow> lock_result \<Rightarrow> ((kernel \<Rightarrow> kernel) \<times> NTSTATUS) list \<Rightarrow>
     IRP \<Rightarrow> kernel \<Rightarrow> (IRP \<times> kernel) option" where
  "service_dispatch pool ioq lock rounds irp k =
     (case SystemBuffer irp of
        None \<Rightarrow> Some (set_status STATUS_INVALID_PARAMETER irp, k)
      | Some Params \<Rightarrow>
          if InputBufferLength irp < sizeof_BASE_PARAMS \<or>
             InputBufferLength irp < ucast (Base_Size Params)
          then Some (set_status STATUS_INVALID_PARAMETER irp, k)
          else if Base_Code Params = SPD_IOCTL_PROVISION
          then SpdIoctlProvision pool ioq Params irp k
          else if Base_Code Params = SPD_IOCTL_UNPROVISION then SpdIoctlUnprovision Params irp k
          else if Base_Code Params = SPD_IOCTL_LIST then SpdIoctlGetList Params irp k
          else if Base_Code Params = SPD_IOCTL_TRANSACT then SpdIoctlTransact lock rounds Params irp k
          else if Base_Code Params = SPD_IOCTL_SET_TRANSACT_PID
          then SpdIoctlSetTransactProcessId Params irp k
          else Some (set_status STATUS_INVALID_PARAMETER irp, k))"

definition SpdHwProcessServiceRequest ::
    "ptr \<Rightarrow> NTSTATUS \<times> SPD_IOQ option \<Rightarrow> lock_result \<Rightarrow> ((kernel \<Rightarrow> kernel) \<times> NTSTATUS) list \<Rightarrow>
     IRP \<Rightarrow> kernel \<Rightarrow> (IRP \<times> kernel) option" where
  "SpdHwProcessServiceRequest pool ioq lock rounds irp k = do {
     (irp, k) \<leftarrow> service_dispatch pool ioq lock rounds irp k;
     Some (if IoStatus irp \<noteq> STATUS_SUCCESS \<and> IoStatus irp \<noteq> STATUS_BUFFER_OVERFLOW
           then irp\<lparr>IoInformation := 0\<rparr> else irp, k)
   }"

definition SpdHwCompleteServiceIrp :: "kernel \<Rightarrow> kernel option" where
  "SpdHwCompleteServiceIrp k = reset_units_loop True (unat (StorageUnitCapacity (de k))) 0 k"

end
