(* ===== verification/UserIoctl.thy ===== *)
theory UserIoctl
  imports Ioctl StgHandle
begin

text \<open>
  The control requests as the DLL issues them: src/shared/ioctl.c. \<open>DeviceIoControl\<close> is an
  argument: it takes the parameters, the lengths of the two buffers and the state, and returns an
  error (0 for success), the parameters that come back, the number of octets and the state.
\<close>

section \<open>Strings\<close>

text \<open>Strings of 16-bit characters without the terminating zero, which reads as 0.\<close>

type_synonym wstr = "u16 list"

definition char_at :: "'a::len word list \<Rightarrow> nat \<Rightarrow> 'a word" where
  "char_at s i = (if i < length s then s ! i else 0)"

definition invariant_toupper :: "u32 \<Rightarrow> u32" where
  "invariant_toupper c = (if 0x61 \<le> c \<and> c \<le> 0x7a then c AND NOT 0x20 else c)"

text \<open>The comparison loop; the terminating zero of the first string differs from any character.\<close>

fun wcscmp_loop :: "(u32 \<Rightarrow> u32) \<Rightarrow> wstr \<Rightarrow> wstr \<Rightarrow> u32" where
  "wcscmp_loop conv [] [] = conv 0 - conv 0"
| "wcscmp_loop conv (s # ss) [] = conv (ucast s) - conv 0"
| "wcscmp_loop conv [] (t # ts) = conv 0 - conv (ucast t)"
| "wcscmp_loop conv (s # ss) (t # ts) =
     (let v = conv (ucast s) - conv (ucast t) in if v = 0 then wcscmp_loop conv ss ts else v)"

definition invariant_wcscmp :: "wstr \<Rightarrow> wstr \<Rightarrow> u32" where "invariant_wcscmp = wcscmp_loop id"
definition invariant_wcsicmp :: "wstr \<Rightarrow> wstr \<Rightarrow> u32" where
  "invariant_wcsicmp = wcscmp_loop invariant_toupper"

text \<open>The bounded comparison; \<open>n\<close> characters at most.\<close>

fun wcsncmp_loop :: "(u32 \<Rightarrow> u32) \<Rightarrow> nat \<Rightarrow> wstr \<Rightarrow> wstr \<Rightarrow> u32" where
  "wcsncmp_loop conv 0 s t = 0"
| "wcsncmp_loop conv (Suc n) s t =
     (let v = conv (ucast (char_at s 0)) - conv (ucast (char_at t 0))
      in if v = 0 \<and> char_at t 0 \<noteq> 0 then wcsncmp_loop conv n (tl s) (tl t) else v)"

definition invariant_wcsncmp :: "nat \<Rightarrow> wstr \<Rightarrow> wstr \<Rightarrow> u32" where
  "invariant_wcsncmp = wcsncmp_loop id"
definition invariant_wcsnicmp :: "nat \<Rightarrow> wstr \<Rightarrow> wstr \<Rightarrow> u32" where
  "invariant_wcsnicmp = wcsncmp_loop invariant_toupper"

section \<open>Device paths\<close>

abbreviation ERROR_MORE_DATA :: u32 where "ERROR_MORE_DATA \<equiv> 234"
abbreviation ERROR_NO_MORE_ITEMS :: u32 where "ERROR_NO_MORE_ITEMS \<equiv> 259"
abbreviation ERROR_TIMEOUT :: u32 where "ERROR_TIMEOUT \<equiv> 1460"

definition backslash :: u16 where "backslash = 0x5c"

text \<open>The prefixes \<open>\\?\\<close> and \<open>\\?\GLOBALROOT\<close>.\<close>

definition GLOBAL :: wstr where "GLOBAL = [0x5c, 0x5c, 0x3f, 0x5c]"
definition GLOBALROOT :: wstr where
  "GLOBALROOT = GLOBAL @ [0x47, 0x4c, 0x4f, 0x42, 0x41, 0x4c, 0x52, 0x4f, 0x4f, 0x54]"

text \<open>
  The devices of a class as the setup library lists them: for each the hardware identifiers, or
  \<open>None\<close> when they cannot be read, and the name of its object or an error. The search takes the
  first one that has the identifier.
\<close>

fun find_hardware_id :: "wstr \<Rightarrow> (wstr list option \<times> (u32 + wstr)) list \<Rightarrow> (u32 + wstr) option" where
  "find_hardware_id HardwareId [] = None"
| "find_hardware_id HardwareId ((ids, name) # devs) =
     (if (case ids of None \<Rightarrow> False | Some l \<Rightarrow> \<exists>P \<in> set l. invariant_wcsicmp P HardwareId = 0)
      then Some name else find_hardware_id HardwareId devs)"

definition GetDevicePathByHardwareId ::
    "u32 + (wstr list option \<times> (u32 + wstr)) list \<Rightarrow> u32 \<Rightarrow> wstr \<Rightarrow> u32 + wstr" where
  "GetDevicePathByHardwareId devices last_error HardwareId =
     (let r = (case devices of
          Inl Error \<Rightarrow> Inl Error
        | Inr devs \<Rightarrow> (case find_hardware_id HardwareId devs of
              None \<Rightarrow> Inl last_error | Some name \<Rightarrow> name))
      in case r of Inl Error \<Rightarrow> Inl (if Error = ERROR_NO_MORE_ITEMS then ERROR_FILE_NOT_FOUND else Error)
         | Inr p \<Rightarrow> Inr p)"

text \<open>
  The full path of a device; the buffer has room for \<open>PathBufSize\<close> octets. \<open>by_id\<close> looks up a
  hardware identifier.
\<close>

definition SpdIoctlGetDevicePath :: "(wstr \<Rightarrow> u32 + wstr) \<Rightarrow> wstr \<Rightarrow> u32 \<Rightarrow> u32 + wstr" where
  "SpdIoctlGetDevicePath by_id Name PathBufSize =
     (let is_hwid = char_at Name 0 \<noteq> backslash \<and> (\<exists>c \<in> set Name. c = backslash \<or> c = 0x2a);
          Prefix = (if char_at Name 0 = backslash
                    then (if char_at Name 1 = backslash \<and> (char_at Name 2 = 0x3f \<or> char_at Name 2 = 0x2e) \<and>
                             char_at Name 3 = backslash
                          then [] else GLOBALROOT)
                    else if is_hwid then GLOBALROOT else GLOBAL);
          Name' = (if is_hwid then [] else Name)
      in if unat PathBufSize < 2 * length Prefix + 2 * length Name' + 2 then Inl ERROR_MORE_DATA
         else if is_hwid then
           (case by_id Name of
              Inl Error \<Rightarrow> Inl (if Error = ERROR_INSUFFICIENT_BUFFER then ERROR_MORE_DATA else Error)
            | Inr p \<Rightarrow> Inr (Prefix @ p))
         else Inr (Prefix @ Name'))"

text \<open>Opening: the handle or the error of \<open>CreateFileW\<close> on the path, in a buffer of 1024 characters.\<close>

definition SpdIoctlOpenDevice ::
    "(wstr \<Rightarrow> u32 + wstr) \<Rightarrow> (wstr \<Rightarrow> u32 + ptr) \<Rightarrow> wstr \<Rightarrow> u32 + ptr" where
  "SpdIoctlOpenDevice by_id CreateFileW Name =
     (case SpdIoctlGetDevicePath by_id Name 2048 of
        Inl Error \<Rightarrow> Inl Error
      | Inr path \<Rightarrow> CreateFileW path)"

section \<open>SCSI commands\<close>

record SCSI_PASS_THROUGH =
  pt_PathId :: u8
  pt_TargetId :: u8
  pt_Lun :: u8
  pt_CdbLength :: u8
  pt_SenseInfoLength :: u8
  pt_DataIn :: u8
  pt_DataTransferLength :: u32
  pt_TimeOutValue :: u32
  pt_Cdb :: bytes
  pt_ScsiStatus :: u8
  pt_SenseInfo :: bytes

text \<open>The length of a command block by the group of its code.\<close>

definition cdb_length :: "bytes \<Rightarrow> u8 option" where
  "cdb_length c =
     (let group = c ! 0 AND 0xE0
      in if group = push_bit 5 0 then Some 6
         else if group = push_bit 5 1 \<or> group = push_bit 5 2 then Some 10
         else if group = push_bit 5 4 then Some 16
         else if group = push_bit 5 5 then Some 12
         else None)"

definition make_pass_through :: "u32 \<Rightarrow> bytes \<Rightarrow> int \<Rightarrow> u32 option \<Rightarrow> u8 \<Rightarrow> SCSI_PASS_THROUGH" where
  "make_pass_through Btl Cdb' DataDirection DataLength len =
     \<lparr>pt_PathId = ucast (drop_bit 16 Btl AND 0xff), pt_TargetId = ucast (drop_bit 8 Btl AND 0xff),
      pt_Lun = ucast (Btl AND 0xff), pt_CdbLength = len, pt_SenseInfoLength = 32,
      pt_DataIn = (if 0 < DataDirection then 1 else if DataDirection < 0 then 0 else 2),
      pt_DataTransferLength = (case DataLength of Some n \<Rightarrow> n | None \<Rightarrow> 0), pt_TimeOutValue = 10,
      pt_Cdb = Cdb', pt_ScsiStatus = 0, pt_SenseInfo = replicate 32 0\<rparr>"

text \<open>
  \<open>scsi_io\<close> runs the request: an error, or the structure as the port returns it and the data. The
  result has the transferred length, the SCSI status, and the sense data if the status is not good.
\<close>

definition SpdIoctlScsiExecute ::
    "(SCSI_PASS_THROUGH \<Rightarrow> bytes \<Rightarrow> 's \<Rightarrow> (u32 + SCSI_PASS_THROUGH \<times> bytes) \<times> 's) \<Rightarrow>
     u32 \<Rightarrow> bytes \<Rightarrow> int \<Rightarrow> bytes \<Rightarrow> u32 option \<Rightarrow> 's \<Rightarrow>
     (u32 + u32 \<times> u8 \<times> bytes option \<times> bytes) \<times> 's" where
  "SpdIoctlScsiExecute scsi_io Btl Cdb' DataDirection Data DataLength s =
     (case cdb_length Cdb' of
        None \<Rightarrow> (Inl ERROR_INVALID_PARAMETER, s)
      | Some len \<Rightarrow>
          (case scsi_io (make_pass_through Btl Cdb' DataDirection DataLength len) Data s of
             (Inl Error, s) \<Rightarrow> (Inl Error, s)
           | (Inr (r, Data), s) \<Rightarrow>
               (Inr (pt_DataTransferLength r, pt_ScsiStatus r,
                     if pt_ScsiStatus r \<noteq> SCSISTAT_GOOD
                     then Some (take (unat (pt_SenseInfoLength r)) (pt_SenseInfo r)) else None,
                     Data), s)))"

definition inquiry_delays :: "u32 list" where "inquiry_delays = [100, 300, 300, 300, 1000]"

text \<open>The delay before try \<open>I + 1\<close>, at most what is left of the timeout.\<close>

definition inquiry_delay :: "nat \<Rightarrow> u32 \<Rightarrow> u32" where
  "inquiry_delay I Timeout =
     (let Delay = (if I < length inquiry_delays then inquiry_delays ! I
                   else inquiry_delays ! (length inquiry_delays - 1))
      in if Delay < Timeout then Delay else Timeout)"

lemma inquiry_delay_pos: "Timeout \<noteq> 0 \<Longrightarrow> 0 < inquiry_delay I Timeout"
  by (auto simp: inquiry_delay_def inquiry_delays_def Let_def nth_Cons' word_gt_0)

lemma inquiry_delay_le: "inquiry_delay I Timeout \<le> Timeout"
  by (auto simp: inquiry_delay_def Let_def not_less)

text \<open>
  The loop of \<open>SpdIoctlScsiInquiry\<close>: \<open>attempt I\<close> is what the command returns at try \<open>I\<close>, an error
  or the transferred length and the status. The result also has the delays that were slept.
\<close>

fun inquiry_good :: "u32 + u32 \<times> u8 \<Rightarrow> u32 option" where
  "inquiry_good (Inl Error) = None"
| "inquiry_good (Inr (DataLength, st)) = (if st = SCSISTAT_GOOD then Some DataLength else None)"

function inquiry_loop :: "(nat \<Rightarrow> u32 + u32 \<times> u8) \<Rightarrow> nat \<Rightarrow> u32 \<Rightarrow> (u32 + u32) \<times> u32 list" where
  "inquiry_loop attempt I Timeout =
     (case inquiry_good (attempt I) of
        Some DataLength \<Rightarrow> (Inr DataLength, [])
      | None \<Rightarrow>
          if Timeout = 0 then (Inl ERROR_TIMEOUT, [])
          else
            let d = inquiry_delay I Timeout;
                r = inquiry_loop attempt (I + 1) (Timeout - d)
            in (fst r, d # snd r))"
  by pat_completeness auto

termination
proof (relation "measure (\<lambda>(_, _, t). unat t)")
  fix attempt :: "nat \<Rightarrow> u32 + u32 \<times> u8" and I and Timeout d :: u32
  assume "Timeout \<noteq> 0" and "d = inquiry_delay I Timeout"
  then show "((attempt, I + 1, Timeout - d), attempt, I, Timeout) \<in> measure (\<lambda>(_, _, t). unat t)"
    using inquiry_delay_pos [of Timeout I] inquiry_delay_le [of I Timeout]
    by (simp add: unat_sub word_less_nat_alt word_le_nat_alt)
qed simp

declare inquiry_loop.simps [simp del]

section \<open>Service requests\<close>

type_synonym 's device_io =
  "sysbuffer \<Rightarrow> u32 \<Rightarrow> u32 \<Rightarrow> bytes \<Rightarrow> 's \<Rightarrow> u32 \<times> sysbuffer \<times> u32 \<times> bytes \<times> 's"

definition zero_params :: sysbuffer where
  "zero_params =
     \<lparr>Base_Size = 0, Base_Code = 0,
      Par_StorageUnitParams = \<lparr>Guid = NullGuid, BlockCount = 0, BlockLength = 0,
        ProductId = replicate 16 0, ProductRevisionLevel = replicate 4 0, DeviceType = 0,
        WriteProtected = False, CacheSupported = False, UnmapSupported = False,
        EjectDisabled = False, MaxTransferLength = 0\<rparr>,
      Par_Guid = NullGuid, Par_Btl = 0, Par_ProcessId = 0, ReqValid = False, RspValid = False,
      DataPtr = 0, Dir_Req = zero_req, Dir_Rsp = zero_rsp, Ret_Btl = 0, Out_List = []\<rparr>"

definition base_params :: "u32 \<Rightarrow> u16 \<Rightarrow> sysbuffer" where
  "base_params sz code = zero_params\<lparr>Base_Size := ucast sz, Base_Code := code\<rparr>"

definition UserProvision ::
    "'s device_io \<Rightarrow> SPD_IOCTL_STORAGE_UNIT_PARAMS \<Rightarrow> 's \<Rightarrow> u32 \<times> u32 \<times> 's" where
  "UserProvision dio par s =
     (case dio ((base_params sizeof_PROVISION_PARAMS SPD_IOCTL_PROVISION)\<lparr>Par_StorageUnitParams := par\<rparr>)
             sizeof_PROVISION_PARAMS sizeof_PROVISION_PARAMS [] s of
        (Error, Params, n, _, s) \<Rightarrow>
          if Error \<noteq> ERROR_SUCCESS then (Error, - 1, s) else (ERROR_SUCCESS, Ret_Btl Params, s))"

definition UserUnprovision :: "'s device_io \<Rightarrow> GUID \<Rightarrow> 's \<Rightarrow> u32 \<times> 's" where
  "UserUnprovision dio g s =
     (case dio ((base_params sizeof_UNPROVISION_PARAMS SPD_IOCTL_UNPROVISION)\<lparr>Par_Guid := g\<rparr>)
             sizeof_UNPROVISION_PARAMS 0 [] s of
        (Error, Params, n, _, s) \<Rightarrow> (Error, s))"

definition UserGetList :: "'s device_io \<Rightarrow> u32 \<Rightarrow> 's \<Rightarrow> u32 \<times> u32 list \<times> u32 \<times> 's" where
  "UserGetList dio ListSize s =
     (case dio (base_params sizeof_LIST_PARAMS SPD_IOCTL_LIST) sizeof_LIST_PARAMS ListSize [] s of
        (Error, Params, n, _, s) \<Rightarrow>
          if Error \<noteq> ERROR_SUCCESS then (Error, [], ListSize, s)
          else (ERROR_SUCCESS, Out_List Params, n, s))"

text \<open>
  \<open>Data\<close> is the data buffer at the address \<open>data_ptr\<close>. A request that does not come back in full is
  zeroed, which the dispatcher takes as no request.
\<close>

definition UserTransact ::
    "'s device_io \<Rightarrow> u32 \<Rightarrow> SPD_IOCTL_TRANSACT_RSP option \<Rightarrow> SPD_IOCTL_TRANSACT_REQ option \<Rightarrow>
     u64 \<Rightarrow> bytes \<Rightarrow> 's \<Rightarrow> u32 \<times> SPD_IOCTL_TRANSACT_REQ option \<times> bytes \<times> 's" where
  "UserTransact dio Btl Rsp Req data_ptr Data s =
     (let Params = (base_params sizeof_TRANSACT_PARAMS SPD_IOCTL_TRANSACT)
            \<lparr>Par_Btl := Btl, ReqValid := Req \<noteq> None, RspValid := Rsp \<noteq> None, DataPtr := data_ptr,
             Dir_Rsp := (case Rsp of Some r \<Rightarrow> r | None \<Rightarrow> zero_rsp)\<rparr>
      in case dio Params sizeof_TRANSACT_PARAMS sizeof_TRANSACT_PARAMS Data s of
           (Error, Params, n, Data, s) \<Rightarrow>
             if Error \<noteq> ERROR_SUCCESS then (Error, Req, Data, s)
             else (ERROR_SUCCESS,
                   (case Req of None \<Rightarrow> None
                    | Some _ \<Rightarrow> Some (if n = sizeof_TRANSACT_PARAMS \<and> ReqValid Params
                                       then Dir_Req Params else zero_req)),
                   Data, s))"

definition UserSetTransactProcessId :: "'s device_io \<Rightarrow> u32 \<Rightarrow> u32 \<Rightarrow> 's \<Rightarrow> u32 \<times> 's" where
  "UserSetTransactProcessId dio Btl ProcessId s =
     (case dio ((base_params sizeof_SET_TRANSACT_PID_PARAMS SPD_IOCTL_SET_TRANSACT_PID)
                  \<lparr>Par_Btl := Btl, Par_ProcessId := ProcessId\<rparr>)
             sizeof_SET_TRANSACT_PID_PARAMS 0 [] s of
        (Error, Params, n, _, s) \<Rightarrow> (Error, s))"

end
