(* ===== verification/Shared_Util.thy ===== *)
theory Shared_Util
  imports UserIoctl
begin

text \<open>
  Helpers of the DLL: the partition table of src/shared/mbr.c, the aligned allocation of
  src/shared/memalign.c, the number parser of src/shared/strtoint.c and the client of the launcher
  of src/shared/launch.c.
\<close>

section \<open>Partition tables\<close>

record SPD_PARTITION =
  part_Type :: u8
  part_Active :: u8
  part_BlockAddress :: u64
  part_BlockCount :: u64

definition SPT :: u32 where "SPT = 63"
definition HPC :: u32 where "HPC = 255"

definition LBA_TO_CHS :: "u32 \<Rightarrow> u32 \<times> u32 \<times> u32" where
  "LBA_TO_CHS lba = (lba div (HPC * SPT), (lba div SPT) mod HPC, lba mod SPT + 1)"

definition CHS_TO_MBR :: "u32 \<times> u32 \<times> u32 \<Rightarrow> bytes" where
  "CHS_TO_MBR chs = (case chs of (c, h, s) \<Rightarrow>
     [ucast h, ucast ((s AND 0x3f) OR (drop_bit 2 c AND 0xc0)), ucast (c AND 0xff)])"

definition chs3 :: "u64 \<Rightarrow> bytes" where
  "chs3 lba =
     (case LBA_TO_CHS (ucast lba) of (C, H, S) \<Rightarrow>
        CHS_TO_MBR (if 1023 < C then (1023, 254, 63) else (C, H, S)))"

text \<open>A loader that halts, and the magic number at the end.\<close>

definition SpdMbr :: bytes where
  "SpdMbr = [0xCD, 0x18, 0xF4, 0xEB, 0xFD] @ replicate 505 0 @ [0x55, 0xAA]"

definition partition_end :: "SPD_PARTITION \<Rightarrow> u64" where
  "partition_end p = part_BlockAddress p + part_BlockCount p"

definition partition_ok :: "SPD_PARTITION \<Rightarrow> bool" where
  "partition_ok p \<longleftrightarrow>
     \<not> (partition_end p \<le> part_BlockAddress p \<or> 0xffffffff < partition_end p)"

text \<open>One entry: active, first address, type, last address, start and count, little-endian.\<close>

definition partition_entry :: "SPD_PARTITION \<Rightarrow> bytes" where
  "partition_entry p =
     [part_Active p] @ chs3 (part_BlockAddress p) @ [part_Type p] @ chs3 (partition_end p) @
     le32 (ucast (part_BlockAddress p)) @ le32 (ucast (part_BlockCount p))"

fun partition_loop :: "nat \<Rightarrow> SPD_PARTITION list \<Rightarrow> bytes \<Rightarrow> bytes" where
  "partition_loop I [] Buffer = Buffer"
| "partition_loop I (p # ps) Buffer =
     partition_loop (I + 1) ps (put (446 + 16 * I) (partition_entry p) Buffer)"

definition SpdDefinePartitionTable :: "SPD_PARTITION list \<Rightarrow> bytes \<Rightarrow> u32 \<times> bytes" where
  "SpdDefinePartitionTable Partitions Buffer =
     (if 4 < length Partitions then (ERROR_INVALID_PARAMETER, Buffer)
      else if \<not> list_all partition_ok Partitions then (ERROR_INVALID_PARAMETER, Buffer)
      else (ERROR_SUCCESS, partition_loop 0 Partitions (put 0 SpdMbr Buffer)))"

section \<open>Aligned allocation\<close>

abbreviation ERROR_NOT_ENOUGH_MEMORY :: u32 where "ERROR_NOT_ENOUGH_MEMORY \<equiv> 8"

text \<open>
  \<open>heap_alloc\<close> is the allocator: the address for a size, 0 if there is none. The memory holds the
  pointers that are stored. The address that \<open>MemAlloc\<close> returned is stored in front of the result.
\<close>

definition effective_mask :: "u32 \<Rightarrow> u32" where
  "effective_mask AlignMask = (if AlignMask + 1 < 8 then 8 - 1 else AlignMask)"

definition SpdIoctlMemAlignAlloc ::
    "(u32 \<Rightarrow> ptr) \<Rightarrow> u32 \<Rightarrow> u32 \<Rightarrow> (ptr \<Rightarrow> ptr) \<Rightarrow> u32 \<times> ptr \<times> (ptr \<Rightarrow> ptr)" where
  "SpdIoctlMemAlignAlloc heap_alloc Size AlignMask mm =
     (let AlignMask = effective_mask AlignMask;
          P = heap_alloc (Size + AlignMask)
      in if P = 0 then (ERROR_NOT_ENOUGH_MEMORY, 0, mm)
         else let PP = (P + ucast AlignMask) AND NOT (ucast AlignMask)
              in (ERROR_SUCCESS, PP, mm(PP - 8 := P)))"

text \<open>The address that is given back to the heap.\<close>

definition SpdIoctlMemAlignFree :: "ptr \<Rightarrow> (ptr \<Rightarrow> ptr) \<Rightarrow> ptr option" where
  "SpdIoctlMemAlignFree P mm = (if P = 0 then None else Some (mm (P - 8)))"

section \<open>Numbers\<close>

text \<open>
  A string is the list of its character codes without the terminating zero; a code is an \<open>int\<close>, as
  the code widens it. The value is a 64-bit word. \<open>strtoint\<close> and \<open>wcstoint\<close> differ in the type of
  the characters alone.
\<close>

definition char0 :: "int list \<Rightarrow> int" where "char0 p = (case p of [] \<Rightarrow> 0 | c # _ \<Rightarrow> c)"

definition int_sign :: "bool \<Rightarrow> int list \<Rightarrow> bool \<times> int list" where
  "int_sign is_signed p =
     (if is_signed \<and> char0 p = 0x2b then (False, tl p)
      else if is_signed \<and> char0 p = 0x2d then (True, tl p) else (False, p))"

definition int_base :: "int \<Rightarrow> int list \<Rightarrow> int \<times> int list" where
  "int_base base p =
     (if base = 0
      then (if char0 p = 0x30
            then (if char0 (tl p) = 0x78 \<or> char0 (tl p) = 0x58 then (16, tl (tl p)) else (8, tl p))
            else (10, p))
      else (base, p))"

fun int_digits :: "int \<Rightarrow> int \<Rightarrow> int \<Rightarrow> u64 \<Rightarrow> int list \<Rightarrow> u64 \<times> int list" where
  "int_digits base maxdig maxalp v [] = (v, [])"
| "int_digits base maxdig maxalp v (c # p) =
     (if c = 0 then (v, c # p)
      else if 0x30 \<le> c \<and> c \<le> maxdig
      then int_digits base maxdig maxalp (word_of_int base * v + word_of_int (c - 0x30)) p
      else let c' = c OR 0x20
           in if 0x61 \<le> c' \<and> c' \<le> maxalp
              then int_digits base maxdig maxalp (word_of_int base * v + word_of_int (c' - 0x61) + 10) p
              else (v, c # p))"

definition strtoint :: "int list \<Rightarrow> int \<Rightarrow> bool \<Rightarrow> u64 \<times> int list" where
  "strtoint p base is_signed =
     (case int_sign is_signed p of (neg, p) \<Rightarrow>
        case int_base base p of (base, p) \<Rightarrow>
          let maxdig = (if 10 < base then 0x39 else base - 1 + 0x30);
              maxalp = (if 10 < base then base - 1 - 10 + 0x61 else 0)
          in case int_digits base maxdig maxalp 0 p of (v, p) \<Rightarrow> (if neg then - v else v, p))"

section \<open>The client of the launcher\<close>

definition SPD_LAUNCH_PIPE_BUFFER_SIZE :: u32 where "SPD_LAUNCH_PIPE_BUFFER_SIZE = 4096"

abbreviation SpdLaunchCmdStart :: u16 where "SpdLaunchCmdStart \<equiv> 0x53"
abbreviation SpdLaunchCmdStop :: u16 where "SpdLaunchCmdStop \<equiv> 0x54"
abbreviation SpdLaunchCmdStopForced :: u16 where "SpdLaunchCmdStopForced \<equiv> 0x46"
abbreviation SpdLaunchCmdGetInfo :: u16 where "SpdLaunchCmdGetInfo \<equiv> 0x49"
abbreviation SpdLaunchCmdGetNameList :: u16 where "SpdLaunchCmdGetNameList \<equiv> 0x4c"
abbreviation SpdLaunchCmdSuccess :: u16 where "SpdLaunchCmdSuccess \<equiv> 0x24"
abbreviation SpdLaunchCmdFailure :: u16 where "SpdLaunchCmdFailure \<equiv> 0x21"

text \<open>
  The arguments, each with its length or \<open>None\<close> for all of it; a null argument is left out. The
  result is \<open>None\<close> when the message has no room for an argument.
\<close>

fun launch_args :: "(wstr \<times> u32 option) option list \<Rightarrow> wstr \<Rightarrow> wstr option" where
  "launch_args [] buf = Some buf"
| "launch_args (None # args) buf = launch_args args buf"
| "launch_args (Some (arg, len) # args) buf =
     (let Length = (case len of None \<Rightarrow> length arg | Some n \<Rightarrow> unat n)
      in if unat SPD_LAUNCH_PIPE_BUFFER_SIZE < (length buf + Length + 1) * 2 then None
         else launch_args args (buf @ take Length arg @ [0]))"

text \<open>The decimal digits of an error, up to the first other character.\<close>

fun launch_error :: "wstr \<Rightarrow> u32 \<Rightarrow> u32" where
  "launch_error [] e = e"
| "launch_error (c # cs) e =
     (if c < 0x30 \<or> 0x39 < c then e else launch_error cs (10 * e + (ucast c - 0x30)))"

text \<open>The answer: the launcher's error and, after a success, the characters behind the code.\<close>

definition launch_answer :: "wstr \<Rightarrow> u32 \<times> wstr option" where
  "launch_answer r =
     (case r of
        [] \<Rightarrow> (ERROR_BROKEN_PIPE, None)
      | c # cs \<Rightarrow>
          if c = SpdLaunchCmdSuccess then (0, Some cs)
          else if c = SpdLaunchCmdFailure
          then (let e = launch_error cs 0 in (if e = 0 then ERROR_BROKEN_PIPE else e, None))
          else (ERROR_BROKEN_PIPE, None))"

text \<open>
  \<open>pipe_call\<close> sends the message: an error or the answer. The result is the error of the call, the
  error of the launcher and the data.
\<close>

definition SpdLaunchCallLauncherPipe ::
    "(wstr \<Rightarrow> u32 + wstr) \<Rightarrow> bool \<Rightarrow> u16 \<Rightarrow> (wstr \<times> u32 option) option list \<Rightarrow>
     u32 \<times> u32 \<times> wstr option" where
  "SpdLaunchCallLauncherPipe pipe_call allocated Command Argv =
     (if \<not> allocated then (ERROR_NO_SYSTEM_RESOURCES, 0, None)
      else case launch_args Argv [Command] of
          None \<Rightarrow> (ERROR_INVALID_PARAMETER, 0, None)
        | Some msg \<Rightarrow> (case pipe_call msg of
              Inl Error \<Rightarrow> (Error, 0, None)
            | Inr r \<Rightarrow> (case launch_answer r of (LauncherError, d) \<Rightarrow> (ERROR_SUCCESS, LauncherError, d))))"

definition SpdLaunchStart ::
    "(wstr \<Rightarrow> u32 + wstr) \<Rightarrow> bool \<Rightarrow> wstr \<Rightarrow> wstr \<Rightarrow> wstr list \<Rightarrow> u32 \<times> u32 \<times> wstr option" where
  "SpdLaunchStart pipe_call allocated ClassName InstanceName Argv =
     (if 9 < length Argv then (ERROR_INVALID_PARAMETER, 0, None)
      else SpdLaunchCallLauncherPipe pipe_call allocated SpdLaunchCmdStart
             (map (\<lambda>a. Some (a, None)) (ClassName # InstanceName # Argv)))"

definition SpdLaunchStop ::
    "(wstr \<Rightarrow> u32 + wstr) \<Rightarrow> bool \<Rightarrow> wstr \<Rightarrow> wstr \<Rightarrow> u32 \<times> u32 \<times> wstr option" where
  "SpdLaunchStop pipe_call allocated ClassName InstanceName =
     SpdLaunchCallLauncherPipe pipe_call allocated SpdLaunchCmdStop
       [Some (ClassName, None), Some (InstanceName, None)]"

definition SpdLaunchGetInfo ::
    "(wstr \<Rightarrow> u32 + wstr) \<Rightarrow> bool \<Rightarrow> wstr \<Rightarrow> wstr \<Rightarrow> u32 \<times> u32 \<times> wstr option" where
  "SpdLaunchGetInfo pipe_call allocated ClassName InstanceName =
     SpdLaunchCallLauncherPipe pipe_call allocated SpdLaunchCmdGetInfo
       [Some (ClassName, None), Some (InstanceName, None)]"

definition SpdLaunchGetNameList :: "(wstr \<Rightarrow> u32 + wstr) \<Rightarrow> bool \<Rightarrow> u32 \<times> u32 \<times> wstr option" where
  "SpdLaunchGetNameList pipe_call allocated =
     SpdLaunchCallLauncherPipe pipe_call allocated SpdLaunchCmdGetNameList []"

end
