(* ===== verification/RawDisk.thy ===== *)
theory RawDisk
  imports Block_Device Shared_Util
begin

text \<open>
  The storage device of tst/rawdisk/rawdisk.c: a file, mapped into memory, whose octets are the blocks
  of the unit in order.

  What the system does is an argument: an error while a page of the file is read or written, and the
  outcomes of the flushes and of the request that makes a hole in a sparse file.
\<close>

section \<open>State\<close>

text \<open>
  The octets of the file as the mapping shows them, as the file system has them, and as the medium
  has them; \<open>rd_Crashed\<close> is set when an access outside of the mapping or of a buffer ends the process.
\<close>

record RAWDISK =
  rd_BlockCount :: u64
  rd_BlockLength :: u32
  rd_Pointer :: ptr
  rd_Sparse :: bool
  rd_Memory :: bytes
  rd_Cache :: bytes
  rd_Medium :: bytes
  rd_Crashed :: bool

text \<open>
  \<open>sys_page_error\<close>: a copy of so many octets at an offset stops after some of them with an error in a
  page, which comes with the address (0 without one).
\<close>

record rd_sys =
  sys_page_error :: "u64 \<Rightarrow> u32 \<Rightarrow> RAWDISK \<Rightarrow> (nat \<times> ptr) option"
  sys_flush_view :: "u64 \<Rightarrow> u32 \<Rightarrow> RAWDISK \<Rightarrow> bool"
  sys_flush_file :: "RAWDISK \<Rightarrow> bool"
  sys_set_zero :: "u64 \<Rightarrow> u64 \<Rightarrow> RAWDISK \<Rightarrow> bool"

section \<open>Copying\<close>

text \<open>The copies that the operations make: from the file to a buffer, from a buffer, and of zeros.\<close>

datatype copy = FromFile bytes | ToFile bytes | ZeroFile

fun copy_fits :: "copy \<Rightarrow> nat \<Rightarrow> bool" where
  "copy_fits (FromFile Buffer) n = (n \<le> length Buffer)"
| "copy_fits (ToFile Buffer) n = (n \<le> length Buffer)"
| "copy_fits ZeroFile n = True"

fun copy_octets :: "copy \<Rightarrow> nat \<Rightarrow> nat \<Rightarrow> bytes \<Rightarrow> copy \<times> bytes" where
  "copy_octets (FromFile Buffer) off n mm = (FromFile (put 0 (slice mm off n) Buffer), mm)"
| "copy_octets (ToFile Buffer) off n mm = (ToFile Buffer, put off (slice Buffer 0 n) mm)"
| "copy_octets ZeroFile off n mm = (ZeroFile, put off (replicate n 0) mm)"

fun copy_buffer :: "copy \<Rightarrow> bytes" where
  "copy_buffer (FromFile Buffer) = Buffer"
| "copy_buffer (ToFile Buffer) = Buffer"
| "copy_buffer ZeroFile = []"

text \<open>The offset stands for the pointer into the file; \<open>Status\<close> may be missing.\<close>

definition CopyBuffer ::
    "rd_sys \<Rightarrow> u64 \<Rightarrow> copy \<Rightarrow> u32 \<Rightarrow> u8 \<Rightarrow> SPD_IOCTL_STORAGE_UNIT_STATUS option \<Rightarrow> RAWDISK \<Rightarrow>
     copy \<times> SPD_IOCTL_STORAGE_UNIT_STATUS option \<times> RAWDISK" where
  "CopyBuffer sys off c n Code Status rd =
     (if length (rd_Memory rd) < unat off + unat n \<or> \<not> copy_fits c (unat n)
      then (c, Status, rd\<lparr>rd_Crashed := True\<rparr>)
      else case sys_page_error sys off n rd of
          None \<Rightarrow>
            (case copy_octets c (unat off) (unat n) (rd_Memory rd) of
               (c, mm) \<Rightarrow> (c, Status, rd\<lparr>rd_Memory := mm\<rparr>))
        | Some (done, addr) \<Rightarrow>
            (case copy_octets c (unat off) (min done (unat n)) (rd_Memory rd) of
               (c, mm) \<Rightarrow>
                 (c, map_option
                    (SpdStorageUnitStatusSetSense SCSI_SENSE_MEDIUM_ERROR Code
                      (if addr \<noteq> 0 then Some ((addr - rd_Pointer rd) div ucast (rd_BlockLength rd)) else None))
                    Status, rd\<lparr>rd_Memory := mm\<rparr>)))"

section \<open>Flushing\<close>

text \<open>
  A flush of a part of the mapping hands it to the file system; 0 octets stand for all from the
  offset on. A flush of the file puts what the file system has on the medium.
\<close>

definition flush_view :: "u64 \<Rightarrow> u32 \<Rightarrow> RAWDISK \<Rightarrow> RAWDISK" where
  "flush_view off n rd =
     rd\<lparr>rd_Cache := put (unat off)
        (if n = 0 then drop (unat off) (rd_Memory rd) else slice (rd_Memory rd) (unat off) (unat n)) (rd_Cache rd)\<rparr>"

definition flush_file :: "RAWDISK \<Rightarrow> RAWDISK" where
  "flush_file rd = rd\<lparr>rd_Medium := rd_Cache rd\<rparr>"

definition FlushInternal ::
    "rd_sys \<Rightarrow> u64 \<Rightarrow> u32 \<Rightarrow> SPD_IOCTL_STORAGE_UNIT_STATUS \<Rightarrow> RAWDISK \<Rightarrow>
     bool \<times> SPD_IOCTL_STORAGE_UNIT_STATUS \<times> RAWDISK" where
  "FlushInternal sys BlockAddress Count st rd =
     (let off = BlockAddress * ucast (rd_BlockLength rd); n = Count * rd_BlockLength rd;
          error = SpdStorageUnitStatusSetSense SCSI_SENSE_MEDIUM_ERROR SCSI_ADSENSE_WRITE_ERROR None st
      in if \<not> sys_flush_view sys off n rd then (True, error, rd)
         else let rd = flush_view off n rd
              in if \<not> sys_flush_file sys rd then (True, error, rd)
                 else (True, st, flush_file rd))"

section \<open>The operations\<close>

definition rd_Read ::
    "rd_sys \<Rightarrow> bytes \<Rightarrow> u64 \<Rightarrow> u32 \<Rightarrow> u32 \<Rightarrow> SPD_IOCTL_STORAGE_UNIT_STATUS \<Rightarrow> RAWDISK \<Rightarrow>
     bool \<times> bytes \<times> SPD_IOCTL_STORAGE_UNIT_STATUS \<times> RAWDISK" where
  "rd_Read sys Buffer BlockAddress Count FlushFlag st rd =
     (case (if FlushFlag \<noteq> 0 then FlushInternal sys BlockAddress Count st rd else (True, st, rd)) of
        (_, st, rd) \<Rightarrow>
          if FlushFlag \<noteq> 0 \<and> ScsiStatus st \<noteq> SCSISTAT_GOOD then (True, Buffer, st, rd)
          else case CopyBuffer sys (BlockAddress * ucast (rd_BlockLength rd)) (FromFile Buffer)
                 (Count * rd_BlockLength rd) SCSI_ADSENSE_UNRECOVERED_ERROR (Some st) rd of
            (c, Status, rd) \<Rightarrow> (True, copy_buffer c, the Status, rd))"

definition rd_Write ::
    "rd_sys \<Rightarrow> bytes \<Rightarrow> u64 \<Rightarrow> u32 \<Rightarrow> u32 \<Rightarrow> SPD_IOCTL_STORAGE_UNIT_STATUS \<Rightarrow> RAWDISK \<Rightarrow>
     bool \<times> bytes \<times> SPD_IOCTL_STORAGE_UNIT_STATUS \<times> RAWDISK" where
  "rd_Write sys Buffer BlockAddress Count FlushFlag st rd =
     (case CopyBuffer sys (BlockAddress * ucast (rd_BlockLength rd)) (ToFile Buffer)
             (Count * rd_BlockLength rd) SCSI_ADSENSE_WRITE_ERROR (Some st) rd of
        (c, Status, rd) \<Rightarrow>
          if ScsiStatus (the Status) = SCSISTAT_GOOD \<and> FlushFlag \<noteq> 0
          then (case FlushInternal sys BlockAddress Count (the Status) rd of
                  (_, st, rd) \<Rightarrow> (True, Buffer, st, rd))
          else (True, Buffer, the Status, rd))"

definition rd_Flush ::
    "rd_sys \<Rightarrow> u64 \<Rightarrow> u32 \<Rightarrow> SPD_IOCTL_STORAGE_UNIT_STATUS \<Rightarrow> RAWDISK \<Rightarrow>
     bool \<times> SPD_IOCTL_STORAGE_UNIT_STATUS \<times> RAWDISK" where
  "rd_Flush sys BlockAddress Count st rd = FlushInternal sys BlockAddress Count st rd"

text \<open>
  The hole of a sparse file ends where the file ends. Without it the blocks are zeroed in the
  mapping, and an error in a page is passed over.
\<close>

definition set_zero :: "u64 \<Rightarrow> u64 \<Rightarrow> RAWDISK \<Rightarrow> RAWDISK" where
  "set_zero from to rd =
     (let n = min (unat to) (length (rd_Memory rd)) - unat from
      in rd\<lparr>rd_Memory := put (unat from) (replicate n 0) (rd_Memory rd),
            rd_Cache := put (unat from) (replicate n 0) (rd_Cache rd)\<rparr>)"

definition unmap_one :: "rd_sys \<Rightarrow> u64 \<Rightarrow> u32 \<Rightarrow> RAWDISK \<Rightarrow> RAWDISK" where
  "unmap_one sys BlockAddress Count rd =
     (let from = BlockAddress * ucast (rd_BlockLength rd);
          to = (BlockAddress + ucast Count) * ucast (rd_BlockLength rd)
      in if rd_Sparse rd \<and> sys_set_zero sys from to rd then set_zero from to rd
         else case CopyBuffer sys from ZeroFile (Count * rd_BlockLength rd) SCSI_ADSENSE_NO_SENSE None rd of
             (_, _, rd) \<Rightarrow> rd)"

fun unmap_loop :: "rd_sys \<Rightarrow> bytes \<Rightarrow> nat list \<Rightarrow> RAWDISK \<Rightarrow> RAWDISK" where
  "unmap_loop sys Descriptors [] rd = rd"
| "unmap_loop sys Descriptors (I # Is) rd =
     unmap_loop sys Descriptors Is
       (unmap_one sys (getl64 (slice Descriptors (16 * I) 8)) (getl32 (slice Descriptors (16 * I + 8) 4)) rd)"

definition rd_Unmap ::
    "rd_sys \<Rightarrow> bytes \<Rightarrow> u32 \<Rightarrow> SPD_IOCTL_STORAGE_UNIT_STATUS \<Rightarrow> RAWDISK \<Rightarrow>
     bool \<times> bytes \<times> SPD_IOCTL_STORAGE_UNIT_STATUS \<times> RAWDISK" where
  "rd_Unmap sys Descriptors Count st rd = (True, Descriptors, st, unmap_loop sys Descriptors [0..<unat Count] rd)"

definition RawDiskInterface :: "rd_sys \<Rightarrow> RAWDISK SPD_STORAGE_UNIT_INTERFACE" where
  "RawDiskInterface sys =
     \<lparr>ReadOp = Some (rd_Read sys), WriteOp = Some (rd_Write sys), FlushOp = Some (rd_Flush sys),
      UnmapOp = Some (rd_Unmap sys)\<rparr>"

section \<open>Creating\<close>

text \<open>
  What the system calls return: the two names in UTF-8, if they fit; the memory; the file with its
  contents, or an error; whether it can be sparse; the errors of asking for the size and of setting it;
  the errors of the mapping; the address of the mapping; the unit.
\<close>

record rd_create =
  cr_Guid :: GUID
  cr_ProductId :: "bytes option"
  cr_ProductRevision :: "bytes option"
  cr_allocated :: bool
  cr_open :: "u32 + bytes"
  cr_sparse :: bool
  cr_get_size :: u32
  cr_set_size :: u32
  cr_mapping :: u32
  cr_view :: "u32 + ptr"
  cr_unit :: "SPD_IOCTL_STORAGE_UNIT_PARAMS \<Rightarrow> u32"

definition pad_to :: "nat \<Rightarrow> bytes \<Rightarrow> bytes" where
  "pad_to n s = take n (s @ replicate n 0)"

definition rd_partition :: "u64 \<Rightarrow> u32 \<Rightarrow> SPD_PARTITION" where
  "rd_partition Count Length =
     (let a = (if Length \<le> 4096 then ucast (4096 div Length) else 1)
      in \<lparr>part_Type = 7, part_Active = 0, part_BlockAddress = a, part_BlockCount = Count - a\<rparr>)"

text \<open>
  An empty file gets a partition table, which is flushed. The mapping has whole pages; what the table
  has behind the end of a small file is lost.
\<close>

definition rd_format :: "rd_sys \<Rightarrow> RAWDISK \<Rightarrow> RAWDISK" where
  "rd_format sys rd =
     (case SpdDefinePartitionTable [rd_partition (rd_BlockCount rd) (rd_BlockLength rd)]
             (rd_Memory rd @ replicate 512 0) of
        (Error, mm) \<Rightarrow>
          if Error = ERROR_SUCCESS
          then let rd = rd\<lparr>rd_Memory := take (length (rd_Memory rd)) mm\<rparr>;
                   rd = (if sys_flush_view sys 0 0 rd then flush_view 0 0 rd else rd)
               in if sys_flush_file sys rd then flush_file rd else rd
          else rd)"

definition RawDiskCreate ::
    "rd_create \<Rightarrow> rd_sys \<Rightarrow> u64 \<Rightarrow> u32 \<Rightarrow> bool \<Rightarrow> bool \<Rightarrow> bool \<Rightarrow>
     u32 + SPD_IOCTL_STORAGE_UNIT_PARAMS \<times> RAWDISK" where
  "RawDiskCreate cr sys Count Length WriteProt Cache Unmap =
     (case (cr_ProductId cr, cr_ProductRevision cr) of
        (Some Product, Some Revision) \<Rightarrow>
          let par = \<lparr>Guid = cr_Guid cr, BlockCount = Count, BlockLength = Length,
                ProductId = pad_to 16 Product, ProductRevisionLevel = pad_to 4 Revision, DeviceType = 0,
                WriteProtected = WriteProt, CacheSupported = Cache, UnmapSupported = Unmap,
                EjectDisabled = False, MaxTransferLength = 64 * 1024\<rparr>
          in if \<not> cr_allocated cr then Inl ERROR_NOT_ENOUGH_MEMORY
             else (case cr_open cr of
                 Inl Error \<Rightarrow> Inl Error
               | Inr File \<Rightarrow>
                 if cr_get_size cr \<noteq> ERROR_SUCCESS then Inl (cr_get_size cr)
                 else
                   let ZeroSize = (File = []);
                       FileSize = (if ZeroSize then Count * ucast Length else of_nat (length File))
                   in if FileSize = 0 \<or> Count * ucast Length \<noteq> FileSize then Inl ERROR_INVALID_PARAMETER
                      else if cr_set_size cr \<noteq> ERROR_SUCCESS then Inl (cr_set_size cr)
                      else if cr_mapping cr \<noteq> ERROR_SUCCESS then Inl (cr_mapping cr)
                      else (case cr_view cr of
                          Inl Error \<Rightarrow> Inl Error
                        | Inr Pointer \<Rightarrow>
                          let File = (if ZeroSize then replicate (unat FileSize) 0 else File);
                              rd = \<lparr>rd_BlockCount = Count, rd_BlockLength = Length, rd_Pointer = Pointer,
                                rd_Sparse = cr_sparse cr, rd_Memory = File, rd_Cache = File, rd_Medium = File,
                                rd_Crashed = False\<rparr>;
                              rd = (if ZeroSize then rd_format sys rd else rd)
                          in if cr_unit cr par \<noteq> ERROR_SUCCESS then Inl (cr_unit cr par) else Inr (par, rd)))
      | _ \<Rightarrow> Inl ERROR_INVALID_PARAMETER)"

text \<open>At the end everything is flushed; the outcomes do not matter.\<close>

definition RawDiskDelete :: "rd_sys \<Rightarrow> RAWDISK \<Rightarrow> RAWDISK" where
  "RawDiskDelete sys rd =
     (let rd = (if sys_flush_view sys 0 0 rd then flush_view 0 0 rd else rd)
      in if sys_flush_file sys rd then flush_file rd else rd)"

section \<open>A block device\<close>

text \<open>
  When no system call fails, the operations are those of a block device: the laws of the interface
  \<open>block_device\<close> for the mapped octets.
\<close>

definition sys_works :: "rd_sys \<Rightarrow> bool" where
  "sys_works sys \<longleftrightarrow> (\<forall>off n rd. sys_page_error sys off n rd = None) \<and>
     (\<forall>off n rd. sys_flush_view sys off n rd) \<and> (\<forall>rd. sys_flush_file sys rd)"

definition rd_ok :: "nat \<Rightarrow> RAWDISK \<Rightarrow> bool" where
  "rd_ok BL rd \<longleftrightarrow> unat (rd_BlockLength rd) = BL \<and> length (rd_Memory rd) < 2 ^ 64 \<and> \<not> rd_Crashed rd"

lemma flush_fields [simp]:
  "rd_Memory (flush_view off n rd) = rd_Memory rd" "rd_Memory (flush_file rd) = rd_Memory rd"
  "rd_ok BL (flush_view off n rd) = rd_ok BL rd" "rd_ok BL (flush_file rd) = rd_ok BL rd"
  "rd_BlockLength (flush_view off n rd) = rd_BlockLength rd" "rd_BlockLength (flush_file rd) = rd_BlockLength rd"
  by (simp_all add: flush_view_def flush_file_def rd_ok_def)

lemma FlushInternal_works:
  "sys_works sys \<Longrightarrow> FlushInternal sys a n st rd =
     (True, st, flush_file (flush_view (a * ucast (rd_BlockLength rd)) (n * rd_BlockLength rd) rd))"
  by (simp add: FlushInternal_def sys_works_def Let_def)

text \<open>The 64-bit offset and the 32-bit length of a request that fits do not wrap.\<close>

lemma request_words:
  assumes "rd_ok BL rd" and "request_inside BL Req (rd_Memory rd)"
  shows "unat (Op_BlockAddress (Req_Op Req) * ucast (rd_BlockLength rd)) = req_offset BL Req"
    and "unat (Op_BlockCount (Req_Op Req) * rd_BlockLength rd) = req_octets BL Req"
proof -
  have BL: "unat (ucast (rd_BlockLength rd) :: u64) = BL"
    using assms(1) by (simp add: rd_ok_def unat_ucast_up)
  have "req_offset BL Req < 2 ^ 64" "req_octets BL Req < 2 ^ 32"
    using assms by (simp_all add: request_inside_def rd_ok_def)
  with BL assms(1) show "unat (Op_BlockAddress (Req_Op Req) * ucast (rd_BlockLength rd)) = req_offset BL Req"
    "unat (Op_BlockCount (Req_Op Req) * rd_BlockLength rd) = req_octets BL Req"
    by (simp_all add: unat_word_ariths req_offset_def req_octets_def rd_ok_def)
qed

lemma CopyBuffer_works:
  assumes "sys_works sys" and "rd_ok BL rd" and "request_inside BL Req (rd_Memory rd)"
    and "copy_fits c (req_octets BL Req)"
    and "copy_octets c (req_offset BL Req) (req_octets BL Req) (rd_Memory rd) = (c', mm)"
  shows "CopyBuffer sys (Op_BlockAddress (Req_Op Req) * ucast (rd_BlockLength rd)) c
      (Op_BlockCount (Req_Op Req) * rd_BlockLength rd) Code Status rd = (c', Status, rd\<lparr>rd_Memory := mm\<rparr>)"
proof -
  have "\<not> length (rd_Memory rd) < req_offset BL Req + req_octets BL Req"
    using assms(3) by (simp add: request_inside_def)
  with assms show ?thesis
    by (simp add: CopyBuffer_def request_words [OF assms(2,3)] sys_works_def)
qed

lemma rd_Read_works:
  assumes "sys_works sys" and "rd_ok BL rd" and "request_fits BL Req Data (rd_Memory rd)" and "ScsiStatus st = SCSISTAT_GOOD"
  shows "\<exists>rd'. rd_Read sys Data (Op_BlockAddress (Req_Op Req)) (Op_BlockCount (Req_Op Req)) f st rd =
      (True, put 0 (slice (rd_Memory rd) (req_offset BL Req) (req_octets BL Req)) Data, st, rd') \<and>
    rd_ok BL rd' \<and> rd_Memory rd' = rd_Memory rd"
proof -
  define k where "k = (if f \<noteq> 0 then flush_file (flush_view (Op_BlockAddress (Req_Op Req) * ucast (rd_BlockLength rd))
      (Op_BlockCount (Req_Op Req) * rd_BlockLength rd) rd) else rd)"
  have k: "rd_ok BL k" "rd_Memory k = rd_Memory rd" "rd_BlockLength k = rd_BlockLength rd"
    using assms(2) by (simp_all add: k_def)
  have "CopyBuffer sys (Op_BlockAddress (Req_Op Req) * ucast (rd_BlockLength rd)) (FromFile Data)
      (Op_BlockCount (Req_Op Req) * rd_BlockLength rd) SCSI_ADSENSE_UNRECOVERED_ERROR (Some st) k =
      (FromFile (put 0 (slice (rd_Memory rd) (req_offset BL Req) (req_octets BL Req)) Data), Some st, k)"
    using CopyBuffer_works [OF assms(1) k(1), of Req "FromFile Data"] assms(3) k
    by (simp add: request_fits_def)
  moreover have "(if f \<noteq> 0 then FlushInternal sys (Op_BlockAddress (Req_Op Req)) (Op_BlockCount (Req_Op Req)) st rd
      else (True, st, rd)) = (True, st, k)"
    using assms(1) by (simp add: FlushInternal_works k_def)
  ultimately show ?thesis
    using k assms(4) by (auto simp: rd_Read_def)
qed

text \<open>After a write with the flag the blocks are on the medium.\<close>

lemma rd_Write_works:
  assumes "sys_works sys" and "rd_ok BL rd" and "request_fits BL Req Data (rd_Memory rd)" and "ScsiStatus st = SCSISTAT_GOOD"
  shows "\<exists>rd'. rd_Write sys Data (Op_BlockAddress (Req_Op Req)) (Op_BlockCount (Req_Op Req)) f st rd =
      (True, Data, st, rd') \<and> rd_ok BL rd' \<and>
    rd_Memory rd' = put (req_offset BL Req) (slice Data 0 (req_octets BL Req)) (rd_Memory rd) \<and>
    (f \<noteq> 0 \<longrightarrow> length (rd_Cache rd) = length (rd_Memory rd) \<longrightarrow> req_octets BL Req \<noteq> 0 \<longrightarrow>
      slice (rd_Medium rd') (req_offset BL Req) (req_octets BL Req) = slice Data 0 (req_octets BL Req))"
proof -
  define mm where "mm = put (req_offset BL Req) (slice Data 0 (req_octets BL Req)) (rd_Memory rd)"
  have fit: "req_offset BL Req + req_octets BL Req \<le> length (rd_Memory rd)" "req_octets BL Req \<le> length Data"
    and ins: "request_inside BL Req (rd_Memory rd)"
    using assms(3) by (simp_all add: request_fits_def request_inside_def)
  have len: "length mm = length (rd_Memory rd)" using fit by (simp add: mm_def length_put length_slice)
  have w: "CopyBuffer sys (Op_BlockAddress (Req_Op Req) * ucast (rd_BlockLength rd)) (ToFile Data)
      (Op_BlockCount (Req_Op Req) * rd_BlockLength rd) SCSI_ADSENSE_WRITE_ERROR (Some st) rd =
      (ToFile Data, Some st, rd\<lparr>rd_Memory := mm\<rparr>)"
    using CopyBuffer_works [OF assms(1,2) ins, of "ToFile Data"] fit by (simp add: mm_def)
  have ok: "rd_ok BL (rd\<lparr>rd_Memory := mm\<rparr>)" using assms(2) len by (simp add: rd_ok_def)
  have med: "slice (put (req_offset BL Req) (slice mm (req_offset BL Req) (req_octets BL Req)) (rd_Cache rd))
      (req_offset BL Req) (req_octets BL Req) = slice Data 0 (req_octets BL Req)"
    if "length (rd_Cache rd) = length (rd_Memory rd)"
    using that fit len by (simp add: slice_put_same length_slice mm_def)
  have nz: "Op_BlockCount (Req_Op Req) * rd_BlockLength rd = 0 \<longleftrightarrow> req_octets BL Req = 0"
    by (metis request_words(2) [OF assms(2) ins] unat_eq_zero)
  show ?thesis
    using w ok med assms(1,4) nz
    by (auto simp: rd_Write_def FlushInternal_works mm_def [symmetric] flush_file_def flush_view_def
        request_words [OF assms(2) ins] rd_ok_def)
qed

lemma unmap_one_works:
  assumes "sys_works sys" and "rd_ok BL w" and "unmap_ok BL Data I (rd_Memory w)"
  shows "rd_Memory (unmap_one sys (getl64 (slice Data (16 * I) 8)) (getl32 (slice Data (16 * I + 8) 4)) w) =
      put (fst (unmap_range BL Data I)) (replicate (snd (unmap_range BL Data I)) 0) (rd_Memory w)"
    and "rd_ok BL (unmap_one sys (getl64 (slice Data (16 * I) 8)) (getl32 (slice Data (16 * I + 8) 4)) w)"
proof -
  define A N where "A = getl64 (slice Data (16 * I) 8)" and "N = getl32 (slice Data (16 * I + 8) 4)"
  have fit: "unat A * BL + unat N * BL \<le> length (rd_Memory w)" "unat N * BL < 2 ^ 32" "length (rd_Memory w) < 2 ^ 64"
    and BL: "unat (rd_BlockLength w) = BL" "unat (ucast (rd_BlockLength w) :: u64) = BL"
    using assms(2,3) by (simp_all add: unmap_ok_def unmap_range_def A_def N_def rd_ok_def unat_ucast_up)
  have len: "unat (N * rd_BlockLength w) = unat N * BL" using fit(2) BL by (simp add: unat_word_ariths)
  have beg: "unat (A * ucast (rd_BlockLength w)) = unat A * BL" using fit BL by (simp add: unat_word_ariths)
  have "unat (ucast N * ucast (rd_BlockLength w) :: u64) = unat N * BL"
    using fit BL by (simp add: unat_word_ariths unat_ucast_up)
  then have last: "unat ((A + ucast N) * ucast (rd_BlockLength w)) = unat A * BL + unat N * BL"
    unfolding distrib_right using fit beg by (simp add: unat_add_no_wrap)
  have rng: "unmap_range BL Data I = (unat A * BL, unat N * BL)" by (simp add: unmap_range_def A_def N_def)
  have zero: "set_zero (A * ucast (rd_BlockLength w)) ((A + ucast N) * ucast (rd_BlockLength w)) w =
      w\<lparr>rd_Memory := put (unat A * BL) (replicate (unat N * BL) 0) (rd_Memory w),
        rd_Cache := put (unat A * BL) (replicate (unat N * BL) 0) (rd_Cache w)\<rparr>"
    using fit(1) by (simp add: set_zero_def beg last Let_def min_def)
  have copy: "CopyBuffer sys (A * ucast (rd_BlockLength w)) ZeroFile (N * rd_BlockLength w) SCSI_ADSENSE_NO_SENSE None w =
      (ZeroFile, None, w\<lparr>rd_Memory := put (unat A * BL) (replicate (unat N * BL) 0) (rd_Memory w)\<rparr>)"
    using fit(1) assms(1) by (simp add: CopyBuffer_def beg len sys_works_def)
  have one: "unmap_one sys A N w = (if rd_Sparse w \<and> sys_set_zero sys (A * ucast (rd_BlockLength w))
        ((A + ucast N) * ucast (rd_BlockLength w)) w
      then w\<lparr>rd_Memory := put (unat A * BL) (replicate (unat N * BL) 0) (rd_Memory w),
        rd_Cache := put (unat A * BL) (replicate (unat N * BL) 0) (rd_Cache w)\<rparr>
      else w\<lparr>rd_Memory := put (unat A * BL) (replicate (unat N * BL) 0) (rd_Memory w)\<rparr>)"
    by (simp only: unmap_one_def Let_def zero copy prod.case)
  show "rd_Memory (unmap_one sys A N w) = put (fst (unmap_range BL Data I)) (replicate (snd (unmap_range BL Data I)) 0) (rd_Memory w)"
    "rd_ok BL (unmap_one sys A N w)"
    using assms(2) fit(1) by (simp_all add: one rng rd_ok_def length_put)
qed

lemma unmap_loop_works:
  assumes "sys_works sys" and "rd_ok BL w" and "\<forall>I \<in> set Is. unmap_ok BL Data I (rd_Memory w)"
  shows "rd_ok BL (unmap_loop sys Data Is w) \<and> length (rd_Memory (unmap_loop sys Data Is w)) = length (rd_Memory w) \<and>
    (\<forall>i < length (rd_Memory w). rd_Memory (unmap_loop sys Data Is w) ! i =
      (if \<exists>I \<in> set Is. fst (unmap_range BL Data I) \<le> i \<and> i < fst (unmap_range BL Data I) + snd (unmap_range BL Data I)
       then 0 else rd_Memory w ! i))"
  using assms(2,3)
proof (induction Is arbitrary: w)
  case (Cons I Is)
  define w1 where "w1 = unmap_one sys (getl64 (slice Data (16 * I) 8)) (getl32 (slice Data (16 * I + 8) 4)) w"
  have I: "unmap_ok BL Data I (rd_Memory w)" using Cons.prems by simp
  note one = unmap_one_works [OF assms(1) Cons.prems(1) I, folded w1_def]
  have fit: "fst (unmap_range BL Data I) + snd (unmap_range BL Data I) \<le> length (rd_Memory w)"
    using I by (auto simp: unmap_ok_def split: prod.splits)
  then have len: "length (rd_Memory w1) = length (rd_Memory w)" by (simp add: one(1) length_put)
  have "\<forall>I \<in> set Is. unmap_ok BL Data I (rd_Memory w1)"
    using Cons.prems(2) len by (simp add: unmap_ok_def)
  note IH = Cons.IH [OF one(2) this]
  have "rd_Memory w1 ! i = (if fst (unmap_range BL Data I) \<le> i \<and> i < fst (unmap_range BL Data I) + snd (unmap_range BL Data I)
      then 0 else rd_Memory w ! i)" if "i < length (rd_Memory w)" for i
    using that fit by (auto simp: one(1) nth_put)
  with IH len show ?case by (auto simp flip: w1_def)
qed simp

interpretation rawdisk: block_device "dispatch_op (RawDiskInterface sys)" rd_Memory "\<lambda>rd. sys_works sys \<and> rd_ok BL rd" BL
  for sys BL
proof
  fix w Req Data
  assume w: "sys_works sys \<and> rd_ok BL w" and fits: "request_fits BL Req Data (rd_Memory w)"
  have st: "ScsiStatus zero_status = SCSISTAT_GOOD" by (simp add: zero_status_def)
  have len: "length (slice (rd_Memory w) (req_offset BL Req) (req_octets BL Req)) = req_octets BL Req"
    "req_octets BL Req \<le> length Data"
    using fits by (simp_all add: request_fits_def request_inside_def length_slice)
  {
    assume "Req_Kind Req = SpdIoctlTransactReadKind"
    with rd_Read_works [OF conjunct1 [OF w] conjunct2 [OF w] fits st, of "Op_ForceUnitAccess (Req_Op Req)"]
    show "\<exists>Data' w'. dispatch_op (RawDiskInterface sys) Req Data w = (True, Data', zero_status, w') \<and>
        (sys_works sys \<and> rd_ok BL w') \<and> rd_Memory w' = rd_Memory w \<and> length Data' = length Data \<and>
        slice Data' 0 (req_octets BL Req) = slice (rd_Memory w) (req_offset BL Req) (req_octets BL Req)"
      using w len by (auto simp: dispatch_op_def RawDiskInterface_def Let_def length_put slice_put_same)
  next
    assume "Req_Kind Req = SpdIoctlTransactWriteKind"
    with rd_Write_works [OF conjunct1 [OF w] conjunct2 [OF w] fits st, of "Op_ForceUnitAccess (Req_Op Req)"]
    show "\<exists>Data' w'. dispatch_op (RawDiskInterface sys) Req Data w = (True, Data', zero_status, w') \<and>
        (sys_works sys \<and> rd_ok BL w') \<and> length Data' = length Data \<and>
        rd_Memory w' = put (req_offset BL Req) (slice Data 0 (req_octets BL Req)) (rd_Memory w)"
      using w by (auto simp: dispatch_op_def RawDiskInterface_def Let_def)
  }
qed

interpretation rawdisk: thin_device "dispatch_op (RawDiskInterface sys)" rd_Memory "\<lambda>rd. sys_works sys \<and> rd_ok BL rd" BL
  for sys BL
proof
  fix w and Req :: SPD_IOCTL_TRANSACT_REQ and Data :: bytes
  assume w: "sys_works sys \<and> rd_ok BL w"
  {
    assume "Req_Kind Req = SpdIoctlTransactFlushKind"
    with w show "\<exists>Data' w'. dispatch_op (RawDiskInterface sys) Req Data w = (True, Data', zero_status, w') \<and>
        (sys_works sys \<and> rd_ok BL w') \<and> rd_Memory w' = rd_Memory w \<and> length Data' = length Data"
      by (simp add: dispatch_op_def RawDiskInterface_def Let_def rd_Flush_def FlushInternal_works)
  next
    assume "Req_Kind Req = SpdIoctlTransactUnmapKind"
      "\<forall>I < unat (Op_UnmapCount (Req_Op Req)). unmap_ok BL Data I (rd_Memory w)"
    then show "\<exists>Data' w'. dispatch_op (RawDiskInterface sys) Req Data w = (True, Data', zero_status, w') \<and>
        (sys_works sys \<and> rd_ok BL w') \<and> length Data' = length Data \<and> length (rd_Memory w') = length (rd_Memory w) \<and>
        (\<forall>i < length (rd_Memory w). rd_Memory w' ! i =
          (if \<exists>I < unat (Op_UnmapCount (Req_Op Req)).
              fst (unmap_range BL Data I) \<le> i \<and> i < fst (unmap_range BL Data I) + snd (unmap_range BL Data I)
           then 0 else rd_Memory w ! i))"
      using unmap_loop_works [OF conjunct1 [OF w] conjunct2 [OF w], of "[0..<unat (Op_UnmapCount (Req_Op Req))]" Data] w
      by (auto simp: dispatch_op_def RawDiskInterface_def Let_def rd_Unmap_def)
  }
qed

end
