(* ===== verification/Transfers.thy ===== *)
theory Transfers
  imports Scsi_Props RawDisk
begin

text \<open>
  Reads, writes, flushes and unmaps from the command to the storage device: the ranges that are posted,
  the chunks that a transfer is cut into, and the data that arrives.
\<close>

section \<open>Ranges\<close>

lemma range_ok_iff:
  "range_ok u a n \<longleftrightarrow> unat a + unat n \<le> unat (BlockCount (StorageUnitParams u))"
proof -
  have n: "unat (ucast n :: u64) = unat n" by (rule unat_ucast_up) simp
  show ?thesis
  proof (cases "unat a + unat n < 2 ^ 64")
    case True
    then have s: "unat (a + ucast n) = unat a + unat n" by (simp add: unat_add_no_wrap n)
    have "\<not> a + ucast n < a" unfolding no_wrap_iff n using True by simp
    then show ?thesis by (simp add: range_ok_def Let_def word_less_nat_alt s not_less)
  next
    case False
    then have "a + ucast n < a" using no_wrap_iff [of a "ucast n"] n by simp
    moreover have "unat (BlockCount (StorageUnitParams u)) < 2 ^ 64" using unsigned_less [of "BlockCount (StorageUnitParams u)", where ?'a = nat] by simp
    ultimately show ?thesis using False by (simp add: range_ok_def Let_def)
  qed
qed

lemma ErrorEx_status: "fst (SpdScsiError srb K A m) \<noteq> SRB_STATUS_PENDING"
  by (simp add: SpdScsiError_def SpdScsiErrorEx_def Let_def)

lemma error_not_pending: "ret_mem k (SpdScsiError srb K A m) \<noteq> Some (SRB_STATUS_PENDING, k')"
  using ErrorEx_status [of srb K A m] by (auto simp: ret_mem_def)

lemma PostSrb_pending:
  assumes "SpdScsiPostSrb sysaddr p srb n k = Some (SRB_STATUS_PENDING, k')"
  shows "exts (mem k') (SrbExtension (srbs (mem k) srb)) =
      zero_ext\<lparr>StorageUnit := p, Srb := srb, SystemDataBuffer := (if n \<noteq> 0 then snd sysaddr else 0),
        SystemDataLength := n\<rparr>"
    and "srbs (mem k') = srbs (mem k)"
    and "\<exists>u q. units k p = Some u \<and> units k' p = Some (u\<lparr>UnitIoq := Some q\<rparr>)"
  using assms
  by (auto simp: SpdScsiPostSrb_def SpdIoqPostSrb_def Let_def srb_get_defs mem_upd_defs kernel_upd_defs
        bind_eq_Some_conv zero_ext_def split: if_splits)

lemma posted_range:
  assumes "SpdScsiPostRangeSrb sysaddr p u srb c k = Some (SRB_STATUS_PENDING, k')"
  obtains a n f where "is_write (c ! 0) \<longrightarrow> \<not> WriteProtected (StorageUnitParams u)"
    and "is_flush (c ! 0) \<longrightarrow> CacheSupported (StorageUnitParams u) \<and> \<not> WriteProtected (StorageUnitParams u)"
    and "is_read (c ! 0) \<or> is_write (c ! 0) \<or> is_flush (c ! 0)"
    and "SpdCdbGetRange c = Some (a, n, f)" and "n \<noteq> 0" and "range_ok u a n"
    and "is_flush (c ! 0) \<or> n * BlockLength (StorageUnitParams u) \<le> SrbGetDataTransferLength (mem k) srb"
    and "SpdScsiPostSrb sysaddr p srb
      (if is_flush (c ! 0) then 0 else n * BlockLength (StorageUnitParams u)) k = Some (SRB_STATUS_PENDING, k')"
proof -
  note simps = SpdScsiPostRangeSrb_def Let_def error_not_pending
  have guards: "is_write (c ! 0) \<longrightarrow> \<not> WriteProtected (StorageUnitParams u)"
    "is_flush (c ! 0) \<longrightarrow> CacheSupported (StorageUnitParams u) \<and> \<not> WriteProtected (StorageUnitParams u)"
    "is_read (c ! 0) \<or> is_write (c ! 0) \<or> is_flush (c ! 0)"
    using assms by (auto simp: simps split: if_splits)
  then obtain a n f where rg: "SpdCdbGetRange c = Some (a, n, f)"
    using assms by (auto simp: simps bind_eq_Some_conv split: if_splits)
  show thesis
    by (rule that [OF guards rg]) (use assms guards rg in \<open>auto simp: simps split: if_splits\<close>)
qed

text \<open>What is posted to the storage device lies inside the unit. When a read, write or flush is
  pending, its command block has a range, the range is not empty and ends at most at the last block
  without wrapping, a write is not to a write-protected unit and a flush is only to one with a cache;
  the extension of the request starts at offset 0 with the transfer length of the range, which is not
  larger than the buffer of the request.\<close>

lemma posted_range_inside_unit:
  assumes "SpdScsiPostRangeSrb sysaddr p u srb c k = Some (SRB_STATUS_PENDING, k')"
  shows "\<exists>a n f. SpdCdbGetRange c = Some (a, n, f) \<and> 0 < unat n \<and>
    unat a + unat n \<le> unat (BlockCount (StorageUnitParams u)) \<and>
    (is_write (c ! 0) \<longrightarrow> \<not> WriteProtected (StorageUnitParams u)) \<and>
    (is_flush (c ! 0) \<longrightarrow> CacheSupported (StorageUnitParams u) \<and> \<not> WriteProtected (StorageUnitParams u)) \<and>
    (let x = exts (mem k') (SrbExtension (srbs (mem k) srb)) in
      Srb x = srb \<and> StorageUnit x = p \<and> ChunkOffset x = 0 \<and>
      SystemDataLength x = (if is_flush (c ! 0) then 0 else n * BlockLength (StorageUnitParams u)) \<and>
      (\<not> is_flush (c ! 0) \<longrightarrow> SystemDataLength x \<le> SrbGetDataTransferLength (mem k) srb))"
proof (rule posted_range [OF assms])
  fix a n f
  assume r: "is_write (c ! 0) \<longrightarrow> \<not> WriteProtected (StorageUnitParams u)"
    "is_flush (c ! 0) \<longrightarrow> CacheSupported (StorageUnitParams u) \<and> \<not> WriteProtected (StorageUnitParams u)"
    "SpdCdbGetRange c = Some (a, n, f)" "n \<noteq> 0" "range_ok u a n"
    "is_flush (c ! 0) \<or> n * BlockLength (StorageUnitParams u) \<le> SrbGetDataTransferLength (mem k) srb"
    and post: "SpdScsiPostSrb sysaddr p srb
      (if is_flush (c ! 0) then 0 else n * BlockLength (StorageUnitParams u)) k = Some (SRB_STATUS_PENDING, k')"
  have "0 < unat n" using r(4) by (simp add: unat_gt_0)
  show ?thesis
    by (rule exI [of _ a], rule exI [of _ n], rule exI [of _ f])
       (use \<open>0 < unat n\<close> r PostSrb_pending(1) [OF post] in
         \<open>auto simp: range_ok_iff zero_ext_def Let_def split: if_splits\<close>)
qed

text \<open>A READ(10) of the last two blocks of the demonstration's unit.\<close>

definition read10_srb :: SRB where
  "read10_srb = inquiry_srb\<lparr>Cdb := [SCSIOP_READ, 0, 0, 0, 3, 0xfe, 0, 0, 2, 0, 0, 0, 0, 0, 0, 0],
     DataTransferLength := 1024\<rparr>"

definition read10_kernel :: kernel where
  "read10_kernel = demo_kernel\<lparr>mem := inquiry_mem\<lparr>srbs := \<lambda>_. read10_srb,
     bufs := \<lambda>_. replicate 1024 0\<rparr>\<rparr>"

lemma demo_unit_params:
  "BlockCount (StorageUnitParams demo_unit) = 1024" "BlockLength (StorageUnitParams demo_unit) = 512"
  "MaxTransferLength (StorageUnitParams demo_unit) = 65536" "\<not> WriteProtected (StorageUnitParams demo_unit)"
  "CacheSupported (StorageUnitParams demo_unit)" "UnmapSupported (StorageUnitParams demo_unit)"
  "UnitIoq demo_unit = Some demo_ioq"
  by (simp_all add: demo_unit_def demo_params_def init_unit_def)

lemma read10_range: "SpdCdbGetRange (Cdb read10_srb) = Some (0x3fe, 2, 0)"
  by (simp add: read10_srb_def SpdCdbGetRange_def Let_def word_bit3_def)

lemma read10_posted:
  "\<exists>k'. SpdScsiPostRangeSrb (STOR_STATUS_SUCCESS, 0x100) 1 demo_unit 1 (Cdb read10_srb) read10_kernel =
     Some (SRB_STATUS_PENDING, k')"
proof -
  have op: "Cdb read10_srb ! 0 = SCSIOP_READ" by (simp add: read10_srb_def)
  have c: "is_read SCSIOP_READ" "\<not> is_write SCSIOP_READ" "\<not> is_flush SCSIOP_READ"
    by (simp_all add: op_class_defs)
  have m: "SrbGetDataTransferLength (mem read10_kernel) 1 = 1024" "units read10_kernel 1 = Some demo_unit"
    by (simp_all add: read10_kernel_def srb_get_defs read10_srb_def inquiry_mem_def demo_units demo_unit_def)
  have r: "range_ok demo_unit 0x3fe 2" by (simp add: range_ok_def demo_unit_params)
  show ?thesis
    by (simp add: SpdScsiPostRangeSrb_def Let_def op c m r read10_range demo_unit_params SpdScsiPostSrb_def
          SpdIoqPostSrb_def demo_ioq_def)
qed

lemma posted_range_inside_unit_witness:
  "\<exists>k' n. SpdScsiPostRangeSrb (STOR_STATUS_SUCCESS, 0x100) 1 demo_unit 1 (Cdb read10_srb) read10_kernel =
      Some (SRB_STATUS_PENDING, k') \<and> unat (0x3fe :: u64) + unat (n :: u32) \<le> 1024 \<and> n = 2"
proof -
  obtain k' where k': "SpdScsiPostRangeSrb (STOR_STATUS_SUCCESS, 0x100) 1 demo_unit 1 (Cdb read10_srb) read10_kernel =
      Some (SRB_STATUS_PENDING, k')" using read10_posted by blast
  from posted_range_inside_unit [OF k'] have "unat (0x3fe :: u64) + unat (2 :: u32) \<le> 1024"
    unfolding read10_range demo_unit_params by auto
  with k' show ?thesis by blast
qed

section \<open>The exchange with a device\<close>

text \<open>
  The exchange for one chunk: prepare, let the device act, complete with its status. \<open>m'\<close> is the memory
  when the answer comes. \<open>buf\<close> is the data buffer of the thread that transacts; a request that the
  device completes later is not followed.
\<close>

definition exchange ::
    "(ptr \<rightharpoonup> SPD_STORAGE_UNIT) \<Rightarrow>
     (SPD_IOCTL_TRANSACT_REQ \<Rightarrow> bytes \<Rightarrow> 'w \<Rightarrow> bool \<times> bytes \<times> SPD_IOCTL_STORAGE_UNIT_STATUS \<times> 'w) \<Rightarrow>
     ptr \<Rightarrow> kmem \<Rightarrow> kmem \<Rightarrow> bytes \<Rightarrow> 'w \<Rightarrow> (u8 \<times> kmem \<times> bytes \<times> 'w) option" where
  "exchange us act e m m' buf w = do {
     (Req, Data) \<leftarrow> SpdSrbExecuteScsiPrepare us e m (Some (zero_req, buf));
     let (Complete, Data, status, w) = act Req Data w;
     if Complete then do {
       (st, m') \<leftarrow> SpdSrbExecuteScsiComplete us
          \<lparr>Rsp_Hint = Req_Hint Req, Rsp_Kind = Req_Kind Req, Rsp_Status = status\<rparr> (Some Data) e m';
       Some (st, m', Data, w)
     } else None
   }"

text \<open>The exchange for a posted request: chunks while the verdict is pending, at most \<open>fuel\<close> of them.\<close>

fun transfer ::
    "nat \<Rightarrow> (ptr \<rightharpoonup> SPD_STORAGE_UNIT) \<Rightarrow>
     (SPD_IOCTL_TRANSACT_REQ \<Rightarrow> bytes \<Rightarrow> 'w \<Rightarrow> bool \<times> bytes \<times> SPD_IOCTL_STORAGE_UNIT_STATUS \<times> 'w) \<Rightarrow>
     ptr \<Rightarrow> kmem \<times> bytes \<times> 'w \<Rightarrow> (u8 \<times> kmem \<times> bytes \<times> 'w) option" where
  "transfer 0 us act e (m, buf, w) = None"
| "transfer (Suc fuel) us act e (m, buf, w) = do {
     (st, m, Data, w) \<leftarrow> exchange us act e m m buf w;
     if st = SRB_STATUS_PENDING then transfer fuel us act e (m, Data, w) else Some (st, m, Data, w)
   }"

section \<open>Chunks\<close>

lemma put_put_adjacent:
  assumes "k + length xs + length ys \<le> length b"
  shows "put (k + length xs) ys (put k xs b) = put k (xs @ ys) b"
proof (cases "xs = []")
  case False
  then have "k < length b" using assms by (cases xs) simp_all
  with assms show ?thesis by (simp add: put_def splice_def min_def ac_simps)
qed (simp add: put_def splice_def)

lemma put_slices:
  assumes "x + c \<le> length S" and "y + c + k \<le> length T"
  shows "put (y + c) (slice S (x + c) k) (put y (slice S x c) T) = put y (slice S x (c + k)) T"
proof -
  have "length (slice S x c) = c" "length (slice S (x + c) k) \<le> k"
    using assms(1) by (simp_all add: slice_def)
  then show ?thesis
    using put_put_adjacent [of y "slice S x c" "slice S (x + c) k" T] assms(2) by (simp add: slice_append_slice)
qed

text \<open>
  The state of a transfer: the extension at \<open>e\<close> of a read or write of \<open>n\<close> blocks from \<open>a\<close>, of which
  \<open>off\<close> octets are done.
\<close>

definition transferring ::
    "(ptr \<rightharpoonup> SPD_STORAGE_UNIT) \<Rightarrow> SPD_STORAGE_UNIT \<Rightarrow> ptr \<Rightarrow> kmem \<Rightarrow> nat \<Rightarrow> nat \<Rightarrow> nat \<Rightarrow> bool" where
  "transferring us u e m a n off \<longleftrightarrow>
     (let x = exts m e; par = StorageUnitParams u; BL = unat (BlockLength par); M = unat (MaxTransferLength par)
      in us (StorageUnit x) = Some u \<and>
         (\<exists>A N f. SpdCdbGetRange (SrbGetCdb m (Srb x)) = Some (A, N, f) \<and> unat A = a \<and> unat N = n) \<and>
         a + n \<le> unat (BlockCount par) \<and> unat (SystemDataLength x) = n * BL \<and>
         unat (ChunkOffset x) = off \<and> 0 < BL \<and> 0 < M \<and> BL dvd M \<and> BL dvd off)"

lemma chunk_nat:
  assumes "unat (ChunkOffset x) \<le> unat (SystemDataLength x)"
  shows "unat (chunk_length u x) =
    min (unat (MaxTransferLength (StorageUnitParams u))) (unat (SystemDataLength x) - unat (ChunkOffset x))"
proof -
  have "unat (SystemDataLength x - ChunkOffset x) = unat (SystemDataLength x) - unat (ChunkOffset x)"
    using assms by (simp add: unat_sub word_le_nat_alt)
  then show ?thesis by (simp add: chunk_length_def Let_def word_less_nat_alt min_def)
qed

lemma chunk_step:
  assumes t: "transferring us u e m a n off" and off: "off < n * unat (BlockLength (StorageUnitParams u))"
  defines "BL \<equiv> unat (BlockLength (StorageUnitParams u))" and "M \<equiv> unat (MaxTransferLength (StorageUnitParams u))"
    and "x \<equiv> exts m e" and "c \<equiv> min (unat (MaxTransferLength (StorageUnitParams u)))
      (n * unat (BlockLength (StorageUnitParams u)) - off)"
  shows "unat (chunk_length u x) = c" "0 < c" "BL dvd c" "off + c \<le> n * BL"
    "unat (ChunkOffset x + chunk_length u x) = off + c"
    "SystemDataLength x \<le> ChunkOffset x + chunk_length u x \<longleftrightarrow> n * BL \<le> off + c"
    "\<exists>A N f. SpdCdbGetRange (SrbGetCdb m (Srb x)) = Some (A, N, f) \<and>
      (\<forall>w. unat (Op_BlockAddress (chunk_req u x (A, N, f) w)) * BL = a * BL + off \<and>
           unat (Op_BlockCount (chunk_req u x (A, N, f) w)) * BL = c)"
proof -
  have f: "unat (SystemDataLength x) = n * BL" "unat (ChunkOffset x) = off" "0 < BL" "0 < M" "BL dvd M" "BL dvd off"
    "a + n \<le> unat (BlockCount (StorageUnitParams u))"
    using t by (simp_all add: transferring_def Let_def BL_def M_def x_def)
  have off': "off < n * BL" using off by (simp add: BL_def)
  have c: "c = min M (n * BL - off)" by (simp add: c_def M_def BL_def)
  show len: "unat (chunk_length u x) = c" using off' f by (simp add: chunk_nat c M_def [symmetric])
  show "0 < c" using off' f by (simp add: c)
  show dvd: "BL dvd c" using f off' by (auto simp: c min_def intro: dvd_diff_nat)
  show le: "off + c \<le> n * BL" using off' by (simp add: c)
  have "n * BL < 2 ^ 32" using f(1) unsigned_less [of "SystemDataLength x", where ?'a = nat] by simp
  then show sum: "unat (ChunkOffset x + chunk_length u x) = off + c"
    using le len f(2) by (subst unat_add_no_wrap) simp_all
  show "SystemDataLength x \<le> ChunkOffset x + chunk_length u x \<longleftrightarrow> n * BL \<le> off + c"
    by (simp add: word_le_nat_alt sum f(1))
  obtain A N fua where rg: "SpdCdbGetRange (SrbGetCdb m (Srb x)) = Some (A, N, fua)" "unat A = a" "unat N = n"
    using t by (auto simp: transferring_def Let_def x_def)
  have ud: "unat (ucast (ChunkOffset x div BlockLength (StorageUnitParams u)) :: u64) = off div BL"
    by (subst unat_ucast_up) (simp_all add: unat_div f(2) BL_def)
  have "off div BL < n" using off' by (simp add: less_mult_imp_div_less)
  then have "a + off div BL < 2 ^ 64"
    using f(7) unsigned_less [of "BlockCount (StorageUnitParams u)", where ?'a = nat] by simp
  then have addr: "unat (A + ucast (ChunkOffset x div BlockLength (StorageUnitParams u))) = a + off div BL"
    using ud rg(2) by (subst unat_add_no_wrap) simp_all
  have "unat (Op_BlockAddress (chunk_req u x (A, N, fua) w)) * BL = a * BL + off"
    "unat (Op_BlockCount (chunk_req u x (A, N, fua) w)) * BL = c" for w
    using addr len f(6) dvd
    by (simp_all add: chunk_req_def Let_def add_mult_distrib unat_div BL_def [symmetric])
  with rg(1) show "\<exists>A N f. SpdCdbGetRange (SrbGetCdb m (Srb x)) = Some (A, N, f) \<and>
      (\<forall>w. unat (Op_BlockAddress (chunk_req u x (A, N, f) w)) * BL = a * BL + off \<and>
           unat (Op_BlockCount (chunk_req u x (A, N, f) w)) * BL = c)"
    by blast
qed

text \<open>The memory after a chunk: the data of a read is in the buffer, and the offset has moved.\<close>

definition after_chunk :: "ptr \<Rightarrow> u32 \<Rightarrow> (bytes \<Rightarrow> bytes) \<Rightarrow> kmem \<Rightarrow> kmem" where
  "after_chunk e n f m =
     upd_ext e (\<lambda>x. x\<lparr>ChunkOffset := ChunkOffset x + n\<rparr>) (upd_buf (SystemDataBuffer (exts m e)) f m)"

lemma after_chunk_fields [simp]:
  "exts (after_chunk e n f m) e = (exts m e)\<lparr>ChunkOffset := ChunkOffset (exts m e) + n\<rparr>"
  "bufs (after_chunk e n f m) = (bufs m)(SystemDataBuffer (exts m e) := f (bufs m (SystemDataBuffer (exts m e))))"
  "SrbGetCdb (after_chunk e n f m) = SrbGetCdb m"
  by (simp_all add: after_chunk_def mem_upd_defs SrbGetCdb_def fun_eq_iff)

lemma transferring_after:
  assumes "transferring us u e m a n off" and "off < n * unat (BlockLength (StorageUnitParams u))"
  shows "transferring us u e (after_chunk e (chunk_length u (exts m e)) f m) a n
    (off + unat (chunk_length u (exts m e)))"
  using assms(1) chunk_step(1,3,5) [OF assms] by (simp add: transferring_def Let_def)

text \<open>The operation code of the request of an extension.\<close>

abbreviation ext_op :: "kmem \<Rightarrow> ptr \<Rightarrow> u8" where
  "ext_op m e \<equiv> SrbGetCdb m (Srb (exts m e)) ! 0"

lemma not_read_and_write: "is_read op \<Longrightarrow> \<not> is_write op"
  by (auto simp: op_class_defs)

text \<open>What a transfer looks at does not depend on the links of the hash chains.\<close>

lemma eq_mod_hash_ext:
  assumes "eq_mod_hash m m1"
  shows "ChunkOffset (exts m1 x) = ChunkOffset (exts m x)" "SystemDataLength (exts m1 x) = SystemDataLength (exts m x)"
proof -
  have "(exts m1 x)\<lparr>HashNext := 0\<rparr> = (exts m x)\<lparr>HashNext := 0\<rparr>" using assms by (simp add: eq_mod_hash_def)
  then have "ChunkOffset ((exts m1 x)\<lparr>HashNext := 0\<rparr>) = ChunkOffset ((exts m x)\<lparr>HashNext := 0\<rparr>)"
    "SystemDataLength ((exts m1 x)\<lparr>HashNext := 0\<rparr>) = SystemDataLength ((exts m x)\<lparr>HashNext := 0\<rparr>)" by simp_all
  then show "ChunkOffset (exts m1 x) = ChunkOffset (exts m x)" "SystemDataLength (exts m1 x) = SystemDataLength (exts m x)"
    by simp_all
qed

lemma eq_mod_hash_trans: "eq_mod_hash m m1 \<Longrightarrow> eq_mod_hash m1 m2 \<Longrightarrow> eq_mod_hash m m2"
  by (simp add: eq_mod_hash_def)

lemma SrbGetCdb_cong: "srbs m1 = srbs m \<Longrightarrow> SrbGetCdb m1 = SrbGetCdb m"
  by (simp add: SrbGetCdb_def fun_eq_iff)

lemma transfer_cong:
  assumes "eq_mod_hash m m1"
  shows "transferring us u e m1 a n off = transferring us u e m a n off" "ext_op m1 e = ext_op m e"
    "chunk_length u (exts m1 e) = chunk_length u (exts m e)" "SystemDataBuffer (exts m1 e) = SystemDataBuffer (exts m e)"
    "bufs m1 = bufs m" "StorageUnit (exts m1 e) = StorageUnit (exts m e)" "ChunkOffset (exts m1 e) = ChunkOffset (exts m e)"
    "SystemDataLength (exts m1 e) = SystemDataLength (exts m e)"
  using eq_mod_hash_fields [OF assms] eq_mod_hash_ext [OF assms] SrbGetCdb_cong [OF eq_mod_hash_fields(2) [OF assms]]
  by (simp_all add: transferring_def chunk_length_def Let_def)

text \<open>One chunk of a read or a write, with any device that keeps to the interface.\<close>

context block_device begin

lemma read_chunk:
  assumes t: "transferring us u e m a n off" and off: "off < n * BL" and rd: "is_read (ext_op m e)"
    and BL: "BL = unat (BlockLength (StorageUnitParams u))" and disk: "(a + n) * BL \<le> length (disk w)"
    and buf: "unat (MaxTransferLength (StorageUnitParams u)) \<le> length buf" and ok: "ok w"
  defines "cl \<equiv> chunk_length u (exts m e)"
  shows "\<exists>Data w'. ok w' \<and> disk w' = disk w \<and> length Data = length buf \<and>
    (\<forall>m'. eq_mod_hash m m' \<longrightarrow> exchange us act e m m' buf w =
      Some (if n * BL \<le> off + unat cl then SRB_STATUS_SUCCESS else SRB_STATUS_PENDING,
        after_chunk e cl (put off (slice (disk w) (a * BL + off) (unat cl))) m', Data, w'))"
proof -
  have off': "off < n * unat (BlockLength (StorageUnitParams u))" using off BL by simp
  note st = chunk_step [OF t off', folded BL cl_def]
  obtain A N f where rg: "SpdCdbGetRange (SrbGetCdb m (Srb (exts m e))) = Some (A, N, f)"
    and rq: "\<And>x. unat (Op_BlockAddress (chunk_req u (exts m e) (A, N, f) x)) * BL = a * BL + off"
    "\<And>x. unat (Op_BlockCount (chunk_req u (exts m e) (A, N, f) x)) * BL = unat cl"
    using st(1,7) by auto
  have f: "us (StorageUnit (exts m e)) = Some u" "BlockLength (StorageUnitParams u) \<noteq> 0" "unat (ChunkOffset (exts m e)) = off"
    using t by (auto simp: transferring_def Let_def)
  define Req where "Req = zero_req\<lparr>Req_Hint := e, Req_Kind := SpdIoctlTransactReadKind,
        Req_Op := chunk_req u (exts m e) (A, N, f) (Req_Op zero_req)\<rparr>"
  have prep: "SpdSrbExecuteScsiPrepare us e m (Some (zero_req, buf)) = Some (Req, buf)"
    using rd f rg by (simp add: SpdSrbExecuteScsiPrepare_def Let_def Req_def)
  have req: "req_offset BL Req = a * BL + off" "req_octets BL Req = unat cl" "Req_Kind Req = SpdIoctlTransactReadKind"
    by (simp_all add: req_offset_def req_octets_def Req_def rq)
  have "a * BL + off + unat cl \<le> length (disk w)" using st(1,4) disk by (simp add: add_mult_distrib)
  moreover have "unat cl \<le> length buf" using st(1) buf by simp
  moreover have "unat cl < 2 ^ 32" using unsigned_less [of cl, where ?'a = nat] by simp
  ultimately have "request_fits BL Req buf (disk w)" by (simp add: request_fits_def request_inside_def req)
  from act_read [OF ok req(3) this] obtain Data w' where act: "act Req buf w = (True, Data, zero_status, w')"
    "ok w'" "disk w' = disk w" "length Data = length buf" "slice Data 0 (unat cl) = slice (disk w) (a * BL + off) (unat cl)"
    unfolding req by blast
  have comp: "SpdSrbExecuteScsiComplete us \<lparr>Rsp_Hint = h, Rsp_Kind = kd, Rsp_Status = zero_status\<rparr> (Some Data) e m' =
      Some (if n * BL \<le> off + unat cl then SRB_STATUS_SUCCESS else SRB_STATUS_PENDING,
        after_chunk e cl (put off (slice (disk w) (a * BL + off) (unat cl))) m')" if mh: "eq_mod_hash m m'" for h kd m'
    using rd f st(1,6) act(5) transfer_cong [OF mh]
    by (simp add: SpdSrbExecuteScsiComplete_def Let_def zero_status_def cl_def [symmetric] after_chunk_def mem_upd_defs)
  have "exchange us act e m m' buf w =
      Some (if n * BL \<le> off + unat cl then SRB_STATUS_SUCCESS else SRB_STATUS_PENDING,
        after_chunk e cl (put off (slice (disk w) (a * BL + off) (unat cl))) m', Data, w')" if "eq_mod_hash m m'" for m'
    by (simp add: exchange_def prep act(1) comp [OF that] del: One_nat_def)
  with act(2-4) show ?thesis by blast
qed

lemma write_chunk:
  assumes t: "transferring us u e m a n off" and off: "off < n * BL" and wr: "is_write (ext_op m e)"
    and BL: "BL = unat (BlockLength (StorageUnitParams u))" and disk: "(a + n) * BL \<le> length (disk w)"
    and buf: "unat (MaxTransferLength (StorageUnitParams u)) \<le> length buf" and ok: "ok w"
    and sys: "n * BL \<le> length (bufs m (SystemDataBuffer (exts m e)))"
  defines "cl \<equiv> chunk_length u (exts m e)"
  shows "\<exists>Data w'. ok w' \<and> length Data = length buf \<and>
    disk w' = put (a * BL + off) (slice (bufs m (SystemDataBuffer (exts m e))) off (unat cl)) (disk w) \<and>
    (\<forall>m'. eq_mod_hash m m' \<longrightarrow> exchange us act e m m' buf w =
      Some (if n * BL \<le> off + unat cl then SRB_STATUS_SUCCESS else SRB_STATUS_PENDING, after_chunk e cl id m', Data, w'))"
proof -
  have off': "off < n * unat (BlockLength (StorageUnitParams u))" using off BL by simp
  note st = chunk_step [OF t off', folded BL cl_def]
  obtain A N f where rg: "SpdCdbGetRange (SrbGetCdb m (Srb (exts m e))) = Some (A, N, f)"
    and rq: "\<And>x. unat (Op_BlockAddress (chunk_req u (exts m e) (A, N, f) x)) * BL = a * BL + off"
    "\<And>x. unat (Op_BlockCount (chunk_req u (exts m e) (A, N, f) x)) * BL = unat cl"
    using st(1,7) by auto
  have f: "us (StorageUnit (exts m e)) = Some u" "BlockLength (StorageUnitParams u) \<noteq> 0" "unat (ChunkOffset (exts m e)) = off"
    using t by (auto simp: transferring_def Let_def)
  have nrd: "\<not> is_read (ext_op m e)" using wr not_read_and_write by blast
  define data where "data = slice (bufs m (SystemDataBuffer (exts m e))) off (unat cl)"
  have len: "length data = unat cl" using st(1,4) sys by (simp add: data_def length_slice)
  have cl: "unat cl \<le> length buf" using st(1) buf by simp
  then have sl: "slice (put 0 data buf) 0 (unat cl) = data" "length (put 0 data buf) = length buf"
    using len by (simp_all add: slice_put_same length_put)
  define Req where "Req = zero_req\<lparr>Req_Hint := e, Req_Kind := SpdIoctlTransactWriteKind,
        Req_Op := chunk_req u (exts m e) (A, N, f) (Req_Op zero_req)\<rparr>"
  have prep: "SpdSrbExecuteScsiPrepare us e m (Some (zero_req, buf)) = Some (Req, put 0 data buf)"
    using wr nrd f rg by (simp add: SpdSrbExecuteScsiPrepare_def Let_def data_def cl_def Req_def)
  have req: "req_offset BL Req = a * BL + off" "req_octets BL Req = unat cl" "Req_Kind Req = SpdIoctlTransactWriteKind"
    by (simp_all add: req_offset_def req_octets_def Req_def rq)
  have "a * BL + off + unat cl \<le> length (disk w)" using st(1,4) disk by (simp add: add_mult_distrib)
  moreover have "unat cl < 2 ^ 32" using unsigned_less [of cl, where ?'a = nat] by simp
  ultimately have "request_fits BL Req (put 0 data buf) (disk w)" using cl sl(2) by (simp add: request_fits_def request_inside_def req)
  from act_write [OF ok req(3) this] obtain Data w' where act: "act Req (put 0 data buf) w = (True, Data, zero_status, w')"
    "ok w'" "length Data = length buf" "disk w' = put (a * BL + off) data (disk w)"
    unfolding req sl by blast
  have comp: "SpdSrbExecuteScsiComplete us \<lparr>Rsp_Hint = h, Rsp_Kind = kd, Rsp_Status = zero_status\<rparr> (Some D) e m' =
      Some (if n * BL \<le> off + unat cl then SRB_STATUS_SUCCESS else SRB_STATUS_PENDING, after_chunk e cl id m')" if mh: "eq_mod_hash m m'" for h kd D m'
    using wr nrd f st(1,6) transfer_cong [OF mh]
    by (simp add: SpdSrbExecuteScsiComplete_def Let_def zero_status_def cl_def [symmetric] after_chunk_def mem_upd_defs)
  have "exchange us act e m m' buf w =
      Some (if n * BL \<le> off + unat cl then SRB_STATUS_SUCCESS else SRB_STATUS_PENDING, after_chunk e cl id m', Data, w')" if "eq_mod_hash m m'" for m'
    by (simp add: exchange_def prep act(1) comp [OF that] del: One_nat_def)
  with act(2-4) show ?thesis unfolding data_def by blast
qed

end

section \<open>Whole transfers\<close>

lemma chunk_fuel:
  assumes t: "transferring us u e m a n off" and off: "off < n * BL"
    and BL: "BL = unat (BlockLength (StorageUnitParams u))" and fuel: "n * BL - off \<le> Suc fuel * BL"
  shows "n * BL - (off + unat (chunk_length u (exts m e))) \<le> fuel * BL"
proof -
  have off': "off < n * unat (BlockLength (StorageUnitParams u))" using off BL by simp
  note st = chunk_step [OF t off', folded BL]
  have "BL \<le> unat (chunk_length u (exts m e))" using st(2,3) unfolding st(1) by (rule_tac dvd_imp_le)
  with fuel show ?thesis by simp
qed

context block_device begin

lemma read_loop:
  assumes "transferring us u e m a n off" and "off < n * BL" and "is_read (ext_op m e)"
    and BL: "BL = unat (BlockLength (StorageUnitParams u))" and "(a + n) * BL \<le> length (disk w)"
    and "unat (MaxTransferLength (StorageUnitParams u)) \<le> length buf" and "ok w"
    and "n * BL \<le> length (bufs m (SystemDataBuffer (exts m e)))" and "n * BL - off \<le> fuel * BL"
  shows "\<exists>m' Data w'. transfer fuel us act e (m, buf, w) = Some (SRB_STATUS_SUCCESS, m', Data, w') \<and>
    ok w' \<and> disk w' = disk w \<and>
    bufs m' = (bufs m)(SystemDataBuffer (exts m e) :=
      put off (slice (disk w) (a * BL + off) (n * BL - off)) (bufs m (SystemDataBuffer (exts m e))))"
  using assms
proof (induction fuel arbitrary: m off buf w)
  case 0
  then show ?case by simp
next
  case (Suc fuel)
  define S where "S = SystemDataBuffer (exts m e)"
  define c where "c = unat (chunk_length u (exts m e))"
  define D where "D = slice (disk w) (a * BL + off) c"
  define m1 where "m1 = after_chunk e (chunk_length u (exts m e)) (put off D) m"
  have off': "off < n * unat (BlockLength (StorageUnitParams u))" using Suc.prems(2) BL by simp
  note st = chunk_step [OF Suc.prems(1) off', folded BL]
  have c: "0 < c" "off + c \<le> n * BL" using st(1,2,4) by (simp_all add: c_def)
  obtain Data w1 where ex: "exchange us act e m m buf w =
      Some (if n * BL \<le> off + c then SRB_STATUS_SUCCESS else SRB_STATUS_PENDING, m1, Data, w1)"
    and w1: "ok w1" "disk w1 = disk w" "length Data = length buf"
    using read_chunk [OF Suc.prems(1-3) BL Suc.prems(5-7)] eq_mod_hash_refl [of m]
    unfolding m1_def c_def D_def by blast
  have run: "transfer (Suc fuel) us act e (m, buf, w) =
      (if n * BL \<le> off + c then Some (SRB_STATUS_SUCCESS, m1, Data, w1) else transfer fuel us act e (m1, Data, w1))"
    by (simp add: ex)
  have fit: "a * BL + off + c \<le> length (disk w)" using c(2) Suc.prems(5) by (simp add: add_mult_distrib)
  then have D: "length D = c" by (simp add: D_def length_slice)
  have b1: "bufs m1 = (bufs m)(S := put off D (bufs m S))" by (simp add: m1_def S_def)
  show ?case
  proof (cases "n * BL \<le> off + c")
    case True
    then have len: "n * BL - off = c" using c(2) by simp
    have r: "transfer (Suc fuel) us act e (m, buf, w) = Some (SRB_STATUS_SUCCESS, m1, Data, w1)"
      unfolding run by (rule if_P [OF True])
    show ?thesis unfolding len using r b1 w1 unfolding S_def D_def by blast
  next
    case False
    have t1: "transferring us u e m1 a n (off + c)"
      unfolding m1_def c_def by (rule transferring_after [OF Suc.prems(1) off'])
    have S1: "SystemDataBuffer (exts m1 e) = S" "ext_op m1 e = ext_op m e" by (simp_all add: m1_def S_def)
    have len: "n * BL \<le> length (bufs m1 S)"
      using Suc.prems(8) c(2) D by (simp add: b1 S_def length_put)
    obtain m' Data' w' where m': "transfer fuel us act e (m1, Data, w1) = Some (SRB_STATUS_SUCCESS, m', Data', w')"
      "ok w'" "disk w' = disk w"
      "bufs m' = (bufs m1)(S := put (off + c) (slice (disk w) (a * BL + (off + c)) (n * BL - (off + c))) (bufs m1 S))"
    proof -
      have "off + c < n * BL" "is_read (ext_op m1 e)" "(a + n) * BL \<le> length (disk w1)"
        "unat (MaxTransferLength (StorageUnitParams u)) \<le> length Data"
        "n * BL \<le> length (bufs m1 (SystemDataBuffer (exts m1 e)))" "n * BL - (off + c) \<le> fuel * BL"
        using False Suc.prems(3,5,6) len w1 chunk_fuel [OF Suc.prems(1,2) BL Suc.prems(9)]
        unfolding S1 c_def by simp_all
      from Suc.IH [OF t1 this(1,2) BL this(3,4) w1(1) this(5,6)] that show ?thesis unfolding S1 w1(2) by blast
    qed
    have "bufs m' = (bufs m)(S := put off (slice (disk w) (a * BL + off) (n * BL - off)) (bufs m S))"
      using put_slices [of "a * BL + off" c "disk w" off "n * BL - (off + c)" "bufs m S"] fit c(2) Suc.prems(8)
      by (simp add: m'(4) b1 D_def S_def add.assoc)
    moreover have "transfer (Suc fuel) us act e (m, buf, w) = Some (SRB_STATUS_SUCCESS, m', Data', w')"
      unfolding run by (simp only: if_not_P [OF False] m'(1))
    ultimately show ?thesis using m'(2,3) unfolding S_def by blast
  qed
qed

lemma write_loop:
  assumes "transferring us u e m a n off" and "off < n * BL" and "is_write (ext_op m e)"
    and BL: "BL = unat (BlockLength (StorageUnitParams u))" and "(a + n) * BL \<le> length (disk w)"
    and "unat (MaxTransferLength (StorageUnitParams u)) \<le> length buf" and "ok w"
    and "n * BL \<le> length (bufs m (SystemDataBuffer (exts m e)))" and "n * BL - off \<le> fuel * BL"
  shows "\<exists>m' Data w'. transfer fuel us act e (m, buf, w) = Some (SRB_STATUS_SUCCESS, m', Data, w') \<and> ok w' \<and>
      disk w' = put (a * BL + off) (slice (bufs m (SystemDataBuffer (exts m e))) off (n * BL - off)) (disk w) \<and>
      bufs m' = bufs m"
  using assms
proof (induction fuel arbitrary: m off buf w)
  case 0
  then show ?case by simp
next
  case (Suc fuel)
  define B where "B = bufs m (SystemDataBuffer (exts m e))"
  define c where "c = unat (chunk_length u (exts m e))"
  define D where "D = slice B off c"
  define m1 where "m1 = after_chunk e (chunk_length u (exts m e)) id m"
  have off': "off < n * unat (BlockLength (StorageUnitParams u))" using Suc.prems(2) BL by simp
  note st = chunk_step [OF Suc.prems(1) off', folded BL]
  have c: "0 < c" "off + c \<le> n * BL" using st(1,2,4) by (simp_all add: c_def)
  obtain Data w1 where ex: "exchange us act e m m buf w =
      Some (if n * BL \<le> off + c then SRB_STATUS_SUCCESS else SRB_STATUS_PENDING, m1, Data, w1)"
    and w1: "ok w1" "disk w1 = put (a * BL + off) D (disk w)" "length Data = length buf"
    using write_chunk [OF Suc.prems(1-3) BL Suc.prems(5-8)] eq_mod_hash_refl [of m]
    unfolding m1_def c_def D_def B_def by blast
  have run: "transfer (Suc fuel) us act e (m, buf, w) =
      (if n * BL \<le> off + c then Some (SRB_STATUS_SUCCESS, m1, Data, w1) else transfer fuel us act e (m1, Data, w1))"
    by (simp add: ex)
  have fit: "a * BL + off + c \<le> length (disk w)" using c(2) Suc.prems(5) by (simp add: add_mult_distrib)
  have D: "length D = c" using Suc.prems(8) c(2) by (simp add: D_def length_slice B_def)
  have b1: "bufs m1 = bufs m" by (simp add: m1_def fun_eq_iff)
  show ?case
  proof (cases "n * BL \<le> off + c")
    case True
    then have len: "n * BL - off = c" using c(2) by simp
    have r: "transfer (Suc fuel) us act e (m, buf, w) = Some (SRB_STATUS_SUCCESS, m1, Data, w1)"
      unfolding run by (rule if_P [OF True])
    show ?thesis unfolding len using r b1 w1 unfolding B_def D_def by blast
  next
    case False
    have t1: "transferring us u e m1 a n (off + c)"
      unfolding m1_def c_def by (rule transferring_after [OF Suc.prems(1) off'])
    have S1: "bufs m1 (SystemDataBuffer (exts m1 e)) = B" "ext_op m1 e = ext_op m e"
      by (simp_all add: b1 B_def) (simp_all add: m1_def)
    have disk1: "length (disk w1) = length (disk w)" using fit D by (simp add: w1(2) length_put)
    define E where "E = slice B (off + c) (n * BL - (off + c))"
    obtain m' Data' w' where m': "transfer fuel us act e (m1, Data, w1) = Some (SRB_STATUS_SUCCESS, m', Data', w')"
      "ok w'" "disk w' = put (a * BL + (off + c)) E (disk w1)" "bufs m' = bufs m1"
    proof -
      have "off + c < n * BL" "is_write (ext_op m1 e)" "(a + n) * BL \<le> length (disk w1)"
        "unat (MaxTransferLength (StorageUnitParams u)) \<le> length Data"
        "n * BL \<le> length (bufs m1 (SystemDataBuffer (exts m1 e)))" "n * BL - (off + c) \<le> fuel * BL"
        using False Suc.prems(3,5,6,8) disk1 w1(3) chunk_fuel [OF Suc.prems(1,2) BL Suc.prems(9)]
        unfolding S1 c_def B_def by simp_all
      from Suc.IH [OF t1 this(1,2) BL this(3,4) w1(1) this(5,6)] that show ?thesis unfolding S1 E_def by blast
    qed
    have "a * BL + n * BL \<le> length (disk w)" using Suc.prems(5) by (simp add: add_mult_distrib)
    then have "disk w' = put (a * BL + off) (slice B off (n * BL - off)) (disk w)"
      using put_slices [of off c B "a * BL + off" "n * BL - (off + c)" "disk w"] c(2) Suc.prems(8)
      by (simp add: m'(3) w1(2) D_def E_def B_def add.assoc)
    then show ?thesis using run False m' b1 by (auto simp: B_def)
  qed
qed

end

text \<open>What provision makes sure of the parameters of a unit.\<close>

definition transfer_params :: "SPD_IOCTL_STORAGE_UNIT_PARAMS \<Rightarrow> bool" where
  "transfer_params par \<longleftrightarrow> 0 < unat (BlockLength par) \<and> 0 < unat (MaxTransferLength par) \<and>
     unat (BlockLength par) dvd unat (MaxTransferLength par)"

lemma posted_transferring:
  assumes r: "SpdScsiPostRangeSrb sysaddr p u srb (SrbGetCdb (mem k) srb) k = Some (SRB_STATUS_PENDING, k')"
    and u: "units k p = Some u" "transfer_params (StorageUnitParams u)"
    and fl: "\<not> is_flush (SrbGetCdb (mem k) srb ! 0)"
    and rg: "SpdCdbGetRange (SrbGetCdb (mem k) srb) = Some (a, n, f)"
    and wrap: "unat n * unat (BlockLength (StorageUnitParams u)) < 2 ^ 32"
  defines "e \<equiv> SrbExtension (srbs (mem k) srb)"
  obtains u' where "transferring (units k') u' e (mem k') (unat a) (unat n) 0"
    and "StorageUnitParams u' = StorageUnitParams u" and "SystemDataBuffer (exts (mem k') e) = snd sysaddr"
    and "ext_op (mem k') e = SrbGetCdb (mem k) srb ! 0" and "0 < unat n"
proof (rule posted_range [OF r])
  fix a' n' f'
  assume "SpdCdbGetRange (SrbGetCdb (mem k) srb) = Some (a', n', f')" and n': "n' \<noteq> 0" "range_ok u a' n'"
    and post: "SpdScsiPostSrb sysaddr p srb (if is_flush (SrbGetCdb (mem k) srb ! 0) then 0
      else n' * BlockLength (StorageUnitParams u)) k = Some (SRB_STATUS_PENDING, k')"
  with rg have eq: "a' = a" "n' = n" by simp_all
  define BL where "BL = BlockLength (StorageUnitParams u)"
  have len: "unat (n * BL) = unat n * unat BL" using wrap by (simp add: BL_def unat_word_ariths)
  have n: "0 < unat n" "0 < unat BL" using n'(1) u(2) by (simp_all add: eq unat_gt_0 transfer_params_def BL_def)
  then have nz: "n * BL \<noteq> 0" using len by (metis mult_eq_0_iff not_gr_zero unat_eq_0)
  note pp = PostSrb_pending [OF post, folded e_def, unfolded eq if_not_P [OF fl], folded BL_def]
  have x: "exts (mem k') e = zero_ext\<lparr>StorageUnit := p, Srb := srb, SystemDataBuffer := snd sysaddr,
      SystemDataLength := n * BL\<rparr>" using pp(1) nz by simp
  obtain q where q: "units k' p = Some (u\<lparr>UnitIoq := Some q\<rparr>)" using pp(3) u(1) by auto
  have "SrbGetCdb (mem k') srb = SrbGetCdb (mem k) srb" by (simp add: SrbGetCdb_def pp(2))
  then show thesis
    using that [of "u\<lparr>UnitIoq := Some q\<rparr>"] q rg n'(2) n u(2) len
    by (simp add: transferring_def x Let_def zero_ext_def eq range_ok_iff transfer_params_def BL_def)
qed

lemma posted_read:
  assumes "block_device act disk ok BL" and "ok w"
    and "SpdScsiPostRangeSrb sysaddr p u srb (SrbGetCdb (mem k) srb) k = Some (SRB_STATUS_PENDING, k')"
    and "units k p = Some u" and "transfer_params (StorageUnitParams u)"
    and "is_read (SrbGetCdb (mem k) srb ! 0)"
    and "SpdCdbGetRange (SrbGetCdb (mem k) srb) = Some (a, n, f)"
    and "BL = unat (BlockLength (StorageUnitParams u))" and "unat n * BL < 2 ^ 32"
    and "length (disk w) = unat (BlockCount (StorageUnitParams u)) * BL"
    and "unat n * BL \<le> length (bufs (mem k') (snd sysaddr))"
    and "unat (MaxTransferLength (StorageUnitParams u)) \<le> length buf"
  shows "\<exists>m' Data w'. transfer (unat n) (units k') act (SrbExtension (srbs (mem k) srb)) (mem k', buf, w) =
      Some (SRB_STATUS_SUCCESS, m', Data, w') \<and> ok w' \<and> disk w' = disk w \<and>
    bufs m' = (bufs (mem k'))(snd sysaddr :=
      put 0 (slice (disk w) (unat a * BL) (unat n * BL)) (bufs (mem k') (snd sysaddr)))"
proof -
  define e where "e = SrbExtension (srbs (mem k) srb)"
  have nf: "\<not> is_flush (SrbGetCdb (mem k) srb ! 0)" using assms(6) by (auto simp: op_class_defs)
  obtain u' where t: "transferring (units k') u' e (mem k') (unat a) (unat n) 0"
    and u': "StorageUnitParams u' = StorageUnitParams u" and S: "SystemDataBuffer (exts (mem k') e) = snd sysaddr"
    and op: "ext_op (mem k') e = SrbGetCdb (mem k) srb ! 0" and n: "0 < unat n"
    unfolding e_def
    by (rule posted_transferring [OF assms(3-5) nf assms(7)]) (use assms(8,9) in blast)+
  have BL: "BL = unat (BlockLength (StorageUnitParams u'))" "0 < BL"
    using assms(5,8) u' by (simp_all add: transfer_params_def)
  have le: "unat a + unat n \<le> unat (BlockCount (StorageUnitParams u))"
    using t by (simp add: transferring_def Let_def u')
  then have fit: "(unat a + unat n) * BL \<le> length (disk w)" unfolding assms(10) by (rule mult_le_mono1)
  have "unat (MaxTransferLength (StorageUnitParams u')) \<le> length buf" using assms(12) u' by simp
  from block_device.read_loop [OF assms(1) t _ _ BL(1) fit this assms(2), of "unat n"] show ?thesis
    using n BL(2) assms(6,11) unfolding S op unfolding e_def by simp
qed

text \<open>C6: A read returns the data of the device. For a read command that is posted, on a unit whose
  parameters provision accepts and with a transfer below 4 GiB, the exchange of chunks with any device
  that keeps to the interface \<open>block_device\<close> ends with success after at most as many chunks as blocks;
  the buffer of the request then starts with exactly the blocks of the command in order, no other buffer
  and nothing behind the data changes, and the device has what it had.\<close>

theorem read_returns_device_data:
  assumes "block_device act disk ok BL" and "ok w"
    and "SpdScsiPostRangeSrb sysaddr p u srb (SrbGetCdb (mem k) srb) k = Some (SRB_STATUS_PENDING, k')"
    and "units k p = Some u" and "transfer_params (StorageUnitParams u)"
    and "is_read (SrbGetCdb (mem k) srb ! 0)"
    and "SpdCdbGetRange (SrbGetCdb (mem k) srb) = Some (a, n, f)"
    and "BL = unat (BlockLength (StorageUnitParams u))" and "unat n * BL < 2 ^ 32"
    and "length (disk w) = unat (BlockCount (StorageUnitParams u)) * BL"
    and "unat n * BL \<le> length (bufs (mem k') (snd sysaddr))"
    and "unat (MaxTransferLength (StorageUnitParams u)) \<le> length buf"
  shows "\<exists>m' Data w'. transfer (unat n) (units k') act (SrbExtension (srbs (mem k) srb)) (mem k', buf, w) =
      Some (SRB_STATUS_SUCCESS, m', Data, w') \<and> ok w' \<and> disk w' = disk w \<and>
    bufs m' = (bufs (mem k'))(snd sysaddr :=
      put 0 (slice (disk w) (unat a * BL) (unat n * BL)) (bufs (mem k') (snd sysaddr)))"
  by (rule posted_read [OF assms])

lemma posted_bufs:
  "SpdScsiPostRangeSrb sysaddr p u srb c k = Some (SRB_STATUS_PENDING, k') \<Longrightarrow> bufs (mem k') = bufs (mem k)"
  by (erule posted_range) (rule PostSrb_bufs)

lemma read10_fields:
  "units read10_kernel 1 = Some demo_unit" "SrbGetCdb (mem read10_kernel) 1 = Cdb read10_srb"
  "bufs (mem read10_kernel) b = replicate 1024 0" "SrbExtension (srbs (mem read10_kernel) 1) = 0x1001"
  by (simp_all add: read10_kernel_def SrbGetCdb_def read10_srb_def demo_units demo_unit_def inquiry_srb_def)

lemma demo_transfer_params: "transfer_params (StorageUnitParams demo_unit)"
  by (simp add: transfer_params_def demo_unit_params)

text \<open>A file of 1024 blocks of sevens, and a system without errors.\<close>

definition good_sys :: rd_sys where
  "good_sys = \<lparr>sys_page_error = \<lambda>_ _ _. None, sys_flush_view = \<lambda>_ _ _. True, sys_flush_file = \<lambda>_. True,
     sys_set_zero = \<lambda>_ _ _. True\<rparr>"

definition demo_disk :: RAWDISK where
  "demo_disk = \<lparr>rd_BlockCount = 1024, rd_BlockLength = 512, rd_Pointer = 0x10000, rd_Sparse = False,
     rd_Memory = replicate 524288 7, rd_Cache = replicate 524288 7, rd_Medium = replicate 524288 7, rd_Crashed = False\<rparr>"

lemma demo_disk_ok: "sys_works good_sys \<and> rd_ok 512 demo_disk"
  by (simp add: sys_works_def good_sys_def rd_ok_def demo_disk_def)

theorem read_returns_device_data_witness:
  "\<exists>k' m' Data w'. SpdScsiPostRangeSrb (STOR_STATUS_SUCCESS, 0x100) 1 demo_unit 1 (Cdb read10_srb) read10_kernel =
      Some (SRB_STATUS_PENDING, k') \<and>
    transfer 2 (units k') (dispatch_op (RawDiskInterface good_sys)) (0x1001)
      (mem k', replicate 65536 0, demo_disk) = Some (SRB_STATUS_SUCCESS, m', Data, w') \<and>
    bufs m' 0x100 = replicate 1024 7"
proof -
  obtain k' where k': "SpdScsiPostRangeSrb (STOR_STATUS_SUCCESS, 0x100) 1 demo_unit 1
      (SrbGetCdb (mem read10_kernel) 1) read10_kernel = Some (SRB_STATUS_PENDING, k')"
    using read10_posted by (auto simp: read10_fields)
  note rg = read10_range [folded read10_fields(2)]
  have rd: "is_read (SrbGetCdb (mem read10_kernel) 1 ! 0)"
    unfolding read10_fields by (simp add: read10_srb_def op_class_defs)
  have b: "bufs (mem k') x = replicate 1024 0" for x
    using posted_bufs [OF k'] by (simp add: read10_fields)
  have "slice (replicate 524288 (7 :: u8)) (1022 * 512) 1024 = replicate 1024 7"
    by (simp add: slice_def)
  moreover have "put 0 (replicate 1024 7) (replicate 1024 0) = replicate 1024 (7 :: u8)"
    by (simp add: put_def splice_def)
  moreover have "rd_Memory demo_disk = replicate 524288 7" by (simp add: demo_disk_def)
  ultimately show ?thesis
    using read_returns_device_data [OF rawdisk.block_device_axioms demo_disk_ok k' read10_fields(1)
        demo_transfer_params rd rg, of "replicate 65536 0"] k'
    by (auto simp: demo_unit_params b read10_fields)
qed

lemma posted_write:
  assumes "block_device act disk ok BL" and "ok w"
    and "SpdScsiPostRangeSrb sysaddr p u srb (SrbGetCdb (mem k) srb) k = Some (SRB_STATUS_PENDING, k')"
    and "units k p = Some u" and "transfer_params (StorageUnitParams u)"
    and "is_write (SrbGetCdb (mem k) srb ! 0)"
    and "SpdCdbGetRange (SrbGetCdb (mem k) srb) = Some (a, n, f)"
    and "BL = unat (BlockLength (StorageUnitParams u))" and "unat n * BL < 2 ^ 32"
    and "length (disk w) = unat (BlockCount (StorageUnitParams u)) * BL"
    and "unat n * BL \<le> length (bufs (mem k') (snd sysaddr))"
    and "unat (MaxTransferLength (StorageUnitParams u)) \<le> length buf"
  shows "\<exists>m' Data w'. transfer (unat n) (units k') act (SrbExtension (srbs (mem k) srb)) (mem k', buf, w) =
      Some (SRB_STATUS_SUCCESS, m', Data, w') \<and> ok w' \<and>
    disk w' = put (unat a * BL) (slice (bufs (mem k') (snd sysaddr)) 0 (unat n * BL)) (disk w) \<and>
    bufs m' = bufs (mem k')"
proof -
  define e where "e = SrbExtension (srbs (mem k) srb)"
  have nf: "\<not> is_flush (SrbGetCdb (mem k) srb ! 0)" using assms(6) by (auto simp: op_class_defs)
  obtain u' where t: "transferring (units k') u' e (mem k') (unat a) (unat n) 0"
    and u': "StorageUnitParams u' = StorageUnitParams u" and S: "SystemDataBuffer (exts (mem k') e) = snd sysaddr"
    and op: "ext_op (mem k') e = SrbGetCdb (mem k) srb ! 0" and n: "0 < unat n"
    unfolding e_def
    by (rule posted_transferring [OF assms(3-5) nf assms(7)]) (use assms(8,9) in blast)+
  have BL: "BL = unat (BlockLength (StorageUnitParams u'))" "0 < BL"
    using assms(5,8) u' by (simp_all add: transfer_params_def)
  have le: "unat a + unat n \<le> unat (BlockCount (StorageUnitParams u))"
    using t by (simp add: transferring_def Let_def u')
  then have fit: "(unat a + unat n) * BL \<le> length (disk w)" unfolding assms(10) by (rule mult_le_mono1)
  have "unat (MaxTransferLength (StorageUnitParams u')) \<le> length buf" using assms(12) u' by simp
  from block_device.write_loop [OF assms(1) t _ _ BL(1) fit this assms(2), of "unat n"] show ?thesis
    using n BL(2) assms(6,11) unfolding S op unfolding e_def by simp
qed

text \<open>C7: A write puts the data on the device. Under the same conditions the exchange for a write ends
  with success, the blocks of the command on the device are exactly the start of the buffer of the
  request, no other block of the device changes and no buffer does.\<close>

theorem write_reaches_device:
  assumes "block_device act disk ok BL" and "ok w"
    and "SpdScsiPostRangeSrb sysaddr p u srb (SrbGetCdb (mem k) srb) k = Some (SRB_STATUS_PENDING, k')"
    and "units k p = Some u" and "transfer_params (StorageUnitParams u)"
    and "is_write (SrbGetCdb (mem k) srb ! 0)"
    and "SpdCdbGetRange (SrbGetCdb (mem k) srb) = Some (a, n, f)"
    and "BL = unat (BlockLength (StorageUnitParams u))" and "unat n * BL < 2 ^ 32"
    and "length (disk w) = unat (BlockCount (StorageUnitParams u)) * BL"
    and "unat n * BL \<le> length (bufs (mem k') (snd sysaddr))"
    and "unat (MaxTransferLength (StorageUnitParams u)) \<le> length buf"
  shows "\<exists>m' Data w'. transfer (unat n) (units k') act (SrbExtension (srbs (mem k) srb)) (mem k', buf, w) =
      Some (SRB_STATUS_SUCCESS, m', Data, w') \<and> ok w' \<and>
    disk w' = put (unat a * BL) (slice (bufs (mem k') (snd sysaddr)) 0 (unat n * BL)) (disk w) \<and>
    bufs m' = bufs (mem k')"
  by (rule posted_write [OF assms])

text \<open>The same range with WRITE(10), and a buffer of ones.\<close>

definition write10_srb :: SRB where
  "write10_srb = read10_srb\<lparr>Cdb := (Cdb read10_srb)[0 := SCSIOP_WRITE]\<rparr>"

definition write10_kernel :: kernel where
  "write10_kernel = demo_kernel\<lparr>mem := inquiry_mem\<lparr>srbs := \<lambda>_. write10_srb,
     bufs := \<lambda>_. replicate 1024 1\<rparr>\<rparr>"

lemma write10_fields:
  "units write10_kernel 1 = Some demo_unit" "SrbGetCdb (mem write10_kernel) 1 = Cdb write10_srb"
  "bufs (mem write10_kernel) b = replicate 1024 1" "SrbExtension (srbs (mem write10_kernel) 1) = 0x1001"
  "SrbGetDataTransferLength (mem write10_kernel) 1 = 1024"
  "is_write (Cdb write10_srb ! 0)" "\<not> is_read (Cdb write10_srb ! 0)" "\<not> is_flush (Cdb write10_srb ! 0)"
  by (simp_all add: write10_kernel_def srb_get_defs write10_srb_def read10_srb_def demo_units demo_unit_def
        inquiry_srb_def op_class_defs)

lemma write10_range: "SpdCdbGetRange (Cdb write10_srb) = Some (0x3fe, 2, 0)"
  by (simp add: write10_srb_def read10_srb_def SpdCdbGetRange_def Let_def word_bit3_def)

lemma write10_posted:
  "\<exists>k'. SpdScsiPostRangeSrb (STOR_STATUS_SUCCESS, 0x100) 1 demo_unit 1 (SrbGetCdb (mem write10_kernel) 1)
     write10_kernel = Some (SRB_STATUS_PENDING, k')"
proof -
  have "range_ok demo_unit 0x3fe 2" by (simp add: range_ok_def demo_unit_params)
  then show ?thesis
    by (simp add: SpdScsiPostRangeSrb_def Let_def write10_fields write10_range demo_unit_params
          SpdScsiPostSrb_def SpdIoqPostSrb_def demo_ioq_def)
qed

theorem write_reaches_device_witness:
  "\<exists>k' m' Data w'. SpdScsiPostRangeSrb (STOR_STATUS_SUCCESS, 0x100) 1 demo_unit 1 (Cdb write10_srb) write10_kernel =
      Some (SRB_STATUS_PENDING, k') \<and>
    transfer 2 (units k') (dispatch_op (RawDiskInterface good_sys)) (0x1001)
      (mem k', replicate 65536 0, demo_disk) = Some (SRB_STATUS_SUCCESS, m', Data, w') \<and>
    rd_Memory w' = put 523264 (replicate 1024 1) (replicate 524288 7)"
proof -
  obtain k' where k': "SpdScsiPostRangeSrb (STOR_STATUS_SUCCESS, 0x100) 1 demo_unit 1
      (SrbGetCdb (mem write10_kernel) 1) write10_kernel = Some (SRB_STATUS_PENDING, k')"
    using write10_posted by blast
  note rg = write10_range [folded write10_fields(2)]
  have wr: "is_write (SrbGetCdb (mem write10_kernel) 1 ! 0)" unfolding write10_fields by (rule write10_fields)
  have b: "bufs (mem k') x = replicate 1024 1" for x
    using posted_bufs [OF k'] by (simp add: write10_fields)
  have "rd_Memory demo_disk = replicate 524288 7" by (simp add: demo_disk_def)
  then show ?thesis
    using write_reaches_device [OF rawdisk.block_device_axioms demo_disk_ok k' write10_fields(1)
        demo_transfer_params wr rg, of "replicate 65536 0"] k'
    by (auto simp: demo_unit_params b write10_fields slice_def)
qed

section \<open>Unmap\<close>

lemma unmap_check_spec:
  "unmap_check u b n I \<longleftrightarrow> (\<forall>J. I \<le> J \<and> J < I + n \<longrightarrow> range_ok u (fst (unmap_src b J)) (snd (unmap_src b J)))"
proof (induction n arbitrary: I)
  case (Suc n)
  have "(\<forall>J. I \<le> J \<and> J < I + Suc n \<longrightarrow> P J) \<longleftrightarrow> P I \<and> (\<forall>J. I + 1 \<le> J \<and> J < I + 1 + n \<longrightarrow> P J)" for P
  proof -
    have "I \<le> J \<and> J < I + Suc n \<longleftrightarrow> J = I \<or> (I + 1 \<le> J \<and> J < I + 1 + n)" for J by auto
    then show ?thesis by auto
  qed
  then show ?case by (simp add: Suc.IH split_def del: add_Suc_right)
qed auto

text \<open>The octets of a translated descriptor.\<close>

definition unmap_dst :: "bytes \<Rightarrow> nat \<Rightarrow> bytes" where
  "unmap_dst src I = (case unmap_src src I of (a, n) \<Rightarrow> le64 a @ le32 n @ le32 0)"

lemma length_unmap_dst [simp]: "length (unmap_dst src I) = 16"
  by (simp add: unmap_dst_def codec_simps split: prod.split)

lemma unmap_copy_spec:
  assumes "16 * (I + n) \<le> length dst"
  shows "length (unmap_copy src n I dst) = length dst \<and>
    (\<forall>J < I + n. slice (unmap_copy src n I dst) (16 * J) 16 =
      (if I \<le> J then unmap_dst src J else slice dst (16 * J) 16))"
  using assms
proof (induction n arbitrary: I dst)
  case (Suc n)
  define d1 where "d1 = put (16 * I) (unmap_dst src I) dst"
  have d1: "length d1 = length dst" using Suc.prems by (simp add: d1_def length_put)
  have step: "unmap_copy src (Suc n) I dst = unmap_copy src n (I + 1) d1"
    by (simp add: d1_def unmap_dst_def split: prod.split)
  have IH: "length (unmap_copy src n (I + 1) d1) = length d1"
    "\<And>J. J < I + 1 + n \<Longrightarrow> slice (unmap_copy src n (I + 1) d1) (16 * J) 16 =
      (if I + 1 \<le> J then unmap_dst src J else slice d1 (16 * J) 16)"
    using Suc.IH [of "I + 1" d1] Suc.prems d1 by auto
  have "slice d1 (16 * J) 16 = (if J = I then unmap_dst src I else slice dst (16 * J) 16)" if "J \<le> I" for J
    using that Suc.prems unfolding d1_def by (cases "J = I") (simp_all add: slice_put_same slice_put_other)
  moreover have "\<not> I + 1 \<le> J \<and> I \<le> J \<longleftrightarrow> J = I" "\<not> I + 1 \<le> J \<longleftrightarrow> J \<le> I" for J by auto
  ultimately show ?case unfolding step using IH d1 by (auto simp: le_Suc_eq)
qed simp

lemma posted_unmap:
  assumes "SpdScsiPostUnmapSrb sysaddr p u srb c k = Some (SRB_STATUS_PENDING, k')"
  defines "b \<equiv> bufs (mem k) (SrbGetDataBuffer (mem k) srb)"
  defines "N \<equiv> get16 (slice b 2 2)"
  shows "UnmapSupported (StorageUnitParams u)" "\<not> WriteProtected (StorageUnitParams u)"
    "8 + unat N \<le> unat (SrbGetDataTransferLength (mem k) srb)" "N \<le> MaxTransferLength (StorageUnitParams u)"
    "N \<noteq> 0" "unmap_check u b (unat (N div 16)) 0"
    "SpdScsiPostSrb sysaddr p srb N k = Some (SRB_STATUS_PENDING, k')"
  using assms(1)
  by (auto simp: SpdScsiPostUnmapSrb_def Let_def error_not_pending b_def N_def not_less split: if_splits)

text \<open>C14: An unmap that is posted reaches the storage device with the ranges of its descriptors. Each of
  them lies inside the unit, the list fits the buffer of the request and that of the transacting
  thread, and descriptor by descriptor the storage device gets the block address and the block count
  of the big-endian list as little-endian integers, with a zero reserved field.\<close>

theorem posted_unmap_reaches_device:
  assumes "SpdScsiPostUnmapSrb sysaddr p u srb (SrbGetCdb (mem k) srb) k = Some (SRB_STATUS_PENDING, k')"
    and "SrbGetCdb (mem k) srb ! 0 = SCSIOP_UNMAP"
    and "bufs (mem k) (snd sysaddr) = bufs (mem k) (SrbGetDataBuffer (mem k) srb)"
    and "unat (MaxTransferLength (StorageUnitParams u)) \<le> length buf"
  defines "src \<equiv> bufs (mem k) (SrbGetDataBuffer (mem k) srb)"
  defines "n \<equiv> unat (get16 (slice src 2 2) div 16)"
  shows "\<exists>Req Data. SpdSrbExecuteScsiPrepare (units k') (SrbExtension (srbs (mem k) srb)) (mem k') (Some (zero_req, buf)) =
      Some (Req, Data) \<and> Req_Kind Req = SpdIoctlTransactUnmapKind \<and> unat (Op_UnmapCount (Req_Op Req)) = n \<and>
    length Data = length buf \<and>
    (\<forall>I < n. unat (fst (unmap_src src I)) + unat (snd (unmap_src src I)) \<le> unat (BlockCount (StorageUnitParams u)) \<and>
      getl64 (slice Data (16 * I) 8) = fst (unmap_src src I) \<and>
      getl32 (slice Data (16 * I + 8) 4) = snd (unmap_src src I) \<and>
      getl32 (slice Data (16 * I + 12) 4) = 0)"
proof -
  define e where "e = SrbExtension (srbs (mem k) srb)"
  define N where "N = get16 (slice src 2 2)"
  note pu = posted_unmap [OF assms(1), folded src_def, folded N_def]
  note pp = PostSrb_pending [OF pu(7), folded e_def]
  have x: "exts (mem k') e = zero_ext\<lparr>StorageUnit := p, Srb := srb, SystemDataBuffer := snd sysaddr,
      SystemDataLength := N\<rparr>" using pp(1) pu(5) by simp
  have nN: "unat (N div 16) = n" by (simp add: n_def N_def)
  have B: "bufs (mem k') (snd sysaddr) = src" using PostSrb_bufs [OF pu(7)] assms(3) by (simp add: src_def)
  define Data where "Data = unmap_copy src n 0 buf"
  have op: "ext_op (mem k') e = SCSIOP_UNMAP" using assms(2) by (simp add: x SrbGetCdb_def pp(2))
  have cls: "\<not> is_read SCSIOP_UNMAP" "\<not> is_write SCSIOP_UNMAP" "\<not> is_flush SCSIOP_UNMAP"
    by (simp_all add: op_class_defs)
  have prep: "SpdSrbExecuteScsiPrepare (units k') e (mem k') (Some (zero_req, buf)) =
      Some (zero_req\<lparr>Req_Hint := e, Req_Kind := SpdIoctlTransactUnmapKind,
        Req_Op := Op_set_UnmapCount (N div 16) (Req_Op zero_req)\<rparr>, Data)"
    by (simp add: SpdSrbExecuteScsiPrepare_def Let_def op cls) (simp add: x B nN Data_def)
  have "unat N \<le> length buf" using pu(4) assms(4) by (simp add: word_le_nat_alt)
  moreover have "16 * n \<le> unat N" by (simp add: nN [symmetric] unat_div)
  ultimately have "16 * (0 + n) \<le> length buf" by simp
  note cp = unmap_copy_spec [OF this, of src, folded Data_def]
  have fields: "getl64 (slice Data (16 * I) 8) = fst (unmap_src src I) \<and>
      getl32 (slice Data (16 * I + 8) 4) = snd (unmap_src src I) \<and> getl32 (slice Data (16 * I + 12) 4) = 0"
    if "I < n" for I
  proof -
    have s: "slice Data (16 * I) 16 = unmap_dst src I" using cp that by simp
    have sub: "slice Data (16 * I + j) l = slice (unmap_dst src I) j l" if "j + l \<le> 16" for j l
      unfolding s [symmetric] using that by (simp add: slice_def drop_take min_def add.commute)
    show ?thesis
      using sub [of 0 8] sub [of 8 4] sub [of 12 4]
      by (cases "unmap_src src I") (simp add: unmap_dst_def slice_def codec_simps l64.dec_enc l32.dec_enc)
  qed
  have "range_ok u (fst (unmap_src src I)) (snd (unmap_src src I))" if "I < n" for I
    using pu(6) that by (simp add: unmap_check_spec nN)
  then show ?thesis
    unfolding e_def [symmetric] prep using fields cp nN by (auto simp: range_ok_iff)
qed

text \<open>An unmap of the blocks 5 to 7.\<close>

definition unmap_list :: bytes where
  "unmap_list = [0, 22, 0, 16, 0, 0, 0, 0] @ be64 5 @ be32 3 @ [0, 0, 0, 0]"

definition unmap_srb :: SRB where
  "unmap_srb = inquiry_srb\<lparr>Cdb := SCSIOP_UNMAP # replicate 15 0, DataTransferLength := 24\<rparr>"

definition unmap_kernel :: kernel where
  "unmap_kernel = demo_kernel\<lparr>mem := inquiry_mem\<lparr>srbs := \<lambda>_. unmap_srb, bufs := \<lambda>_. unmap_list\<rparr>\<rparr>"

lemma unmap_list_fields:
  "get16 (slice unmap_list 2 2) = 16" "unmap_src unmap_list 0 = (5, 3)"
  by (simp_all add: unmap_list_def slice_def get16_def unmap_src_def codec_simps f64.dec_enc f32.dec_enc)

lemma unmap_kernel_fields:
  "units unmap_kernel 1 = Some demo_unit" "SrbGetCdb (mem unmap_kernel) 1 = Cdb unmap_srb"
  "bufs (mem unmap_kernel) b = unmap_list" "SrbExtension (srbs (mem unmap_kernel) 1) = 0x1001"
  "SrbGetDataTransferLength (mem unmap_kernel) 1 = 24" "SrbGetDataBuffer (mem unmap_kernel) 1 = 0x100"
  "Cdb unmap_srb ! 0 = SCSIOP_UNMAP" "Cdb unmap_srb ! Suc 0 = 0"
  by (simp_all add: unmap_kernel_def srb_get_defs unmap_srb_def demo_units demo_unit_def inquiry_srb_def)

lemma unmap_posted:
  "\<exists>k'. SpdScsiPostUnmapSrb (STOR_STATUS_SUCCESS, 0x100) 1 demo_unit 1 (SrbGetCdb (mem unmap_kernel) 1)
     unmap_kernel = Some (SRB_STATUS_PENDING, k')"
proof -
  have "range_ok demo_unit 5 3" by (simp add: range_ok_def demo_unit_params)
  then show ?thesis
    by (simp add: SpdScsiPostUnmapSrb_def Let_def unmap_kernel_fields unmap_list_fields demo_unit_params
          SpdScsiPostSrb_def SpdIoqPostSrb_def demo_ioq_def)
qed

theorem posted_unmap_reaches_device_witness:
  "\<exists>k' Req Data. SpdScsiPostUnmapSrb (STOR_STATUS_SUCCESS, 0x100) 1 demo_unit 1 (Cdb unmap_srb) unmap_kernel =
      Some (SRB_STATUS_PENDING, k') \<and>
    SpdSrbExecuteScsiPrepare (units k') (0x1001) (mem k') (Some (zero_req, replicate 65536 0)) = Some (Req, Data) \<and>
    getl64 (slice Data 0 8) = 5 \<and> getl32 (slice Data 8 4) = 3"
proof -
  obtain k' where k': "SpdScsiPostUnmapSrb (STOR_STATUS_SUCCESS, 0x100) 1 demo_unit 1
      (SrbGetCdb (mem unmap_kernel) 1) unmap_kernel = Some (SRB_STATUS_PENDING, k')"
    using unmap_posted by blast
  have n: "unat (get16 (slice unmap_list 2 2) div 16) = 1" by (simp add: unmap_list_fields)
  from posted_unmap_reaches_device [OF k', of "replicate 65536 0"]
  obtain Req Data where r: "SpdSrbExecuteScsiPrepare (units k') (0x1001) (mem k') (Some (zero_req, replicate 65536 0)) =
      Some (Req, Data)"
    and d: "\<forall>I < 1. getl64 (slice Data (16 * I) 8) = fst (unmap_src unmap_list I) \<and>
      getl32 (slice Data (16 * I + 8) 4) = snd (unmap_src unmap_list I)"
    unfolding unmap_kernel_fields n by (auto simp: demo_unit_params)
  from d have "getl64 (slice Data 0 8) = 5" "getl32 (slice Data 8 4) = 3" by (auto simp: unmap_list_fields)
  with k' r show ?thesis unfolding unmap_kernel_fields by blast
qed

section \<open>Transfers of 4 GiB and more\<close>

text \<open>
  A unit of 0x1000000 blocks, and a READ(16) of 0x800001 of them with a buffer of one block.
\<close>

definition big_unit :: SPD_STORAGE_UNIT where
  "big_unit = demo_unit\<lparr>StorageUnitParams := (StorageUnitParams demo_unit)\<lparr>BlockCount := 0x1000000\<rparr>\<rparr>"

definition big_srb :: SRB where
  "big_srb = inquiry_srb\<lparr>Cdb := [SCSIOP_READ16, 0] @ be64 0 @ be32 0x800001 @ [0, 0],
     DataTransferLength := 512\<rparr>"

definition big_kernel :: kernel where
  "big_kernel = demo_kernel\<lparr>units := [1 \<mapsto> big_unit],
     mem := inquiry_mem\<lparr>srbs := \<lambda>_. big_srb, bufs := \<lambda>_. replicate 512 0\<rparr>\<rparr>"

lemma big_range: "SpdCdbGetRange (Cdb big_srb) = Some (0, 0x800001, 0)"
  by (simp add: big_srb_def SpdCdbGetRange_def Let_def word_bit3_def slice_def codec_simps
        f64.dec_enc f32.dec_enc)

text \<open>The transfer length wraps at 4 GiB. The code multiplies the block count by the block length in
  32 bits, so a READ(16) of 0x800001 blocks of 512 octets passes the test against a buffer of 512
  octets; it is posted with a length of one block and completed as a success after that block, although
  the command asked for more than 4 GiB.\<close>

lemma transfer_length_wraps:
  "\<exists>k' m'. SpdScsiPostRangeSrb (STOR_STATUS_SUCCESS, 0x100) 1 big_unit 1 (Cdb big_srb) big_kernel =
      Some (SRB_STATUS_PENDING, k') \<and>
    SpdCdbGetRange (Cdb big_srb) = Some (0, 0x800001, 0) \<and>
    SystemDataLength (exts (mem k') 0x1001) = 512 \<and>
    SpdSrbExecuteScsiComplete (units k') zero_rsp (Some (replicate 512 7)) 0x1001 (mem k') =
      Some (SRB_STATUS_SUCCESS, m')"
proof -
  have op: "Cdb big_srb ! 0 = SCSIOP_READ16" by (simp add: big_srb_def)
  have c: "is_read SCSIOP_READ16" "\<not> is_write SCSIOP_READ16" "\<not> is_flush SCSIOP_READ16"
    by (simp_all add: op_class_defs)
  have m: "SrbGetDataTransferLength (mem big_kernel) 1 = 512" "units big_kernel 1 = Some big_unit"
    "SrbGetCdb (mem big_kernel) 1 = Cdb big_srb" "SrbExtension (srbs (mem big_kernel) 1) = 0x1001"
    by (simp_all add: big_kernel_def srb_get_defs big_srb_def inquiry_srb_def)
  have par: "BlockLength (StorageUnitParams big_unit) = 512" "UnitIoq big_unit = Some demo_ioq"
    "range_ok big_unit 0 0x800001" "MaxTransferLength (StorageUnitParams big_unit) = 65536"
    by (simp_all add: big_unit_def demo_unit_params range_ok_def)
  obtain k' where k': "SpdScsiPostRangeSrb (STOR_STATUS_SUCCESS, 0x100) 1 big_unit 1 (Cdb big_srb) big_kernel =
      Some (SRB_STATUS_PENDING, k')"
    by (simp add: SpdScsiPostRangeSrb_def Let_def op c m par big_range SpdScsiPostSrb_def SpdIoqPostSrb_def demo_ioq_def)
  have wrapped: "(4294967808 :: u32) = 512" by simp
  have post: "SpdScsiPostSrb (STOR_STATUS_SUCCESS, 0x100) 1 1 512 big_kernel = Some (SRB_STATUS_PENDING, k')"
    using k' by (simp add: SpdScsiPostRangeSrb_def Let_def op c m par big_range wrapped)
  note pp = PostSrb_pending [OF post, unfolded m]
  have "ext_op (mem k') 0x1001 = SCSIOP_READ16"
    using m(3) op by (simp add: pp(1,2) SrbGetCdb_def)
  moreover obtain q where "units k' 1 = Some (big_unit\<lparr>UnitIoq := Some q\<rparr>)" using pp(3) by auto
  ultimately show ?thesis
    using k' pp(1) big_range
    by (simp add: SpdSrbExecuteScsiComplete_def Let_def c zero_ext_def zero_rsp_def zero_status_def
        chunk_length_def par mem_upd_defs)
qed

end
