(* ===== verification/Serving.thy ===== *)
theory Serving
  imports Transfers
begin

text \<open>
  The queue, the transfers and a storage device together: a thread of the dispatcher takes the request at
  the front of the queue, lets the device act, and gives the answer back to the queue, until the
  request is completed.
\<close>

section \<open>The memory after an answer\<close>

context srb_callback begin

lemma end_memory:
  assumes inv: "ioq_inv (q, m)" and run: "\<not> Stopped q" and e: "e \<in> set (ProcessList q)"
    and r: "SpdIoqEndProcessingSrb e Complete (q, m) = Some (q', m')"
  obtains m1 v m2 where "eq_mod_hash m m1" and "Complete e m1 = Some (v, m2)"
    and "m' = (if v = SRB_STATUS_PENDING then m2 else SpdSrbComplete (Srb (exts m e)) v m2)"
    and "abs_ioq q' = a_end e v (abs_ioq q)" and "ioq_inv (q', m')"
proof -
  note invD = ioq_invD [OF inv]
  obtain P q1 m1 where scan: "bucket_scan q m (Bucket (bucket_index q e)) e = Some (Some P)"
    and wr: "write_slot P (HashNext (exts m e)) (q, m) = (q1, m1)" and mh: "eq_mod_hash m m1"
    using unlink [OF invD(1) invD(5) e] by blast
  obtain v m0 where C0: "Complete e m = Some (v, m0)"
    using end_fault [OF inv run e] r by (cases "Complete e m") auto
  with verdict [OF mh, of e] obtain m2 where C: "Complete e m1 = Some (v, m2)" by auto
  have srb: "Srb (exts m2 e) = Srb (exts m e)"
    using keeps_srb [OF C] eq_mod_hash_fields(1) [OF mh] by simp
  have "m' = (if v = SRB_STATUS_PENDING then m2 else SpdSrbComplete (Srb (exts m e)) v m2)"
    using r run scan wr C by (auto simp: SpdIoqEndProcessingSrb_def bind_eq_Some_conv srb split: if_splits)
  moreover obtain q2 m3 where "SpdIoqEndProcessingSrb e Complete (q, m) = Some (q2, m3)"
    "ioq_inv (q2, m3)" "abs_ioq q2 = a_end e v (abs_ioq q)"
    using end_known [OF inv run e C0] by metis
  ultimately show thesis using that mh C r by simp
qed

end

section \<open>A turn of a thread\<close>

text \<open>
  One turn on the queue of a unit: wait, which succeeds, take and prepare a request, let the device act,
  and answer. \<open>Rsp_Hint\<close> is the hint of the request, which names its extension.
\<close>

definition serve_turn ::
    "(ptr \<rightharpoonup> SPD_STORAGE_UNIT) \<Rightarrow>
     (SPD_IOCTL_TRANSACT_REQ \<Rightarrow> bytes \<Rightarrow> 'w \<Rightarrow> bool \<times> bytes \<times> SPD_IOCTL_STORAGE_UNIT_STATUS \<times> 'w) \<Rightarrow>
     SPD_IOQ \<times> kmem \<times> bytes \<times> 'w \<Rightarrow> (SPD_IOQ \<times> kmem \<times> bytes \<times> 'w) option" where
  "serve_turn us act = (\<lambda>(q, m, buf, w).
     case SpdIoqStartProcessingSrb STATUS_SUCCESS (SpdSrbExecuteScsiPrepare us) (Some (zero_req, buf)) (q, m) of
       (st, ctx, q, m) \<Rightarrow>
         if st \<noteq> STATUS_SUCCESS then None
         else do {
           (Req, Data) \<leftarrow> ctx;
           let (Complete, Data, status, w) = act Req Data w;
           if \<not> Complete then None
           else do {
             (q, m) \<leftarrow> SpdIoqEndProcessingSrb (Req_Hint Req)
               (SpdSrbExecuteScsiComplete us
                 \<lparr>Rsp_Hint = Req_Hint Req, Rsp_Kind = Req_Kind Req, Rsp_Status = status\<rparr> (Some Data)) (q, m);
             Some (q, m, Data, w)
           }
         })"

fun serve ::
    "nat \<Rightarrow> (ptr \<rightharpoonup> SPD_STORAGE_UNIT) \<Rightarrow>
     (SPD_IOCTL_TRANSACT_REQ \<Rightarrow> bytes \<Rightarrow> 'w \<Rightarrow> bool \<times> bytes \<times> SPD_IOCTL_STORAGE_UNIT_STATUS \<times> 'w) \<Rightarrow>
     SPD_IOQ \<times> kmem \<times> bytes \<times> 'w \<Rightarrow> (SPD_IOQ \<times> kmem \<times> bytes \<times> 'w) option" where
  "serve 0 us act s = Some s"
| "serve (Suc n) us act s = Option.bind (serve_turn us act s) (serve n us act)"

lemma Prepare_hint:
  assumes "SpdSrbExecuteScsiPrepare us e m (Some (zero_req, buf)) = Some (Req, Data)"
    and "is_read (ext_op m e) \<or> is_write (ext_op m e)"
  shows "Req_Hint Req = e"
  using assms by (auto simp: SpdSrbExecuteScsiPrepare_def Let_def bind_eq_Some_conv split: if_splits)

text \<open>A turn takes the front of the list and makes one exchange for it.\<close>

lemma turn_exchange:
  assumes inv: "ioq_inv (q, m)" and run: "\<not> Stopped q" and pend: "PendingList q = e # rest"
    and op: "is_read (ext_op m e) \<or> is_write (ext_op m e)"
    and ex: "\<And>m'. eq_mod_hash m m' \<Longrightarrow> exchange us act e m m' buf w = Some (v, f m', Data, w')"
  obtains m1 q' m' where "serve_turn us act (q, m, buf, w) = Some (q', m', Data, w')" and "eq_mod_hash m m1"
    and "m' = (if v = SRB_STATUS_PENDING then f m1 else SpdSrbComplete (Srb (exts m e)) v (f m1))"
    and "ioq_inv (q', m')" and "\<not> Stopped q'" and "ProcessList q' = ProcessList q"
    and "PendingList q' = (if v = SRB_STATUS_PENDING then e # rest else rest)"
proof -
  let ?q = "q\<lparr>PendingEvent := False\<rparr>"
  have inv': "ioq_inv (?q, m)" by (rule ioq_inv_frame [OF inv]) simp_all
  obtain st ctx q1 m1 where s: "start_locked (SpdSrbExecuteScsiPrepare us) (Some (zero_req, buf)) (?q, m) = (st, ctx, q1, m1)"
    by (metis prod_cases4)
  have "\<not> Stopped ?q" "PendingList ?q = e # rest" using run pend by simp_all
  note t = start_locked_take [OF inv' this s]
  have q1: "\<not> Stopped q1" "PendingList q1 = rest" "ProcessList q1 = ProcessList q @ [e]"
    using t(4) pend run by (simp_all add: abs_ioq_def a_start_def)
  obtain Req D0 where p: "SpdSrbExecuteScsiPrepare us e m (Some (zero_req, buf)) = Some (Req, D0)"
    using ex [OF eq_mod_hash_refl] by (auto simp: exchange_def bind_eq_Some_conv)
  obtain c D status w1 where a: "act Req D0 w = (c, D, status, w1)" by (metis prod_cases4)
  have act: "act Req D0 w = (True, Data, status, w')"
    using ex [OF eq_mod_hash_refl] by (auto simp: exchange_def p a bind_eq_Some_conv split: if_splits)
  have h: "Req_Hint Req = e" by (rule Prepare_hint [OF p op])
  define C where "C = SpdSrbExecuteScsiComplete us
      \<lparr>Rsp_Hint = Req_Hint Req, Rsp_Kind = Req_Kind Req, Rsp_Status = status\<rparr> (Some Data)"
  have C: "C e m' = Some (v, f m')" if "eq_mod_hash m m'" for m'
    using ex [OF that] by (auto simp: exchange_def p act C_def bind_eq_Some_conv)
  have cb: "srb_callback C" unfolding C_def by (rule scsi_callback)
  have e: "e \<in> set (ProcessList q1)" using q1 by simp
  obtain q2 m2 where E: "SpdIoqEndProcessingSrb e C (q1, m1) = Some (q2, m2)"
    by (rule srb_callback.end_known [OF cb t(3) q1(1) e C [OF t(5)]])
  obtain m3 v' m4 where m3: "eq_mod_hash m1 m3" and C3: "C e m3 = Some (v', m4)"
    and m2: "m2 = (if v' = SRB_STATUS_PENDING then m4 else SpdSrbComplete (Srb (exts m1 e)) v' m4)"
    and a2: "abs_ioq q2 = a_end e v' (abs_ioq q1)" and i2: "ioq_inv (q2, m2)"
    by (rule srb_callback.end_memory [OF cb t(3) q1(1) e E])
  have mh: "eq_mod_hash m m3" by (rule eq_mod_hash_trans [OF t(5) m3])
  then have v': "v' = v" "m4 = f m3" using C C3 by simp_all
  have "e \<notin> set (ProcessList q)"
    using ioq_invD(3) [OF inv] pend by (auto simp: queued_def)
  then have q2: "\<not> Stopped q2" "ProcessList q2 = ProcessList q"
    "PendingList q2 = (if v = SRB_STATUS_PENDING then e # rest else rest)"
    using a2 q1 e unfolding abs_ioq_def a_end_def v'(1)
    by (cases "v = SRB_STATUS_PENDING"; simp add: remove1_append)+
  have "serve_turn us act (q, m, buf, w) = Some (q2, m2, Data, w')"
    using s t(1,2) p act E
    by (simp add: serve_turn_def SpdIoqStartProcessingSrb_def h C_def)
  moreover have "m2 = (if v = SRB_STATUS_PENDING then f m3 else SpdSrbComplete (Srb (exts m e)) v (f m3))"
    unfolding m2 v' eq_mod_hash_fields(1) [OF t(5)] ..
  ultimately show thesis using that mh i2 q2 by blast
qed

section \<open>Whole requests\<close>

lemma after_chunk_frame [simp]:
  "srbs (after_chunk e c f m) = srbs m" "notifications (after_chunk e c f m) = notifications m"
  by (simp_all add: after_chunk_def mem_upd_defs)

text \<open>The request is completed with success after at most \<open>fuel\<close> turns; the rest of the queue stays.\<close>

definition served ::
    "nat \<Rightarrow> (ptr \<rightharpoonup> SPD_STORAGE_UNIT) \<Rightarrow>
     (SPD_IOCTL_TRANSACT_REQ \<Rightarrow> bytes \<Rightarrow> 'w \<Rightarrow> bool \<times> bytes \<times> SPD_IOCTL_STORAGE_UNIT_STATUS \<times> 'w) \<Rightarrow>
     ptr \<Rightarrow> SPD_IOQ \<times> kmem \<times> bytes \<times> 'w \<Rightarrow> SPD_IOQ \<times> kmem \<times> bytes \<times> 'w \<Rightarrow> bool" where
  "served fuel us act e s s' \<longleftrightarrow> (case (s, s') of ((q, m, _, _), (q', m', _, _)) \<Rightarrow>
     (\<exists>t \<le> fuel. serve t us act s = Some s') \<and> ioq_inv (q', m') \<and>
     PendingList q' = remove1 e (PendingList q) \<and> ProcessList q' = ProcessList q \<and>
     (\<exists>mm. m' = SpdSrbComplete (Srb (exts m e)) SRB_STATUS_SUCCESS mm \<and> srbs mm = srbs m \<and>
        notifications mm = notifications m))"

lemma served_last:
  assumes "serve_turn us act (q, m, buf, w) = Some (q', m', Data, w')" and "PendingList q = e # rest"
    and "m' = SpdSrbComplete (Srb (exts m e)) SRB_STATUS_SUCCESS mm" and "srbs mm = srbs m" "notifications mm = notifications m"
    and "ioq_inv (q', m')" and "ProcessList q' = ProcessList q" and "PendingList q' = rest"
  shows "served (Suc fuel) us act e (q, m, buf, w) (q', m', Data, w')"
proof -
  have "serve 1 us act (q, m, buf, w) = Some (q', m', Data, w')" using assms(1) by simp
  then have "\<exists>t \<le> Suc fuel. serve t us act (q, m, buf, w) = Some (q', m', Data, w')" by (intro exI [of _ 1]) simp
  then show ?thesis using assms by (auto simp: served_def)
qed

lemma served_more:
  assumes "serve_turn us act (q, m, buf, w) = Some (q1, m1, Data, w1)"
    and "served fuel us act e (q1, m1, Data, w1) (q', m', Data', w')"
    and "PendingList q1 = PendingList q" and "ProcessList q1 = ProcessList q" and "srbs m1 = srbs m"
    and "notifications m1 = notifications m" and "Srb (exts m1 e) = Srb (exts m e)"
  shows "served (Suc fuel) us act e (q, m, buf, w) (q', m', Data', w')"
proof -
  obtain t where "t \<le> fuel" "serve t us act (q1, m1, Data, w1) = Some (q', m', Data', w')"
    using assms(2) by (auto simp: served_def)
  then have "\<exists>t \<le> Suc fuel. serve t us act (q, m, buf, w) = Some (q', m', Data', w')"
    using assms(1) by (intro exI [of _ "Suc t"]) simp
  then show ?thesis using assms by (auto simp: served_def)
qed

context block_device begin

lemma serve_read:
  assumes "ioq_inv (q, m)" and "\<not> Stopped q" and "PendingList q = e # rest"
    and "transferring us u e m a n off" and "off < n * BL" and "is_read (ext_op m e)"
    and BL: "BL = unat (BlockLength (StorageUnitParams u))" and "(a + n) * BL \<le> length (disk w)"
    and "unat (MaxTransferLength (StorageUnitParams u)) \<le> length buf" and "ok w"
    and "n * BL \<le> length (bufs m (SystemDataBuffer (exts m e)))" and "n * BL - off \<le> fuel * BL"
  shows "\<exists>q' m' Data w'. served fuel us act e (q, m, buf, w) (q', m', Data, w') \<and> ok w' \<and> disk w' = disk w \<and>
    bufs m' = (bufs m)(SystemDataBuffer (exts m e) :=
      put off (slice (disk w) (a * BL + off) (n * BL - off)) (bufs m (SystemDataBuffer (exts m e))))"
  using assms
proof (induction fuel arbitrary: q m off buf w)
  case 0
  then show ?case by simp
next
  case (Suc fuel)
  define S where "S = SystemDataBuffer (exts m e)"
  define cl where "cl = chunk_length u (exts m e)"
  define c where "c = unat cl"
  define D where "D = slice (disk w) (a * BL + off) c"
  have off': "off < n * unat (BlockLength (StorageUnitParams u))" using Suc.prems(5) BL by simp
  note st = chunk_step [OF Suc.prems(4) off', folded BL]
  have c: "0 < c" "off + c \<le> n * BL" using st(1,2,4) by (simp_all add: c_def cl_def)
  obtain Data w1 where ex: "\<And>m'. eq_mod_hash m m' \<Longrightarrow> exchange us act e m m' buf w =
      Some (if n * BL \<le> off + c then SRB_STATUS_SUCCESS else SRB_STATUS_PENDING, after_chunk e cl (put off D) m', Data, w1)"
    and w1: "ok w1" "disk w1 = disk w" "length Data = length buf"
    using read_chunk [OF Suc.prems(4-6) BL Suc.prems(8-10)] unfolding cl_def c_def D_def by blast
  obtain m1 q' m' where turn: "serve_turn us act (q, m, buf, w) = Some (q', m', Data, w1)" and mh: "eq_mod_hash m m1"
    and m': "m' = (if n * BL \<le> off + c then SpdSrbComplete (Srb (exts m e)) SRB_STATUS_SUCCESS (after_chunk e cl (put off D) m1)
        else after_chunk e cl (put off D) m1)"
    and q': "ioq_inv (q', m')" "\<not> Stopped q'" "ProcessList q' = ProcessList q"
      "PendingList q' = (if n * BL \<le> off + c then rest else e # rest)"
    by (rule turn_exchange [OF Suc.prems(1-3) disjI1 [OF Suc.prems(6)] ex]) (auto split: if_splits)
  have m1: "srbs m1 = srbs m" "notifications m1 = notifications m" "bufs m1 = bufs m" "SystemDataBuffer (exts m1 e) = S"
    "Srb (exts m1 e) = Srb (exts m e)"
    using eq_mod_hash_fields [OF mh] by (simp_all add: S_def)
  have b: "bufs m' = (bufs m)(S := put off D (bufs m S))" by (simp add: m' m1)
  show ?case
  proof (cases "n * BL \<le> off + c")
    case True
    then have len: "n * BL - off = c" using c(2) by simp
    have "served (Suc fuel) us act e (q, m, buf, w) (q', m', Data, w1)"
      by (rule served_last [OF turn Suc.prems(3), of "after_chunk e cl (put off D) m1"]) (use True m' m1 q' in simp_all)
    then show ?thesis using w1(1,2) b unfolding len S_def D_def by blast
  next
    case False
    then have mc: "m' = after_chunk e cl (put off D) m1" by (simp add: m')
    have t1: "transferring us u e m1 a n off" "chunk_length u (exts m1 e) = cl" "ext_op m1 e = ext_op m e"
      using transfer_cong [OF mh] Suc.prems(4) by (simp_all add: cl_def)
    have t2: "transferring us u e m' a n (off + c)"
      using transferring_after [OF t1(1) off', of "put off D"] unfolding t1(2) mc c_def .
    have S1: "SystemDataBuffer (exts m' e) = S" "ext_op m' e = ext_op m e" "Srb (exts m' e) = Srb (exts m e)"
      using m1 t1(3) by (simp_all add: mc)
    have fit: "a * BL + off + c \<le> length (disk w)" using c(2) Suc.prems(8) by (simp add: add_mult_distrib)
    then have D: "length D = c" by (simp add: D_def length_slice)
    have len: "n * BL \<le> length (bufs m' S)"
      using Suc.prems(11) c(2) D by (simp add: b S_def length_put)
    have rd: "is_read (ext_op m' e)" by (simp only: S1(2) Suc.prems(6))
    have "off + c < n * BL" "(a + n) * BL \<le> length (disk w1)"
      "unat (MaxTransferLength (StorageUnitParams u)) \<le> length Data"
      "n * BL \<le> length (bufs m' (SystemDataBuffer (exts m' e)))" "n * BL - (off + c) \<le> fuel * BL"
      "PendingList q' = e # rest"
      using False Suc.prems(8,9) len w1 q'(4) chunk_fuel [OF Suc.prems(4,5) BL Suc.prems(12)]
      unfolding S1 c_def cl_def by simp_all
    from Suc.IH [OF q'(1,2) this(6) t2 this(1) rd BL this(2,3) w1(1) this(4,5)]
    obtain q2 m2 Data' w2 where IH: "served fuel us act e (q', m', Data, w1) (q2, m2, Data', w2)" "ok w2" "disk w2 = disk w"
      "bufs m2 = (bufs m')(S := put (off + c) (slice (disk w) (a * BL + (off + c)) (n * BL - (off + c))) (bufs m' S))"
      unfolding S1 w1(2) by blast
    have "served (Suc fuel) us act e (q, m, buf, w) (q2, m2, Data', w2)"
      by (rule served_more [OF turn IH(1)]) (use False q' m1 S1(3) Suc.prems(3) in \<open>simp_all add: mc\<close>)
    moreover have "bufs m2 = (bufs m)(S := put off (slice (disk w) (a * BL + off) (n * BL - off)) (bufs m S))"
      using put_slices [of "a * BL + off" c "disk w" off "n * BL - (off + c)" "bufs m S"] fit c(2) Suc.prems(11)
      by (simp add: IH(4) b D_def S_def add.assoc)
    ultimately show ?thesis using IH(2,3) unfolding S_def by blast
  qed
qed

lemma serve_write:
  assumes "ioq_inv (q, m)" and "\<not> Stopped q" and "PendingList q = e # rest"
    and "transferring us u e m a n off" and "off < n * BL" and "is_write (ext_op m e)"
    and BL: "BL = unat (BlockLength (StorageUnitParams u))" and "(a + n) * BL \<le> length (disk w)"
    and "unat (MaxTransferLength (StorageUnitParams u)) \<le> length buf" and "ok w"
    and "n * BL \<le> length (bufs m (SystemDataBuffer (exts m e)))" and "n * BL - off \<le> fuel * BL"
  shows "\<exists>q' m' Data w'. served fuel us act e (q, m, buf, w) (q', m', Data, w') \<and> ok w' \<and> bufs m' = bufs m \<and>
    disk w' = put (a * BL + off) (slice (bufs m (SystemDataBuffer (exts m e))) off (n * BL - off)) (disk w)"
  using assms
proof (induction fuel arbitrary: q m off buf w)
  case 0
  then show ?case by simp
next
  case (Suc fuel)
  define B where "B = bufs m (SystemDataBuffer (exts m e))"
  define cl where "cl = chunk_length u (exts m e)"
  define c where "c = unat cl"
  define D where "D = slice B off c"
  have off': "off < n * unat (BlockLength (StorageUnitParams u))" using Suc.prems(5) BL by simp
  note st = chunk_step [OF Suc.prems(4) off', folded BL]
  have c: "0 < c" "off + c \<le> n * BL" using st(1,2,4) by (simp_all add: c_def cl_def)
  obtain Data w1 where ex: "\<And>m'. eq_mod_hash m m' \<Longrightarrow> exchange us act e m m' buf w =
      Some (if n * BL \<le> off + c then SRB_STATUS_SUCCESS else SRB_STATUS_PENDING, after_chunk e cl id m', Data, w1)"
    and w1: "ok w1" "disk w1 = put (a * BL + off) D (disk w)" "length Data = length buf"
    using write_chunk [OF Suc.prems(4-6) BL Suc.prems(8-11)] unfolding cl_def c_def D_def B_def by blast
  obtain m1 q' m' where turn: "serve_turn us act (q, m, buf, w) = Some (q', m', Data, w1)" and mh: "eq_mod_hash m m1"
    and m': "m' = (if n * BL \<le> off + c then SpdSrbComplete (Srb (exts m e)) SRB_STATUS_SUCCESS (after_chunk e cl id m1)
        else after_chunk e cl id m1)"
    and q': "ioq_inv (q', m')" "\<not> Stopped q'" "ProcessList q' = ProcessList q"
      "PendingList q' = (if n * BL \<le> off + c then rest else e # rest)"
    by (rule turn_exchange [OF Suc.prems(1-3) disjI2 [OF Suc.prems(6)] ex]) (auto split: if_splits)
  have m1: "srbs m1 = srbs m" "notifications m1 = notifications m" "bufs m1 = bufs m"
    "Srb (exts m1 e) = Srb (exts m e)" "SystemDataBuffer (exts m1 e) = SystemDataBuffer (exts m e)"
    using eq_mod_hash_fields [OF mh] by simp_all
  have b: "bufs m' = bufs m" by (simp add: m' m1 fun_eq_iff)
  show ?case
  proof (cases "n * BL \<le> off + c")
    case True
    then have len: "n * BL - off = c" using c(2) by simp
    have "served (Suc fuel) us act e (q, m, buf, w) (q', m', Data, w1)"
      by (rule served_last [OF turn Suc.prems(3), of "after_chunk e cl id m1"]) (use True m' m1 q' in simp_all)
    then show ?thesis using w1(1,2) b unfolding len D_def B_def by blast
  next
    case False
    then have mc: "m' = after_chunk e cl id m1" by (simp add: m')
    have t1: "transferring us u e m1 a n off" "chunk_length u (exts m1 e) = cl" "ext_op m1 e = ext_op m e"
      using transfer_cong [OF mh] Suc.prems(4) by (simp_all add: cl_def)
    have t2: "transferring us u e m' a n (off + c)"
      using transferring_after [OF t1(1) off', of id] unfolding t1(2) mc c_def .
    have S1: "bufs m' (SystemDataBuffer (exts m' e)) = B" "ext_op m' e = ext_op m e" "Srb (exts m' e) = Srb (exts m e)"
      using m1 t1(3) by (simp_all add: b B_def) (simp_all add: mc)
    have fit: "a * BL + n * BL \<le> length (disk w)" using Suc.prems(8) by (simp add: add_mult_distrib)
    have D: "length D = c" using Suc.prems(11) c(2) by (simp add: D_def length_slice B_def)
    then have len: "length (disk w1) = length (disk w)" using fit c(2) by (simp add: w1(2) length_put)
    have wr: "is_write (ext_op m' e)" by (simp only: S1(2) Suc.prems(6))
    have "off + c < n * BL" "(a + n) * BL \<le> length (disk w1)"
      "unat (MaxTransferLength (StorageUnitParams u)) \<le> length Data"
      "n * BL \<le> length (bufs m' (SystemDataBuffer (exts m' e)))" "n * BL - (off + c) \<le> fuel * BL"
      "PendingList q' = e # rest"
      using False Suc.prems(8,9,11) len w1(3) q'(4) chunk_fuel [OF Suc.prems(4,5) BL Suc.prems(12)]
      unfolding S1 c_def cl_def B_def by simp_all
    from Suc.IH [OF q'(1,2) this(6) t2 this(1) wr BL this(2,3) w1(1) this(4,5)]
    obtain q2 m2 Data' w2 where IH: "served fuel us act e (q', m', Data, w1) (q2, m2, Data', w2)" "ok w2" "bufs m2 = bufs m'"
      "disk w2 = put (a * BL + (off + c)) (slice B (off + c) (n * BL - (off + c))) (disk w1)"
      unfolding S1 by blast
    have "served (Suc fuel) us act e (q, m, buf, w) (q2, m2, Data', w2)"
      by (rule served_more [OF turn IH(1)]) (use False q' m1 S1(3) Suc.prems(3) in \<open>simp_all add: mc\<close>)
    moreover have "disk w2 = put (a * BL + off) (slice B off (n * BL - off)) (disk w)"
      using put_slices [of off c B "a * BL + off" "n * BL - (off + c)" "disk w"] fit c(2) Suc.prems(11)
      by (simp add: IH(4) w1(2) D_def B_def add.assoc)
    ultimately show ?thesis using IH(2,3) b unfolding B_def by metis
  qed
qed

end


text \<open>The request of two blocks, on a disk of eight blocks that takes one block at a time.\<close>

definition serve_mem :: kmem where "serve_mem = chunk_mem\<lparr>bufs := \<lambda>_. replicate 1024 0\<rparr>"

definition serve_disk :: RAWDISK where
  "serve_disk = demo_disk\<lparr>rd_BlockCount := 8, rd_Memory := replicate 4096 5, rd_Cache := replicate 4096 5,
     rd_Medium := replicate 4096 5\<rparr>"


end
