(* ===== verification/Util_Props.thy ===== *)
theory Util_Props
  imports Shared_Util
begin

text \<open>The properties of the partition table and of the aligned allocation.\<close>

section \<open>Partition tables\<close>

lemma length_chs3 [simp]: "length (chs3 lba) = 3"
  by (simp add: chs3_def CHS_TO_MBR_def split: prod.split)

lemma length_partition_entry [simp]: "length (partition_entry p) = 16"
  by (simp add: partition_entry_def length_le)

lemma partition_loop_length:
  "446 + 16 * (I + length ps) \<le> length Buffer \<Longrightarrow> length (partition_loop I ps Buffer) = length Buffer"
  by (induction ps arbitrary: I Buffer) (simp_all add: length_put)

lemma partition_loop_other:
  "446 + 16 * (I + length ps) \<le> length Buffer \<Longrightarrow> k + n \<le> length Buffer \<Longrightarrow>
   k + n \<le> 446 + 16 * I \<or> 446 + 16 * (I + length ps) \<le> k \<Longrightarrow>
   slice (partition_loop I ps Buffer) k n = slice Buffer k n"
proof (induction ps arbitrary: I Buffer)
  case (Cons p ps)
  define B where "B = put (446 + 16 * I) (partition_entry p) Buffer"
  have len: "length B = length Buffer" using Cons.prems by (simp add: B_def length_put)
  have "slice (partition_loop (I + 1) ps B) k n = slice B k n"
    using Cons.prems len by (intro Cons.IH) auto
  also have "\<dots> = slice Buffer k n"
    using Cons.prems by (auto simp: B_def intro!: slice_put_other)
  finally show ?case by (simp add: B_def)
qed simp

lemma partition_loop_entry:
  "446 + 16 * (I + length ps) \<le> length Buffer \<Longrightarrow> j < length ps \<Longrightarrow>
   slice (partition_loop I ps Buffer) (446 + 16 * (I + j)) 16 = partition_entry (ps ! j)"
proof (induction ps arbitrary: I Buffer j)
  case (Cons p ps)
  define B where "B = put (446 + 16 * I) (partition_entry p) Buffer"
  have len: "length B = length Buffer" using Cons.prems by (simp add: B_def length_put)
  have "slice (partition_loop (I + 1) ps B) (446 + 16 * (I + j)) 16 = partition_entry ((p # ps) ! j)"
  proof (cases j)
    case 0
    have "slice (partition_loop (I + 1) ps B) (446 + 16 * I) 16 = slice B (446 + 16 * I) 16"
      using Cons.prems len by (intro partition_loop_other) auto
    with 0 Cons.prems show ?thesis by (simp add: B_def slice_put_same)
  next
    case (Suc i)
    then have "slice (partition_loop (I + 1) ps B) (446 + 16 * (I + 1 + i)) 16 = partition_entry (ps ! i)"
      using Cons.prems len by (intro Cons.IH) auto
    then show ?thesis by (simp add: Suc)
  qed
  then show ?case by (simp add: B_def)
qed simp

lemma partition_ok_small:
  assumes "partition_ok p"
  shows "unat (part_BlockAddress p) < 2 ^ 32" and "unat (part_BlockCount p) < 2 ^ 32"
proof -
  have a: "part_BlockAddress p < part_BlockAddress p + part_BlockCount p"
    and e: "part_BlockAddress p + part_BlockCount p \<le> 0xffffffff"
    using assms by (auto simp: partition_ok_def partition_end_def not_le not_less)
  have "unat (part_BlockAddress p) + unat (part_BlockCount p) < 2 ^ 64"
    using a no_wrap_iff [of "part_BlockAddress p" "part_BlockCount p"] by auto
  then have "unat (part_BlockAddress p) + unat (part_BlockCount p) \<le> 0xffffffff"
    using e by (simp add: word_le_nat_alt unat_add_no_wrap)
  then show "unat (part_BlockAddress p) < 2 ^ 32" "unat (part_BlockCount p) < 2 ^ 32" by simp_all
qed

text \<open>What a reader of the table finds in the entry \<open>i\<close>.\<close>

definition table_entry :: "bytes \<Rightarrow> nat \<Rightarrow> bytes" where
  "table_entry b i = slice b (446 + 16 * i) 16"

lemma unat_ucast_small: "unat w < 2 ^ 32 \<Longrightarrow> unat (ucast (w :: u64) :: u32) = unat w"
  by (simp add: unsigned_ucast_eq take_bit_nat_eq_self)

text \<open>The partition table reads back. When \<open>SpdDefinePartitionTable\<close> succeeds on a buffer of 512 octets,
  the buffer keeps its length and ends with the magic number; the entry of each partition has its type, its
  active flag, its first address and, as 32-bit numbers, its start and its length, none of them truncated,
  and the other entries are empty. The address in the field for the last block is that of the block behind
  the partition.\<close>

lemma partition_table_reads_back:
  assumes "SpdDefinePartitionTable ps buf = (ERROR_SUCCESS, b)" and "length buf = 512"
  shows "length b = 512 \<and> slice b 510 2 = [0x55, 0xAA] \<and>
    (\<forall>i < length ps. table_entry b i ! 0 = part_Active (ps ! i) \<and> table_entry b i ! 4 = part_Type (ps ! i) \<and>
       slice (table_entry b i) 1 3 = chs3 (part_BlockAddress (ps ! i)) \<and>
       unat (getl32 (slice (table_entry b i) 8 4)) = unat (part_BlockAddress (ps ! i)) \<and>
       unat (getl32 (slice (table_entry b i) 12 4)) = unat (part_BlockCount (ps ! i)) \<and>
       slice (table_entry b i) 5 3 = chs3 (part_BlockAddress (ps ! i) + part_BlockCount (ps ! i))) \<and>
    (\<forall>i < 4. length ps \<le> i \<longrightarrow> table_entry b i = replicate 16 0)"
proof -
  have n: "length ps \<le> 4" and ok: "\<And>p. p \<in> set ps \<Longrightarrow> partition_ok p"
    and b: "b = partition_loop 0 ps (put 0 SpdMbr buf)"
    using assms(1) by (auto simp: SpdDefinePartitionTable_def list_all_iff split: if_splits)
  have mbr: "put 0 SpdMbr buf = SpdMbr" "length SpdMbr = 512"
    using assms(2) by (simp_all add: put_def SpdMbr_def splice_all)
  have fits: "446 + 16 * (0 + length ps) \<le> length SpdMbr" using n mbr by simp
  have b': "b = partition_loop 0 ps SpdMbr" by (simp add: b mbr(1))
  note loop = partition_loop_length [OF fits, folded b', unfolded mbr]
    partition_loop_other [OF fits, folded b', unfolded mbr]
    partition_loop_entry [OF fits, folded b', simplified]
  have entry: "table_entry b i = partition_entry (ps ! i)" if "i < length ps" for i
    using loop(3) [of i] that by (simp add: table_entry_def)
  have magic: "slice b 510 2 = slice SpdMbr 510 2" using loop(2) [of 510 2] n by simp
  have empty: "table_entry b i = slice SpdMbr (446 + 16 * i) 16" if "i < 4" "length ps \<le> i" for i
    using loop(2) [of "446 + 16 * i" 16] that by (simp add: table_entry_def)
  have zeros: "slice SpdMbr (446 + 16 * i) 16 = replicate 16 0" if "i < 4" for i
  proof -
    from that consider "i = 0" | "i = 1" | "i = 2" | "i = 3" by linarith
    then show ?thesis by cases (simp_all add: slice_def SpdMbr_def)
  qed
  have fields: "partition_entry p ! 0 = part_Active p \<and> partition_entry p ! 4 = part_Type p \<and>
      slice (partition_entry p) 1 3 = chs3 (part_BlockAddress p) \<and>
      unat (getl32 (slice (partition_entry p) 8 4)) = unat (part_BlockAddress p) \<and>
      unat (getl32 (slice (partition_entry p) 12 4)) = unat (part_BlockCount p) \<and>
      slice (partition_entry p) 5 3 = chs3 (part_BlockAddress p + part_BlockCount p)" if "partition_ok p" for p
    using partition_ok_small [OF that]
    by (simp add: partition_entry_def slice_def length_le l32.dec_enc unat_ucast_small nth_append partition_end_def)
  show ?thesis
    using loop(1) magic entry empty zeros fields ok by (auto simp: slice_def SpdMbr_def)
qed


definition demo_partition :: SPD_PARTITION where
  "demo_partition = \<lparr>part_Type = 7, part_Active = 0, part_BlockAddress = 63, part_BlockCount = 1000\<rparr>"

lemma partition_table_reads_back_witness:
  "\<exists>b. SpdDefinePartitionTable [demo_partition] (replicate 512 1) = (ERROR_SUCCESS, b) \<and> length b = 512 \<and>
    table_entry b 0 ! 4 = 7 \<and> unat (getl32 (slice (table_entry b 0) 8 4)) = 63 \<and> table_entry b 3 = replicate 16 0"
proof -
  obtain b where t: "SpdDefinePartitionTable [demo_partition] (replicate 512 1) = (ERROR_SUCCESS, b)"
    by (simp add: SpdDefinePartitionTable_def partition_ok_def partition_end_def demo_partition_def)
  from partition_table_reads_back [OF t] t show ?thesis by (simp add: demo_partition_def)
qed

section \<open>Aligned allocation\<close>

lemma unat_align_down: "unat (x AND NOT (mask k)) = unat x - unat x mod 2 ^ k" for x :: "'a::len word"
proof -
  have "x AND NOT (mask k) = x AND NOT (take_bit k x)"
    by (rule bit_word_eqI) (auto simp: bit_simps)
  also have "\<dots> = x - take_bit k x"
    by (rule disjunctive_diff_eq_and_not [symmetric], rule bit_word_eqI) (auto simp: bit_simps)
  finally have "unat (x AND NOT (mask k)) = unat (x - take_bit k x)" by simp
  moreover have t: "unat (take_bit k x) = unat x mod 2 ^ k"
    unfolding unsigned_take_bit_eq by (simp add: take_bit_eq_mod)
  moreover have "take_bit k x \<le> x" by (simp add: word_le_nat_alt t)
  ultimately show ?thesis by (simp add: unat_sub)
qed

lemma unat_mask_less: "k \<le> LENGTH('a) \<Longrightarrow> unat (mask k :: 'a::len word) = 2 ^ k - 1"
proof -
  assume "k \<le> LENGTH('a)"
  then have "uint (mask k :: 'a word) = mask k" by (simp add: uint_mask_eq min_def)
  then have "unat (mask k :: 'a word) = nat (mask k)" unfolding unat_eq_nat_uint by simp
  then show ?thesis by (simp add: nat_mask_eq) (simp add: mask_eq_exp_minus_1)
qed

text \<open>The next multiple of a power of two.\<close>

lemma round_up_bounds:
  fixes p k :: nat
  defines "q \<equiv> p + (2 ^ k - 1) - (p + (2 ^ k - 1)) mod 2 ^ k"
  shows "p \<le> q" and "q \<le> p + (2 ^ k - 1)" and "q mod 2 ^ k = 0" and "p mod 2 ^ k = 0 \<Longrightarrow> q = p"
proof -
  have "(p + (2 ^ k - 1)) mod 2 ^ k < 2 ^ k" by simp
  then show "p \<le> q" unfolding q_def by linarith
  show "q \<le> p + (2 ^ k - 1)" by (simp add: q_def)
  show "q mod 2 ^ k = 0" by (simp add: q_def minus_mod_eq_mult_div)
  assume "p mod 2 ^ k = 0"
  then obtain j where "p = 2 ^ k * j" by auto
  then have "(p + (2 ^ k - 1)) mod 2 ^ k = (2 ^ k - 1) mod 2 ^ k" by (simp only: mod_mult_self4)
  also have "\<dots> = 2 ^ k - 1" by (rule mod_less) simp
  finally have "(p + (2 ^ k - 1)) mod 2 ^ k = 2 ^ k - 1" .
  then show "q = p" by (simp add: q_def)
qed

text \<open>An aligned block is aligned, lies in the memory that was allocated for it and is given back as it
  was allocated. The allocator is assumed to return addresses below the end of the address space. When
  its block is aligned already, the address that is remembered is written to the 8 octets in front of
  the allocated memory.\<close>

lemma aligned_block_fits:
  assumes "SpdIoctlMemAlignAlloc heap_alloc Size AlignMask mm = (ERROR_SUCCESS, PP, mm')"
    and "effective_mask AlignMask = mask k" and "k < 32" and "unat Size + (2 ^ k - 1) < 2 ^ 32"
    and heap: "\<And>n. unat (heap_alloc n) + unat n < 2 ^ 64"
  shows "\<exists>P. P = heap_alloc (Size + mask k) \<and> P \<noteq> 0 \<and> unat PP mod 2 ^ k = 0 \<and> P \<le> PP \<and>
    unat PP + unat Size \<le> unat P + unat (Size + mask k) \<and> SpdIoctlMemAlignFree PP mm' = Some P \<and>
    (unat P mod 2 ^ k = 0 \<longrightarrow> PP = P \<and> mm' = mm(P - 8 := P))"
proof -
  define P where "P = heap_alloc (Size + mask k)"
  have m: "unat (mask k :: u32) = 2 ^ k - 1" "unat (ucast (mask k :: u32) :: ptr) = 2 ^ k - 1"
    "(ucast (mask k :: u32) :: ptr) = mask k"
    using assms(3) by (simp_all add: unat_mask_less unat_ucast_up ucast_mask_eq min_def)
  have size: "unat (Size + mask k) = unat Size + (2 ^ k - 1)"
    using assms(4) m by (simp add: unat_add_no_wrap)
  have sum: "unat (P + mask k) = unat P + (2 ^ k - 1)"
    using heap [of "Size + mask k"] size m by (simp add: unat_add_no_wrap P_def)
  have PP: "P \<noteq> 0" "PP = (P + mask k) AND NOT (mask k)" "mm' = mm(PP - 8 := P)"
    using assms(1,2) m by (auto simp: SpdIoctlMemAlignAlloc_def Let_def P_def split: if_splits)
  have u: "unat PP = unat P + (2 ^ k - 1) - (unat P + (2 ^ k - 1)) mod 2 ^ k"
    by (simp only: PP(2) unat_align_down sum)
  note round = round_up_bounds [of "unat P" k, folded u]
  have "PP \<noteq> 0" using round(1) PP(1) by (metis le_zero_eq unat_0 word_unat_eq_iff)
  then have free: "SpdIoctlMemAlignFree PP mm' = Some P" unfolding SpdIoctlMemAlignFree_def PP(3) by simp
  have fits: "unat PP + unat Size \<le> unat P + unat (Size + mask k)" using round(2) size by linarith
  have le: "P \<le> PP" using round(1) by (simp only: word_le_nat_alt)
  have eq: "PP = P" if "unat P mod 2 ^ k = 0" using round(4) [OF that] by (simp only: word_unat_eq_iff)
  have mm: "mm' = mm(P - 8 := P)" if "unat P mod 2 ^ k = 0" using PP(3) by (simp only: eq [OF that])
  show ?thesis
    by (rule exI [of _ P], intro conjI impI P_def PP(1) round(3) le fits free eq mm)
qed

lemma aligned_block_fits_witness:
  "\<exists>PP mm'. SpdIoctlMemAlignAlloc (\<lambda>_. 0x1000) 100 15 (\<lambda>_. 0) = (ERROR_SUCCESS, PP, mm') \<and> PP = 0x1000 \<and>
    SpdIoctlMemAlignFree PP mm' = Some 0x1000 \<and> mm' 0xff8 = 0x1000"
proof -
  obtain PP mm' where a: "SpdIoctlMemAlignAlloc (\<lambda>_. 0x1000) 100 15 (\<lambda>_. 0) = (ERROR_SUCCESS, PP, mm')"
    by (simp add: SpdIoctlMemAlignAlloc_def Let_def)
  have m: "effective_mask 15 = mask 4" by (simp add: effective_mask_def mask_eq_exp_minus_1)
  have h: "unat (0x1000 :: ptr) + unat n < 2 ^ 64" for n :: u32
  proof -
    have "unat n < 2 ^ 32" using unsigned_less [of n] by simp
    then show ?thesis by simp
  qed
  from aligned_block_fits [OF a m _ _ h] a show ?thesis by auto
qed

end
