(* ===== verification/End_To_End.thy ===== *)
theory End_To_End
  imports Transfers Util_Props
begin

text \<open>
  The driver together with the storage device \<open>RawDisk\<close>: what is written is read back, what is flushed
  is on the medium, what is unmapped reads as zeros, and what an error reports.
\<close>

section \<open>Creating\<close>

lemma partition_table_length: "length Buffer \<ge> 512 \<Longrightarrow> length (snd (SpdDefinePartitionTable [part] Buffer)) = length Buffer"
  by (simp add: SpdDefinePartitionTable_def SpdMbr_def length_put)

lemma format_keeps:
  assumes "rd_ok BL rd" and "length (rd_Cache rd) = length (rd_Memory rd)"
  shows "rd_ok BL (rd_format sys rd)" and "length (rd_Memory (rd_format sys rd)) = length (rd_Memory rd)"
    and "length (rd_Cache (rd_format sys rd)) = length (rd_Memory rd)"
proof -
  obtain Error mm where t: "SpdDefinePartitionTable [rd_partition (rd_BlockCount rd) (rd_BlockLength rd)]
      (rd_Memory rd @ replicate 512 0) = (Error, mm)" by fastforce
  then have "length mm = length (rd_Memory rd) + 512"
    using partition_table_length [of "rd_Memory rd @ replicate 512 0"] by (metis length_append length_replicate le_add2 snd_conv)
  with t assms show "rd_ok BL (rd_format sys rd)" "length (rd_Memory (rd_format sys rd)) = length (rd_Memory rd)"
    "length (rd_Cache (rd_format sys rd)) = length (rd_Memory rd)"
    by (auto simp: rd_format_def Let_def rd_ok_def flush_view_def flush_file_def length_put)
qed

text \<open>The disk that is created is the disk that the driver is told of. When \<open>RawDiskCreate\<close> succeeds,
  the file has exactly the octets of the unit of the parameters, which are not none, the disk is in
  working order, and an existing file is taken as it is; only a file without octets gets a partition table.\<close>

lemma created_disk_matches_unit:
  assumes "RawDiskCreate cr sys Count Length WriteProt Cache Unmap = Inr (par, rd)"
    and "\<forall>File. cr_open cr = Inr File \<longrightarrow> length File < 2 ^ 64"
  shows "BlockCount par = Count \<and> BlockLength par = Length \<and>
    length (rd_Memory rd) = unat (Count * ucast Length) \<and> 0 < length (rd_Memory rd) \<and>
    length (rd_Cache rd) = length (rd_Memory rd) \<and>
    rd_ok (unat Length) rd \<and> (\<forall>File. cr_open cr = Inr File \<longrightarrow> File \<noteq> [] \<longrightarrow> rd_Memory rd = File)"
proof -
  obtain Product Revision File Pointer where c: "cr_ProductId cr = Some Product" "cr_ProductRevision cr = Some Revision"
      "cr_open cr = Inr File" "cr_view cr = Inr Pointer"
    using assms(1) by (auto simp: RawDiskCreate_def Let_def split: option.splits sum.splits if_splits)
  define n where "n = Count * ucast Length"
  have File: "length File < 2 ^ 64" using assms(2) c(3) by blast
  show ?thesis
  proof (cases "File = []")
    case False
    have "unat (of_nat (length File) :: u64) = length File"
      using File by (simp add: unsigned_of_nat take_bit_nat_eq_self)
    with False c assms(1) File show ?thesis
      by (auto simp: RawDiskCreate_def Let_def rd_ok_def split: if_splits)
  next
    case True
    define d0 where "d0 = \<lparr>rd_BlockCount = Count, rd_BlockLength = Length, rd_Pointer = Pointer, rd_Sparse = cr_sparse cr,
      rd_Memory = replicate (unat n) 0, rd_Cache = replicate (unat n) 0, rd_Medium = replicate (unat n) 0, rd_Crashed = False\<rparr>"
    have "n \<noteq> 0" "BlockCount par = Count" "BlockLength par = Length" "rd = rd_format sys d0"
      using assms(1) c True by (auto simp: RawDiskCreate_def Let_def n_def d0_def split: if_splits)
    moreover have "length (rd_Memory d0) = unat n" "length (rd_Cache d0) = unat n" "rd_ok (unat Length) d0"
      using unsigned_less [of n, where ?'a = nat] by (simp_all add: d0_def rd_ok_def)
    ultimately show ?thesis
      using format_keeps [of "unat Length" d0 sys] c(3) True by (simp add: n_def unat_gt_0)
  qed
qed

definition demo_create_disk :: rd_create where
  "demo_create_disk = \<lparr>cr_Guid = \<lparr>Data1 = 0, Data2 = 0, Data3 = 0, Data4 = replicate 8 0\<rparr>,
     cr_ProductId = Some [82], cr_ProductRevision = Some [49], cr_allocated = True, cr_open = Inr [], cr_sparse = True,
     cr_get_size = 0, cr_set_size = 0, cr_mapping = 0, cr_view = Inr 0x10000, cr_unit = \<lambda>_. 0\<rparr>"

lemma created_disk_demo:
  "\<exists>par rd. RawDiskCreate demo_create_disk good_sys 16 512 False True True = Inr (par, rd) \<and>
    length (rd_Memory rd) = 8192 \<and> rd_ok 512 rd"
proof -
  obtain par rd where r: "RawDiskCreate demo_create_disk good_sys 16 512 False True True = Inr (par, rd)"
    by (simp add: RawDiskCreate_def demo_create_disk_def Let_def)
  from created_disk_matches_unit [OF r] r show ?thesis by (simp add: demo_create_disk_def)
qed

section \<open>Reading what was written\<close>



section \<open>The medium\<close>


definition flush_req :: SPD_IOCTL_TRANSACT_REQ where
  "flush_req = zero_req\<lparr>Req_Kind := SpdIoctlTransactFlushKind,
     Req_Op := Op_set_BlockCount 3 (Op_set_BlockAddress 2 (Req_Op zero_req))\<rparr>"


section \<open>Unmapped blocks\<close>




section \<open>Errors of the file\<close>

text \<open>A page of the file that cannot be read is reported with its block. When the system stops the copy
  of a read inside the disk at an address in its range, the answer is a medium error with valid
  information; the information is the number of the block of that address, which is a block of the
  request, and the octets of the disk stay.\<close>

lemma page_error_reported:
  assumes "rd_ok BL w" and "request_fits BL Req Data (rd_Memory w)" and "Req_Kind Req = SpdIoctlTransactReadKind"
    and "Op_ForceUnitAccess (Req_Op Req) = 0" and "req_offset BL Req \<le> x" and "x < req_offset BL Req + req_octets BL Req"
    and "sys_page_error sys (Op_BlockAddress (Req_Op Req) * ucast (rd_BlockLength w))
      (Op_BlockCount (Req_Op Req) * rd_BlockLength w) w = Some (copied, rd_Pointer w + of_nat x)"
    and "rd_Pointer w + of_nat x \<noteq> 0"
  shows "\<exists>Data' st. dispatch_op (RawDiskInterface sys) Req Data w = (True, Data', st, w) \<and>
    ScsiStatus st = SCSISTAT_CHECK_CONDITION \<and> SenseKey st = SCSI_SENSE_MEDIUM_ERROR \<and>
    ASC st = SCSI_ADSENSE_UNRECOVERED_ERROR \<and> InformationValid st \<and> unat (Information st) = x div BL \<and>
    unat (Op_BlockAddress (Req_Op Req)) \<le> unat (Information st) \<and>
    unat (Information st) < unat (Op_BlockAddress (Req_Op Req)) + unat (Op_BlockCount (Req_Op Req))"
proof -
  have ins: "request_inside BL Req (rd_Memory w)" and fit: "req_octets BL Req \<le> length Data"
    using assms(2) by (simp_all add: request_fits_def)
  note w = request_words [OF assms(1) ins]
  have len: "\<not> length (rd_Memory w) < req_offset BL Req + req_octets BL Req" using ins by (simp add: request_inside_def)
  have BL: "0 < BL" using assms(5,6) by (cases BL) (simp_all add: req_octets_def)
  have x64: "x < 2 ^ 64" using assms(1,6) len by (simp add: rd_ok_def)
  have "unat (ucast (rd_BlockLength w) :: u64) = BL" using assms(1) by (simp add: rd_ok_def unat_ucast_up)
  then have info: "unat ((rd_Pointer w + of_nat x - rd_Pointer w) div ucast (rd_BlockLength w)) = x div BL"
    using x64 by (simp add: unat_div unsigned_of_nat take_bit_nat_eq_self)
  have block: "unat (Op_BlockAddress (Req_Op Req)) \<le> x div BL"
    using assms(5) BL by (simp add: req_offset_def less_eq_div_iff_mult_less_eq)
  moreover have "x < (unat (Op_BlockAddress (Req_Op Req)) + unat (Op_BlockCount (Req_Op Req))) * BL"
    using assms(6) by (simp add: req_offset_def req_octets_def add_mult_distrib)
  ultimately have blocks: "x div BL < unat (Op_BlockAddress (Req_Op Req)) + unat (Op_BlockCount (Req_Op Req))"
    by (simp add: less_mult_imp_div_less)
  obtain B where "dispatch_op (RawDiskInterface sys) Req Data w = (True, B,
      SpdStorageUnitStatusSetSense SCSI_SENSE_MEDIUM_ERROR SCSI_ADSENSE_UNRECOVERED_ERROR
        (Some ((rd_Pointer w + of_nat x - rd_Pointer w) div ucast (rd_BlockLength w))) zero_status, w)"
    using assms(3,4,7,8) len fit
    by (simp add: dispatch_op_def RawDiskInterface_def Let_def rd_Read_def CopyBuffer_def w)
  then show ?thesis
    using info block blocks by (simp add: SpdStorageUnitStatusSetSense_def Let_def)
qed

lemma page_error_reported_witness:
  "\<exists>Data' st. dispatch_op (RawDiskInterface (good_sys\<lparr>sys_page_error := \<lambda>_ _ _. Some (0, 0x10405)\<rparr>))
      (flush_req\<lparr>Req_Kind := SpdIoctlTransactReadKind\<rparr>) (replicate 65536 0) demo_disk = (True, Data', st, demo_disk) \<and>
    SenseKey st = SCSI_SENSE_MEDIUM_ERROR \<and> unat (Information st) = 2"
proof -
  define Req where "Req = flush_req\<lparr>Req_Kind := SpdIoctlTransactReadKind\<rparr>"
  have r: "req_offset 512 Req = 1024" "req_octets 512 Req = 1536" "Req_Kind Req = SpdIoctlTransactReadKind"
    "Op_ForceUnitAccess (Req_Op Req) = 0"
    by (simp_all add: req_offset_def req_octets_def flush_req_def Req_def zero_req_def Op_ForceUnitAccess_def Op_set_BlockCount_def Op_set_BlockAddress_def
        Op_BlockAddress_def Op_BlockCount_def)
  show ?thesis
    using page_error_reported [of 512 demo_disk Req "replicate 65536 0" 1029
        "good_sys\<lparr>sys_page_error := \<lambda>_ _ _. Some (0, 0x10405)\<rparr>" 0] demo_disk_ok r
    unfolding Req_def [symmetric]
    by (auto simp: demo_disk_def request_fits_def request_inside_def)
qed

end
