(* ===== verification/Dispatch.thy ===== *)
theory Dispatch
  imports Ioctl
begin

text \<open>
  Plug and play and start-up: src/sys/dispatch.c, src/sys/util.c and the parts of
  src/sys/driver.c that choose the capacity and the sizes and hook the plug-and-play handler.
\<close>

section \<open>Requests to the disk device\<close>

text \<open>
  \<open>SpdMakeDeviceIoControlRequest\<close>: whether the IRP could be allocated, what \<open>IoCallDriver\<close>
  returned, and the status block that completion wrote. \<open>NT_ERROR\<close> is true for the codes of
  severity 3.
\<close>

fun NT_ERROR :: "NTSTATUS \<Rightarrow> bool" where
  "NT_ERROR (NtOther w) = (drop_bit 30 w = 3)"
| "NT_ERROR STATUS_BUFFER_OVERFLOW = False"
| "NT_ERROR st = (\<not> NT_SUCCESS st)"

definition SpdMakeDeviceIoControlRequest ::
    "bool \<Rightarrow> NTSTATUS \<Rightarrow> NTSTATUS \<times> nat \<Rightarrow> NTSTATUS \<times> nat" where
  "SpdMakeDeviceIoControlRequest irp_allocated Result IoStatusBlock =
     (if \<not> irp_allocated then (STATUS_INSUFFICIENT_RESOURCES, 0)
      else if NT_ERROR Result then (Result, 0)
      else IoStatusBlock)"

text \<open>\<open>SCSI_ADDRESS\<close>: its size is 8; the device fills in the length and the address.\<close>

definition SpdGetScsiAddress ::
    "NTSTATUS \<times> nat \<Rightarrow> u32 \<times> u8 \<times> u8 \<times> u8 \<Rightarrow> NTSTATUS \<times> u8 \<times> u8 \<times> u8" where
  "SpdGetScsiAddress io address =
     (case (io, address) of ((Status, Information'), (Length, addr)) \<Rightarrow>
        if \<not> NT_SUCCESS Status then (Status, addr)
        else if Information' < 8 \<or> Length < 8 then (STATUS_OBJECT_NAME_NOT_FOUND, addr)
        else (STATUS_SUCCESS, addr))"

section \<open>Plug and play\<close>

datatype IRP_MN = IRP_MN_QUERY_CAPABILITIES | IRP_MN_START_DEVICE | IRP_MN_REMOVE_DEVICE | IRP_MN_OTHER u8

text \<open>
  \<open>addr\<close> is the result of \<open>SpdGetScsiAddress\<close> for the device, \<open>port\<close> is StorPort's handler: it
  returns a status and may change the kernel's state. The first component of the result tells
  whether the capabilities of the IRP have been set.
\<close>

definition SpdDispatchPnp ::
    "(kernel \<Rightarrow> NTSTATUS \<times> kernel) \<Rightarrow> NTSTATUS \<times> u8 \<times> u8 \<times> u8 \<Rightarrow> ptr \<Rightarrow> IRP_MN \<Rightarrow> kernel \<Rightarrow>
     (bool \<times> NTSTATUS \<times> kernel) option" where
  "SpdDispatchPnp port addr d Minor k = do {
     (caps, Provision, k) \<leftarrow>
       (case Minor of
          IRP_MN_QUERY_CAPABILITIES \<Rightarrow>
            (case SpdDeviceExtensionAcquire k of (g, k) \<Rightarrow>
               if g = 0 then Some (False, None, k)
               else Some (d = AdapterDeviceObject (de k), None, SpdDeviceExtensionRelease k))
        | IRP_MN_START_DEVICE \<Rightarrow> do {
            (_, k) \<leftarrow> SpdStorageUnitGlobalSetDevice d addr k;
            Some (False, None, k)
          }
        | IRP_MN_REMOVE_DEVICE \<Rightarrow> do {
            (p, k) \<leftarrow> SpdStorageUnitGlobalReferenceByDevice d k;
            if p = 0 then Some (False, None, k)
            else do {
              u \<leftarrow> units k p;
              k \<leftarrow> SpdStorageUnitGlobalDereference p k;
              Some (False, Some (Guid (StorageUnitParams u), OwnerProcessId u), k)
            }
          }
        | IRP_MN_OTHER _ \<Rightarrow> Some (False, None, k));
     let (Result, k) = port k;
     k \<leftarrow> (case (Minor, Provision) of
          (IRP_MN_REMOVE_DEVICE, Some (ProvisionGuid, ProvisionPid)) \<Rightarrow>
            if ProvisionPid \<noteq> - 1 then
              (case SpdDeviceExtensionAcquire k of (g, k) \<Rightarrow>
                 if g = 0 then Some k
                 else do {
                   (_, k) \<leftarrow> SpdStorageUnitUnprovision (Some ProvisionGuid) 0 ProvisionPid k;
                   Some (SpdDeviceExtensionRelease k)
                 })
            else Some k
        | _ \<Rightarrow> Some k);
     Some (caps, Result, k)
   }"

section \<open>Start-up\<close>

text \<open>
  \<open>registry\<close> is the value \<open>StorageUnitCapacity\<close> when it can be read and is a \<open>REG_DWORD\<close>. A
  value out of bounds leaves the default.
\<close>

definition driver_capacity :: "u32 option \<Rightarrow> u32 \<Rightarrow> u32" where
  "driver_capacity registry Default =
     (case registry of
        Some Value \<Rightarrow> if SPD_IOCTL_STORAGE_UNIT_CAPACITY \<le> Value \<and>
                         Value \<le> SPD_IOCTL_STORAGE_UNIT_MAX_CAPACITY
                      then Value else Default
      | None \<Rightarrow> Default)"

text \<open>The device extension has a table of as many units as the capacity, all null at first.\<close>

definition new_device_extension :: "u32 \<Rightarrow> SPD_DEVICE_EXTENSION" where
  "new_device_extension capacity =
     \<lparr>AdapterDeviceObject = 0, StorageUnitCount = 0, StorageUnitCapacity = 0,
      StorageUnits = replicate (unat capacity) 0\<rparr>"

text \<open>
  \<open>DriverEntry\<close>: the state after StorPort has accepted the driver, or its error. The handler for
  plug and play is hooked if StorPort has one.
\<close>

definition DriverEntry :: "u32 option \<Rightarrow> NTSTATUS \<Rightarrow> bool \<Rightarrow> kmem \<Rightarrow> NTSTATUS \<times> (kernel \<times> bool) option" where
  "DriverEntry registry StorPortInitialize has_pnp m =
     (let capacity = driver_capacity registry SPD_IOCTL_STORAGE_UNIT_CAPACITY
      in if \<not> NT_SUCCESS StorPortInitialize then (StorPortInitialize, None)
         else (StorPortInitialize,
           Some (\<lparr>mem = m, units = Map.empty, de = new_device_extension capacity, bus_changes = 0,
                  SpdGlobalDeviceExtension = 0, SpdStorageUnitCapacity = capacity,
                  notify_registered = False, resource_shared = 0\<rparr>, has_pnp)))"

end
