(* ===== verification/Driver_Props.thy ===== *)
theory Driver_Props
  imports Transfers Dispatch
begin

text \<open>
  The properties of the driver's entry points: start-up, the requests of StorPort and the control
  requests of user mode.
\<close>

section \<open>Start-up\<close>

text \<open>Start-up establishes the invariant of the table. After \<open>DriverEntry\<close> and the discovery of the
  adapter, whatever the registry says, the capacity is between 16 and 64, the table has that many empty
  slots, and the state is an initial state of the units.\<close>

lemma startup_reaches_initial_state:
  assumes "DriverEntry registry port pnp m = (st, Some (k, hooked))"
    and "SpdHwFindAdapter p bus registered cfg k = (True, cfg', k')"
  shows "unit_reachable ((\<lambda>_. 0), k') \<and> StorageUnits (de k') = replicate (unat (StorageUnitCapacity (de k'))) 0 \<and>
    16 \<le> StorageUnitCapacity (de k') \<and> StorageUnitCapacity (de k') \<le> 64"
proof -
  define c where "c = driver_capacity registry SPD_IOCTL_STORAGE_UNIT_CAPACITY"
  have c: "16 \<le> c" "c \<le> 64" by (auto simp: c_def driver_capacity_def split: option.splits)
  have k: "k = \<lparr>mem = m, units = Map.empty, de = new_device_extension c, bus_changes = 0,
      SpdGlobalDeviceExtension = 0, SpdStorageUnitCapacity = c, notify_registered = False, resource_shared = 0\<rparr>"
    using assms(1) by (auto simp: DriverEntry_def Let_def c_def split: if_splits)
  have k': "k' = (upd_de (\<lambda>d. d\<lparr>AdapterDeviceObject := bus, StorageUnitCapacity := c\<rparr>) k)
      \<lparr>SpdGlobalDeviceExtension := p, notify_registered := True\<rparr>"
    using assms(2) by (auto simp: SpdHwFindAdapter_def SpdDeviceExtensionInit_def k split: if_splits)
  have "unit_reachable ((\<lambda>_. 0), k')"
    by (rule unit_reachable.init)
       (use c(2) in \<open>simp_all add: k' k upd_de_def new_device_extension_def word_le_nat_alt\<close>)
  then show ?thesis using c by (simp add: k' k upd_de_def new_device_extension_def)
qed

definition demo_config :: PORT_CONFIGURATION_INFORMATION where
  "demo_config = \<lparr>MaximumTransferLength = 0, NumberOfPhysicalBreaks = 0, AlignmentMask = 0, NumberOfBuses = 0,
     ScatterGather = False, Master = False, CachesData = False, MaximumNumberOfTargets = 0,
     MaximumNumberOfLogicalUnits = 0, WmiDataProvider = False, FullDuplex = False, VirtualDevice = False\<rparr>"

theorem startup_reaches_initial_state_witness:
  "\<exists>k hooked cfg k'. DriverEntry (Some 1000) STATUS_SUCCESS True demo_mem = (STATUS_SUCCESS, Some (k, hooked)) \<and>
    SpdHwFindAdapter 9 0 STATUS_SUCCESS demo_config k = (True, cfg, k') \<and> unit_reachable ((\<lambda>_. 0), k') \<and>
    StorageUnitCapacity (de k') \<le> 64"
proof -
  obtain k hooked where k: "DriverEntry (Some 1000) STATUS_SUCCESS True demo_mem = (STATUS_SUCCESS, Some (k, hooked))"
    by (simp add: DriverEntry_def Let_def)
  then have "SpdGlobalDeviceExtension k = 0" by (auto simp: DriverEntry_def Let_def)
  then obtain cfg k' where f: "SpdHwFindAdapter 9 0 STATUS_SUCCESS demo_config k = (True, cfg, k')"
    by (simp add: SpdHwFindAdapter_def SpdDeviceExtensionInit_def)
  from startup_reaches_initial_state [OF k f] k f show ?thesis by blast
qed

section \<open>Requests that are completed at once or queued\<close>

text \<open>The pending requests of the unit at an address.\<close>

definition pending_of :: "kernel \<Rightarrow> ptr \<Rightarrow> ptr list option" where
  "pending_of k p = do { u \<leftarrow> units k p; q \<leftarrow> UnitIoq u; Some (PendingList q) }"

text \<open>
  What the routines of a command may do to notifications and queues: send no notification, and either
  return a final status and leave the queues alone, or return pending with the request appended to one
  queue.
\<close>

definition queues_or_answers :: "ptr \<Rightarrow> kernel \<Rightarrow> u8 \<Rightarrow> kernel \<Rightarrow> bool" where
  "queues_or_answers srb k st k' \<longleftrightarrow>
     notifications (mem k') = notifications (mem k) \<and>
     (\<forall>x. map_option RefCount (units k' x) = map_option RefCount (units k x)) \<and>
     ((SRB_STATUS st \<noteq> SRB_STATUS_PENDING \<and> (\<forall>x. pending_of k' x = pending_of k x)) \<or>
      (SRB_STATUS st = SRB_STATUS_PENDING \<and>
       (\<exists>p l. pending_of k p = Some l \<and>
          pending_of k' = (pending_of k)(p := Some (l @ [SrbExtension (srbs (mem k) srb)])))))"

definition qa_result :: "ptr \<Rightarrow> kernel \<Rightarrow> (u8 \<times> kernel) option \<Rightarrow> bool" where
  "qa_result srb k r \<longleftrightarrow> (\<forall>st k'. r = Some (st, k') \<longrightarrow> queues_or_answers srb k st k')"

named_theorems qa_intros "introduction rules of results that queue or answer"

lemma qa_if [qa_intros]:
  "(c \<Longrightarrow> qa_result srb k a) \<Longrightarrow> (\<not> c \<Longrightarrow> qa_result srb k b) \<Longrightarrow> qa_result srb k (if c then a else b)"
  by simp

lemma qa_bind [qa_intros]:
  "(\<And>x. a = Some x \<Longrightarrow> qa_result srb k (f x)) \<Longrightarrow> qa_result srb k (a \<bind> f)"
  by (cases a) (simp_all add: qa_result_def)

lemma qa_prod [qa_intros]:
  "(\<And>a b. x = (a, b) \<Longrightarrow> qa_result srb k (f a b)) \<Longrightarrow> qa_result srb k (case x of (a, b) \<Rightarrow> f a b)"
  by (cases x) simp

lemma qa_final: "SRB_STATUS st \<noteq> SRB_STATUS_PENDING \<Longrightarrow> qa_result srb k (Some (st, k))"
  by (simp add: qa_result_def queues_or_answers_def)

lemma pending_of_mem [simp]: "pending_of (k\<lparr>mem := m\<rparr>) = pending_of k"
  by (simp add: pending_of_def fun_eq_iff)

lemma qa_ret:
  "SRB_STATUS (fst r) \<noteq> SRB_STATUS_PENDING \<Longrightarrow> notifications (snd r) = notifications (mem k) \<Longrightarrow>
   qa_result srb k (ret_mem k r)"
  by (simp add: qa_result_def ret_mem_def queues_or_answers_def)

lemma final_status [simp]:
  "SRB_STATUS SRB_STATUS_SUCCESS \<noteq> 0" "SRB_STATUS SRB_STATUS_ABORTED \<noteq> 0" "SRB_STATUS SRB_STATUS_ERROR \<noteq> 0"
  "SRB_STATUS SRB_STATUS_INVALID_REQUEST \<noteq> 0" "SRB_STATUS SRB_STATUS_NO_DEVICE \<noteq> 0"
  "SRB_STATUS SRB_STATUS_DATA_OVERRUN \<noteq> 0" "SRB_STATUS SRB_STATUS_INTERNAL_ERROR \<noteq> 0"
  "SRB_STATUS (SRB_STATUS_ERROR OR SRB_STATUS_AUTOSENSE_VALID) \<noteq> 0" "SRB_STATUS 0 = 0"
  by (simp_all add: SRB_STATUS_def)

lemma error_final:
  "SRB_STATUS (fst (SpdScsiError srb K A m)) \<noteq> SRB_STATUS_PENDING"
  "notifications (snd (SpdScsiError srb K A m)) = notifications m"
  by (auto simp: SpdScsiError_def SpdScsiErrorEx_def Let_def srb_set_defs mem_upd_defs SRB_STATUS_def)

lemma reply_final:
  "SRB_STATUS (fst (reply srb n f m)) \<noteq> SRB_STATUS_PENDING" "notifications (snd (reply srb n f m)) = notifications m"
  by (auto simp: reply_def srb_set_defs mem_upd_defs)

lemma zero_notifications [simp]: "notifications (zero_data_buffer srb m) = notifications m"
  by (simp add: zero_data_buffer_def mem_upd_defs)

lemma answers_final:
  "SRB_STATUS (fst (SpdScsiReportLuns b srb m)) \<noteq> SRB_STATUS_PENDING"
  "notifications (snd (SpdScsiReportLuns b srb m)) = notifications m"
  "SRB_STATUS (fst (SpdScsiModeSense u srb c m)) \<noteq> SRB_STATUS_PENDING"
  "notifications (snd (SpdScsiModeSense u srb c m)) = notifications m"
  "SRB_STATUS (fst (SpdScsiReadCapacity u srb c m)) \<noteq> SRB_STATUS_PENDING"
  "notifications (snd (SpdScsiReadCapacity u srb c m)) = notifications m"
  by (simp_all add: SpdScsiReportLuns_def SpdScsiModeSense_def SpdScsiReadCapacity_def Let_def reply_final error_final)

lemma Inquiry_final:
  "SpdScsiInquiry u srb c m = Some r \<Longrightarrow> SRB_STATUS (fst r) \<noteq> SRB_STATUS_PENDING \<and> notifications (snd r) = notifications m"
  by (auto simp: SpdScsiInquiry_def Let_def reply_final error_final split: if_splits)

lemma PostSrb_qa:
  "qa_result srb k (SpdScsiPostSrb sysaddr p srb n k)"
  unfolding qa_result_def
proof (intro allI impI)
  fix st k'
  assume r: "SpdScsiPostSrb sysaddr p srb n k = Some (st, k')"
  define e where "e = SrbExtension (srbs (mem k) srb)"
  show "queues_or_answers srb k st k'"
  proof (cases "n \<noteq> 0 \<and> fst sysaddr \<noteq> STOR_STATUS_SUCCESS")
    case True
    with r show ?thesis
      by (auto simp: SpdScsiPostSrb_def Let_def queues_or_answers_def srb_set_defs mem_upd_defs)
  next
    case False
    then obtain u q where u: "units k p = Some u" "UnitIoq u = Some q"
      using r by (auto simp: SpdScsiPostSrb_def Let_def bind_eq_Some_conv split: if_splits)
    have l: "pending_of k p = Some (PendingList q)" by (simp add: pending_of_def u)
    show ?thesis
    proof (cases "Stopped q")
      case True
      with r False u have st: "st = SRB_STATUS_ABORTED"
        and k': "pending_of k' = pending_of k" "notifications (mem k') = notifications (mem k)"
          "map_option RefCount (units k' x) = map_option RefCount (units k x)" for x
        by (auto simp: SpdScsiPostSrb_def Let_def SpdIoqPostSrb_def mem_upd_defs set_unit_def pending_of_def
            fun_eq_iff)
      then show ?thesis by (simp add: queues_or_answers_def)
    next
      case run: False
      with r False u have st: "st = SRB_STATUS_PENDING"
        and k': "pending_of k' = (pending_of k)(p := Some (PendingList q @ [e]))"
          "notifications (mem k') = notifications (mem k)"
          "map_option RefCount (units k' x) = map_option RefCount (units k x)" for x
        by (auto simp: SpdScsiPostSrb_def Let_def SpdIoqPostSrb_def mem_upd_defs set_unit_def pending_of_def
            fun_eq_iff SpdQeventSetNoLock_def srb_get_defs e_def)
      then show ?thesis using l unfolding queues_or_answers_def e_def
        by (intro conjI disjI2 exI [of _ p] exI [of _ "PendingList q"]) simp_all
    qed
  qed
qed

lemma PostRange_qa: "qa_result srb k (SpdScsiPostRangeSrb sysaddr p u srb c k)"
  unfolding SpdScsiPostRangeSrb_def Let_def
  by (intro qa_intros qa_ret qa_final PostSrb_qa error_final final_status)

lemma PostUnmap_qa: "qa_result srb k (SpdScsiPostUnmapSrb sysaddr p u srb c k)"
  unfolding SpdScsiPostUnmapSrb_def Let_def
  by (intro qa_intros qa_ret qa_final PostSrb_qa error_final final_status)

lemma Inquiry_qa: "qa_result srb k (do { r \<leftarrow> SpdScsiInquiry u srb c (mem k); ret_mem k r })"
  by (intro qa_bind qa_ret) (simp_all add: Inquiry_final)

lemma qa_command:
  "qa_result srb k
    (if op = SCSIOP_REPORT_LUNS then ret_mem k (SpdScsiReportLuns True srb (mem k))
     else if op = SCSIOP_TEST_UNIT_READY then Some (SRB_STATUS_SUCCESS, k)
     else if op = SCSIOP_INQUIRY
     then do { r \<leftarrow> SpdScsiInquiry u srb c (mem k); ret_mem k r }
     else if op = SCSIOP_MODE_SENSE \<or> op = SCSIOP_MODE_SENSE10
     then ret_mem k (SpdScsiModeSense u srb c (mem k))
     else if op = SCSIOP_READ_CAPACITY
     then ret_mem k (SpdScsiReadCapacity u srb c (mem k))
     else if is_read op \<or> is_write op \<or> is_flush op
     then SpdScsiPostRangeSrb sa p u srb c k
     else if op = SCSIOP_UNMAP then SpdScsiPostUnmapSrb sa p u srb c k
     else if op = SCSIOP_SERVICE_ACTION_IN16 \<and> c ! 1 AND 0x1f = SERVICE_ACTION_READ_CAPACITY16
     then ret_mem k (SpdScsiReadCapacity u srb c (mem k))
     else Some (SRB_STATUS_INVALID_REQUEST, k))"
  by (intro qa_if PostRange_qa PostUnmap_qa Inquiry_qa qa_ret qa_final answers_final final_status)

lemma dereference_keeps:
  assumes "units k p = Some u" and "RefCount u \<noteq> 1" and "SpdStorageUnitDereference p k = Some k'"
  shows "mem k' = mem k \<and> pending_of k' = pending_of k"
proof -
  have "RefCount u - 1 \<noteq> 0" using assms(2) by simp
  with assms show ?thesis
    by (auto simp: SpdStorageUnitDereference_def Let_def set_unit_def pending_of_def fun_eq_iff split: if_splits)
qed

lemma reference_keeps:
  assumes inv: "units_inv refs k" and r: "SpdStorageUnitReference srb k = Some (p, k1)"
  shows "mem k1 = mem k \<and> pending_of k1 = pending_of k \<and>
    (p \<noteq> 0 \<longrightarrow> (\<forall>u. units k1 p = Some u \<longrightarrow> RefCount u \<noteq> 1))"
proof -
  obtain btl where at: "add_ref (unit_at btl k) k = Some (p, k1)"
    using r by (auto simp: SpdStorageUnitReference_def ReferenceByBtl_add_ref split: prod.splits)
  show ?thesis
  proof (cases "unit_at btl k = 0")
    case True
    with at show ?thesis by simp
  next
    case False
    note live = unit_at_live [OF inv False]
    from at False obtain u where u: "p = unit_at btl k" "units k p = Some u"
      "k1 = set_unit p (u\<lparr>RefCount := RefCount u + 1\<rparr>) k"
      by (auto simp: add_ref_def bind_eq_Some_conv)
    have "counted True (refs p) u" using inv u live counts_okD [of refs k p u] by (simp add: units_inv_def)
    then have "RefCount u \<noteq> 0" by (auto simp: counted_def)
    then have "RefCount u + 1 \<noteq> 1" by simp
    with u show ?thesis by (simp add: set_unit_def pending_of_def fun_eq_iff)
  qed
qed

lemma qa_on_unit:
  assumes inv: "units_inv refs k" and ref: "SpdStorageUnitReference srb k = Some (p, k1)"
    and X: "\<And>u. qa_result srb k1 (X u)"
    and r: "(if p = 0
      then if op = SCSIOP_REPORT_LUNS then ret_mem k1 (SpdScsiReportLuns False srb (mem k1))
           else Some (SRB_STATUS_NO_DEVICE, k1)
      else do { u \<leftarrow> units k1 p; (st, k2) \<leftarrow> X u; k3 \<leftarrow> SpdStorageUnitDereference p k2; Some (st, k3) }) =
      Some (st, k')"
  shows "notifications (mem k') = notifications (mem k) \<and>
    ((SRB_STATUS st \<noteq> SRB_STATUS_PENDING \<and> pending_of k' = pending_of k) \<or>
     (SRB_STATUS st = SRB_STATUS_PENDING \<and>
      (\<exists>p l. pending_of k p = Some l \<and>
          pending_of k' = (pending_of k)(p := Some (l @ [SrbExtension (srbs (mem k) srb)])))))"
proof -
  note k1 = reference_keeps [OF inv ref]
  show ?thesis
  proof (cases "p = 0")
    case True
    with r k1 show ?thesis by (auto simp: ret_mem_def answers_final split: if_splits)
  next
    case False
    with r obtain u where u: "units k1 p = Some u" by (auto simp: bind_eq_Some_conv)
    then have rc: "RefCount u \<noteq> 1" using k1 False by blast
    from r False u obtain k2 where x: "X u = Some (st, k2)" and d: "SpdStorageUnitDereference p k2 = Some k'"
      by (auto simp: bind_eq_Some_conv)
    have qa: "queues_or_answers srb k1 st k2" using X [of u] x by (simp add: qa_result_def)
    have "map_option RefCount (units k2 p) = Some (RefCount u)"
      using qa u by (simp add: queues_or_answers_def)
    then obtain u2 where "units k2 p = Some u2" "RefCount u2 \<noteq> 1" using rc by auto
    note dk = dereference_keeps [OF this d]
    from qa consider "SRB_STATUS st \<noteq> SRB_STATUS_PENDING" "pending_of k2 = pending_of k1"
      | p l where "SRB_STATUS st = SRB_STATUS_PENDING" "pending_of k1 p = Some l"
        "pending_of k2 = (pending_of k1)(p := Some (l @ [SrbExtension (srbs (mem k1) srb)]))"
      by (auto simp: queues_or_answers_def fun_eq_iff)
    then show ?thesis
      using qa k1 dk by cases (auto simp: queues_or_answers_def)
  qed
qed

lemma ExecuteScsi_cases:
  assumes inv: "units_inv refs k" and r: "SpdSrbExecuteScsi sysaddr srb k = Some (st, k')"
  shows "notifications (mem k') = notifications (mem k) \<and>
    ((SRB_STATUS st \<noteq> SRB_STATUS_PENDING \<and> pending_of k' = pending_of k) \<or>
     (SRB_STATUS st = SRB_STATUS_PENDING \<and>
      (\<exists>p l. pending_of k p = Some l \<and>
          pending_of k' = (pending_of k)(p := Some (l @ [SrbExtension (srbs (mem k) srb)])))))"
proof -
  obtain p k1 where ref: "SpdStorageUnitReference srb k = Some (p, k1)"
    using r by (auto simp: SpdSrbExecuteScsi_def Let_def bind_eq_Some_conv)
  show ?thesis
    by (rule qa_on_unit [OF inv ref, rotated])
       (rule r [unfolded SpdSrbExecuteScsi_def Let_def ref bind.bind_lunit prod.case], rule qa_command)
qed

text \<open>C12: A SCSI request is completed exactly once at once, or it is queued. When StorPort starts a
  request for a SCSI command, then afterwards either the request has been notified as complete, and no
  queue has changed, or it has not been notified, and its extension is the last pending entry of the
  queue of one unit, whose other requests and the other queues are as before.\<close>

theorem scsi_request_completed_or_queued:
  assumes "units_inv refs k" and "SrbGetSrbFunction (mem k) srb = SRB_FUNCTION_EXECUTE_SCSI"
    and "SpdHwStartIo sysaddr srb k = Some (b, k')"
  shows "(map fst (notifications (mem k')) = map fst (notifications (mem k)) @ [srb] \<and>
      pending_of k' = pending_of k) \<or>
    (notifications (mem k') = notifications (mem k) \<and>
      (\<exists>p l. pending_of k p = Some l \<and>
        pending_of k' = (pending_of k)(p := Some (l @ [SrbExtension (srbs (mem k) srb)]))))"
proof -
  from assms(2,3) obtain st k1 where e: "SpdSrbExecuteScsi sysaddr srb k = Some (st, k1)"
    and k': "k' = k1\<lparr>mem := start_io_finish srb st (mem k1)\<rparr>"
    by (auto simp: SpdHwStartIo_def start_io_dispatch_def Let_def bind_eq_Some_conv)
  from ExecuteScsi_cases [OF assms(1) e] show ?thesis
    by (auto simp: k' start_io_finish_def Let_def SrbSetSystemStatus_def upd_srb_def)
qed

lemma inquiry_inv: "units_inv (\<lambda>_. 0) inquiry_kernel"
  unfolding inquiry_kernel_def by (subst units_inv_frame [where k = demo_kernel]) (simp_all add: demo_inv)

theorem scsi_request_completed_or_queued_witness:
  "\<exists>k'. SpdHwStartIo (STOR_STATUS_SUCCESS, 0) 1 inquiry_kernel = Some (True, k') \<and>
     (map fst (notifications (mem k')) = [1] \<or> notifications (mem k') = [])"
proof -
  obtain k1 where "SpdSrbExecuteScsi (STOR_STATUS_SUCCESS, 0) 1 inquiry_kernel = Some (SRB_STATUS_SUCCESS, k1)"
    using inquiry_run by blast
  moreover have f: "SrbGetSrbFunction (mem inquiry_kernel) 1 = SRB_FUNCTION_EXECUTE_SCSI"
    "notifications (mem inquiry_kernel) = []"
    by (simp_all add: inquiry_kernel_fields inquiry_mem_def inquiry_srb_def srb_get_defs)
  ultimately obtain k' where k': "SpdHwStartIo (STOR_STATUS_SUCCESS, 0) 1 inquiry_kernel = Some (True, k')"
    by (simp add: SpdHwStartIo_def start_io_dispatch_def)
  from scsi_request_completed_or_queued [OF inquiry_inv f(1) k'] k' show ?thesis by (auto simp: f(2))
qed



section \<open>Control requests\<close>

lemma provision_params_transfer:
  assumes "provision_params_ok p"
  shows "transfer_params p"
proof -
  from assms have p: "16 \<le> BlockLength p" "MaxTransferLength p \<noteq> 0" "MaxTransferLength p mod BlockLength p = 0"
    unfolding provision_params_ok_def by (simp_all add: not_less)
  then have "unat (MaxTransferLength p) mod unat (BlockLength p) = 0" by (metis unat_0 unat_mod)
  moreover have "16 \<le> unat (BlockLength p)" using p(1) by (simp add: word_le_nat_alt)
  moreover have "0 < unat (MaxTransferLength p)" using p(2) by (simp add: unat_gt_0)
  ultimately show ?thesis by (simp add: transfer_params_def dvd_eq_mod_eq_0)
qed

text \<open>A provision request is checked before anything is created. Whatever the caller passes, a unit is
  created only with buffers of the full size and for parameters with a GUID, blocks of at least 16
  octets, at least one of them, the type of a disk, and a maximal transfer of a whole number of blocks;
  these are the parameters for which transfers are shown to be correct. Any other request is refused
  and the kernel stays as it is.\<close>

lemma provision_request_checked:
  assumes "SpdIoctlProvision pool ioq Params irp k = Some (irp', k')" and "k' \<noteq> k \<or> IoStatus irp' = STATUS_SUCCESS"
  shows "sizeof_PROVISION_PARAMS \<le> InputBufferLength irp \<and> sizeof_PROVISION_PARAMS \<le> OutputBufferLength irp \<and>
    transfer_params (Par_StorageUnitParams Params) \<and> Guid (Par_StorageUnitParams Params) \<noteq> NullGuid \<and>
    16 \<le> BlockLength (Par_StorageUnitParams Params) \<and> 0 < BlockCount (Par_StorageUnitParams Params) \<and>
    DeviceType (Par_StorageUnitParams Params) = 0"
proof -
  let ?p = "Par_StorageUnitParams Params"
  have len: "\<not> (InputBufferLength irp < sizeof_PROVISION_PARAMS \<or> OutputBufferLength irp < sizeof_PROVISION_PARAMS)"
    and ok: "provision_params_ok ?p"
    using assms by (auto simp: SpdIoctlProvision_def set_status_def split: if_splits)
  from ok have p: "Guid ?p \<noteq> NullGuid" "0 < BlockCount ?p" "16 \<le> BlockLength ?p" "DeviceType ?p = 0"
    "MaxTransferLength ?p \<noteq> 0" "MaxTransferLength ?p mod BlockLength ?p = 0"
    unfolding provision_params_ok_def by (simp_all add: not_less word_gt_0)
  with p len provision_params_transfer [OF ok] show ?thesis by auto
qed

definition demo_irp :: IRP where
  "demo_irp = \<lparr>InputBufferLength = 4096, OutputBufferLength = 4096, SystemBuffer = None, RequestorProcessId = 9,
     RequestorUserMode = True, UserData = [], IoStatus = STATUS_SUCCESS, IoInformation = 0\<rparr>"

definition demo_sysbuffer :: sysbuffer where
  "demo_sysbuffer = \<lparr>Base_Size = 136, Base_Code = SPD_IOCTL_PROVISION, Par_StorageUnitParams = demo_params,
     Par_Guid = NullGuid, Par_Btl = 0, Par_ProcessId = 0, ReqValid = True, RspValid = False, DataPtr = 0x1000,
     Dir_Req = zero_req, Dir_Rsp = zero_rsp, Ret_Btl = 0, Out_List = []\<rparr>"

lemma provision_request_checked_witness:
  "\<exists>irp' k'. SpdIoctlProvision 1 (SpdIoqCreate 4080 True) demo_sysbuffer demo_irp empty_kernel = Some (irp', k') \<and>
     IoStatus irp' = STATUS_SUCCESS \<and> transfer_params demo_params"
proof -
  have ok: "provision_params_ok demo_params"
    by (simp add: provision_params_ok_def demo_params_def demo_guid_def NullGuid_def)
  have "\<exists>btl k'. SpdStorageUnitProvision 1 (SpdIoqCreate 4080 True) demo_params 9 empty_kernel =
      Some (STATUS_SUCCESS, btl, k')"
    unfolding demo_create_ioq
    by (subst provision_cases [OF empty_inv]) (simp_all add: empty_kernel_def live_def fresh_ioq_def demo_ioq_def)
  then obtain irp' k' where r: "SpdIoctlProvision 1 (SpdIoqCreate 4080 True) demo_sysbuffer demo_irp empty_kernel =
      Some (irp', k')" "IoStatus irp' = STATUS_SUCCESS"
    using ok by (auto simp: SpdIoctlProvision_def demo_sysbuffer_def demo_irp_def sizeof_PROVISION_PARAMS_def
        set_result_def)
  from provision_request_checked [OF r(1)] r show ?thesis by (auto simp: demo_sysbuffer_def)
qed

text \<open>A process that does not transact for a unit gets nothing from it and changes nothing. A transact
  request for a unit from another process than the one that the unit is set to is denied, without a
  look at its response, and the kernel is exactly as before.\<close>

lemma transact_denied_to_others:
  assumes "units_inv refs k" and "unit_at (Par_Btl Params) k = p" and "p \<noteq> 0"
    and "units k p = Some u" and "RequestorProcessId irp \<noteq> TransactProcessId u"
    and "sizeof_TRANSACT_PARAMS \<le> InputBufferLength irp" and "sizeof_TRANSACT_PARAMS \<le> OutputBufferLength irp"
    and "ReqValid Params \<or> RspValid Params" and "ReqValid Params \<longrightarrow> DataPtr Params \<noteq> 0"
  shows "SpdIoctlTransact lock rounds Params irp k = Some (set_status STATUS_ACCESS_DENIED irp, k)"
proof -
  define u1 where "u1 = u\<lparr>RefCount := RefCount u + 1\<rparr>"
  have ref: "SpdStorageUnitReferenceByBtl (Par_Btl Params) k = Some (p, set_unit p u1 k)"
    using assms(2-4) by (simp add: ReferenceByBtl_add_ref add_ref_def u1_def)
  have body: "transact_body lock rounds p Params irp (set_unit p u1 k) =
      Some (set_status STATUS_ACCESS_DENIED irp, set_unit p u1 k)"
    using assms(5) by (simp add: transact_body_def set_unit_def u1_def)
  have "counted (p \<in> set (live k)) (refs p) u"
    using assms(1) counts_okD [of refs k p u] assms(4) by (simp add: units_inv_def)
  then have "RefCount u \<noteq> 0" by (auto simp: counted_def split: if_splits)
  moreover have "(units k)(p \<mapsto> u) = units k" using assms(4) by auto
  ultimately have "SpdStorageUnitDereference p (set_unit p u1 k) = Some k"
    by (simp add: SpdStorageUnitDereference_def set_unit_def u1_def)
  with ref body show ?thesis using assms(3,6-9) by (auto simp: SpdIoctlTransact_def)
qed

theorem transact_denied_to_others_witness:
  "\<exists>irp'. SpdIoctlTransact Locked [] demo_sysbuffer demo_irp inquiry_kernel = Some (irp', inquiry_kernel) \<and>
     IoStatus irp' = STATUS_ACCESS_DENIED"
proof -
  have "unit_at (Par_Btl demo_sysbuffer) inquiry_kernel = 1" "units inquiry_kernel 1 = Some demo_unit"
    by (simp_all add: demo_sysbuffer_def inquiry_kernel_fields)
  from transact_denied_to_others [OF inquiry_inv this(1) _ this(2), of demo_irp Locked "[]"] show ?thesis
    by (auto simp: demo_irp_def demo_unit_def init_unit_def sizeof_TRANSACT_PARAMS_def demo_sysbuffer_def
        set_status_def)
qed

section \<open>The list of units\<close>

abbreviation btl_of :: "nat \<Rightarrow> u32" where
  "btl_of i \<equiv> SPD_BTL_FROM_INDEX (word_of_nat i)"

lemma list_loop_spec:
  assumes "n + i = 256" and "unat C = length (filter (bitmap_bit B) [i..<256])" and "4 * length acc \<le> unat room"
    and "l = acc @ map btl_of (filter (bitmap_bit B) [i..<256])"
  shows "list_loop n (word_of_nat i) B C room acc = (if 4 * length l \<le> unat room then Some l else None)"
  using assms
proof (induction n arbitrary: i C acc)
  case 0
  then show ?case by simp
next
  case (Suc n)
  have i: "i < 256" using Suc.prems(1) by simp
  note bw = bitmap_word [OF i]
  have ni: "word_of_nat i + (1 :: u32) = word_of_nat (Suc i)" by simp
  have test: "B ! unat (drop_bit 3 (word_of_nat i :: u32)) AND push_bit (unat ((word_of_nat i :: u32) AND 7)) 1 \<noteq> 0 \<longleftrightarrow>
      bitmap_bit B i"
    by (simp add: bw bitmap_bit_def and_exp_eq_0_iff_not_bit)
  have up: "[i..<256] = i # [Suc i..<256]" using i by (simp add: upt_conv_Cons)
  show ?case
  proof (cases "0 < C")
    case False
    then have "C = 0" using word_neq_0_conv by blast
    then have "length (filter (bitmap_bit B) [i..<256]) = 0" using Suc.prems(2) by (simp del: length_0_conv)
    then have "filter (bitmap_bit B) [i..<256] = []" by (simp only: length_0_conv)
    with False Suc.prems(3,4) show ?thesis by simp
  next
    case C: True
    show ?thesis
    proof (cases "bitmap_bit B i")
      case bit: True
      have "unat C = Suc (length (filter (bitmap_bit B) [Suc i..<256]))" using Suc.prems(2) bit by (simp add: up)
      then have C1: "unat (C - 1) = length (filter (bitmap_bit B) [Suc i..<256])"
        by (simp add: unat_sub_if' word_le_nat_alt)
      have l: "l = (acc @ [btl_of i]) @ map btl_of (filter (bitmap_bit B) [Suc i..<256])"
        using Suc.prems(4) bit by (simp add: up)
      show ?thesis
      proof (cases "unat room < 4 * (length acc + 1)")
        case True
        then have "\<not> 4 * length l \<le> unat room" by (simp add: l)
        with True C bit show ?thesis unfolding list_loop.simps test by (simp only: if_True if_False)
      next
        case False
        then have "4 * length (acc @ [btl_of i]) \<le> unat room" by simp
        from Suc.IH [OF _ C1 this l] False C bit Suc.prems(1) show ?thesis
          unfolding list_loop.simps test ni by (simp only: if_True if_False add_Suc add_Suc_right)
      qed
    next
      case False
      then have "unat C = length (filter (bitmap_bit B) [Suc i..<256])"
        and "l = acc @ map btl_of (filter (bitmap_bit B) [Suc i..<256])"
        using Suc.prems(2,4) by (simp_all add: up)
      from Suc.IH [OF _ this(1) Suc.prems(3) this(2)] C False Suc.prems(1) show ?thesis
        unfolding list_loop.simps test ni by (simp only: if_True if_False add_Suc add_Suc_right)
    qed
  qed
qed

lemma length_live: "length (live k) = length (filter (\<lambda>i. slots k ! i \<noteq> 0) [0..<length (slots k)])"
proof -
  have "filter (\<lambda>p. p \<noteq> 0) (slots k) = filter (\<lambda>p. p \<noteq> 0) (map ((!) (slots k)) [0..<length (slots k)])"
    by (simp add: map_nth)
  then show ?thesis unfolding live_def by (simp add: filter_map comp_def)
qed

text \<open>The list request returns the addresses of all units and of nothing else. In the order of
  the slots it has the address of every slot that holds a unit, if the output buffer has room for four
  octets each; with less room it fails and says so. The kernel does not change.\<close>

lemma list_returns_all_units:
  assumes "units_inv refs k" and "sizeof_LIST_PARAMS \<le> InputBufferLength irp"
  shows "SpdIoctlGetList Params irp k = Some
    (let btls = map btl_of (filter (\<lambda>i. slots k ! i \<noteq> 0) [0..<length (slots k)])
     in if 4 * length btls \<le> unat (OutputBufferLength irp)
        then set_result STATUS_SUCCESS (4 * length btls) (irp\<lparr>SystemBuffer := Some (Params\<lparr>Out_List := btls\<rparr>)\<rparr>)
        else set_status STATUS_BUFFER_TOO_SMALL irp, k)"
proof -
  obtain C B where b: "SpdStorageUnitGetUseBitmap None k = Some (C, B)"
    "unat C = length (filter (in_use k None) (live k))"
    "\<And>i. i < 256 \<Longrightarrow> bitmap_bit B i \<longleftrightarrow> i < length (slots k) \<and> in_use k None (slots k ! i)"
    by (rule use_bitmap [OF assms(1), of None]) blast
  have len: "length (slots k) \<le> 256" using assms(1) by (simp add: units_inv_def table_ok_def)
  have "[0..<256] = [0..<length (slots k)] @ [length (slots k)..<256]"
    using upt_add_eq_append [of 0 "length (slots k)" "256 - length (slots k)"] len by simp
  moreover have "filter (bitmap_bit B) [length (slots k)..<256] = []"
    unfolding filter_empty_conv using b(3) by auto
  moreover have "filter (bitmap_bit B) [0..<length (slots k)] = filter (\<lambda>i. slots k ! i \<noteq> 0) [0..<length (slots k)]"
    using b(3) len by (intro filter_cong refl) (simp add: in_use_def)
  ultimately have f: "filter (bitmap_bit B) [0..<256] = filter (\<lambda>i. slots k ! i \<noteq> 0) [0..<length (slots k)]"
    by simp
  have "filter (in_use k None) (live k) = live k" by (simp add: live_def in_use_def)
  then have "unat C = length (filter (bitmap_bit B) [0..<256])" using b(2) f length_live by simp
  from list_loop_spec [of 256 0 C B "[]" "OutputBufferLength irp", OF _ this _ refl] b(1) assms(2) show ?thesis
    by (simp add: SpdIoctlGetList_def f Let_def not_less [symmetric])
qed

lemma list_returns_all_units_witness:
  "\<exists>irp'. SpdIoctlGetList demo_sysbuffer demo_irp demo_kernel = Some (irp', demo_kernel) \<and>
     IoStatus irp' = STATUS_SUCCESS \<and> IoInformation irp' = 4"
  using list_returns_all_units [OF demo_inv, of demo_irp demo_sysbuffer]
  by (simp add: demo_irp_def sizeof_LIST_PARAMS_def set_result_def Let_def upt_rec)

end
