(* ===== verification/User_Props.thy ===== *)
theory User_Props
  imports Dispatcher UserIoctl
begin

text \<open>
  The properties of the DLL: the pipe transport with its table of hints, the dispatcher and the
  inquiry with a timeout.
\<close>

section \<open>The table of hints\<close>

text \<open>
  What a client needs of a table that keeps a value for each key until it is taken. The laws are
  those of a map; \<open>inv\<close> is what the operations maintain.
\<close>

locale take_table =
  fixes inv :: "'t \<Rightarrow> bool"
    and entries :: "'t \<Rightarrow> 'k \<rightharpoonup> 'v"
    and put_entry :: "'k \<Rightarrow> 'v \<Rightarrow> 't \<Rightarrow> bool \<times> 't"
    and take_entry :: "'k \<Rightarrow> 't \<Rightarrow> 'v \<times> 't"
    and absent :: 'v
  assumes put_inv: "inv t \<Longrightarrow> inv (snd (put_entry k v t))"
    and take_inv: "inv t \<Longrightarrow> inv (snd (take_entry k t))"
    and put_ok: "inv t \<Longrightarrow> fst (put_entry k v t) \<longleftrightarrow> entries t k = None"
    and put_entries: "inv t \<Longrightarrow>
      entries (snd (put_entry k v t)) = (if entries t k = None then (entries t)(k \<mapsto> v) else entries t)"
    and take_value: "inv t \<Longrightarrow> fst (take_entry k t) = (case entries t k of Some v \<Rightarrow> v | None \<Rightarrow> absent)"
    and take_entries: "inv t \<Longrightarrow> entries (snd (take_entry k t)) = (entries t)(k := None)"
begin

text \<open>A value that was put is taken exactly once.\<close>

lemma take_after_put:
  assumes "inv t" and "fst (put_entry k v t)"
  shows "fst (take_entry k (snd (put_entry k v t))) = v"
    and "entries (snd (take_entry k (snd (put_entry k v t)))) = entries t"
  using assms by (simp_all add: put_inv put_ok put_entries take_value take_entries fun_upd_idem)

lemma take_twice:
  assumes "inv t"
  shows "fst (take_entry k (snd (take_entry k t))) = absent"
  using assms by (simp add: take_inv take_value take_entries)

lemma put_twice:
  assumes "inv t" and "fst (put_entry k v t)"
  shows "\<not> fst (put_entry k v' (snd (put_entry k v t)))"
  using assms by (simp add: put_inv put_ok put_entries)

lemma put_other:
  assumes "inv t" and "k' \<noteq> k"
  shows "fst (take_entry k' (snd (put_entry k v t))) = fst (take_entry k' t)"
  using assms by (simp add: put_inv put_entries take_value)

text \<open>A bound on the values is kept.\<close>

lemma bounded_put: "inv t \<Longrightarrow> P v \<Longrightarrow> \<forall>x\<in>ran (entries t). P x \<Longrightarrow>
    \<forall>x\<in>ran (entries (snd (put_entry k v t))). P x"
  by (auto simp: put_entries ran_def)

lemma bounded_take: "inv t \<Longrightarrow> \<forall>x\<in>ran (entries t). P x \<Longrightarrow>
    \<forall>x\<in>ran (entries (snd (take_entry k t))). P x"
  by (auto simp: take_entries ran_def)

lemma bounded_taken: "inv t \<Longrightarrow> P absent \<Longrightarrow> \<forall>x\<in>ran (entries t). P x \<Longrightarrow> P (fst (take_entry k t))"
  by (auto simp: take_value ran_def split: option.split)

end

text \<open>The buckets: 61 of them, each hint in its own bucket and only once.\<close>

definition hints_ok :: "STORAGE_UNIT \<Rightarrow> bool" where
  "hints_ok su \<longleftrightarrow> length (su_HashBuckets su) = 61 \<and>
     (\<forall>i<61. distinct (map fst (su_HashBuckets su ! i)) \<and>
        (\<forall>h \<in> set (map fst (su_HashBuckets su ! i)). HashIndex h = i))"

definition hints :: "STORAGE_UNIT \<Rightarrow> u64 \<rightharpoonup> u32" where
  "hints su h = map_of (su_HashBuckets su ! HashIndex h) h"

lemma HashIndex_less [simp]: "HashIndex h < 61"
  by (simp add: HashIndex_def unat_mod)

lemma take_hint_loop:
  "distinct (map fst b) \<Longrightarrow>
   take_hint_loop h b = (case map_of b h of Some v \<Rightarrow> v | None \<Rightarrow> 0, filter (\<lambda>x. fst x \<noteq> h) b)"
proof (induction b)
  case (Cons x b)
  then show ?case
    by (auto simp: image_iff intro!: filter_True [symmetric])
qed simp

lemma TakeHintValue_eq:
  assumes "hints_ok su"
  shows "TakeHintValue h su = (case hints su h of Some v \<Rightarrow> v | None \<Rightarrow> 0,
     su\<lparr>su_HashBuckets := (su_HashBuckets su)
       [HashIndex h := filter (\<lambda>x. fst x \<noteq> h) (su_HashBuckets su ! HashIndex h)]\<rparr>)"
  using assms by (simp add: TakeHintValue_def hints_ok_def take_hint_loop hints_def Let_def)

lemma PutHintValue_eq:
  "PutHintValue True h v su =
     (if hints su h = None
      then (True, su\<lparr>su_HashBuckets := (su_HashBuckets su)[HashIndex h := (h, v) # su_HashBuckets su ! HashIndex h]\<rparr>)
      else (False, su))"
  by (simp add: PutHintValue_def hints_def map_of_eq_None_iff Let_def)

lemma hints_ok_update:
  assumes "hints_ok su" and "i < 61" and "distinct (map fst b)" and "\<forall>h \<in> set (map fst b). HashIndex h = i"
  shows "hints_ok (su\<lparr>su_HashBuckets := (su_HashBuckets su)[i := b]\<rparr>)"
  using assms by (simp add: hints_ok_def nth_list_update)

lemma hints_update:
  assumes "hints_ok su" and "i < 61"
  shows "hints (su\<lparr>su_HashBuckets := (su_HashBuckets su)[i := b]\<rparr>) h =
    (if HashIndex h = i then map_of b h else hints su h)"
  using assms by (auto simp: hints_ok_def hints_def)

lemma bucket_ok:
  assumes "hints_ok su"
  shows "distinct (map fst (su_HashBuckets su ! HashIndex h))"
    and "\<forall>x \<in> set (su_HashBuckets su ! HashIndex h). HashIndex (fst x) = HashIndex h"
  using assms HashIndex_less [of h] by (auto simp: hints_ok_def)

interpretation hint: take_table hints_ok hints "PutHintValue True" TakeHintValue 0
proof (unfold_locales, goal_cases)
  case (1 t k v)
  then show ?case using bucket_ok [of t k]
    by (auto simp: PutHintValue_eq hints_def map_of_eq_None_iff intro!: hints_ok_update dest: bspec)
next
  case (2 t k)
  then show ?case using bucket_ok [of t k]
    by (auto simp: TakeHintValue_eq distinct_map_filter intro!: hints_ok_update dest: bspec)
next
  case (3 t k v)
  then show ?case by (simp add: PutHintValue_eq)
next
  case (4 t k v)
  then show ?case
    by (auto simp: PutHintValue_eq fun_eq_iff hints_update) (simp_all add: hints_def)
next
  case (5 t k)
  then show ?case by (simp add: TakeHintValue_eq)
next
  case (6 t k)
  have "map_of (filter (\<lambda>x. fst x \<noteq> k) b) h = (if h = k then None else map_of b h)" for b :: "(u64 \<times> u32) list" and h
    by (induction b) auto
  with 6 show ?case
    by (auto simp: TakeHintValue_eq fun_eq_iff hints_update) (simp_all add: hints_def)
qed


text \<open>The table of hints is a map. \<open>PutHintValue\<close> refuses a hint that is in it and otherwise adds it,
  \<open>TakeHintValue\<close> returns its value, or 0, and removes it: after a put, the first take of the hint gives
  the value, the second gives 0, and the takes of other hints are as before. The buckets stay consistent.\<close>

lemma hint_value_taken_once:
  assumes "hints_ok su" and "PutHintValue True h v su = (True, su1)" and "TakeHintValue h su1 = (v1, su2)"
  shows "v1 = v \<and> hints_ok su2 \<and> hints su2 = hints su \<and> fst (TakeHintValue h su2) = 0 \<and>
    fst (PutHintValue True h v' su1) = False \<and>
    (\<forall>h'. h' \<noteq> h \<longrightarrow> fst (TakeHintValue h' su1) = fst (TakeHintValue h' su))"
proof -
  have put: "fst (PutHintValue True h v su)" and su1: "su1 = snd (PutHintValue True h v su)"
    and take: "v1 = fst (TakeHintValue h su1)" "su2 = snd (TakeHintValue h su1)"
    using assms by simp_all
  have inv: "hints_ok su1" "hints_ok su2"
    using assms(1) by (simp_all add: su1 take hint.put_inv hint.take_inv)
  show ?thesis
    using hint.take_after_put [OF assms(1) put] hint.take_twice [OF inv(1)] hint.put_twice [OF assms(1) put]
      hint.put_other [OF assms(1)] inv
    by (auto simp: su1 take)
qed

definition demo_pipe_unit :: STORAGE_UNIT where
  "demo_pipe_unit = new_pipe_unit
     \<lparr>Guid = NullGuid, BlockCount = 16, BlockLength = 512, ProductId = replicate 16 0,
      ProductRevisionLevel = replicate 4 0, DeviceType = 0, WriteProtected = False,
      CacheSupported = False, UnmapSupported = False, EjectDisabled = False, MaxTransferLength = 1024\<rparr>"

lemma new_pipe_unit_hints [simp]: "hints_ok (new_pipe_unit par)" "hints (new_pipe_unit par) = Map.empty"
  by (auto simp: hints_ok_def hints_def new_pipe_unit_def fun_eq_iff)

lemma hint_value_taken_once_witness:
  "\<exists>su1 su2. PutHintValue True 7 512 demo_pipe_unit = (True, su1) \<and> TakeHintValue 7 su1 = (512, su2) \<and>
    fst (TakeHintValue 7 su2) = 0"
proof -
  have ok: "hints_ok demo_pipe_unit" by (simp add: demo_pipe_unit_def)
  obtain su1 where put: "PutHintValue True 7 512 demo_pipe_unit = (True, su1)"
    by (simp add: PutHintValue_eq demo_pipe_unit_def)
  obtain v su2 where take: "TakeHintValue 7 su1 = (v, su2)" by fastforce
  from hint_value_taken_once [OF ok put take] put take show ?thesis by blast
qed

section \<open>Messages\<close>

text \<open>The states of the units of pipes between calls: every value in a table is the length of a transfer.\<close>

definition unit_pipe_ok :: "STORAGE_UNIT \<Rightarrow> bool" where
  "unit_pipe_ok su \<longleftrightarrow> hints_ok su \<and> (\<forall>v \<in> ran (hints su). v \<le> MaxTransferLength (su_Params su))"

definition pipes_ok :: "pipe_units \<Rightarrow> bool" where
  "pipes_ok s \<longleftrightarrow> (\<forall>t. su_table s = Some t \<longrightarrow> length t = 64 \<and> (\<forall>p \<in> set t. p \<noteq> 0 \<longrightarrow> su_heap s p \<noteq> None)) \<and>
     (\<forall>p u. su_heap s p = Some u \<longrightarrow> unit_pipe_ok u)"


lemma unit_pipe_ok_connected [simp]: "unit_pipe_ok (su\<lparr>su_Connected := c\<rparr>) = unit_pipe_ok su"
  and unit_pipe_ok_event [simp]: "unit_pipe_ok (su\<lparr>su_Event := e\<rparr>) = unit_pipe_ok su"
  by (simp_all add: unit_pipe_ok_def hints_ok_def hints_def ran_def)

lemma params_put [simp]: "su_Params (snd (PutHintValue a h v su)) = su_Params su"
  by (simp add: PutHintValue_def Let_def)

lemma params_take [simp]: "su_Params (snd (TakeHintValue h su)) = su_Params su"
  by (simp add: TakeHintValue_def Let_def split: prod.split)

lemma unit_pipe_ok_put:
  assumes "unit_pipe_ok su" and "v \<le> MaxTransferLength (su_Params su)"
  shows "unit_pipe_ok (snd (PutHintValue a h v su))"
proof (cases a)
  case True
  have "hints_ok su" "\<forall>x\<in>ran (hints su). x \<le> MaxTransferLength (su_Params su)"
    using assms(1) by (simp_all add: unit_pipe_ok_def)
  with hint.put_inv [of su h v] True
    hint.bounded_put [where P = "\<lambda>v. v \<le> MaxTransferLength (su_Params su)", of su v h, OF _ assms(2)]
  show ?thesis by (simp add: unit_pipe_ok_def)
next
  case False
  with assms show ?thesis by (simp add: PutHintValue_def Let_def)
qed

lemma unit_pipe_ok_take:
  assumes "unit_pipe_ok su"
  shows "unit_pipe_ok (snd (TakeHintValue h su))" and "fst (TakeHintValue h su) \<le> MaxTransferLength (su_Params su)"
proof -
  have su: "hints_ok su" "\<forall>x\<in>ran (hints su). x \<le> MaxTransferLength (su_Params su)"
    using assms by (simp_all add: unit_pipe_ok_def)
  with hint.take_inv [of su h] hint.bounded_take [OF su, of h]
  show "unit_pipe_ok (snd (TakeHintValue h su))" by (simp add: unit_pipe_ok_def)
  show "fst (TakeHintValue h su) \<le> MaxTransferLength (su_Params su)"
    by (rule hint.bounded_taken [where P = "\<lambda>v. v \<le> MaxTransferLength (su_Params su)", OF su(1) _ su(2)]) simp
qed

text \<open>What each stage of a call keeps: the parameters and the bound on the values.\<close>

definition keeps :: "STORAGE_UNIT \<Rightarrow> STORAGE_UNIT \<Rightarrow> bool" where
  "keeps su su' \<longleftrightarrow> su_Params su' = su_Params su \<and> (unit_pipe_ok su \<longrightarrow> unit_pipe_ok su')"

lemma keeps_refl [simp]: "keeps su su" by (simp add: keeps_def)
lemma keeps_trans: "keeps a b \<Longrightarrow> keeps b c \<Longrightarrow> keeps a c" by (simp add: keeps_def)
lemma keeps_connected [simp]: "keeps su (su\<lparr>su_Connected := c\<rparr>)" by (simp add: keeps_def)

definition out_fits :: "u32 \<Rightarrow> pipe_out list \<Rightarrow> bool" where
  "out_fits M out \<longleftrightarrow> (\<forall>rsp d. WroteRsp rsp d \<in> set out \<longrightarrow> length d \<le> unat M)"

lemma out_fits_simps [simp]:
  "out_fits M []" "out_fits M (Disconnected # out) = out_fits M out"
  "out_fits M (WroteParams p # out) = out_fits M out"
  "out_fits M (out @ out') = (out_fits M out \<and> out_fits M out')"
  by (auto simp: out_fits_def)

lemma connect_keeps:
  "pipe_connect io su = (e, out, su') \<Longrightarrow> keeps su su' \<and> out_fits M out"
  by (auto simp: pipe_connect_def Let_def split: if_splits)

lemma disconnect_keeps: "pipe_disconnect c su = (out, su') \<Longrightarrow> keeps su su' \<and> out_fits M out"
  by (auto simp: pipe_disconnect_def split: if_splits)

lemma length_receive_data:
  assumes "unat DataLength \<le> length Data"
  shows "length (receive_data n DataLength msg Data) = length Data"
proof -
  define m where "m = (if DataLength < n - sizeof_TRANSACT_MSG then DataLength else n - sizeof_TRANSACT_MSG)"
  have m: "m \<le> DataLength" by (auto simp: m_def not_less)
  then have "unat m + unat (DataLength - m) = unat DataLength"
    by (simp add: unat_sub word_le_nat_alt)
  moreover have "length (slice msg 0 (unat m)) \<le> unat m" by (simp add: slice_def)
  ultimately show ?thesis
    using assms by (simp add: receive_data_def m_def [symmetric] length_put)
qed

lemma receive_keeps:
  assumes "pipe_receive io Data su = (r, su')" and "unat (MaxTransferLength (su_Params su)) \<le> length Data"
  shows "keeps su su' \<and> (\<forall>req d. r = Deliver req d \<longrightarrow> length d = length Data)"
proof -
  have put: "keeps su su1" if "PutHintValue a h v su = (ok, su1)" "\<not> MaxTransferLength (su_Params su) < v" for a h v ok su1
    using that unit_pipe_ok_put [of su v a h] params_put [of a h v su] by (simp add: keeps_def not_less)
  have len: "length (receive_data n v msg Data) = length Data" if "\<not> MaxTransferLength (su_Params su) < v" for n v msg
    using that assms(2) by (simp add: length_receive_data not_less word_le_nat_alt)
  show ?thesis
    using assms(1) by (auto simp: pipe_receive_def Let_def len split: prod.splits if_splits intro: put)
qed


lemma respond_keeps:
  assumes "unit_pipe_ok su"
  shows "\<exists>e out su'. pipe_respond io rsp Data su = Some (e, out, su') \<and> keeps su su' \<and>
    out_fits (MaxTransferLength (su_Params su)) out"
proof -
  define r where "r = (if Rsp_Kind rsp = SpdIoctlTransactReadKind \<and> Data \<noteq> None
    then TakeHintValue (Rsp_Hint rsp) su else (0, su))"
  have keep: "keeps su (snd r)" "fst r \<le> MaxTransferLength (su_Params su)"
    using assms unit_pipe_ok_take [of su "Rsp_Hint rsp"] by (auto simp: r_def keeps_def)
  then have par: "su_Params (snd r) = su_Params su" by (simp add: keeps_def)
  have "length (slice d 0 (unat (fst r))) \<le> unat (MaxTransferLength (su_Params su))" for d :: bytes
    using keep(2) by (auto simp: slice_def word_le_nat_alt)
  with keep par show ?thesis
    unfolding pipe_respond_def r_def [symmetric]
    by (auto simp: case_prod_beta Let_def out_fits_def not_less split: option.splits)
qed

lemma pipes_ok_set:
  assumes "pipes_ok s" and "su_heap s p = Some su" and "keeps su su'"
  shows "pipes_ok (set_su p su' s)"
  using assms by (auto simp: pipes_ok_def set_su_def keeps_def)

text \<open>C17: A call on a pipe never writes behind its message buffer and never faults. In a state in which
  every remembered length is within the maximum transfer length, a call on a unit of the table with a
  data buffer of that length succeeds or returns an error, whatever the client of the pipe sends and
  however the operations on the pipe end; it sends no message with more data than the maximum, keeps the
  length of the data buffer, and leaves the state with the same bound.\<close>

theorem pipe_messages_fit:
  assumes "pipes_ok s" and "su_table s = Some t" and "unat (SPD_INDEX_FROM_BTL Btl) < 64" and "p \<noteq> 0"
    and "su_heap s p = Some su" and "\<forall>d. Data = Some d \<longrightarrow> length d = unat (MaxTransferLength (su_Params su))"
  shows "\<exists>e req d out s'. SpdStorageUnitHandleTransactPipe io p Btl rsp req0 Data s = Some (e, req, d, out, s') \<and>
    pipes_ok s' \<and> su_table s' = su_table s \<and> map_option length d = map_option length Data \<and>
    (\<forall>r bs. WroteRsp r bs \<in> set out \<longrightarrow> length bs \<le> unat (MaxTransferLength (su_Params su)))"
proof -
  define M where "M = MaxTransferLength (su_Params su)"
  define ok where "ok r \<longleftrightarrow> (\<exists>e req d out s'. r = Some (e, req, d, out, s') \<and>
    pipes_ok s' \<and> su_table s' = su_table s \<and> map_option length d = map_option length Data \<and> out_fits M out)"
    for r :: "(u32 \<times> SPD_IOCTL_TRANSACT_REQ option \<times> bytes option \<times> pipe_out list \<times> pipe_units) option"
  have ifI: "ok (if b then x else y)" if "b \<Longrightarrow> ok x" "\<not> b \<Longrightarrow> ok y" for b x y using that by simp
  have optI: "ok (case z of None \<Rightarrow> x | Some w \<Rightarrow> f w)" if "z = None \<Longrightarrow> ok x" "\<And>w. z = Some w \<Longrightarrow> ok (f w)"
    for z :: "'z option" and x f using that by (cases z) simp_all
  have len: "length t = 64" using assms by (simp add: pipes_ok_def)
  have su: "unit_pipe_ok su" using assms by (simp add: pipes_ok_def)
  have set: "pipes_ok (set_su p su' s)" "su_table (set_su p su' s) = su_table s" if "keeps su su'" for su'
    using that assms pipes_ok_set by (simp_all add: set_su_def)
  have okI: "ok (Some (e, req, d, out, set_su p su' s))"
    if "keeps su su'" "map_option length d = map_option length Data" "out_fits M out" for e req d out su'
    using that set unfolding ok_def by blast
  have ok0: "ok (Some (e, req0, Data, [], s))" for e
    using assms unfolding ok_def by auto
  obtain e1 out1 su1 where c: "pipe_connect io su = (e1, out1, su1)" by (metis prod_cases3)
  have k1: "keeps su su1" and o1: "out_fits M out1" using connect_keeps [OF c] by auto
  then have su1: "unit_pipe_ok su1" "su_Params su1 = su_Params su" using su by (auto simp: keeps_def)
  obtain e2 out2 su2 where r: "(case rsp of None \<Rightarrow> Some (ERROR_SUCCESS, [], su1)
      | Some rsp \<Rightarrow> pipe_respond io rsp Data su1) = Some (e2, out2, su2)"
    and k2: "keeps su1 su2" and o2: "out_fits M out2"
  proof (cases rsp)
    case None
    then show ?thesis by (intro that [of ERROR_SUCCESS "[]" su1]) simp_all
  next
    case (Some x)
    with respond_keeps [OF su1(1), of io x Data] su1(2) that show ?thesis by (auto simp: M_def)
  qed
  have k: "keeps su su2" using k1 k2 by (rule keeps_trans)
  then have su2: "su_Params su2 = su_Params su" by (simp add: keeps_def)
  have disconnect: "ok (case pipe_disconnect cn x of (out3, y) \<Rightarrow> Some (e, req, Data, out1 @ out2 @ out3, set_su p y s))"
    if "keeps su x" for cn x e req
    using that o1 o2 disconnect_keeps [of cn x _ _ M] keeps_trans by (cases "pipe_disconnect cn x") (auto intro!: okI)
  have receive: "ok (case pipe_receive io d su2 of
        (Disconnect, x) \<Rightarrow> (case pipe_disconnect cn x of (out3, y) \<Rightarrow>
             Some (ERROR_SUCCESS, z, Data, out1 @ out2 @ out3, set_su p y s))
      | (ZeroOut, x) \<Rightarrow> Some (ERROR_SUCCESS, z, Data, out1 @ out2, set_su p x s)
      | (Deliver req d', x) \<Rightarrow> Some (ERROR_SUCCESS, Some req, Some d', out1 @ out2, set_su p x s))"
    if "Data = Some d" for d cn z
  proof -
    obtain q x where q: "pipe_receive io d su2 = (q, x)" by fastforce
    have "keeps su2 x \<and> (\<forall>req d'. q = Deliver req d' \<longrightarrow> length d' = length d)"
      using q that assms(6) su2 by (intro receive_keeps) auto
    with k have "keeps su x" "\<forall>req d'. q = Deliver req d' \<longrightarrow> length d' = length d"
      using keeps_trans by blast+
    with q that o1 o2 disconnect show ?thesis by (auto simp: split: req_result.split intro!: okI)
  qed
  have "ok (SpdStorageUnitHandleTransactPipe io p Btl rsp req0 Data s)"
    unfolding SpdStorageUnitHandleTransactPipe_def Let_def assms(2) assms(5) Option.bind.simps c r prod.case
    by (intro ifI optI ok0 okI receive disconnect k1 o1 k) (use assms(3) len o1 o2 in simp_all)
  then show ?thesis by (auto simp: ok_def out_fits_def M_def)
qed


definition demo_pipes :: pipe_units where
  "demo_pipes = \<lparr>su_table = Some (5 # replicate 63 0), su_heap = [5 \<mapsto> demo_pipe_unit]\<rparr>"

lemma demo_pipes_ok: "pipes_ok demo_pipes"
  by (auto simp: pipes_ok_def demo_pipes_def unit_pipe_ok_def demo_pipe_unit_def)

theorem pipe_messages_fit_witness:
  "\<forall>io. \<exists>e req d out s'.
     SpdStorageUnitHandleTransactPipe io 5 0 (Some zero_rsp) (Some zero_req) (Some (replicate 1024 0)) demo_pipes =
       Some (e, req, d, out, s') \<and> pipes_ok s' \<and> map_option length d = Some 1024"
proof
  fix io
  show "\<exists>e req d out s'.
     SpdStorageUnitHandleTransactPipe io 5 0 (Some zero_rsp) (Some zero_req) (Some (replicate 1024 0)) demo_pipes =
       Some (e, req, d, out, s') \<and> pipes_ok s' \<and> map_option length d = Some 1024"
    using pipe_messages_fit [OF demo_pipes_ok, of "5 # replicate 63 0" 0 5 demo_pipe_unit "Some (replicate 1024 0)" io
        "Some zero_rsp" "Some zero_req"]
    by (auto simp: demo_pipes_def demo_pipe_unit_def new_pipe_unit_def SPD_INDEX_FROM_BTL_def SPD_IOCTL_BTL_T_def)
qed

section \<open>A client that connects again\<close>

lemma hints_connected [simp]: "hints (su\<lparr>su_Connected := c\<rparr>) = hints su"
  by (simp add: hints_def fun_eq_iff)

lemma hints_ok_connected: "hints_ok (su\<lparr>su_Connected := c\<rparr>) = hints_ok su"
  by (simp add: hints_ok_def)

lemma hints_disconnect: "pipe_disconnect c su = (out, su') \<Longrightarrow> hints su' = hints su"
  by (auto simp: pipe_disconnect_def split: if_splits)

lemma hints_connect: "pipe_connect io su = (e, out, su') \<Longrightarrow> hints su' = hints su"
  by (auto simp: pipe_connect_def Let_def split: if_splits)

text \<open>The table of hints outlives its client. When a client goes away before it has read the response to
  a read request, the value for the hint stays in the table, through the disconnect and the next connect;
  a read of the next client with that hint is then dropped without an answer.\<close>

lemma stale_hint_drops_request:
  assumes "hints su h \<noteq> None" and "pipe_disconnect c su = (out1, su1)" and "pipe_connect io1 su1 = (e, out2, su2)"
    and "fst (WaitOverlappedResult (io_read io)) = ERROR_SUCCESS"
    and "Req_Kind (io_msg_req io) = SpdIoctlTransactReadKind" and "Req_Hint (io_msg_req io) = h"
  shows "pipe_receive io Data su2 = (ZeroOut, su2)"
proof -
  have "h \<in> fst ` set (su_HashBuckets su2 ! HashIndex h)"
    using assms(1) hints_disconnect [OF assms(2)] hints_connect [OF assms(3)]
    by (metis hints_def map_of_eq_None_iff)
  then have "PutHintValue a h v su2 = (False, su2)" for a v by (simp add: PutHintValue_def Let_def)
  with assms(4-6) show ?thesis
    by (auto simp: pipe_receive_def Let_def split: prod.splits)
qed

definition done_io :: overlapped where
  "done_io = \<lparr>ov_success = True, ov_last_error = 0, ov_wait = WAIT_OBJECT_1, ov_wait_error = 0, ov_result = True,
     ov_result_error = 0, ov_bytes = 48\<rparr>"

definition read_io :: transact_io where
  "read_io = \<lparr>io_init_error = 0, io_msg_allocated = True, io_hint_allocated = True, io_connect = done_io,
     io_params = done_io, io_write = done_io, io_read = done_io,
     io_msg_req = zero_req\<lparr>Req_Hint := 9, Req_Kind := SpdIoctlTransactReadKind\<rparr>, io_msg_data = []\<rparr>"

lemma stale_hint_drops_request_witness:
  "\<exists>su0 su1 su2. pipe_receive read_io [] (demo_pipe_unit\<lparr>su_Connected := 1\<rparr>) = (Deliver (io_msg_req read_io) [], su0) \<and>
    pipe_disconnect 1 su0 = ([Disconnected], su1) \<and>
    pipe_connect read_io su1 = (ERROR_SUCCESS, [WroteParams (su_Params su0)], su2) \<and>
    pipe_receive read_io [] su2 = (ZeroOut, su2)"
proof -
  define su where "su = demo_pipe_unit\<lparr>su_Connected := 1\<rparr>"
  define su0 where "su0 = snd (PutHintValue True 9 0 su)"
  define su1 where "su1 = su0\<lparr>su_Connected := - 1\<rparr>"
  define su2 where "su2 = su1\<lparr>su_Connected := 2\<rparr>"
  have put: "PutHintValue True 9 0 su = (True, su0)"
    by (simp add: su0_def su_def PutHintValue_eq demo_pipe_unit_def)
  have con: "su_Connected su0 = 1" by (simp add: su0_def su_def PutHintValue_def Let_def)
  have r: "pipe_receive read_io [] su = (Deliver (io_msg_req read_io) [], su0)"
    using put by (simp add: pipe_receive_def read_io_def done_io_def WaitOverlappedResult_def sizeof_TRANSACT_MSG_def
        zero_req_def Op_BlockCount_def Let_def)
  have d: "pipe_disconnect 1 su0 = ([Disconnected], su1)" by (simp add: pipe_disconnect_def con su1_def)
  have c: "pipe_connect read_io su1 = (ERROR_SUCCESS, [WroteParams (su_Params su0)], su2)"
    by (simp add: pipe_connect_def su1_def su2_def read_io_def done_io_def WaitOverlappedResult_def)
  have "hints_ok su" "hints su = Map.empty" by (simp_all add: su_def demo_pipe_unit_def hints_ok_connected)
  then have "hints su0 9 \<noteq> None" unfolding su0_def by (simp add: hint.put_entries)
  from stale_hint_drops_request [OF this d c, of read_io "[]"] r d c show ?thesis
    unfolding su_def by (auto simp: read_io_def done_io_def WaitOverlappedResult_def)
qed


section \<open>The dispatcher\<close>

definition supported :: "'w SPD_STORAGE_UNIT_INTERFACE \<Rightarrow> u8 \<Rightarrow> bool" where
  "supported I k \<longleftrightarrow>
     k = SpdIoctlTransactReadKind \<and> ReadOp I \<noteq> None \<or> k = SpdIoctlTransactWriteKind \<and> WriteOp I \<noteq> None \<or>
     k = SpdIoctlTransactFlushKind \<and> FlushOp I \<noteq> None \<or> k = SpdIoctlTransactUnmapKind \<and> UnmapOp I \<noteq> None"

text \<open>What a response says about the request it is for.\<close>

definition answers_request :: "'w SPD_STORAGE_UNIT_INTERFACE \<Rightarrow> SPD_IOCTL_TRANSACT_REQ \<Rightarrow> SPD_IOCTL_TRANSACT_RSP \<Rightarrow> bool" where
  "answers_request I Req r \<longleftrightarrow> Req_Hint Req \<noteq> 0 \<and> Rsp_Hint r = Req_Hint Req \<and> Rsp_Kind r = Req_Kind Req \<and>
     (\<not> supported I (Req_Kind Req) \<longrightarrow>
        Rsp_Status r = zero_status\<lparr>ScsiStatus := SCSISTAT_CHECK_CONDITION,
          SenseKey := SCSI_SENSE_ILLEGAL_REQUEST, ASC := SCSI_ADSENSE_ILLEGAL_COMMAND\<rparr>)"

text \<open>What a thread exchanges with the transport: in each turn a response, if any, and a request.\<close>

fun dispatcher_trace ::
    "nat \<Rightarrow> 'w transport \<Rightarrow> 'w SPD_STORAGE_UNIT_INTERFACE \<Rightarrow> SPD_IOCTL_TRANSACT_RSP option \<times> bytes \<times> 'w \<Rightarrow>
     (SPD_IOCTL_TRANSACT_RSP option \<times> SPD_IOCTL_TRANSACT_REQ) list" where
  "dispatcher_trace 0 transact I s = []"
| "dispatcher_trace (Suc n) transact I s =
     (case s of (R, D, w) \<Rightarrow>
        (case transact R zero_req D w of (e, Req, _, _) \<Rightarrow>
           (case dispatcher_turn transact I s of
              Inl _ \<Rightarrow> []
            | Inr s \<Rightarrow> (R, Req) # dispatcher_trace n transact I s)))"

lemma dispatch_op_unsupported:
  "\<not> supported I (Req_Kind Req) \<Longrightarrow> dispatch_op I Req D w = (True, D, invalid_op zero_status, w)"
  by (auto simp: dispatch_op_def supported_def Let_def split: option.splits)

lemma turn_answers:
  assumes "dispatcher_turn transact I (R, D, w) = Inr (R', D', w')"
  shows "\<exists>e Req D1 w1. transact R zero_req D w = (e, Req, D1, w1) \<and> e = ERROR_SUCCESS \<and>
    (\<forall>r. R' = Some r \<longrightarrow> answers_request I Req r)"
proof -
  obtain e Req D1 w1 where t: "transact R zero_req D w = (e, Req, D1, w1)" by (metis prod_cases4)
  obtain c D2 st w2 where op: "dispatch_op I Req D1 w1 = (c, D2, st, w2)" by (metis prod_cases4)
  have "\<not> supported I (Req_Kind Req) \<Longrightarrow> st = invalid_op zero_status"
    using op dispatch_op_unsupported [of I Req D1 w1] by simp
  with assms show ?thesis
    by (auto simp: dispatcher_turn_def t op answers_request_def invalid_op_def SpdStorageUnitStatusSetSense_def Let_def
        split: if_splits)
qed

lemma trace_answers:
  "Suc k < length (dispatcher_trace n transact I s) \<Longrightarrow> fst (dispatcher_trace n transact I s ! Suc k) = Some r \<Longrightarrow>
   answers_request I (snd (dispatcher_trace n transact I s ! k)) r"
proof (induction n arbitrary: k s)
  case (Suc n)
  obtain R D w where s: "s = (R, D, w)" by (metis prod_cases3)
  show ?case
  proof (cases "dispatcher_turn transact I s")
    case (Inl e)
    with Suc.prems show ?thesis by (simp add: s split: prod.splits)
  next
    case (Inr s')
    obtain R' D' w' where s': "s' = (R', D', w')" by (metis prod_cases3)
    obtain Req D1 w1 where t: "transact R zero_req D w = (ERROR_SUCCESS, Req, D1, w1)"
      and a: "\<And>r. R' = Some r \<Longrightarrow> answers_request I Req r"
      using turn_answers [OF Inr [unfolded s s']] by auto
    have tr: "dispatcher_trace (Suc n) transact I s = (R, Req) # dispatcher_trace n transact I s'"
      using Inr by (simp add: s t)
    show ?thesis
    proof (cases k)
      case 0
      with Suc.prems tr have "0 < length (dispatcher_trace n transact I s')" by simp
      then obtain m where "n = Suc m" by (cases n) auto
      with Suc.prems tr 0 a show ?thesis by (auto simp: s' split: prod.splits sum.splits)
    next
      case (Suc j)
      with Suc.prems Suc.IH [of j s'] tr show ?thesis by simp
    qed
  qed
qed simp


definition flush_interface :: "nat SPD_STORAGE_UNIT_INTERFACE" where
  "flush_interface = \<lparr>ReadOp = None, WriteOp = None, FlushOp = Some (\<lambda>a c st w. (True, st, w)), UnmapOp = None\<rparr>"

definition demo_transport :: "nat transport" where
  "demo_transport = (\<lambda>R q D w. (ERROR_SUCCESS,
     q\<lparr>Req_Hint := 7 + word_of_nat w, Req_Kind := SpdIoctlTransactUnmapKind\<rparr>, D, w + 1))"



section \<open>The inquiry with a timeout\<close>

text \<open>The inquiry loop waits no longer than its timeout and uses all of it before it gives up. It
  succeeds at the first attempt that does; if it fails, the error is a timeout, all attempts have failed,
  and the delays add up to exactly the timeout. It always ends.\<close>

lemma inquiry_waits_for_timeout:
  assumes "inquiry_loop attempt I T = (r, delays)"
  shows "sum_list (map unat delays) \<le> unat T \<and>
    (\<forall>j < length delays. inquiry_good (attempt (I + j)) = None) \<and>
    (case r of
       Inr n \<Rightarrow> inquiry_good (attempt (I + length delays)) = Some n
     | Inl e \<Rightarrow> e = ERROR_TIMEOUT \<and> inquiry_good (attempt (I + length delays)) = None \<and>
         sum_list (map unat delays) = unat T)"
  using assms
proof (induction attempt I T arbitrary: delays rule: inquiry_loop.induct)
  case (1 attempt I T)
  show ?case
  proof (cases "inquiry_good (attempt I)")
    case None
    show ?thesis
    proof (cases "T = 0")
      case True
      with None 1(2) have "r = Inl ERROR_TIMEOUT \<and> delays = []"
        by (simp add: inquiry_loop.simps [of attempt I 0])
      with None True show ?thesis by simp
    next
      case False
      define d where "d = inquiry_delay I T"
      obtain ds where rec: "inquiry_loop attempt (I + 1) (T - d) = (r, ds)" and delays: "delays = d # ds"
        using None False 1(2) by (auto simp: inquiry_loop.simps [of attempt I T] d_def Let_def prod_eq_iff)
      have "unat (T - d) + unat d = unat T"
        using inquiry_delay_le [of I T] by (simp add: d_def unat_sub word_le_nat_alt)
      moreover have "j < length delays \<Longrightarrow> inquiry_good (attempt (I + j)) = None"
        if "\<forall>j < length ds. inquiry_good (attempt (I + 1 + j)) = None" for j
        using that None by (cases j) (auto simp: delays)
      ultimately show ?thesis
        using 1(1) [OF None False d_def, of ds] rec by (auto simp: delays d_def split: sum.splits)
    qed
  next
    case (Some n)
    with 1(2) show ?thesis by (auto simp: inquiry_loop.simps [of attempt I T])
  qed
qed

lemma inquiry_waits_for_timeout_witness:
  "\<exists>delays. inquiry_loop (\<lambda>_. Inl 1) 0 1200 = (Inl ERROR_TIMEOUT, delays) \<and> sum_list (map unat delays) = 1200"
proof -
  obtain r delays where l: "inquiry_loop (\<lambda>_. Inl 1) 0 1200 = (r, delays)" by fastforce
  from inquiry_waits_for_timeout [OF l] l show ?thesis by (cases r) auto
qed

end
