(* ===== verification/Launcher.thy ===== *)
theory Launcher
  imports Shared_Util
begin

text \<open>
  The launcher service: src/launcher/launcher.c. It keeps a list of running instances, starts
  and stops them at the request of its clients, and remembers the persistent ones in the registry.

  The registry, the security functions, the process functions and the volumes are arguments. The
  list is under one lock that every routine here holds from its first access to the list to its
  last.
\<close>

abbreviation ERROR_ACCESS_DENIED :: u32 where "ERROR_ACCESS_DENIED \<equiv> 5"
abbreviation SERVICE_QUERY_STATUS :: u32 where "SERVICE_QUERY_STATUS \<equiv> 0x4"
abbreviation SERVICE_START :: u32 where "SERVICE_START \<equiv> 0x10"
abbreviation SERVICE_STOP :: u32 where "SERVICE_STOP \<equiv> 0x20"

section \<open>State\<close>

record 'sd SVC_INSTANCE =
  svc_RefCount :: u32
  svc_ClassName :: wstr
  svc_InstanceName :: wstr
  svc_CommandLine :: wstr
  svc_SecurityDescriptor :: 'sd
  svc_Persistent :: bool
  svc_ProcessId :: u32
  svc_VolumeHandles :: bool
  svc_Killed :: bool

text \<open>
  The instances in the order of the list, the values under \<open>Instances\<close> in the registry, and whether
  the event that tells that there are no instances is set.
\<close>

record 'sd launcher =
  svc_list :: "'sd SVC_INSTANCE list"
  svc_registry :: "(wstr \<times> wstr \<times> wstr list) list"
  svc_event :: bool

section \<open>Command lines\<close>

definition quote :: u16 where "quote = 0x22"

text \<open>An argument is quoted, and its own quotes are left out.\<close>

definition SvcInstanceArgumentLength :: "wstr \<Rightarrow> u32" where
  "SvcInstanceArgumentLength Arg =
     foldl (\<lambda>Length P. if P \<noteq> quote then Length + 1 else Length) 2 Arg"

definition SvcInstanceArgumentCopy :: "wstr \<Rightarrow> wstr \<Rightarrow> wstr" where
  "SvcInstanceArgumentCopy Dest Arg = Dest @ [quote] @ filter (\<lambda>P. P \<noteq> quote) Arg @ [quote]"

definition is_digit :: "u16 \<Rightarrow> bool" where "is_digit c \<longleftrightarrow> 0x30 \<le> c \<and> c \<le> 0x39"

definition nth_arg :: "wstr list \<Rightarrow> u16 \<Rightarrow> wstr" where
  "nth_arg Argv c = (let i = unat (c - 0x30) in if i < length Argv then Argv ! i else [])"

text \<open>
  The two passes over the string. A percent sign takes the character behind it; at the end of the
  string this is the terminating zero, and the loop goes on behind the string (\<open>None\<close>).
\<close>

fun replace_length :: "wstr list \<Rightarrow> wstr \<Rightarrow> u32 \<Rightarrow> u32 option" where
  "replace_length Argv [] Length = Some Length"
| "replace_length Argv (P # Ps) Length =
     (if P = 0x25 then
        (case Ps of [] \<Rightarrow> None
         | Q # Qs \<Rightarrow>
             if is_digit Q
             then replace_length Argv Qs (Length + SvcInstanceArgumentLength (nth_arg Argv Q))
             else replace_length Argv Qs (Length + 1))
      else replace_length Argv Ps (Length + 1))"

fun replace_copy :: "wstr list \<Rightarrow> wstr \<Rightarrow> wstr \<Rightarrow> wstr option" where
  "replace_copy Argv [] Dest = Some Dest"
| "replace_copy Argv (P # Ps) Dest =
     (if P = 0x25 then
        (case Ps of [] \<Rightarrow> None
         | Q # Qs \<Rightarrow>
             if is_digit Q
             then replace_copy Argv Qs (SvcInstanceArgumentCopy Dest (nth_arg Argv Q))
             else replace_copy Argv Qs (Dest @ [Q]))
      else replace_copy Argv Ps (Dest @ [P]))"

text \<open>A copy that is longer than the buffer would be written behind it.\<close>

definition SvcInstanceReplaceArguments :: "bool \<Rightarrow> wstr \<Rightarrow> wstr list \<Rightarrow> (u32 + wstr) option" where
  "SvcInstanceReplaceArguments allocated String Argv = do {
     Length \<leftarrow> replace_length Argv String 0;
     if \<not> allocated then Some (Inl ERROR_NO_SYSTEM_RESOURCES)
     else do {
       NewString \<leftarrow> replace_copy Argv String [];
       if unat Length < length NewString then None else Some (Inr NewString)
     }
   }"

section \<open>Looking up\<close>

definition dot_pid :: wstr where "dot_pid = [0x2e, 0x70, 0x69, 0x64, 0x2e]"

definition SvcInstanceLookupByPid :: "u32 \<Rightarrow> 'sd SVC_INSTANCE list \<Rightarrow> 'sd SVC_INSTANCE option" where
  "SvcInstanceLookupByPid pid is = find (\<lambda>i. pid = svc_ProcessId i) is"

definition same_name :: "wstr \<Rightarrow> wstr \<Rightarrow> 'sd SVC_INSTANCE \<Rightarrow> bool" where
  "same_name ClassName InstanceName i \<longleftrightarrow>
     invariant_wcsicmp ClassName (svc_ClassName i) = 0 \<and>
     invariant_wcsicmp InstanceName (svc_InstanceName i) = 0"

definition SvcInstanceLookup ::
    "wstr \<Rightarrow> wstr \<Rightarrow> bool \<Rightarrow> 'sd SVC_INSTANCE list \<Rightarrow> 'sd SVC_INSTANCE option" where
  "SvcInstanceLookup ClassName InstanceName AllowPidLookup is =
     (if AllowPidLookup \<and> invariant_wcsicmp ClassName dot_pid = 0
      then SvcInstanceLookupByPid
             (ucast (fst (strtoint (map uint InstanceName) 0 False))) is
      else find (same_name ClassName InstanceName) is)"

section \<open>Creating\<close>

text \<open>
  What the registry has for a class: each value with its error. \<open>Executable\<close> must be there; the
  others may be missing.
\<close>

record svc_class =
  cls_Executable :: "u32 + wstr"
  cls_CommandLine :: "u32 + wstr"
  cls_WorkDirectory :: "u32 + wstr"
  cls_Security :: "u32 + wstr"
  cls_JobControl :: "u32 + u32"
  cls_Persistent :: "u32 + u32"

text \<open>
  What the system does: the class, or the error of opening the key; the conversion of a security
  string; the access check and the added rights for a client; the allocations; the process.
\<close>

record 'sd svc_system =
  sys_class :: "wstr \<Rightarrow> u32 + svc_class"
  sys_convert :: "wstr \<Rightarrow> u32 + 'sd"
  sys_to_string :: "'sd \<Rightarrow> u32 + wstr"
  sys_access :: "ptr \<Rightarrow> u32 \<Rightarrow> 'sd \<Rightarrow> u32"
  sys_add_rights :: "ptr \<Rightarrow> 'sd \<Rightarrow> u32 + 'sd"
  sys_allocated :: bool
  sys_process :: "wstr \<Rightarrow> wstr \<Rightarrow> u32 + u32"
  sys_wait :: u32

definition present :: "u32 + 'a \<Rightarrow> bool" where
  "present r = (case r of Inr _ \<Rightarrow> True | Inl e \<Rightarrow> e = ERROR_FILE_NOT_FOUND)"

definition reg_error :: "u32 + 'a \<Rightarrow> u32" where
  "reg_error r = (case r of Inr _ \<Rightarrow> ERROR_SUCCESS | Inl e \<Rightarrow> e)"

text \<open>The owner and group \<open>O:SYG:SY\<close>, and the default for a class without a security string.\<close>

definition owner_prefix :: wstr where
  "owner_prefix = [0x4f, 0x3a, 0x53, 0x59, 0x47, 0x3a, 0x53, 0x59]"

definition default_sddl :: wstr where
  "default_sddl = map (\<lambda>c. word_of_nat (of_char c)) ''D:P(A;;RPWPLC;;;SY)(A;;RPWPLC;;;BA)''"

definition security_string :: "u32 + wstr \<Rightarrow> wstr" where
  "security_string r =
     (let s = (case r of Inr s \<Rightarrow> s | Inl _ \<Rightarrow> []);
          s = (if s = [] then default_sddl else s)
      in if take 2 s = [0x44, 0x3a] then owner_prefix @ s else s)"

definition command_line :: "u32 + wstr \<Rightarrow> wstr" where
  "command_line r =
     (case r of Inr s \<Rightarrow> [0x25, 0x30, 0x20] @ s | Inl _ \<Rightarrow> [0x25, 0x30])"

text \<open>
  \<open>token\<close> is 0 when the launcher itself starts the instance; \<open>external\<close> is the security string it
  then has. Arguments beyond the ninth are dropped. The new instance has two references, of the
  caller and of the wait for its process.
\<close>

definition SvcInstanceCreate ::
    "'sd svc_system \<Rightarrow> ptr \<Rightarrow> wstr option \<Rightarrow> wstr \<Rightarrow> wstr \<Rightarrow> wstr list \<Rightarrow> 'sd launcher \<Rightarrow>
     ((u32 + 'sd SVC_INSTANCE) \<times> 'sd launcher) option" where
  "SvcInstanceCreate sys token external ClassName InstanceName Argv0 l =
     (if invariant_wcsicmp ClassName dot_pid = 0 then Some (Inl ERROR_INVALID_PARAMETER, l)
      else if SvcInstanceLookup ClassName InstanceName False (svc_list l) \<noteq> None
      then Some (Inl ERROR_ALREADY_EXISTS, l)
      else case sys_class sys ClassName of
          Inl e \<Rightarrow> Some (Inl e, l)
        | Inr cls \<Rightarrow>
          (case cls_Executable cls of
             Inl e \<Rightarrow> Some (Inl e, l)
           | Inr Executable \<Rightarrow>
             if \<not> present (cls_CommandLine cls) then Some (Inl (reg_error (cls_CommandLine cls)), l)
             else if \<not> present (cls_WorkDirectory cls) then Some (Inl (reg_error (cls_WorkDirectory cls)), l)
             else if \<not> present (cls_Security cls) then Some (Inl (reg_error (cls_Security cls)), l)
             else if \<not> present (cls_JobControl cls) then Some (Inl (reg_error (cls_JobControl cls)), l)
             else (case sys_convert sys (case external of Some s \<Rightarrow> s
                      | None \<Rightarrow> security_string (cls_Security cls)) of
                 Inl e \<Rightarrow> Some (Inl e, l)
               | Inr sd \<Rightarrow>
                 (case (if token \<noteq> 0
                        then (if sys_access sys token SERVICE_START sd \<noteq> ERROR_SUCCESS
                              then Inl (sys_access sys token SERVICE_START sd)
                              else sys_add_rights sys token sd)
                        else Inr sd) of
                    Inl e \<Rightarrow> Some (Inl e, l)
                  | Inr sd \<Rightarrow>
                    if \<not> sys_allocated sys then Some (Inl ERROR_NO_SYSTEM_RESOURCES, l)
                    else do {
                      r \<leftarrow> SvcInstanceReplaceArguments (sys_allocated sys)
                             (command_line (cls_CommandLine cls)) (Executable # take 9 Argv0);
                      Some (case r of
                          Inl e \<Rightarrow> (Inl e, l)
                        | Inr CommandLine \<Rightarrow>
                          (case sys_process sys Executable CommandLine of
                             Inl e \<Rightarrow> (Inl e, l)
                           | Inr pid \<Rightarrow>
                             if sys_wait sys \<noteq> ERROR_SUCCESS then (Inl (sys_wait sys), l)
                             else
                               let i = \<lparr>svc_RefCount = 2, svc_ClassName = ClassName,
                                        svc_InstanceName = InstanceName, svc_CommandLine = CommandLine,
                                        svc_SecurityDescriptor = sd, svc_Persistent = False,
                                        svc_ProcessId = pid, svc_VolumeHandles = False, svc_Killed = False\<rparr>
                               in (Inr i, l\<lparr>svc_list := svc_list l @ [i], svc_event := False\<rparr>)))
                    }))))"

section \<open>Releasing\<close>

text \<open>The instance with the names is the one that a pointer of the code points to.\<close>

definition upd_instance ::
    "wstr \<Rightarrow> wstr \<Rightarrow> ('sd SVC_INSTANCE \<Rightarrow> 'sd SVC_INSTANCE) \<Rightarrow> 'sd launcher \<Rightarrow> 'sd launcher" where
  "upd_instance c n f l =
     l\<lparr>svc_list := map (\<lambda>i. if svc_ClassName i = c \<and> svc_InstanceName i = n then f i else i) (svc_list l)\<rparr>"

text \<open>
  The reference is given up outside of the lock. Whoever gives up the last one takes the instance
  from the list under the lock; with the last instance the event is set.
\<close>

definition release_decrement :: "wstr \<Rightarrow> wstr \<Rightarrow> 'sd launcher \<Rightarrow> 'sd launcher" where
  "release_decrement c n l = upd_instance c n (\<lambda>i. i\<lparr>svc_RefCount := svc_RefCount i - 1\<rparr>) l"

definition release_remove :: "wstr \<Rightarrow> wstr \<Rightarrow> 'sd launcher \<Rightarrow> 'sd launcher" where
  "release_remove c n l =
     (let rest = filter (\<lambda>i. \<not> (svc_ClassName i = c \<and> svc_InstanceName i = n)) (svc_list l)
      in l\<lparr>svc_list := rest, svc_event := (if rest = [] then True else svc_event l)\<rparr>)"

definition SvcInstanceRelease :: "wstr \<Rightarrow> wstr \<Rightarrow> 'sd launcher \<Rightarrow> 'sd launcher" where
  "SvcInstanceRelease c n l =
     (let l = release_decrement c n l
      in if \<exists>i \<in> set (svc_list l). svc_ClassName i = c \<and> svc_InstanceName i = n \<and> svc_RefCount i = 0
         then release_remove c n l else l)"

text \<open>The callback when the process of an instance has ended.\<close>

definition SvcInstanceTerminated :: "wstr \<Rightarrow> wstr \<Rightarrow> 'sd launcher \<Rightarrow> 'sd launcher" where
  "SvcInstanceTerminated c n l = SvcInstanceRelease c n l"

section \<open>Persistent instances\<close>

text \<open>The value for an instance: its arguments and its security string.\<close>

definition set_registry :: "wstr \<Rightarrow> wstr \<Rightarrow> wstr list \<Rightarrow> 'sd launcher \<Rightarrow> 'sd launcher" where
  "set_registry c n v l =
     l\<lparr>svc_registry := filter (\<lambda>(c', n', _). \<not> (c' = c \<and> n' = n)) (svc_registry l) @ [(c, n, v)]\<rparr>"

definition SvcInstanceSetPersistent ::
    "'sd svc_system \<Rightarrow> wstr \<Rightarrow> wstr \<Rightarrow> wstr list \<Rightarrow> 'sd \<Rightarrow> 'sd launcher \<Rightarrow> bool \<times> 'sd launcher" where
  "SvcInstanceSetPersistent sys ClassName InstanceName Argv sd l =
     (case sys_class sys ClassName of
        Inl _ \<Rightarrow> (False, l)
      | Inr cls \<Rightarrow>
        (case cls_Persistent cls of
           Inl _ \<Rightarrow> (False, l)
         | Inr Persistent \<Rightarrow>
           if Persistent = 0 then (False, l)
           else (case sys_to_string sys sd of
               Inl _ \<Rightarrow> (False, l)
             | Inr Security \<Rightarrow>
               if \<not> sys_allocated sys then (False, l)
               else (True, set_registry ClassName InstanceName (Argv @ [Security]) l))))"

definition SvcInstanceDeletePersistent :: "wstr \<Rightarrow> wstr \<Rightarrow> 'sd launcher \<Rightarrow> 'sd launcher" where
  "SvcInstanceDeletePersistent c n l =
     l\<lparr>svc_registry := filter (\<lambda>(c', n', _). \<not> (c' = c \<and> n' = n)) (svc_registry l)\<rparr>"

text \<open>
  The strings of a value, with the empty one that ends it, at most 11 of them. The last two are the
  security string and the end; what is in front of them are the arguments.
\<close>

definition persistent_strings :: "wstr list \<Rightarrow> wstr list" where
  "persistent_strings v = take 11 (v @ [[]])"

fun start_persistent ::
    "'sd svc_system \<Rightarrow> (wstr \<times> wstr \<times> wstr list) list \<Rightarrow> 'sd launcher \<Rightarrow> 'sd launcher option" where
  "start_persistent sys [] l = Some l"
| "start_persistent sys ((c, n, v) # rest) l =
     (let Argv = persistent_strings v; Argc = length Argv
      in if 2 < Argc then do {
           (r, l) \<leftarrow> SvcInstanceCreate sys 0 (Some (Argv ! (Argc - 2))) c n (take (Argc - 2) Argv) l;
           start_persistent sys rest (case r of Inr i \<Rightarrow> SvcInstanceRelease c n l | Inl _ \<Rightarrow> l)
         } else start_persistent sys rest l)"

definition SvcInstanceStartAllPersistent :: "'sd svc_system \<Rightarrow> 'sd launcher \<Rightarrow> 'sd launcher option" where
  "SvcInstanceStartAllPersistent sys l = start_persistent sys (svc_registry l) l"

section \<open>Requests\<close>

definition SvcInstanceStart ::
    "'sd svc_system \<Rightarrow> ptr \<Rightarrow> wstr \<Rightarrow> wstr \<Rightarrow> wstr list \<Rightarrow> 'sd launcher \<Rightarrow> (u32 \<times> 'sd launcher) option" where
  "SvcInstanceStart sys token ClassName InstanceName Argv l = do {
     (r, l) \<leftarrow> SvcInstanceCreate sys token None ClassName InstanceName Argv l;
     Some (case r of
         Inl e \<Rightarrow> (e, l)
       | Inr i \<Rightarrow>
         (case SvcInstanceSetPersistent sys ClassName InstanceName Argv (svc_SecurityDescriptor i) l of
            (p, l) \<Rightarrow>
              (ERROR_SUCCESS, SvcInstanceRelease ClassName InstanceName
                 (upd_instance ClassName InstanceName (\<lambda>i. i\<lparr>svc_Persistent := p\<rparr>) l))))
   }"

text \<open>
  \<open>dismount\<close> is the result of dismounting the volumes of the instance: the error, the number of
  handles it has kept, and whether there is memory for them. An instance that holds handles is not
  dismounted again. An error keeps an instance alive unless it is forced.
\<close>

definition SvcInstanceKill :: "u32 \<times> nat \<times> bool \<Rightarrow> bool \<Rightarrow> 'sd SVC_INSTANCE \<Rightarrow> u32 \<times> 'sd SVC_INSTANCE" where
  "SvcInstanceKill dismount Forced i =
     (case dismount of (err, Count, allocated) \<Rightarrow>
        let Error = (if svc_VolumeHandles i then ERROR_SUCCESS else err);
            i = (if \<not> svc_VolumeHandles i \<and> err = ERROR_SUCCESS \<and> 0 < Count \<and> allocated
                 then i\<lparr>svc_VolumeHandles := True\<rparr> else i)
        in (Error, if Error = ERROR_SUCCESS \<or> Forced then i\<lparr>svc_Killed := True\<rparr> else i))"

definition SvcInstanceStop ::
    "'sd svc_system \<Rightarrow> u32 \<times> nat \<times> bool \<Rightarrow> ptr \<Rightarrow> wstr \<Rightarrow> wstr \<Rightarrow> bool \<Rightarrow> 'sd launcher \<Rightarrow>
     u32 \<times> 'sd launcher" where
  "SvcInstanceStop sys dismount token ClassName InstanceName Forced l =
     (case SvcInstanceLookup ClassName InstanceName True (svc_list l) of
        None \<Rightarrow> (ERROR_FILE_NOT_FOUND, l)
      | Some i \<Rightarrow>
        let Error = sys_access sys token SERVICE_STOP (svc_SecurityDescriptor i)
        in if Error \<noteq> ERROR_SUCCESS then (Error, l)
           else case SvcInstanceKill dismount Forced i of
             (Error, i') \<Rightarrow>
               let l = upd_instance (svc_ClassName i) (svc_InstanceName i) (\<lambda>_. i') l
               in (Error, if Error = ERROR_SUCCESS
                          then SvcInstanceDeletePersistent (svc_ClassName i) (svc_InstanceName i) l else l))"

text \<open>The names and the command line, each with its zero, if they fit in \<open>Size\<close> octets.\<close>

definition SvcInstanceGetInfo ::
    "'sd svc_system \<Rightarrow> ptr \<Rightarrow> wstr \<Rightarrow> wstr \<Rightarrow> u32 \<Rightarrow> 'sd launcher \<Rightarrow> u32 + wstr" where
  "SvcInstanceGetInfo sys token ClassName InstanceName Size l =
     (case SvcInstanceLookup ClassName InstanceName True (svc_list l) of
        None \<Rightarrow> Inl ERROR_FILE_NOT_FOUND
      | Some i \<Rightarrow>
        let Error = sys_access sys token SERVICE_QUERY_STATUS (svc_SecurityDescriptor i);
            info = svc_ClassName i @ [0] @ svc_InstanceName i @ [0] @ svc_CommandLine i @ [0]
        in if Error \<noteq> ERROR_SUCCESS then Inl Error
           else if unat Size < 2 * length info then Inl ERROR_INSUFFICIENT_BUFFER
           else Inr info)"

text \<open>As many pairs of names as there is room for, \<open>room\<close> characters in all.\<close>

fun name_list_loop :: "nat \<Rightarrow> 'sd SVC_INSTANCE list \<Rightarrow> wstr \<Rightarrow> wstr" where
  "name_list_loop room [] buf = buf"
| "name_list_loop room (i # is) buf =
     (let names = svc_ClassName i @ [0] @ svc_InstanceName i @ [0]
      in if room < length buf + length names then buf else name_list_loop room is (buf @ names))"

definition SvcInstanceGetNameList :: "u32 \<Rightarrow> 'sd launcher \<Rightarrow> wstr" where
  "SvcInstanceGetNameList Size l = name_list_loop (unat (Size div 2)) (svc_list l) []"

text \<open>At the end of the service every instance is killed; \<open>dismounts\<close> has the result for each.\<close>

definition SvcInstanceStopAndWaitAll ::
    "('sd SVC_INSTANCE \<Rightarrow> u32 \<times> nat \<times> bool) \<Rightarrow> 'sd launcher \<Rightarrow> 'sd launcher" where
  "SvcInstanceStopAndWaitAll dismounts l =
     l\<lparr>svc_list := map (\<lambda>i. snd (SvcInstanceKill (dismounts i) True i)) (svc_list l)\<rparr>"

section \<open>The protocol\<close>

text \<open>
  The next part of a message: the characters up to a zero, which must be there. \<open>None\<close> is the null
  pointer.
\<close>

fun SvcPipeTransactGetPart :: "wstr \<Rightarrow> wstr option \<times> wstr" where
  "SvcPipeTransactGetPart [] = (None, [])"
| "SvcPipeTransactGetPart (c # cs) =
     (if c = 0 then (Some [], cs)
      else case SvcPipeTransactGetPart cs of
             (Some part, rest) \<Rightarrow> (Some (c # part), rest)
           | (None, rest) \<Rightarrow> (None, rest))"

text \<open>The loop over the arguments of a start, \<open>n\<close> at most.\<close>

fun get_args :: "nat \<Rightarrow> wstr \<Rightarrow> wstr list" where
  "get_args 0 P = []"
| "get_args (Suc n) P =
     (case SvcPipeTransactGetPart P of (None, _) \<Rightarrow> [] | (Some a, P) \<Rightarrow> a # get_args n P)"

fun decimal :: "nat \<Rightarrow> wstr" where
  "decimal n = (if n < 10 then [word_of_nat (48 + n)] else decimal (n div 10) @ [word_of_nat (48 + n mod 10)])"

declare decimal.simps [simp del]

text \<open>\<open>%ld\<close> prints the error as a signed number.\<close>

definition print_ld :: "u32 \<Rightarrow> wstr" where
  "print_ld e = (if sint e < 0 then [0x2d] @ decimal (nat (- sint e)) else decimal (nat (sint e)))"

text \<open>An answer: the code of success in front of the data, or the code of failure and the error.\<close>

definition SvcPipeTransactResult :: "u32 \<Rightarrow> wstr \<Rightarrow> wstr" where
  "SvcPipeTransactResult Error Data =
     (if Error = ERROR_SUCCESS then [SpdLaunchCmdSuccess] @ Data
      else [SpdLaunchCmdFailure] @ print_ld Error @ [0])"

definition SvcPipeTransact ::
    "'sd svc_system \<Rightarrow> u32 \<times> nat \<times> bool \<Rightarrow> ptr \<Rightarrow> wstr \<Rightarrow> 'sd launcher \<Rightarrow> (wstr \<times> 'sd launcher) option" where
  "SvcPipeTransact sys dismount token msg l =
     (case msg of
        [] \<Rightarrow> Some ([], l)
      | Cmd # P \<Rightarrow>
        (case SvcPipeTransactGetPart P of (ClassName, P) \<Rightarrow>
           (case SvcPipeTransactGetPart P of (InstanceName, P) \<Rightarrow>
              if Cmd = SpdLaunchCmdStart then
                (case (ClassName, InstanceName) of
                   (Some c, Some n) \<Rightarrow> do {
                     (Error, l) \<leftarrow> SvcInstanceStart sys token c n (get_args 9 P) l;
                     Some (SvcPipeTransactResult Error [], l)
                   }
                 | _ \<Rightarrow> Some (SvcPipeTransactResult ERROR_INVALID_PARAMETER [], l))
              else if Cmd = SpdLaunchCmdStop \<or> Cmd = SpdLaunchCmdStopForced then
                (case (ClassName, InstanceName) of
                   (Some c, Some n) \<Rightarrow>
                     (case SvcInstanceStop sys dismount token c n (Cmd = SpdLaunchCmdStopForced) l of
                        (Error, l) \<Rightarrow> Some (SvcPipeTransactResult Error [], l))
                 | _ \<Rightarrow> Some (SvcPipeTransactResult ERROR_INVALID_PARAMETER [], l))
              else if Cmd = SpdLaunchCmdGetInfo then
                (case (ClassName, InstanceName) of
                   (Some c, Some n) \<Rightarrow>
                     (case SvcInstanceGetInfo sys token c n (SPD_LAUNCH_PIPE_BUFFER_SIZE - 1) l of
                        Inl Error \<Rightarrow> Some (SvcPipeTransactResult Error [], l)
                      | Inr info \<Rightarrow> Some (SvcPipeTransactResult ERROR_SUCCESS info, l))
                 | _ \<Rightarrow> Some (SvcPipeTransactResult ERROR_INVALID_PARAMETER [], l))
              else if Cmd = SpdLaunchCmdGetNameList then
                Some (SvcPipeTransactResult ERROR_SUCCESS
                        (SvcInstanceGetNameList (SPD_LAUNCH_PIPE_BUFFER_SIZE - 1) l), l)
              else Some (SvcPipeTransactResult ERROR_INVALID_PARAMETER [], l))))"

end
