(* ===== verification/Launch_Steps.thy ===== *)
theory Launch_Steps
  imports Launcher
begin

text \<open>
  The instances of the launcher as a state machine. The requests of the clients, the callback at the end
  of a process and the end of the service run in threads of their own; each step is what one of them does
  under the lock or with one interlocked operation. A state has, besides the launcher, the instances that
  a running start still refers to, those whose process is waited for, and those that have lost their last
  reference and are not yet removed.
\<close>

abbreviation svc_key :: "'sd SVC_INSTANCE \<Rightarrow> wstr \<times> wstr" where
  "svc_key i \<equiv> (svc_ClassName i, svc_InstanceName i)"

record 'sd svc_state =
  st_callers :: "(wstr \<times> wstr) set"
  st_waits :: "(wstr \<times> wstr) set"
  st_dying :: "(wstr \<times> wstr) set"
  st_launcher :: "'sd launcher"

inductive svc_step :: "'sd svc_state \<Rightarrow> 'sd svc_state \<Rightarrow> bool" where
  create: "SvcInstanceCreate sys token external c n args (st_launcher s) = Some (Inr i, l) \<Longrightarrow>
    svc_step s (s\<lparr>st_callers := insert (c, n) (st_callers s), st_waits := insert (c, n) (st_waits s),
      st_launcher := l\<rparr>)"
| create_failed: "SvcInstanceCreate sys token external c n args (st_launcher s) = Some (Inl e, l) \<Longrightarrow>
    svc_step s (s\<lparr>st_launcher := l\<rparr>)"
| persist: "(c, n) \<in> st_callers s \<Longrightarrow>
    SvcInstanceSetPersistent sys c n args sd (st_launcher s) = (p, l) \<Longrightarrow>
    svc_step s (s\<lparr>st_launcher := upd_instance c n (\<lambda>i. i\<lparr>svc_Persistent := p\<rparr>) l\<rparr>)"
| release: "(c, n) \<in> st_callers s \<Longrightarrow>
    svc_step s (s\<lparr>st_callers := st_callers s - {(c, n)},
      st_dying := (if (c, n) \<in> st_waits s then st_dying s else insert (c, n) (st_dying s)),
      st_launcher := release_decrement c n (st_launcher s)\<rparr>)"
| terminated: "(c, n) \<in> st_waits s \<Longrightarrow>
    svc_step s (s\<lparr>st_waits := st_waits s - {(c, n)},
      st_dying := (if (c, n) \<in> st_callers s then st_dying s else insert (c, n) (st_dying s)),
      st_launcher := release_decrement c n (st_launcher s)\<rparr>)"
| remove: "(c, n) \<in> st_dying s \<Longrightarrow>
    svc_step s (s\<lparr>st_dying := st_dying s - {(c, n)}, st_launcher := release_remove c n (st_launcher s)\<rparr>)"
| stop: "SvcInstanceStop sys dismount token c n forced (st_launcher s) = (e, l) \<Longrightarrow>
    svc_step s (s\<lparr>st_launcher := l\<rparr>)"
| stop_all: "svc_step s (s\<lparr>st_launcher := SvcInstanceStopAndWaitAll dismounts (st_launcher s)\<rparr>)"

inductive svc_reachable :: "'sd svc_state \<Rightarrow> bool" where
  init: "svc_reachable \<lparr>st_callers = {}, st_waits = {}, st_dying = {},
    st_launcher = \<lparr>svc_list = [], svc_registry = reg, svc_event = True\<rparr>\<rparr>"
| step: "svc_reachable s \<Longrightarrow> svc_step s t \<Longrightarrow> svc_reachable t"

section \<open>Names\<close>

lemma wcscmp_loop_refl [simp]: "wcscmp_loop conv s s = 0"
  by (induction s) (simp_all add: Let_def)

lemma same_name_refl [simp]: "same_name (svc_ClassName i) (svc_InstanceName i) i"
  by (simp add: same_name_def invariant_wcsicmp_def)

lemma same_name_key: "svc_key i = svc_key j \<Longrightarrow> same_name c n i = same_name c n j"
  by (simp add: same_name_def)

abbreviation unique_names :: "'sd SVC_INSTANCE list \<Rightarrow> bool" where
  "unique_names \<equiv> sorted_wrt (\<lambda>j i. \<not> same_name (svc_ClassName i) (svc_InstanceName i) j)"

lemma unique_names_distinct: "unique_names is \<Longrightarrow> distinct (map svc_key is)"
proof (induction "is")
  case (Cons i "is")
  then have "svc_key i \<noteq> svc_key j" if "j \<in> set is" for j
    using that same_name_key [of i j "svc_ClassName j" "svc_InstanceName j"] by auto
  with Cons show ?case by auto
qed simp

lemma unique_names_map:
  assumes "\<forall>i \<in> set is. svc_key (f i) = svc_key i" and "unique_names is"
  shows "unique_names (map f is)"
  unfolding sorted_wrt_map using assms(2)
proof (rule sorted_wrt_mono_rel [rotated])
  fix j i assume "j \<in> set is" "i \<in> set is" "\<not> same_name (svc_ClassName i) (svc_InstanceName i) j"
  with assms(1) show "\<not> same_name (svc_ClassName (f i)) (svc_InstanceName (f i)) (f j)"
    by (simp add: same_name_def)
qed

lemma keys_map:
  "\<forall>i \<in> set is. svc_key (f i) = svc_key i \<Longrightarrow> svc_key ` set (map f is) = svc_key ` set is"
  by (simp add: image_image)

section \<open>The invariant\<close>

definition svc_inv :: "'sd svc_state \<Rightarrow> bool" where
  "svc_inv s \<longleftrightarrow>
     unique_names (svc_list (st_launcher s)) \<and>
     svc_key ` set (svc_list (st_launcher s)) = st_callers s \<union> st_waits s \<union> st_dying s \<and>
     st_dying s \<inter> (st_callers s \<union> st_waits s) = {} \<and>
     (\<forall>i \<in> set (svc_list (st_launcher s)).
        svc_RefCount i = of_bool (svc_key i \<in> st_callers s) + of_bool (svc_key i \<in> st_waits s)) \<and>
     (svc_event (st_launcher s) \<longleftrightarrow> svc_list (st_launcher s) = [])"

text \<open>Steps that keep the names and the references of every instance.\<close>

lemma svc_inv_map:
  assumes "svc_inv s" and "\<forall>i \<in> set (svc_list (st_launcher s)). svc_key (f i) = svc_key i \<and> svc_RefCount (f i) = svc_RefCount i"
    and "svc_list l = map f (svc_list (st_launcher s))" and "svc_event l = svc_event (st_launcher s)"
  shows "svc_inv (s\<lparr>st_launcher := l\<rparr>)"
proof -
  have "svc_key ` set (svc_list l) = svc_key ` set (svc_list (st_launcher s))"
    unfolding assms(3) using assms(2) by (intro keys_map) simp
  with assms show ?thesis
    using unique_names_map [of "svc_list (st_launcher s)" f] by (auto simp: svc_inv_def)
qed

lemma SvcInstanceCreate_cases:
  assumes "SvcInstanceCreate sys token external c n args l = Some (r, l')"
  obtains e where "r = Inl e" "l' = l"
  | i where "r = Inr i" "svc_key i = (c, n)" "svc_RefCount i = 2"
      "\<forall>j \<in> set (svc_list l). \<not> same_name c n j"
      "l' = l\<lparr>svc_list := svc_list l @ [i], svc_event := False\<rparr>"
proof (cases r)
  case (Inl e)
  with assms have "l' = l"
    by (auto simp: SvcInstanceCreate_def Let_def split: Option.bind_split_asm if_split_asm sum.split_asm)
  with Inl that(1) show ?thesis by blast
next
  case (Inr i)
  with assms have "\<forall>j \<in> set (svc_list l). \<not> same_name c n j"
    by (auto simp: SvcInstanceCreate_def SvcInstanceLookup_def find_None_iff split: if_splits)
  moreover from assms Inr have "svc_key i = (c, n) \<and> svc_RefCount i = 2 \<and> l' = l\<lparr>svc_list := svc_list l @ [i], svc_event := False\<rparr>"
    by (auto simp: SvcInstanceCreate_def Let_def split: Option.bind_split_asm if_split_asm sum.split_asm)
  ultimately show ?thesis using Inr that(2) by blast
qed

lemma svc_inv_create:
  assumes "svc_inv s" and "\<forall>j \<in> set (svc_list (st_launcher s)). \<not> same_name c n j"
    and "svc_key i = (c, n)" and "svc_RefCount i = 2"
  shows "svc_inv (s\<lparr>st_callers := insert (c, n) (st_callers s), st_waits := insert (c, n) (st_waits s),
      st_launcher := (st_launcher s)\<lparr>svc_list := svc_list (st_launcher s) @ [i], svc_event := False\<rparr>\<rparr>)"
proof -
  have new: "(c, n) \<notin> svc_key ` set (svc_list (st_launcher s))"
  proof
    assume "(c, n) \<in> svc_key ` set (svc_list (st_launcher s))"
    then obtain j where "j \<in> set (svc_list (st_launcher s))" "svc_key j = (c, n)" by force
    with assms(2) same_name_refl [of j] show False by auto
  qed
  then have "(c, n) \<notin> st_dying s" and "\<forall>j \<in> set (svc_list (st_launcher s)). svc_key j \<noteq> (c, n)"
    using assms(1) by (auto simp: svc_inv_def)
  with assms show ?thesis
    by (auto simp: svc_inv_def sorted_wrt_append)
qed

text \<open>A reference that is given up.\<close>

lemma svc_inv_decrement:
  fixes s :: "'a svc_state"
  assumes "svc_inv s" and "(c, n) \<in> st_callers s \<and> C = st_callers s - {(c, n)} \<and> W = st_waits s \<or>
      (c, n) \<in> st_waits s \<and> C = st_callers s \<and> W = st_waits s - {(c, n)}"
  shows "svc_inv (s\<lparr>st_callers := C, st_waits := W,
      st_dying := (if (c, n) \<in> C \<union> W then st_dying s else insert (c, n) (st_dying s)),
      st_launcher := release_decrement c n (st_launcher s)\<rparr>)"
proof -
  define f where "f = (\<lambda>i :: 'a SVC_INSTANCE. if svc_ClassName i = c \<and> svc_InstanceName i = n then i\<lparr>svc_RefCount := svc_RefCount i - 1\<rparr> else i)"
  have key: "svc_key (f i) = svc_key i" for i by (simp add: f_def)
  have "unique_names (map f (svc_list (st_launcher s)))"
    using assms(1) by (intro unique_names_map) (auto simp: svc_inv_def key)
  moreover have "svc_key ` set (map f (svc_list (st_launcher s))) = svc_key ` set (svc_list (st_launcher s))"
    by (intro keys_map) (simp add: key)
  moreover have "svc_RefCount (f i) = of_bool (svc_key (f i) \<in> C) + of_bool (svc_key (f i) \<in> W)"
    if "i \<in> set (svc_list (st_launcher s))" for i
  proof -
    have "svc_RefCount i = of_bool (svc_key i \<in> st_callers s) + of_bool (svc_key i \<in> st_waits s)"
      using assms(1) that by (simp add: svc_inv_def)
    then show ?thesis using assms(2) by (elim disjE conjE) (auto simp: f_def)
  qed
  moreover have "C \<union> W \<union> (if (c, n) \<in> C \<union> W then st_dying s else insert (c, n) (st_dying s)) =
      st_callers s \<union> st_waits s \<union> st_dying s"
    using assms(2) by auto
  moreover have "(if (c, n) \<in> C \<union> W then st_dying s else insert (c, n) (st_dying s)) \<inter> (C \<union> W) = {}"
    using assms by (auto simp: svc_inv_def)
  ultimately show ?thesis
    using assms(1) by (simp add: svc_inv_def release_decrement_def upd_instance_def flip: f_def)
qed

lemma svc_inv_remove:
  assumes "svc_inv s" and "(c, n) \<in> st_dying s"
  shows "svc_inv (s\<lparr>st_dying := st_dying s - {(c, n)}, st_launcher := release_remove c n (st_launcher s)\<rparr>)"
proof -
  let ?rest = "filter (\<lambda>i. \<not> (svc_ClassName i = c \<and> svc_InstanceName i = n)) (svc_list (st_launcher s))"
  have "svc_key ` set ?rest = svc_key ` set (svc_list (st_launcher s)) - {(c, n)}" by force
  moreover have "unique_names ?rest"
    using assms(1) by (simp add: svc_inv_def sorted_wrt_filter)
  ultimately show ?thesis
    using assms by (auto simp: svc_inv_def release_remove_def Let_def)
qed

lemma SvcInstanceKill_same:
  "SvcInstanceKill d forced i = (e, i') \<Longrightarrow> svc_key i' = svc_key i \<and> svc_RefCount i' = svc_RefCount i"
  by (auto simp: SvcInstanceKill_def Let_def split: prod.splits if_splits)

lemma SvcInstanceLookup_in: "SvcInstanceLookup c n pid is = Some i \<Longrightarrow> i \<in> set is"
  by (auto simp: SvcInstanceLookup_def SvcInstanceLookupByPid_def find_Some_iff split: if_splits)

lemma SvcInstanceSetPersistent_same:
  "SvcInstanceSetPersistent sys c n args sd l = (p, l') \<Longrightarrow> svc_list l' = svc_list l \<and> svc_event l' = svc_event l"
  by (auto simp: SvcInstanceSetPersistent_def set_registry_def split: sum.splits if_splits)

lemma SvcInstanceStop_cases:
  assumes "SvcInstanceStop sys dismount token c n forced l = (e, l')"
  obtains "svc_list l' = svc_list l" "svc_event l' = svc_event l"
  | i i' e' where "SvcInstanceLookup c n True (svc_list l) = Some i" "SvcInstanceKill dismount forced i = (e', i')"
      "svc_list l' = map (\<lambda>j. if svc_key j = svc_key i then i' else j) (svc_list l)" "svc_event l' = svc_event l"
proof (cases "SvcInstanceLookup c n True (svc_list l)")
  case None
  with assms that(1) show ?thesis by (simp add: SvcInstanceStop_def)
next
  case (Some i)
  show ?thesis
  proof (cases "sys_access sys token SERVICE_STOP (svc_SecurityDescriptor i) = ERROR_SUCCESS")
    case False
    with assms Some that(1) show ?thesis by (simp add: SvcInstanceStop_def Let_def)
  next
    case True
    obtain e' i' where k: "SvcInstanceKill dismount forced i = (e', i')" by fastforce
    from assms have "svc_list l' = map (\<lambda>j. if svc_key j = svc_key i then i' else j) (svc_list l) \<and> svc_event l' = svc_event l"
      by (auto simp: SvcInstanceStop_def Let_def Some True k upd_instance_def SvcInstanceDeletePersistent_def split: if_splits)
    with Some k that(2) show ?thesis by blast
  qed
qed

lemma svc_inv_stop:
  assumes "svc_inv s" and "SvcInstanceStop sys dismount token c n forced (st_launcher s) = (e, l)"
  shows "svc_inv (s\<lparr>st_launcher := l\<rparr>)"
  using assms(2)
proof (rule SvcInstanceStop_cases)
  assume "svc_list l = svc_list (st_launcher s)" "svc_event l = svc_event (st_launcher s)"
  with assms(1) show ?thesis by (simp add: svc_inv_def)
next
  fix i i' e'
  assume i: "SvcInstanceLookup c n True (svc_list (st_launcher s)) = Some i"
      "SvcInstanceKill dismount forced i = (e', i')"
      "svc_list l = map (\<lambda>j. if svc_key j = svc_key i then i' else j) (svc_list (st_launcher s))"
      "svc_event l = svc_event (st_launcher s)"
  have "svc_RefCount j = svc_RefCount i" if "j \<in> set (svc_list (st_launcher s))" "svc_key j = svc_key i" for j
    using that assms(1) SvcInstanceLookup_in [OF i(1)] by (auto simp: svc_inv_def)
  then show ?thesis
    using SvcInstanceKill_same [OF i(2)] i(3,4) assms(1)
    by (intro svc_inv_map [where f = "\<lambda>j. if svc_key j = svc_key i then i' else j"]) auto
qed

lemma svc_inv_step: "svc_step s t \<Longrightarrow> svc_inv s \<Longrightarrow> svc_inv t"
proof (induction rule: svc_step.induct)
  case (create sys token external c n args s i l)
  from create(1) show ?case
    by (rule SvcInstanceCreate_cases) (use svc_inv_create [OF create(2)] in auto)
next
  case (create_failed sys token external c n args s e l)
  from create_failed(1) show ?case
    by (rule SvcInstanceCreate_cases) (use create_failed(2) in auto)
next
  case (persist c n s sys args sd p l)
  then show ?case
    using SvcInstanceSetPersistent_same [OF persist(2)]
    by (intro svc_inv_map [where f = "\<lambda>i. if svc_ClassName i = c \<and> svc_InstanceName i = n then i\<lparr>svc_Persistent := p\<rparr> else i"])
      (auto simp: upd_instance_def)
next
  case (release c n s)
  then show ?case
    using svc_inv_decrement [of s c n "st_callers s - {(c, n)}" "st_waits s"] by (cases s) auto
next
  case (terminated c n s)
  then show ?case
    using svc_inv_decrement [of s c n "st_callers s" "st_waits s - {(c, n)}"] by (cases s) auto
next
  case (remove c n s)
  then show ?case by (rule svc_inv_remove [rotated])
next
  case (stop sys dismount token c n forced s e l)
  then show ?case by (rule svc_inv_stop [rotated])
next
  case (stop_all s dismounts)
  then show ?case
    by (intro svc_inv_map [where f = "\<lambda>i. snd (SvcInstanceKill (dismounts i) True i)"])
      (simp_all add: SvcInstanceStopAndWaitAll_def SvcInstanceKill_same [OF surjective_pairing])
qed

lemma svc_inv_reachable: "svc_reachable s \<Longrightarrow> svc_inv s"
  by (induction rule: svc_reachable.induct) (simp_all add: svc_inv_def [of "svc_state.make _ _ _ _"] svc_inv_step, simp add: svc_inv_def)

end
