(* ===== verification/Launch_Props.thy ===== *)
theory Launch_Props
  imports Launch_Steps
begin

text \<open>
  The properties of the launcher: its protocol with the client of the DLL, command lines, the list
  of instances and the persistent ones.
\<close>

section \<open>Messages\<close>

text \<open>A string of the client has no zero in it.\<close>

abbreviation zero_free :: "wstr \<Rightarrow> bool" where "zero_free s \<equiv> 0 \<notin> set s"

definition packed :: "wstr list \<Rightarrow> wstr" where "packed ss = concat (map (\<lambda>s. s @ [0]) ss)"

lemma packed_simps [simp]: "packed [] = []" "packed (s # ss) = s @ 0 # packed ss"
  by (simp_all add: packed_def)

lemma GetPart_string [simp]: "zero_free s \<Longrightarrow> SvcPipeTransactGetPart (s @ 0 # rest) = (Some s, rest)"
  by (induction s) auto

lemma get_args_packed: "\<forall>s \<in> set ss. zero_free s \<Longrightarrow> length ss \<le> n \<Longrightarrow> get_args n (packed ss) = ss"
proof (induction ss arbitrary: n)
  case Nil
  then show ?case by (cases n) auto
next
  case (Cons s ss)
  then show ?case by (cases n) auto
qed

lemma launch_args_packed:
  "2 * (length buf + length (packed ss)) \<le> 4096 \<Longrightarrow>
   launch_args (map (\<lambda>s. Some (s, None)) ss) buf = Some (buf @ packed ss)"
  by (induction ss arbitrary: buf) (simp_all add: SPD_LAUNCH_PIPE_BUFFER_SIZE_def)

section \<open>Error codes\<close>

lemma digit_cases:
  assumes "d < 10"
  shows "\<not> (word_of_nat (48 + d) :: u16) < 0x30 \<and> \<not> 0x39 < (word_of_nat (48 + d) :: u16) \<and>
    (ucast (word_of_nat (48 + d) :: u16) :: u32) - 0x30 = of_nat d"
proof -
  from assms have "d \<in> {0, 1, 2, 3, 4, 5, 6, 7, 8, 9}" by auto
  then show ?thesis by (elim insertE) simp_all
qed

lemma launch_error_digit:
  "d < 10 \<Longrightarrow> launch_error (word_of_nat (48 + d) # rest) e = launch_error rest (10 * e + of_nat d)"
  using digit_cases [of d] by simp

lemma launch_error_decimal: "launch_error (decimal n @ rest) 0 = launch_error rest (of_nat n)"
proof (induction n arbitrary: rest rule: decimal.induct)
  case (1 n)
  show ?case
  proof (cases "n < 10")
    case True
    then show ?thesis using launch_error_digit [of n rest 0] by (simp add: decimal.simps [of n])
  next
    case False
    have "launch_error (decimal n @ rest) 0 =
        launch_error (word_of_nat (48 + n mod 10) # rest) (of_nat (n div 10))"
      using 1 False by (simp add: decimal.simps [of n])
    also have "\<dots> = launch_error rest (10 * of_nat (n div 10) + of_nat (n mod 10))"
      by (rule launch_error_digit) simp
    also have "(10 * of_nat (n div 10) + of_nat (n mod 10) :: u32) = of_nat n"
      by (metis mult.commute of_nat_add of_nat_mult of_nat_numeral div_mult_mod_eq)
    finally show ?thesis .
  qed
qed

lemma sint_small: "e < 2 ^ 31 \<Longrightarrow> sint (e :: u32) = uint e"
proof -
  assume "e < 2 ^ 31"
  then have "uint e < 2 ^ 31" by (simp add: word_less_def)
  moreover have "- (2 ^ 31) \<le> uint e" by (rule order_trans [OF _ uint_ge_0]) simp
  ultimately show ?thesis by (simp add: sint_uint signed_take_bit_int_eq_self)
qed

lemma sint_large: "\<not> e < 2 ^ 31 \<Longrightarrow> sint (e :: u32) < 0"
proof -
  assume "\<not> e < 2 ^ 31"
  then have "2 ^ 31 \<le> uint e" by (simp add: word_less_def)
  moreover have "uint e < 2 ^ 32" using uint_bounded [of e] by simp
  ultimately have "uint e div 2 ^ 31 = 1"
    by (intro int_div_pos_eq [where r = "uint e - 2 ^ 31"]) simp_all
  then show ?thesis
    by (simp add: sint_uint bit_iff_odd)
qed

text \<open>The answer of the launcher carries the error of the request. What the client reads from an answer
  is the data of a success, and the error of a failure as long as it is below 2 to the 31; the launcher
  prints larger errors as negative numbers, and the client then reports a broken pipe.\<close>

lemma error_code_round_trip:
  "launch_answer (SvcPipeTransactResult Error Data) =
     (if Error = ERROR_SUCCESS then (ERROR_SUCCESS, Some Data)
      else if Error < 2 ^ 31 then (Error, None) else (ERROR_BROKEN_PIPE, None))"
proof -
  have small: "launch_error (print_ld Error @ [0]) 0 = Error" if "Error < 2 ^ 31"
    using launch_error_decimal [of "unat Error" "[0]"] that
    by (simp add: print_ld_def sint_small flip: unat_eq_nat_uint)
  have large: "launch_error (print_ld Error @ [0]) 0 = 0" if "\<not> Error < 2 ^ 31"
    using sint_large [OF that] by (simp add: print_ld_def)
  show ?thesis
    using small large by (simp add: launch_answer_def SvcPipeTransactResult_def Let_def)
qed


section \<open>Requests of the client\<close>

text \<open>C34: A start request arrives as it was sent. For names and at most 9 arguments without zeros that fit in
  the message, the launcher starts exactly the instance that the client asked for, with the same arguments
  in the same order, and the client gets the error of that start (below 2 to the 31).\<close>

theorem start_request_round_trip:
  assumes "\<forall>s \<in> set (ClassName # InstanceName # Argv). zero_free s" and "length Argv \<le> 9"
    and "2 * (1 + length (packed (ClassName # InstanceName # Argv))) \<le> 4096"
    and "SvcInstanceStart sys token ClassName InstanceName Argv l = Some (Error, l')" and "Error < 2 ^ 31"
  shows "\<exists>msg. SvcPipeTransact sys dismount token msg l = Some (SvcPipeTransactResult Error [], l') \<and>
    SpdLaunchStart (\<lambda>m. if m = msg then Inr (SvcPipeTransactResult Error []) else Inl ERROR_BROKEN_PIPE)
      True ClassName InstanceName Argv =
      (ERROR_SUCCESS, Error, if Error = ERROR_SUCCESS then Some [] else None)"
proof -
  define msg where "msg = SpdLaunchCmdStart # packed (ClassName # InstanceName # Argv)"
  have sent: "launch_args (map (\<lambda>s. Some (s, None)) (ClassName # InstanceName # Argv)) [SpdLaunchCmdStart] = Some msg"
    using assms(3) launch_args_packed [of "[SpdLaunchCmdStart]" "ClassName # InstanceName # Argv"] by (simp add: msg_def)
  have "SvcPipeTransact sys dismount token msg l = Some (SvcPipeTransactResult Error [], l')"
    using assms(1,2,4) by (simp add: SvcPipeTransact_def msg_def get_args_packed)
  moreover have "launch_answer (SvcPipeTransactResult Error []) =
      (Error, if Error = ERROR_SUCCESS then Some [] else None)"
    using assms(5) by (simp add: error_code_round_trip)
  ultimately show ?thesis
    using sent assms(2) by (intro exI [of _ msg]) (simp add: SpdLaunchStart_def SpdLaunchCallLauncherPipe_def)
qed

definition no_class_sys :: "wstr svc_system" where
  "no_class_sys = \<lparr>sys_class = \<lambda>_. Inl ERROR_FILE_NOT_FOUND, sys_convert = \<lambda>_. Inl 1, sys_to_string = \<lambda>_. Inl 1,
     sys_access = \<lambda>_ _ _. 0, sys_add_rights = \<lambda>_ _. Inl 1, sys_allocated = True, sys_process = \<lambda>_ _. Inl 1, sys_wait = 0\<rparr>"

definition empty_launcher :: "'sd launcher" where
  "empty_launcher = \<lparr>svc_list = [], svc_registry = [], svc_event = True\<rparr>"

theorem start_request_round_trip_witness:
  "\<exists>msg. SvcPipeTransact no_class_sys (0, 0, True) 1 msg empty_launcher =
      Some (SvcPipeTransactResult ERROR_FILE_NOT_FOUND [], empty_launcher) \<and>
    SpdLaunchStart (\<lambda>m. if m = msg then Inr (SvcPipeTransactResult ERROR_FILE_NOT_FOUND []) else Inl ERROR_BROKEN_PIPE)
      True [0x61] [0x62] [[0x63, 0x64], []] = (ERROR_SUCCESS, ERROR_FILE_NOT_FOUND, None)"
proof -
  have "SvcInstanceStart no_class_sys 1 [0x61] [0x62] [[0x63, 0x64], []] empty_launcher =
      Some (ERROR_FILE_NOT_FOUND, empty_launcher)"
    by (simp add: SvcInstanceStart_def SvcInstanceCreate_def SvcInstanceLookup_def no_class_sys_def empty_launcher_def
        invariant_wcsicmp_def invariant_toupper_def dot_pid_def)
  from start_request_round_trip [OF _ _ _ this, of "(0, 0, True)"] show ?thesis by simp
qed

section \<open>Answers\<close>

lemma length_decimal: "n < 10 ^ k \<Longrightarrow> 0 < k \<Longrightarrow> length (decimal n) \<le> k"
proof (induction n arbitrary: k rule: decimal.induct)
  case (1 n)
  show ?case
  proof (cases "n < 10")
    case True
    with 1(3) show ?thesis by (simp add: decimal.simps [of n])
  next
    case False
    then obtain j where k: "k = Suc j" "0 < j" using 1(2,3) by (cases k; cases "k - 1") auto
    then have "n div 10 < 10 ^ j" using 1(2) by (simp add: div_less_iff_less_mult)
    with 1(1) [OF False, of j] k show ?thesis by (simp add: decimal.simps [of n] False)
  qed
qed

lemma length_print_ld: "length (print_ld e) \<le> 11"
proof -
  have "- (2 ^ 31) \<le> sint e" "sint e < 2 ^ 31"
    using sint_greater_eq [of e] sint_less [of e] by simp_all
  then have "nat (sint e) < 10 ^ 10" "nat (- sint e) < 10 ^ 10" by (simp_all add: nat_less_iff)
  then have "length (decimal (nat (sint e))) \<le> 10" "length (decimal (nat (- sint e))) \<le> 10"
    by (auto intro!: length_decimal)
  then show ?thesis by (simp add: print_ld_def)
qed

lemma name_list_fits: "length buf \<le> room \<Longrightarrow> length (name_list_loop room is buf) \<le> room"
  by (induction "is" arbitrary: buf) (simp_all add: Let_def)

lemma result_fits: "length Data \<le> 2047 \<Longrightarrow> length (SvcPipeTransactResult Error Data) \<le> 2048"
  using length_print_ld [of Error] by (simp add: SvcPipeTransactResult_def)

text \<open>C35: An answer fits in the buffer of the pipe. Whatever the message is and whatever instances there are,
  the answer, which is built in the buffer of the message, has at most 4096 octets.\<close>

theorem answers_fit_pipe_buffer:
  assumes "SvcPipeTransact sys dismount token msg (l :: 'a launcher) = Some (r, l')"
  shows "2 * length r \<le> unat SPD_LAUNCH_PIPE_BUFFER_SIZE"
proof -
  have size: "unat (SPD_LAUNCH_PIPE_BUFFER_SIZE - 1) = 4095" "unat SPD_LAUNCH_PIPE_BUFFER_SIZE = 4096"
    by (simp_all add: SPD_LAUNCH_PIPE_BUFFER_SIZE_def)
  have info: "length info \<le> 2047"
    if "SvcInstanceGetInfo sys token c n (SPD_LAUNCH_PIPE_BUFFER_SIZE - 1) k = Inr info" for c n and k :: "'a launcher" and info
    using that size by (auto simp: SvcInstanceGetInfo_def Let_def split: option.splits if_splits)
  have names: "length (SvcInstanceGetNameList (SPD_LAUNCH_PIPE_BUFFER_SIZE - 1) k) \<le> 2047" for k :: "'a launcher"
    using name_list_fits [of "[]" 2047 "svc_list k"]
    by (simp add: SvcInstanceGetNameList_def SPD_LAUNCH_PIPE_BUFFER_SIZE_def)
  have "length r \<le> 2048"
    using assms
    by (auto simp: SvcPipeTransact_def Let_def names bind_eq_Some_conv
        split: list.splits prod.splits if_splits option.splits sum.splits
        intro!: result_fits dest!: info)
  then show ?thesis by (simp add: size)
qed

theorem answers_fit_pipe_buffer_witness:
  "\<exists>r. SvcPipeTransact no_class_sys (0, 0, True) 1 [SpdLaunchCmdGetNameList] empty_launcher =
     Some (r, empty_launcher) \<and> 2 * length r \<le> 4096 \<and> r = [SpdLaunchCmdSuccess]"
proof -
  have t: "SvcPipeTransact no_class_sys (0, 0, True) 1 [SpdLaunchCmdGetNameList] empty_launcher =
     Some ([SpdLaunchCmdSuccess], empty_launcher)"
    by (simp add: SvcPipeTransact_def SvcPipeTransactResult_def SvcInstanceGetNameList_def empty_launcher_def)
  from answers_fit_pipe_buffer [OF t] t show ?thesis by (simp add: SPD_LAUNCH_PIPE_BUFFER_SIZE_def)
qed

section \<open>Command lines\<close>

text \<open>What a command line of a class means: characters, and places for arguments.\<close>

datatype cmd_token = Char u16 | Place nat

fun cmd_tokens :: "wstr \<Rightarrow> cmd_token list option" where
  "cmd_tokens [] = Some []"
| "cmd_tokens [c] = (if c = 0x25 then None else Some [Char c])"
| "cmd_tokens (c # d # cs) =
     (if c = 0x25 then map_option ((#) (if is_digit d then Place (unat (d - 0x30)) else Char d)) (cmd_tokens cs)
      else map_option ((#) (Char c)) (cmd_tokens (d # cs)))"

fun token_text :: "wstr list \<Rightarrow> cmd_token \<Rightarrow> wstr" where
  "token_text Argv (Char c) = [c]"
| "token_text Argv (Place i) =
     [quote] @ filter (\<lambda>c. c \<noteq> quote) (if i < length Argv then Argv ! i else []) @ [quote]"

abbreviation cmd_text :: "wstr list \<Rightarrow> cmd_token list \<Rightarrow> wstr" where
  "cmd_text Argv ts \<equiv> concat (map (token_text Argv) ts)"

lemma argument_length: "SvcInstanceArgumentLength Arg = 2 + of_nat (length (filter (\<lambda>c. c \<noteq> quote) Arg))"
proof -
  have "foldl (\<lambda>Length P. if P \<noteq> quote then Length + 1 else Length) n Arg =
      n + of_nat (length (filter (\<lambda>c. c \<noteq> quote) Arg))" for n :: u32
    by (induction Arg arbitrary: n) simp_all
  then show ?thesis by (simp add: SvcInstanceArgumentLength_def)
qed

lemma replace_length_tokens:
  "replace_length Argv s n = map_option (\<lambda>ts. n + of_nat (length (cmd_text Argv ts))) (cmd_tokens s)"
  by (induction s arbitrary: n rule: cmd_tokens.induct)
    (auto simp: argument_length nth_arg_def Let_def option.map_comp comp_def algebra_simps)

lemma replace_copy_tokens:
  "replace_copy Argv s dest = map_option (\<lambda>ts. dest @ cmd_text Argv ts) (cmd_tokens s)"
  by (induction s arbitrary: dest rule: cmd_tokens.induct)
    (auto simp: SvcInstanceArgumentCopy_def nth_arg_def Let_def option.map_comp comp_def)

text \<open>The command line of a new instance is the string of its class with every argument in its place,
  between quotes and without quotes of its own, and a missing argument as an empty one; the buffer that
  the first pass measures has room for what the second pass writes, below 2 to the 32 characters. Only a
  string with a single percent sign at its end is read beyond its end.\<close>

lemma replaced_command_line:
  assumes "\<forall>ts. cmd_tokens s = Some ts \<longrightarrow> length (cmd_text Argv ts) < 2 ^ 32"
  shows "SvcInstanceReplaceArguments True s Argv = map_option (\<lambda>ts. Inr (cmd_text Argv ts)) (cmd_tokens s)"
proof (cases "cmd_tokens s")
  case None
  then show ?thesis by (simp add: SvcInstanceReplaceArguments_def replace_length_tokens)
next
  case (Some ts)
  with assms have "length (cmd_text Argv ts) < 2 ^ 32" by blast
  then have "unat (of_nat (length (cmd_text Argv ts)) :: u32) = length (cmd_text Argv ts)"
    by (simp add: unsigned_of_nat take_bit_nat_eq_self)
  with Some show ?thesis
    by (simp add: SvcInstanceReplaceArguments_def replace_length_tokens replace_copy_tokens)
qed

lemma replaced_command_line_witness:
  "SvcInstanceReplaceArguments True [0x25, 0x30, 0x20, 0x25, 0x31, 0x25] [[0x61], [0x22, 0x62]] = None \<and>
   SvcInstanceReplaceArguments True [0x25, 0x30, 0x20, 0x25, 0x31, 0x25, 0x25] [[0x61], [0x22, 0x62]] =
     Some (Inr [0x22, 0x61, 0x22, 0x20, 0x22, 0x62, 0x22, 0x25])"
  using replaced_command_line [of "[0x25, 0x30, 0x20, 0x25, 0x31, 0x25]" "[[0x61], [0x22, 0x62]]"]
    replaced_command_line [of "[0x25, 0x30, 0x20, 0x25, 0x31, 0x25, 0x25]" "[[0x61], [0x22, 0x62]]"]
  by (simp add: is_digit_def quote_def)

section \<open>Instances\<close>

lemma wcscmp_loop_sym: "wcscmp_loop conv s t = 0 \<longleftrightarrow> wcscmp_loop conv t s = 0"
  by (induction conv s t rule: wcscmp_loop.induct) (auto simp: Let_def)

lemma unique_names_eq:
  "unique_names is \<Longrightarrow> i \<in> set is \<Longrightarrow> j \<in> set is \<Longrightarrow> same_name (svc_ClassName i) (svc_InstanceName i) j \<Longrightarrow> i = j"
  by (induction "is") (auto simp: same_name_def invariant_wcsicmp_def wcscmp_loop_sym)

text \<open>C25: In every state that the threads of the launcher reach, whatever the order of their steps, the
  event for the end of the service is set exactly when there is no instance, no two instances have the
  same names up to case, every instance that a start or a wait still refers to is in the list, and the
  count of an instance is zero only between its last release and its removal.\<close>

theorem instances_counted:
  assumes "svc_reachable s"
  shows "svc_event (st_launcher s) = (svc_list (st_launcher s) = []) \<and>
    (\<forall>i j. i \<in> set (svc_list (st_launcher s)) \<and> j \<in> set (svc_list (st_launcher s)) \<and>
       same_name (svc_ClassName i) (svc_InstanceName i) j \<longrightarrow> i = j) \<and>
    (\<forall>k \<in> st_callers s \<union> st_waits s. \<exists>i \<in> set (svc_list (st_launcher s)). svc_key i = k \<and> svc_RefCount i \<noteq> 0) \<and>
    (\<forall>i \<in> set (svc_list (st_launcher s)). svc_RefCount i = 0 \<longleftrightarrow> svc_key i \<in> st_dying s)"
proof -
  have I: "svc_inv s" by (rule svc_inv_reachable [OF assms])
  then have key: "svc_key ` set (svc_list (st_launcher s)) = st_callers s \<union> st_waits s \<union> st_dying s"
    and disj: "st_dying s \<inter> (st_callers s \<union> st_waits s) = {}"
    and count: "i \<in> set (svc_list (st_launcher s)) \<Longrightarrow>
      svc_RefCount i = of_bool (svc_key i \<in> st_callers s) + of_bool (svc_key i \<in> st_waits s)" for i
    by (simp_all add: svc_inv_def)
  have zero: "svc_RefCount i = 0 \<longleftrightarrow> svc_key i \<in> st_dying s" if i: "i \<in> set (svc_list (st_launcher s))" for i
  proof -
    have "svc_key i \<in> st_callers s \<union> st_waits s \<union> st_dying s" using key i by blast
    then show ?thesis using count [OF i] disj by (auto split: if_splits)
  qed
  have held: "\<exists>i \<in> set (svc_list (st_launcher s)). svc_key i = k \<and> svc_RefCount i \<noteq> 0"
    if k: "k \<in> st_callers s \<union> st_waits s" for k
  proof -
    from k have "k \<in> svc_key ` set (svc_list (st_launcher s))" unfolding key by blast
    then obtain i where i: "i \<in> set (svc_list (st_launcher s))" "svc_key i = k" by blast
    with k disj zero [OF i(1)] show ?thesis by blast
  qed
  show ?thesis
  proof (intro conjI)
    show "svc_event (st_launcher s) = (svc_list (st_launcher s) = [])" using I by (simp add: svc_inv_def)
    show "\<forall>i j. i \<in> set (svc_list (st_launcher s)) \<and> j \<in> set (svc_list (st_launcher s)) \<and>
       same_name (svc_ClassName i) (svc_InstanceName i) j \<longrightarrow> i = j"
      using I unique_names_eq unfolding svc_inv_def by blast
  qed (use held zero in blast)+
qed

lemma upd_last:
  assumes "svc_list l = is @ [k]" and "svc_key k = (c, n)" and "\<forall>j \<in> set is. svc_key j \<noteq> (c, n)"
  shows "upd_instance c n f l = l\<lparr>svc_list := is @ [f k]\<rparr>"
proof -
  have "map (\<lambda>j. if svc_ClassName j = c \<and> svc_InstanceName j = n then f j else j) is = is"
    using assms(3) by (intro map_idI) auto
  with assms(1,2) show ?thesis by (simp add: upd_instance_def)
qed

lemma release_last:
  assumes "svc_list l = is @ [k]" and "svc_key k = (c, n)" and "\<forall>j \<in> set is. svc_key j \<noteq> (c, n)"
  shows "svc_list (SvcInstanceRelease c n l) =
    (if svc_RefCount k = 1 then is else is @ [k\<lparr>svc_RefCount := svc_RefCount k - 1\<rparr>])"
proof -
  have "filter (\<lambda>i. \<not> (svc_ClassName i = c \<and> svc_InstanceName i = n)) is = is"
    using assms(3) by (intro filter_True) auto
  with assms show ?thesis
    using upd_last [OF assms]
    by (auto simp: SvcInstanceRelease_def release_decrement_def release_remove_def Let_def)
qed

text \<open>A start that creates an instance gives up its own reference and no other: the instance is the
  last of the list with one reference, that of the wait for its process, and when the process ends the
  list is what it was before the start.\<close>

lemma start_then_exit:
  assumes "SvcInstanceCreate sys token None c n args l = Some (Inr i, l1)"
  shows "\<exists>j l'. SvcInstanceStart sys token c n args l = Some (ERROR_SUCCESS, l') \<and>
    svc_list l' = svc_list l @ [j] \<and> svc_key j = (c, n) \<and> svc_RefCount j = 1 \<and>
    svc_ProcessId j = svc_ProcessId i \<and> svc_list (SvcInstanceTerminated c n l') = svc_list l"
  using assms
proof (rule SvcInstanceCreate_cases)
  fix k
  assume k: "Inr i = Inr k" "svc_key k = (c, n)" "svc_RefCount k = 2"
    and fresh: "\<forall>j \<in> set (svc_list l). \<not> same_name c n j"
    and l1: "l1 = l\<lparr>svc_list := svc_list l @ [k], svc_event := False\<rparr>"
  obtain p l2 where p: "SvcInstanceSetPersistent sys c n args (svc_SecurityDescriptor i) l1 = (p, l2)" by fastforce
  have other: "\<forall>j \<in> set (svc_list l). svc_key j \<noteq> (c, n)"
    using fresh same_name_refl by fastforce
  have l2: "svc_list l2 = svc_list l @ [k]"
    using SvcInstanceSetPersistent_same [OF p] l1 by simp
  define l3 where "l3 = upd_instance c n (\<lambda>i. i\<lparr>svc_Persistent := p\<rparr>) l2"
  define k1 where "k1 = k\<lparr>svc_Persistent := p\<rparr>"
  have l3: "svc_list l3 = svc_list l @ [k1]" and k1: "svc_key k1 = (c, n)" "svc_RefCount k1 = 2"
    using upd_last [OF l2 k(2) other] k(2,3) by (simp_all add: l3_def k1_def)
  have l': "svc_list (SvcInstanceRelease c n l3) = svc_list l @ [k1\<lparr>svc_RefCount := 1\<rparr>]"
    using release_last [OF l3 k1(1) other] k1(2) by simp
  have "svc_list (SvcInstanceTerminated c n (SvcInstanceRelease c n l3)) = svc_list l"
    using release_last [OF l' _ other] k1(1) by (simp add: SvcInstanceTerminated_def)
  moreover have "SvcInstanceStart sys token c n args l = Some (ERROR_SUCCESS, SvcInstanceRelease c n l3)"
    by (simp add: SvcInstanceStart_def assms p l3_def)
  ultimately show ?thesis
    using l' k1(1) k(1) by (intro exI [of _ "k1\<lparr>svc_RefCount := 1\<rparr>"] exI [of _ "SvcInstanceRelease c n l3"])
      (simp add: k1_def)
qed simp

definition demo_class :: svc_class where
  "demo_class = \<lparr>cls_Executable = Inr [0x78], cls_CommandLine = Inr [0x25, 0x31],
     cls_WorkDirectory = Inl ERROR_FILE_NOT_FOUND, cls_Security = Inr [0x44, 0x3a],
     cls_JobControl = Inl ERROR_FILE_NOT_FOUND, cls_Persistent = Inr 1\<rparr>"

definition demo_sys :: "wstr svc_system" where
  "demo_sys = no_class_sys\<lparr>sys_class := \<lambda>_. Inr demo_class, sys_process := \<lambda>_ _. Inr 7\<rparr>
     \<lparr>sys_convert := \<lambda>s. Inr s, sys_to_string := \<lambda>s. Inr s, sys_add_rights := \<lambda>_ s. Inr s\<rparr>"

definition demo_instance :: "wstr SVC_INSTANCE" where
  "demo_instance = \<lparr>svc_RefCount = 2, svc_ClassName = [0x61], svc_InstanceName = [0x62],
     svc_CommandLine = [0x22, 0x78, 0x22, 0x20, 0x22, 0x63, 0x22],
     svc_SecurityDescriptor = owner_prefix @ [0x44, 0x3a], svc_Persistent = False,
     svc_ProcessId = 7, svc_VolumeHandles = False, svc_Killed = False\<rparr>"

lemma demo_create_instance:
  "SvcInstanceCreate demo_sys 1 None [0x61] [0x62] [[0x63]] empty_launcher =
     Some (Inr demo_instance, empty_launcher\<lparr>svc_list := [demo_instance], svc_event := False\<rparr>)"
  by (simp add: SvcInstanceCreate_def SvcInstanceLookup_def demo_sys_def no_class_sys_def demo_class_def empty_launcher_def
      demo_instance_def invariant_wcsicmp_def invariant_toupper_def dot_pid_def present_def security_string_def
      SvcInstanceReplaceArguments_def command_line_def is_digit_def nth_arg_def SvcInstanceArgumentLength_def
      SvcInstanceArgumentCopy_def quote_def Let_def)

lemma start_then_exit_witness:
  "\<exists>j l'. SvcInstanceStart demo_sys 1 [0x61] [0x62] [[0x63]] empty_launcher = Some (ERROR_SUCCESS, l') \<and>
    svc_list l' = [j] \<and> svc_ProcessId j = 7 \<and> svc_list (SvcInstanceTerminated [0x61] [0x62] l') = []"
  using start_then_exit [OF demo_create_instance] by (auto simp: empty_launcher_def demo_instance_def)

theorem instances_counted_witness:
  "svc_key demo_instance = ([0x61], [0x62]) \<and>
   (\<exists>s. svc_reachable s \<and> svc_list (st_launcher s) = [demo_instance] \<and> st_callers s = {([0x61], [0x62])} \<and>
     \<not> svc_event (st_launcher s))"
proof -
  have "svc_reachable \<lparr>st_callers = {}, st_waits = {}, st_dying = {}, st_launcher = empty_launcher :: wstr launcher\<rparr>"
    unfolding empty_launcher_def by (rule svc_reachable.init)
  from svc_reachable.step [OF this svc_step.create [of demo_sys 1 None "[0x61]" "[0x62]" "[[0x63]]"]]
  have r: "svc_reachable \<lparr>st_callers = {([0x61], [0x62])}, st_waits = {([0x61], [0x62])}, st_dying = {},
      st_launcher = empty_launcher\<lparr>svc_list := [demo_instance], svc_event := False\<rparr>\<rparr>"
    using demo_create_instance by simp
  from instances_counted [OF r] r show ?thesis
    by (auto simp: demo_instance_def intro!: exI)
qed

section \<open>Persistent instances\<close>

lemma start_persistent_append:
  "start_persistent sys (xs @ ys) l = Option.bind (start_persistent sys xs l) (start_persistent sys ys)"
  by (induction xs arbitrary: l) (auto simp: Let_def split_beta intro!: Option.bind_cong split: sum.splits)

text \<open>A persistent instance with arguments is started again with the same arguments. When a start
  with 1 to 9 arguments has recorded an instance, the start of the service creates it with those
  arguments and the security string of the record. An instance without arguments is not started again.\<close>

lemma persistent_restart:
  assumes "SvcInstanceSetPersistent sys c n args sd l = (True, l')" and "sys_to_string sys sd = Inr sec"
    and "length args \<le> 9" and "svc_registry k = svc_registry l'"
  shows "SvcInstanceStartAllPersistent sys k =
    Option.bind (start_persistent sys (filter (\<lambda>(c', n', _). \<not> (c' = c \<and> n' = n)) (svc_registry l)) k)
      (\<lambda>k. if args = [] then Some k
           else map_option (\<lambda>(r, k). case r of Inr _ \<Rightarrow> SvcInstanceRelease c n k | Inl _ \<Rightarrow> k)
             (SvcInstanceCreate sys 0 (Some sec) c n args k))"
proof -
  have reg: "svc_registry l' = filter (\<lambda>(c', n', _). \<not> (c' = c \<and> n' = n)) (svc_registry l) @ [(c, n, args @ [sec])]"
    using assms(1,2)
    by (auto simp: SvcInstanceSetPersistent_def set_registry_def split: sum.splits if_splits)
  have strings: "persistent_strings (args @ [sec]) = args @ [sec, []]"
    using assms(3) by (simp add: persistent_strings_def)
  show ?thesis
    unfolding SvcInstanceStartAllPersistent_def assms(4) reg start_persistent_append
    by (rule arg_cong [where f = "Option.bind _"], rule ext)
      (auto simp: strings Let_def nth_append map_option_case split: option.splits)
qed

lemma persistent_restart_witness:
  "SvcInstanceStartAllPersistent demo_sys (empty_launcher\<lparr>svc_registry := [([0x61], [0x62], [[0x63], [1]])]\<rparr>) =
     map_option (\<lambda>(r, k). case r of Inr _ \<Rightarrow> SvcInstanceRelease [0x61] [0x62] k | Inl _ \<Rightarrow> k)
       (SvcInstanceCreate demo_sys 0 (Some [1]) [0x61] [0x62] [[0x63]]
          (empty_launcher\<lparr>svc_registry := [([0x61], [0x62], [[0x63], [1]])]\<rparr>)) \<and>
   SvcInstanceStartAllPersistent demo_sys (empty_launcher\<lparr>svc_registry := [([0x61], [0x62], [[1]])]\<rparr>) =
     Some (empty_launcher\<lparr>svc_registry := [([0x61], [0x62], [[1]])]\<rparr>)"
proof -
  have p: "SvcInstanceSetPersistent demo_sys [0x61] [0x62] args [1] empty_launcher =
      (True, empty_launcher\<lparr>svc_registry := [([0x61], [0x62], args @ [[1]])]\<rparr>)" for args
    by (simp add: SvcInstanceSetPersistent_def demo_sys_def no_class_sys_def demo_class_def set_registry_def empty_launcher_def)
  have sec: "sys_to_string demo_sys [1] = Inr [1]" by (simp add: demo_sys_def)
  from persistent_restart [OF p sec, of "[[0x63]]" "empty_launcher\<lparr>svc_registry := [([0x61], [0x62], [[0x63], [1]])]\<rparr>"]
    persistent_restart [OF p sec, of "[]" "empty_launcher\<lparr>svc_registry := [([0x61], [0x62], [[1]])]\<rparr>"]
  show ?thesis by (simp add: empty_launcher_def)
qed

end
