(* ===== verification/StgTest.thy ===== *)
theory StgTest
  imports Block_Device Shared_Util
begin

text \<open>
  The tester of storage units: src/stgtest/stgtest.c. It opens a unit, over its pipe or as a raw
  volume, sends it reads, writes, flushes and unmaps, and compares what it reads with what it wrote.

  The outcomes of the system calls are arguments; the unit is a state \<open>'w\<close> that a call may change.
\<close>

section \<open>Opening\<close>

abbreviation ERROR_PIPE_BUSY :: u32 where "ERROR_PIPE_BUSY \<equiv> 231"
abbreviation ERROR_IO_DEVICE :: u32 where "ERROR_IO_DEVICE \<equiv> 1117"

text \<open>
  \<open>opened\<close> and \<open>again\<close> are the outcomes of the two tries to open the pipe, \<open>pipe_mode\<close> the error of setting
  its mode, \<open>params\<close> the outcome of the read: how many octets came, and the parameters. The result of an
  error has the handle that is closed.
\<close>

definition StgOpenPipe ::
    "u32 + ptr \<Rightarrow> u32 + ptr \<Rightarrow> u32 \<Rightarrow> u32 + u32 \<times> SPD_IOCTL_STORAGE_UNIT_PARAMS \<Rightarrow>
     u32 \<times> ptr option + ptr \<times> SPD_IOCTL_STORAGE_UNIT_PARAMS" where
  "StgOpenPipe opened again pipe_mode params =
     (case (case opened of Inl Error \<Rightarrow> if Error \<noteq> ERROR_PIPE_BUSY then Inl Error else again | Inr h \<Rightarrow> Inr h) of
        Inl Error \<Rightarrow> Inl (Error, None)
      | Inr Handle \<Rightarrow>
          if pipe_mode \<noteq> ERROR_SUCCESS then Inl (pipe_mode, Some Handle)
          else (case params of
              Inl Error \<Rightarrow> Inl (Error, Some Handle)
            | Inr (n, par) \<Rightarrow>
                if n < 128 \<or> BlockCount par = 0 \<or> BlockLength par < 16 \<or> MaxTransferLength par = 0 \<or>
                   MaxTransferLength par mod BlockLength par \<noteq> 0
                then Inl (ERROR_IO_DEVICE, Some Handle)
                else Inr (SetPipeHandle Handle, par)))"

definition zero_params :: SPD_IOCTL_STORAGE_UNIT_PARAMS where
  "zero_params = \<lparr>Guid = NullGuid, BlockCount = 0, BlockLength = 0, ProductId = replicate 16 0,
     ProductRevisionLevel = replicate 4 0, DeviceType = 0, WriteProtected = False, CacheSupported = False,
     UnmapSupported = False, EjectDisabled = False, MaxTransferLength = 0\<rparr>"

text \<open>An inquiry for the page of the block limits.\<close>

definition block_limits_cdb :: bytes where
  "block_limits_cdb = [0x12, 1, 0xb0, 0, 255, 0] @ replicate 10 0"

text \<open>
  The limit of one transfer in octets, from the blocks that the page names; three times of it are
  used, so that the driver splits requests.
\<close>

definition raw_transfer_length :: "u32 \<Rightarrow> bytes \<Rightarrow> u32" where
  "raw_transfer_length Length page =
     (let n = Length * get32 (slice page 8 4)
      in (if n = 0 then 64 * 1024 else n) * 3)"

text \<open>\<open>size_info\<close>: the allocation units of the volume, the sectors of one and the octets of a sector.\<close>

definition StgOpenRaw ::
    "(SCSI_PASS_THROUGH \<Rightarrow> bytes \<Rightarrow> 's \<Rightarrow> (u32 + SCSI_PASS_THROUGH \<times> bytes) \<times> 's) \<Rightarrow>
     u32 + ptr \<Rightarrow> u32 + u64 \<times> u32 \<times> u32 \<Rightarrow> 's \<Rightarrow>
     (u32 \<times> ptr option + ptr \<times> SPD_IOCTL_STORAGE_UNIT_PARAMS) \<times> 's" where
  "StgOpenRaw scsi_io opened size_info s =
     (case opened of
        Inl Error \<Rightarrow> (Inl (Error, None), s)
      | Inr Handle \<Rightarrow>
          (case size_info of
             Inl Error \<Rightarrow> (Inl (Error, Some Handle), s)
           | Inr (Units, SectorsPerUnit, BytesPerSector) \<Rightarrow>
               (case SpdIoctlScsiExecute scsi_io 0 block_limits_cdb 1 (replicate 255 0) (Some 255) s of
                  (Inl Error, s) \<Rightarrow> (Inl (Error, Some Handle), s)
                | (Inr (n, Status, Sense, page), s) \<Rightarrow>
                    let par = zero_params\<lparr>BlockCount := Units * ucast SectorsPerUnit, BlockLength := BytesPerSector,
                          MaxTransferLength := raw_transfer_length BytesPerSector page\<rparr>
                    in if Status \<noteq> SCSISTAT_GOOD \<or> BlockCount par = 0 \<or> BlockLength par = 0
                       then (Inl (ERROR_IO_DEVICE, Some Handle), s)
                       else (Inr (Handle, par), s))))"

text \<open>The name selects how to open; a handle is marked for the other calls.\<close>

definition StgOpen :: "wstr \<Rightarrow> 'r \<Rightarrow> 'r \<Rightarrow> 'r" where
  "StgOpen Name pipe raw = (if is_pipe_name Name then pipe else raw)"

text \<open>\<open>closed\<close> is whether \<open>CloseHandle\<close> succeeds on a handle, or its error.\<close>

definition StgClose :: "(ptr \<Rightarrow> u32) \<Rightarrow> ptr \<Rightarrow> u32" where
  "StgClose closed Handle = (if IsPipeHandle Handle then closed (GetPipeHandle Handle) else closed Handle)"

section \<open>Requests\<close>

text \<open>
  The outcomes of a request: the event for the overlapped structure, the memory for the message, and
  what the unit does. \<open>si_call\<close> writes a message of a request and data to the pipe and reads the answer:
  an error, or the message, which is \<open>None\<close> when it is shorter than a response. \<open>si_write\<close> and \<open>si_read\<close>
  access the volume at an offset; they return an error or what was transferred.
\<close>

record 'w stg_io =
  si_init_error :: u32
  si_allocated :: bool
  si_call :: "SPD_IOCTL_TRANSACT_REQ \<Rightarrow> bytes \<Rightarrow> 'w \<Rightarrow> (u32 + (SPD_IOCTL_TRANSACT_RSP \<times> bytes) option) \<times> 'w"
  si_write :: "u64 \<Rightarrow> bytes \<Rightarrow> 'w \<Rightarrow> (u32 + u32) \<times> 'w"
  si_read :: "u64 \<Rightarrow> u32 \<Rightarrow> 'w \<Rightarrow> (u32 + bytes) \<times> 'w"

text \<open>The octets of the data buffer that go with a request.\<close>

definition pipe_data_length :: "SPD_IOCTL_STORAGE_UNIT_PARAMS \<Rightarrow> SPD_IOCTL_TRANSACT_REQ \<Rightarrow> u32" where
  "pipe_data_length par Req =
     (if Req_Kind Req = SpdIoctlTransactWriteKind then Op_BlockCount (Req_Op Req) * BlockLength par
      else if Req_Kind Req = SpdIoctlTransactUnmapKind then Op_UnmapCount (Req_Op Req) * 16
      else 0)"

text \<open>
  The result is \<open>None\<close> when a copy would leave the message, which has room for the maximum transfer
  length, or the data buffer.
\<close>

definition StgTransactPipe ::
    "'w stg_io \<Rightarrow> SPD_IOCTL_STORAGE_UNIT_PARAMS \<Rightarrow> SPD_IOCTL_TRANSACT_REQ option \<Rightarrow>
     SPD_IOCTL_TRANSACT_RSP option \<Rightarrow> bytes option \<Rightarrow> 'w \<Rightarrow>
     (u32 \<times> SPD_IOCTL_TRANSACT_RSP option \<times> bytes option \<times> 'w) option" where
  "StgTransactPipe si par Req Rsp Data w =
     (case (Req, Rsp) of
        (Some Req, Some _) \<Rightarrow>
          if si_init_error si \<noteq> ERROR_SUCCESS then Some (si_init_error si, Rsp, Data, w)
          else if \<not> si_allocated si then Some (ERROR_NO_SYSTEM_RESOURCES, Rsp, Data, w)
          else
            let n = (case Data of None \<Rightarrow> 0 | Some _ \<Rightarrow> pipe_data_length par Req);
                out = (case Data of None \<Rightarrow> [] | Some D \<Rightarrow> D)
            in if MaxTransferLength par < n \<or> length out < unat n then None
               else (case si_call si Req (slice out 0 (unat n)) w of
                   (Inl Error, w) \<Rightarrow> Some (Error, Rsp, Data, w)
                 | (Inr None, w) \<Rightarrow> Some (ERROR_IO_DEVICE, Rsp, Data, w)
                 | (Inr (Some (Msg, d)), w) \<Rightarrow>
                     if Rsp_Hint Msg \<noteq> Req_Hint Req then Some (ERROR_IO_DEVICE, Rsp, Data, w)
                     else if Rsp_Kind Msg = SpdIoctlTransactReadKind \<and> ScsiStatus (Rsp_Status Msg) = SCSISTAT_GOOD
                     then (let n = Op_BlockCount (Req_Op Req) * BlockLength par;
                               k = min (length d) (unat n)
                           in if MaxTransferLength par < n then Some (ERROR_IO_DEVICE, Rsp, Data, w)
                              else if length out < unat n then None
                              else Some (ERROR_SUCCESS, Some Msg,
                                     map_option (\<lambda>D. put k (replicate (unat n - k) 0) (put 0 (take k d) D)) Data, w))
                     else Some (ERROR_SUCCESS, Some Msg, Data, w))
      | _ \<Rightarrow> Some (ERROR_INVALID_PARAMETER, Rsp, Data, w))"

definition StgTransactRaw ::
    "'w stg_io \<Rightarrow> SPD_IOCTL_STORAGE_UNIT_PARAMS \<Rightarrow> SPD_IOCTL_TRANSACT_REQ option \<Rightarrow>
     SPD_IOCTL_TRANSACT_RSP option \<Rightarrow> bytes option \<Rightarrow> 'w \<Rightarrow>
     (u32 \<times> SPD_IOCTL_TRANSACT_RSP option \<times> bytes option \<times> 'w) option" where
  "StgTransactRaw si par Req Rsp Data w =
     (case (Req, Rsp, Data) of
        (Some Req, Some _, Some D) \<Rightarrow>
          if Req_Kind Req \<noteq> SpdIoctlTransactReadKind \<and> Req_Kind Req \<noteq> SpdIoctlTransactWriteKind
          then Some (ERROR_INVALID_PARAMETER, Rsp, Data, w)
          else if si_init_error si \<noteq> ERROR_SUCCESS then Some (si_init_error si, Rsp, Data, w)
          else
            let off = Op_BlockAddress (Req_Op Req) * ucast (BlockLength par);
                n = Op_BlockCount (Req_Op Req) * BlockLength par;
                good = Some \<lparr>Rsp_Hint = Req_Hint Req, Rsp_Kind = Req_Kind Req, Rsp_Status = zero_status\<rparr>
            in if length D < unat n then None
               else if Req_Kind Req = SpdIoctlTransactWriteKind
               then (case si_write si off (slice D 0 (unat n)) w of
                   (Inl Error, w) \<Rightarrow> Some (Error, Rsp, Data, w)
                 | (Inr m, w) \<Rightarrow>
                     if n \<noteq> m then Some (ERROR_IO_DEVICE, Rsp, Data, w) else Some (ERROR_SUCCESS, good, Data, w))
               else (case si_read si off n w of
                   (Inl Error, w) \<Rightarrow> Some (Error, Rsp, Data, w)
                 | (Inr d, w) \<Rightarrow>
                     let Data = Some (put 0 (take (unat n) d) D)
                     in if unat n \<noteq> length d then Some (ERROR_IO_DEVICE, Rsp, Data, w)
                        else Some (ERROR_SUCCESS, good, Data, w))
      | _ \<Rightarrow> Some (ERROR_INVALID_PARAMETER, Rsp, Data, w))"

definition StgTransact ::
    "'w stg_io \<Rightarrow> SPD_IOCTL_STORAGE_UNIT_PARAMS \<Rightarrow> ptr \<Rightarrow> SPD_IOCTL_TRANSACT_REQ option \<Rightarrow>
     SPD_IOCTL_TRANSACT_RSP option \<Rightarrow> bytes option \<Rightarrow> 'w \<Rightarrow>
     (u32 \<times> SPD_IOCTL_TRANSACT_RSP option \<times> bytes option \<times> 'w) option" where
  "StgTransact si par Handle Req Rsp Data w =
     (if IsPipeHandle Handle then StgTransactPipe si par Req Rsp Data w
      else StgTransactRaw si par Req Rsp Data w)"

section \<open>Contents of a block\<close>

text \<open>
  A block is filled with the hash of its address plus 1, in each whole group of 8 octets; the kind
  selects whether to fill, to test for that, or to test for zeros. \<open>None\<close> is an access outside of the
  buffer; the flag is the result of a test.
\<close>

definition fill_word :: "u8 \<Rightarrow> u64 \<Rightarrow> nat \<Rightarrow> bytes \<Rightarrow> (bool \<times> bytes) option" where
  "fill_word Kind h off b =
     (if length b < off + 8 then None
      else if Kind = SpdIoctlTransactReservedKind then Some (True, put off (le64 h) b)
      else if Kind = SpdIoctlTransactWriteKind then Some (getl64 (slice b off 8) = h, b)
      else if Kind = SpdIoctlTransactUnmapKind then Some (getl64 (slice b off 8) = 0, b)
      else Some (True, b))"

fun fill_words :: "u8 \<Rightarrow> u64 \<Rightarrow> nat \<Rightarrow> nat list \<Rightarrow> bytes \<Rightarrow> (bool \<times> bytes) option" where
  "fill_words Kind h base [] b = Some (True, b)"
| "fill_words Kind h base (J # Js) b =
     (case fill_word Kind h (base + 8 * J) b of
        None \<Rightarrow> None
      | Some (ok, b) \<Rightarrow> if \<not> ok then Some (False, b) else fill_words Kind h base Js b)"

fun fill_blocks :: "u8 \<Rightarrow> u32 \<Rightarrow> u64 \<Rightarrow> nat list \<Rightarrow> bytes \<Rightarrow> (bool \<times> bytes) option" where
  "fill_blocks Kind Length BlockAddress [] b = Some (True, b)"
| "fill_blocks Kind Length BlockAddress (I # Is) b =
     (case fill_words Kind (HashMix64 (BlockAddress + of_nat I + 1)) (unat (of_nat I * Length))
             [0..<unat (Length div 8)] b of
        None \<Rightarrow> None
      | Some (ok, b) \<Rightarrow> if \<not> ok then Some (False, b) else fill_blocks Kind Length BlockAddress Is b)"

definition FillOrTest :: "bytes \<Rightarrow> u32 \<Rightarrow> u64 \<Rightarrow> u32 \<Rightarrow> u8 \<Rightarrow> (bool \<times> bytes) option" where
  "FillOrTest Data Length BlockAddress Count Kind =
     fill_blocks Kind Length BlockAddress [0..<unat Count] Data"

section \<open>Random numbers\<close>

fun random_loop :: "nat \<Rightarrow> u32 \<Rightarrow> bytes \<times> u32" where
  "random_loop 0 Seed = ([], Seed)"
| "random_loop (Suc n) Seed =
     (let Seed = Seed * 214013 + 2531011
      in case random_loop n Seed of (bs, s) \<Rightarrow> (ucast (drop_bit 16 Seed) # bs, s))"

definition GenRandomBytes :: "u32 \<Rightarrow> nat \<Rightarrow> bytes \<times> u32" where
  "GenRandomBytes Seed Size = random_loop Size (if Seed \<noteq> 0 then Seed else 1)"

section \<open>A run\<close>

definition op_kind_of :: "u16 \<Rightarrow> u8 option" where
  "op_kind_of c =
     (if c = 0x52 \<or> c = 0x72 then Some SpdIoctlTransactReadKind
      else if c = 0x57 \<or> c = 0x77 then Some SpdIoctlTransactWriteKind
      else if c = 0x46 \<or> c = 0x66 then Some SpdIoctlTransactFlushKind
      else if c = 0x55 \<or> c = 0x75 then Some SpdIoctlTransactUnmapKind
      else None)"

text \<open>The first 32 characters count; no operation stands for a write and a read.\<close>

definition op_kinds :: "wstr \<Rightarrow> u8 list" where
  "op_kinds OpSet =
     (let ks = List.map_filter op_kind_of (take 32 OpSet)
      in if ks = [] then [SpdIoctlTransactWriteKind, SpdIoctlTransactReadKind] else ks)"

text \<open>What the loop carries from one operation to the next.\<close>

record 'w stg_run =
  rn_J :: nat
  rn_Address :: u64
  rn_Count :: u32
  rn_OpCount :: u32
  rn_Test :: u8
  rn_Seed :: u32
  rn_Data :: bytes
  rn_unit :: 'w

text \<open>
  The blocks for the next round of operations. A remainder by a limit of no blocks does not return.
\<close>

definition next_address :: "SPD_IOCTL_STORAGE_UNIT_PARAMS \<Rightarrow> bool \<Rightarrow> nat \<Rightarrow> 'w stg_run \<Rightarrow> 'w stg_run" where
  "next_address par RandomAddress I s =
     (let s = (if RandomAddress
               then (case GenRandomBytes (rn_Seed s) 8 of
                       (bs, Seed) \<Rightarrow> s\<lparr>rn_Address := getl64 bs, rn_Seed := Seed\<rparr>)
               else if I \<noteq> 0 then s\<lparr>rn_Address := rn_Address s + ucast (rn_Count s)\<rparr> else s)
      in s\<lparr>rn_Address := rn_Address s mod BlockCount par\<rparr>)"

definition next_count ::
    "SPD_IOCTL_STORAGE_UNIT_PARAMS \<Rightarrow> bool \<Rightarrow> 'w stg_run \<Rightarrow> 'w stg_run option" where
  "next_count par RandomCount s =
     (let Max = MaxTransferLength par div BlockLength par
      in if RandomCount \<and> Max = 0 then None
         else
           let s = (if RandomCount
                    then (case GenRandomBytes (rn_Seed s) 4 of
                            (bs, Seed) \<Rightarrow> s\<lparr>rn_Count := getl32 bs mod Max, rn_Seed := Seed\<rparr>)
                    else if Max < rn_Count s then s\<lparr>rn_Count := Max\<rparr> else s);
               s = (if rn_Count s = 0 then s\<lparr>rn_Count := 1\<rparr> else s)
           in Some (s\<lparr>rn_OpCount := (if rn_Address s + ucast (rn_Count s) \<le> BlockCount par then rn_Count s
                                     else ucast (BlockCount par - rn_Address s)),
                      rn_Test := SpdIoctlTransactReservedKind\<rparr>))"

text \<open>
  The request of one operation, with the buffer that goes with it and the test for the reads that
  follow.
\<close>

definition range_op :: "bool \<Rightarrow> SPD_IOCTL_STORAGE_UNIT_PARAMS \<Rightarrow> u64 \<Rightarrow> u32 \<Rightarrow> TRANSACT_OP" where
  "range_op fua par BlockAddress Count =
     (let u = Op_set_BlockCount Count (Op_set_BlockAddress BlockAddress (Req_Op zero_req))
      in if fua then Op_set_ForceUnitAccess (if CacheSupported par then 0 else 1) u else u)"

definition stg_request ::
    "SPD_IOCTL_STORAGE_UNIT_PARAMS \<Rightarrow> u32 \<Rightarrow> u32 \<Rightarrow> u8 \<Rightarrow> 'w stg_run \<Rightarrow>
     (SPD_IOCTL_TRANSACT_REQ \<times> 'w stg_run) option" where
  "stg_request par ThreadId I Kind s =
     (let Req = zero_req\<lparr>Req_Hint := push_bit 32 (ucast ThreadId) OR ucast I, Req_Kind := Kind\<rparr>;
          a = rn_Address s; n = rn_OpCount s
      in if Kind = SpdIoctlTransactReadKind then Some (Req\<lparr>Req_Op := range_op True par a n\<rparr>, s)
         else if Kind = SpdIoctlTransactWriteKind then
           map_option (\<lambda>(_, D). (Req\<lparr>Req_Op := range_op True par a n\<rparr>,
               s\<lparr>rn_Data := D, rn_Test := SpdIoctlTransactWriteKind\<rparr>))
             (FillOrTest (rn_Data s) (BlockLength par) a n SpdIoctlTransactReservedKind)
         else if Kind = SpdIoctlTransactFlushKind then Some (Req\<lparr>Req_Op := range_op False par a n\<rparr>, s)
         else if Kind = SpdIoctlTransactUnmapKind then
           (if length (rn_Data s) < 16 then None
            else Some (Req\<lparr>Req_Op := Op_set_UnmapCount 1 (Req_Op zero_req)\<rparr>,
                   s\<lparr>rn_Data := put 0 (le64 a @ le32 n @ le32 0) (rn_Data s), rn_Test := SpdIoctlTransactUnmapKind\<rparr>))
         else Some (Req, s))"

text \<open>The checks of a response, and of the data after a read.\<close>

definition stg_check ::
    "SPD_IOCTL_STORAGE_UNIT_PARAMS \<Rightarrow> SPD_IOCTL_TRANSACT_REQ \<Rightarrow> SPD_IOCTL_TRANSACT_RSP \<Rightarrow> 'w stg_run \<Rightarrow>
     u32 option" where
  "stg_check par Req Rsp s =
     (if Req_Hint Req \<noteq> Rsp_Hint Rsp \<or> Req_Kind Req \<noteq> Rsp_Kind Rsp \<or> ScsiStatus (Rsp_Status Rsp) \<noteq> SCSISTAT_GOOD
      then Some ERROR_IO_DEVICE
      else if Rsp_Kind Rsp = SpdIoctlTransactReadKind \<and>
         (rn_Test s = SpdIoctlTransactWriteKind \<or> rn_Test s = SpdIoctlTransactUnmapKind)
      then map_option (\<lambda>(ok, _). if ok then ERROR_SUCCESS else ERROR_IO_DEVICE)
             (FillOrTest (rn_Data s) (BlockLength par) (rn_Address s) (rn_OpCount s) (rn_Test s))
      else Some ERROR_SUCCESS)"

text \<open>One turn of the loop: the error, which ends the loop if there is one, and the state.\<close>

definition stg_turn ::
    "'w stg_io \<Rightarrow> SPD_IOCTL_STORAGE_UNIT_PARAMS \<Rightarrow> ptr \<Rightarrow> u32 \<Rightarrow> u8 list \<Rightarrow> bool \<Rightarrow> bool \<Rightarrow> nat \<Rightarrow>
     'w stg_run \<Rightarrow> (u32 \<times> 'w stg_run) option" where
  "stg_turn si par Handle ThreadId kinds RandomAddress RandomCount I s = do {
     s \<leftarrow> (if rn_J s = 0 then next_count par RandomCount (next_address par RandomAddress I s) else Some s);
     (Req, s) \<leftarrow> stg_request par ThreadId (of_nat I) (kinds ! (I mod length kinds)) s;
     (Error, Rsp, Data, w) \<leftarrow> StgTransact si par Handle (Some Req) (Some zero_rsp) (Some (rn_Data s)) (rn_unit s);
     let s = s\<lparr>rn_Data := the Data, rn_unit := w\<rparr>;
     if Error \<noteq> ERROR_SUCCESS then Some (Error, s)
     else do {
       Error \<leftarrow> stg_check par Req (the Rsp) s;
       Some (Error, if Error = ERROR_SUCCESS then s\<lparr>rn_J := (rn_J s + 1) mod length kinds\<rparr> else s)
     }
   }"

fun stg_loop ::
    "'w stg_io \<Rightarrow> SPD_IOCTL_STORAGE_UNIT_PARAMS \<Rightarrow> ptr \<Rightarrow> u32 \<Rightarrow> u8 list \<Rightarrow> bool \<Rightarrow> bool \<Rightarrow> nat list \<Rightarrow>
     'w stg_run \<Rightarrow> (u32 \<times> 'w stg_run) option" where
  "stg_loop si par Handle ThreadId kinds ra rc [] s = Some (ERROR_SUCCESS, s)"
| "stg_loop si par Handle ThreadId kinds ra rc (I # Is) s = do {
     (Error, s) \<leftarrow> stg_turn si par Handle ThreadId kinds ra rc I s;
     if Error \<noteq> ERROR_SUCCESS then Some (Error, s) else stg_loop si par Handle ThreadId kinds ra rc Is s
   }"

text \<open>
  \<open>opened\<close> is the result of opening the unit, \<open>alloc\<close> the allocator of the data buffer. The result is the
  error, the seed for the next run and the unit.
\<close>

definition stgtest_run ::
    "'w stg_io \<Rightarrow> u32 \<times> ptr option + ptr \<times> SPD_IOCTL_STORAGE_UNIT_PARAMS \<Rightarrow> (u32 \<Rightarrow> bytes option) \<Rightarrow> u32 \<Rightarrow>
     u32 \<Rightarrow> wstr \<Rightarrow> u64 \<Rightarrow> u32 \<Rightarrow> u32 \<Rightarrow> 'w \<Rightarrow> (u32 \<times> u32 \<times> 'w) option" where
  "stgtest_run si opened alloc ThreadId OpCount OpSet BlockAddress Count Seed w =
     (case opened of
        Inl (Error, _) \<Rightarrow> Some (Error, Seed, w)
      | Inr (Handle, par) \<Rightarrow>
          (case alloc (MaxTransferLength par) of
             None \<Rightarrow> Some (ERROR_NO_SYSTEM_RESOURCES, Seed, w)
           | Some Data \<Rightarrow>
               map_option (\<lambda>(Error, s). (Error, rn_Seed s, rn_unit s))
                 (stg_loop si par Handle ThreadId (op_kinds OpSet) (BlockAddress = - 1) (Count = - 1)
                   [0..<unat (if OpCount = 0 then 1 else OpCount)]
                   \<lparr>rn_J = 0, rn_Address = BlockAddress, rn_Count = Count, rn_OpCount = 0, rn_Test = 0,
                    rn_Seed = Seed, rn_Data = Data, rn_unit = w\<rparr>)))"

section \<open>The command line\<close>

record stg_args =
  arg_Name :: wstr
  arg_OpCount :: u32
  arg_OpSet :: wstr
  arg_Address :: u64
  arg_Count :: u32
  arg_Seed :: u32

definition wcstoint0 :: "wstr \<Rightarrow> u64" where
  "wcstoint0 s = fst (strtoint (map uint s) 0 False)"

text \<open>
  The arguments behind the name of the program; \<open>tick\<close> is the time that is the seed by default. \<open>None\<close> is
  the message about the usage. A star stands for a random address or count.
\<close>

definition stgtest_args :: "u32 \<Rightarrow> wstr list \<Rightarrow> stg_args option" where
  "stgtest_args tick argv =
     (case (case argv of o1 # o2 # rest \<Rightarrow> if o1 = [0x2d, 0x73] then (ucast (wcstoint0 o2), rest) else (tick, argv)
                       | _ \<Rightarrow> (tick, argv)) of
        (Seed, argv) \<Rightarrow>
          if length argv < 2 \<or> 5 < length argv then None
          else Some \<lparr>arg_Name = argv ! 0, arg_OpCount = ucast (wcstoint0 (argv ! 1)),
            arg_OpSet = (if 3 \<le> length argv then argv ! 2 else []),
            arg_Address = (if 4 \<le> length argv then (if argv ! 3 = [0x2a] then - 1 else wcstoint0 (argv ! 3)) else 0),
            arg_Count = (if 5 \<le> length argv then (if argv ! 4 = [0x2a] then - 1 else ucast (wcstoint0 (argv ! 4))) else 0),
            arg_Seed = Seed\<rparr>)"

end
