(* ===== verification/StgTest_Props.thy ===== *)
theory StgTest_Props
  imports StgTest User_Props Transfers
begin

text \<open>
  What the tester promises: the contents that it writes name the block and never look like an unmapped
  one, no unit makes it leave its buffers, and a unit in working order behind the pipe of the DLL passes.
\<close>

section \<open>The hash of an address\<close>

text \<open>Each step of the hash can be undone: a shift by more than half of the width, and an odd factor.\<close>

definition xor_shift :: "u64 \<Rightarrow> u64" where "xor_shift k = k XOR drop_bit 33 k"

lemma xor_shift_twice: "xor_shift (xor_shift k) = k"
proof -
  have "drop_bit 33 (drop_bit 33 k) = 0"
    by (rule bit_word_eqI) (auto simp: bit_simps dest: bit_imp_le_length)
  then show ?thesis by (simp add: xor_shift_def xor.assoc)
qed

lemma xor_shift_inject: "xor_shift k = xor_shift j \<longleftrightarrow> k = j"
proof
  assume "xor_shift k = xor_shift j"
  then have "xor_shift (xor_shift k) = xor_shift (xor_shift j)" by (rule arg_cong)
  then show "k = j" by (simp only: xor_shift_twice)
qed simp

lemma factor_inject:
  assumes "c * c' = (1 :: u64)"
  shows "k * c = j * c \<longleftrightarrow> k = j"
proof
  assume "k * c = j * c"
  then have "k * c * c' = j * c * c'" by simp
  then show "k = j" by (simp add: mult.assoc assms)
qed simp

lemma HashMix64_inject: "HashMix64 k = HashMix64 j \<longleftrightarrow> k = j"
  by (simp add: HashMix64_def Let_def xor_shift_def [symmetric] xor_shift_inject
      factor_inject [of "0xff51afd7ed558ccd" "0x4f74430c22a54005"]
      factor_inject [of "0xc4ceb9fe1a85ec53" "0x9cb4b2f8129337db"])

lemma HashMix64_0: "HashMix64 k = 0 \<longleftrightarrow> k = 0"
proof -
  have "HashMix64 0 = 0" by (simp add: HashMix64_def)
  then show ?thesis using HashMix64_inject [of k 0] by simp
qed

section \<open>Filling and testing\<close>

text \<open>The blocks of a list from an offset on have their contents, or are zero.\<close>

definition filled :: "nat \<Rightarrow> u64 \<Rightarrow> nat \<Rightarrow> bytes \<Rightarrow> nat \<Rightarrow> bool" where
  "filled BL a n b off \<longleftrightarrow>
     (\<forall>I<n. \<forall>J<BL div 8. getl64 (slice b (off + I * BL + 8 * J) 8) = HashMix64 (a + of_nat I + 1))"

definition zeroed :: "nat \<Rightarrow> nat \<Rightarrow> bytes \<Rightarrow> nat \<Rightarrow> bool" where
  "zeroed BL n b off \<longleftrightarrow> (\<forall>I<n. \<forall>J<BL div 8. getl64 (slice b (off + I * BL + 8 * J) 8) = 0)"

lemma fill_word_fill:
  "off + 8 \<le> length b \<Longrightarrow> fill_word 0 h off b = Some (True, put off (le64 h) b)"
  by (simp add: fill_word_def)

lemma fill_words_fill:
  assumes "\<forall>J \<in> set Js. base + 8 * J + 8 \<le> length b"
  shows "\<exists>b'. fill_words 0 h base Js b = Some (True, b') \<and> length b' = length b \<and>
    (\<forall>J \<in> set Js. getl64 (slice b' (base + 8 * J) 8) = h) \<and>
    (\<forall>off. off + 8 \<le> length b \<longrightarrow> (\<forall>J \<in> set Js. off + 8 \<le> base + 8 * J \<or> base + 8 * J + 8 \<le> off) \<longrightarrow>
      slice b' off 8 = slice b off 8)"
  using assms
proof (induction Js arbitrary: b)
  case (Cons J Js)
  define b1 where "b1 = put (base + 8 * J) (le64 h) b"
  have J: "base + 8 * J + 8 \<le> length b" using Cons.prems by simp
  then have len: "length b1 = length b" by (simp add: b1_def length_put codec_simps)
  have h: "slice b1 (base + 8 * J) 8 = le64 h" using J by (simp add: b1_def slice_put_same codec_simps)
  have other: "slice b1 off 8 = slice b off 8"
    if "off + 8 \<le> length b" "off + 8 \<le> base + 8 * J \<or> base + 8 * J + 8 \<le> off" for off
    using that J by (simp add: b1_def slice_put_other codec_simps)
  obtain b' where b': "fill_words 0 h base Js b1 = Some (True, b')" "length b' = length b1"
      "\<forall>J \<in> set Js. getl64 (slice b' (base + 8 * J) 8) = h"
      "\<forall>off. off + 8 \<le> length b1 \<longrightarrow> (\<forall>J \<in> set Js. off + 8 \<le> base + 8 * J \<or> base + 8 * J + 8 \<le> off) \<longrightarrow>
        slice b' off 8 = slice b1 off 8"
    using Cons.IH [of b1] Cons.prems len by auto
  have "getl64 (slice b' (base + 8 * J) 8) = h"
  proof (cases "J \<in> set Js")
    case False
    have "base + 8 * J + 8 \<le> base + 8 * K \<or> base + 8 * K + 8 \<le> base + 8 * J" if "K \<in> set Js" for K
    proof -
      have "J < K \<or> K < J" using that False by (metis nat_neq_iff)
      then show ?thesis by linarith
    qed
    then have "slice b' (base + 8 * J) 8 = slice b1 (base + 8 * J) 8" using b'(4) J len by auto
    then show ?thesis by (simp add: h l64.dec_enc)
  qed (use b'(3) in blast)
  moreover have "fill_words 0 h base (J # Js) b = Some (True, b')"
    using b'(1) J by (simp add: fill_word_fill b1_def)
  ultimately show ?case using b' len other by (intro exI [of _ b']) auto
qed simp

lemma fill_words_test:
  assumes "\<forall>J \<in> set Js. base + 8 * J + 8 \<le> length b" and "Kind = SpdIoctlTransactWriteKind \<or> Kind = SpdIoctlTransactUnmapKind"
  shows "fill_words Kind h base Js b =
    Some (\<forall>J \<in> set Js. getl64 (slice b (base + 8 * J) 8) = (if Kind = SpdIoctlTransactWriteKind then h else 0), b)"
  using assms by (induction Js) (auto simp: fill_word_def)

text \<open>The blocks of a buffer that is large enough, each at its offset.\<close>

definition blocks_fit :: "u32 \<Rightarrow> nat \<Rightarrow> nat \<Rightarrow> bool" where
  "blocks_fit Length n len \<longleftrightarrow> n * unat Length \<le> len \<and> n * unat Length < 2 ^ 32"

lemma block_offset:
  assumes "blocks_fit Length n len" and "I < n" and "J < unat (Length div 8)"
  shows "unat (of_nat I * Length) = I * unat Length" and "I * unat Length + 8 * J + 8 \<le> (I + 1) * unat Length"
    and "(I + 1) * unat Length \<le> n * unat Length"
proof -
  have "(I + 1) * unat Length \<le> n * unat Length" using assms(2) by (intro mult_le_mono1) simp
  then show le: "(I + 1) * unat Length \<le> n * unat Length" .
  have J: "J < unat Length div 8" using assms(3) by (simp add: unat_div)
  then have "8 * (J + 1) \<le> unat Length" by (simp add: less_eq_div_iff_mult_less_eq Suc_le_eq [symmetric] mult.commute)
  then show "I * unat Length + 8 * J + 8 \<le> (I + 1) * unat Length" by (simp add: add_mult_distrib)
  have pos: "0 < unat Length" using J by (cases "unat Length") simp_all
  have "(I + 1) * unat Length < 2 ^ 32" using le assms(1) unfolding blocks_fit_def by linarith
  then have lt: "I * unat Length < 2 ^ 32" by (simp add: add_mult_distrib)
  moreover have "I < 2 ^ 32"
    by (rule order.strict_trans1 [OF _ lt]) (use pos in simp)
  ultimately show "unat (of_nat I * Length) = I * unat Length"
    by (simp add: unat_word_ariths unsigned_of_nat take_bit_nat_eq_self)
qed

lemma block_words_fit:
  assumes "blocks_fit Length n (length b)" and "I < n"
  shows "\<forall>J \<in> set [0..<unat (Length div 8)]. unat (of_nat I * Length) + 8 * J + 8 \<le> length b"
proof
  fix J
  assume "J \<in> set [0..<unat (Length div 8)]"
  then have J: "J < unat (Length div 8)" by simp
  note o = block_offset [OF assms J]
  have "n * unat Length \<le> length b" using assms(1) by (simp add: blocks_fit_def)
  with o show "unat (of_nat I * Length) + 8 * J + 8 \<le> length b" unfolding o(1) by linarith
qed

lemma fill_blocks_fill:
  assumes "blocks_fit Length n (length b)" and "set Is \<subseteq> {..<n}" and "distinct Is"
  shows "\<exists>b'. fill_blocks 0 Length a Is b = Some (True, b') \<and> length b' = length b \<and>
    (\<forall>I \<in> set Is. \<forall>J < unat (Length div 8).
      getl64 (slice b' (I * unat Length + 8 * J) 8) = HashMix64 (a + of_nat I + 1)) \<and>
    (\<forall>I < n. I \<notin> set Is \<longrightarrow> (\<forall>J < unat (Length div 8).
      slice b' (I * unat Length + 8 * J) 8 = slice b (I * unat Length + 8 * J) 8))"
  using assms
proof (induction Is arbitrary: b)
  case (Cons I Is)
  have I: "I < n" "I \<notin> set Is" using Cons.prems by auto
  obtain b1 where b1: "fill_words 0 (HashMix64 (a + of_nat I + 1)) (unat (of_nat I * Length))
        [0..<unat (Length div 8)] b = Some (True, b1)" "length b1 = length b"
      "\<forall>J \<in> set [0..<unat (Length div 8)]. getl64 (slice b1 (unat (of_nat I * Length) + 8 * J) 8) = HashMix64 (a + of_nat I + 1)"
      "\<forall>off. off + 8 \<le> length b \<longrightarrow> (\<forall>J \<in> set [0..<unat (Length div 8)]. off + 8 \<le> unat (of_nat I * Length) + 8 * J \<or>
        unat (of_nat I * Length) + 8 * J + 8 \<le> off) \<longrightarrow> slice b1 off 8 = slice b off 8"
    using fill_words_fill [OF block_words_fit [OF Cons.prems(1) I(1)], of "HashMix64 (a + of_nat I + 1)"] by auto
  obtain b' where b': "fill_blocks 0 Length a Is b1 = Some (True, b')" "length b' = length b1"
      "\<forall>I \<in> set Is. \<forall>J < unat (Length div 8).
        getl64 (slice b' (I * unat Length + 8 * J) 8) = HashMix64 (a + of_nat I + 1)"
      "\<forall>I < n. I \<notin> set Is \<longrightarrow> (\<forall>J < unat (Length div 8).
        slice b' (I * unat Length + 8 * J) 8 = slice b1 (I * unat Length + 8 * J) 8)"
    using Cons.IH [of b1] Cons.prems b1(2) by auto
  have here: "getl64 (slice b' (I * unat Length + 8 * J) 8) = HashMix64 (a + of_nat I + 1)"
    if "J < unat (Length div 8)" for J
    using that b1(3) b'(4) I block_offset(1) [OF Cons.prems(1) I(1) that] by simp
  have other: "slice b1 (K * unat Length + 8 * J) 8 = slice b (K * unat Length + 8 * J) 8"
    if "K < n" "K \<noteq> I" "J < unat (Length div 8)" for K J
  proof -
    note K = block_offset [OF Cons.prems(1) that(1,3)]
    have "K * unat Length + 8 * J + 8 \<le> length b"
      using K Cons.prems(1) unfolding blocks_fit_def by linarith
    moreover have "K * unat Length + 8 * J + 8 \<le> unat (of_nat I * Length) + 8 * L \<or>
        unat (of_nat I * Length) + 8 * L + 8 \<le> K * unat Length + 8 * J" if "L < unat (Length div 8)" for L
    proof -
      note L = block_offset [OF Cons.prems(1) I(1) that]
      have "(K + 1) * unat Length \<le> I * unat Length \<or> (I + 1) * unat Length \<le> K * unat Length"
        using \<open>K \<noteq> I\<close> by (metis Suc_eq_plus1 Suc_leI mult_le_mono1 nat_neq_iff)
      then show ?thesis unfolding L(1) using K(2) L(2) by linarith
    qed
    ultimately show ?thesis using b1(4) by simp
  qed
  have "fill_blocks 0 Length a (I # Is) b = Some (True, b')" using b1(1) b'(1) by simp
  then show ?case using b' b1(2) here other I(2) by (intro exI [of _ b']) auto
qed simp

lemma fill_blocks_test:
  assumes "blocks_fit Length n (length b)" and "set Is \<subseteq> {..<n}"
    and "Kind = SpdIoctlTransactWriteKind \<or> Kind = SpdIoctlTransactUnmapKind"
  shows "fill_blocks Kind Length a Is b =
    Some (\<forall>I \<in> set Is. \<forall>J < unat (Length div 8). getl64 (slice b (I * unat Length + 8 * J) 8) =
      (if Kind = SpdIoctlTransactWriteKind then HashMix64 (a + of_nat I + 1) else 0), b)"
  using assms(2)
proof (induction Is)
  case (Cons I Is)
  then have I: "I < n" by simp
  have "(\<forall>J \<in> set [0..<unat (Length div 8)]. getl64 (slice b (unat (of_nat I * Length) + 8 * J) 8) = h) \<longleftrightarrow>
      (\<forall>J < unat (Length div 8). getl64 (slice b (I * unat Length + 8 * J) 8) = h)" for h
    using block_offset(1) [OF assms(1) I] by auto
  then show ?case
    using Cons fill_words_test [OF block_words_fit [OF assms(1) I] assms(3)] by auto
qed simp

lemma FillOrTest_fill:
  assumes "blocks_fit Length (unat n) (length D)"
  shows "\<exists>D'. FillOrTest D Length a n 0 = Some (True, D') \<and> length D' = length D \<and> filled (unat Length) a (unat n) D' 0"
proof -
  have "set [0..<unat n] \<subseteq> {..<unat n}" by auto
  from fill_blocks_fill [OF assms this distinct_upt, of a] show ?thesis
    by (auto simp: FillOrTest_def filled_def unat_div)
qed

lemma FillOrTest_test:
  assumes "blocks_fit Length (unat n) (length D)"
  shows "FillOrTest D Length a n SpdIoctlTransactWriteKind = Some (filled (unat Length) a (unat n) D 0, D)"
    and "FillOrTest D Length a n SpdIoctlTransactUnmapKind = Some (zeroed (unat Length) (unat n) D 0, D)"
proof -
  have Is: "set [0..<unat n] \<subseteq> {..<unat n}" by auto
  show "FillOrTest D Length a n SpdIoctlTransactWriteKind = Some (filled (unat Length) a (unat n) D 0, D)"
    using fill_blocks_test [OF assms Is, of SpdIoctlTransactWriteKind a]
    by (auto simp: FillOrTest_def filled_def unat_div)
  show "FillOrTest D Length a n SpdIoctlTransactUnmapKind = Some (zeroed (unat Length) (unat n) D 0, D)"
    using fill_blocks_test [OF assms Is, of SpdIoctlTransactUnmapKind a]
    by (auto simp: FillOrTest_def zeroed_def unat_div)
qed

text \<open>Equal octets have equal contents.\<close>

lemma slice_eq_sub:
  assumes "slice b off m = slice c off' m" and "i + n \<le> m"
  shows "slice b (off + i) n = slice c (off' + i) n"
proof -
  have "slice (slice x o1 m) i n = slice x (o1 + i) n" for x :: "'a list" and o1
    using assms(2) by (simp add: slice_def drop_take min_def add.commute)
  then show ?thesis using assms(1) by metis
qed

lemma word_inside:
  "I < n \<Longrightarrow> J < BL div 8 \<Longrightarrow> I * BL + 8 * J + 8 \<le> n * BL" for I J BL n :: nat
proof -
  assume "I < n" and J: "J < BL div 8"
  then have "(I + 1) * BL \<le> n * BL" by (intro mult_le_mono1) simp
  moreover have "8 * (J + 1) \<le> BL" using J by (simp add: less_eq_div_iff_mult_less_eq Suc_le_eq [symmetric] mult.commute)
  ultimately show ?thesis by (simp add: add_mult_distrib)
qed

lemma filled_cong:
  assumes "slice b off (n * BL) = slice c off' (n * BL)"
  shows "filled BL a n b off = filled BL a n c off'" and "zeroed BL n b off = zeroed BL n c off'"
  using slice_eq_sub [OF assms] word_inside [of _ n _ BL] by (simp_all add: filled_def zeroed_def add.assoc)

text \<open>What the tester writes names its block. Filling a buffer for some blocks succeeds; the buffer then
  passes the test of a write for these blocks and for blocks at no other address, and does not pass the
  test of an unmap: a unit that returns the contents of other blocks, or of unmapped ones, is found out.\<close>

lemma fill_identifies_blocks:
  assumes "blocks_fit Length (unat n) (length D)" and "8 \<le> Length" and "n \<noteq> 0"
    and "unat a + unat n < 2 ^ 64"
  shows "\<exists>D'. FillOrTest D Length a n SpdIoctlTransactReservedKind = Some (True, D') \<and> length D' = length D \<and>
    (\<forall>a'. FillOrTest D' Length a' n SpdIoctlTransactWriteKind = Some (a' = a, D')) \<and>
    FillOrTest D' Length a n SpdIoctlTransactUnmapKind = Some (False, D')"
proof -
  obtain D' where D': "FillOrTest D Length a n 0 = Some (True, D')" "length D' = length D"
      "filled (unat Length) a (unat n) D' 0"
    using FillOrTest_fill [OF assms(1)] by blast
  have n: "0 < unat n" using assms(3) by (simp add: unat_gt_0)
  have L: "0 < unat Length div 8"
    using assms(2) by (simp add: word_le_nat_alt div_greater_zero_iff)
  have first: "getl64 (slice D' 0 8) = HashMix64 (a + 1)"
    using D'(3) n L unfolding filled_def by force
  have "filled (unat Length) a' (unat n) D' 0 \<longleftrightarrow> a' = a" for a'
  proof
    assume "filled (unat Length) a' (unat n) D' 0"
    then have "getl64 (slice D' 0 8) = HashMix64 (a' + 1)" using n L unfolding filled_def by force
    with first show "a' = a" by (simp add: HashMix64_inject)
  qed (use D'(3) in simp)
  moreover have "a + 1 \<noteq> 0"
  proof
    assume "a + 1 = 0"
    then have "a = - 1" by (simp add: add_eq_0_iff2)
    then have "unat a = 2 ^ 64 - 1" by (simp add: unsigned_minus_1_eq_mask mask_eq_exp_minus_1)
    with assms(4) n show False by simp
  qed
  then have "\<not> zeroed (unat Length) (unat n) D' 0"
    using first n L by (auto simp: zeroed_def HashMix64_0 intro!: exI [of _ 0])
  ultimately show ?thesis
    using D' FillOrTest_test [of Length n D'] assms(1) by auto
qed

lemma fill_identifies_blocks_witness:
  "\<exists>D'. FillOrTest (replicate 1024 0) 512 5 2 SpdIoctlTransactReservedKind = Some (True, D') \<and>
    FillOrTest D' 512 5 2 SpdIoctlTransactWriteKind = Some (True, D') \<and>
    FillOrTest D' 512 6 2 SpdIoctlTransactWriteKind = Some (False, D') \<and>
    FillOrTest D' 512 5 2 SpdIoctlTransactUnmapKind = Some (False, D')"
proof -
  have "blocks_fit 512 (unat (2 :: u32)) (length (replicate 1024 (0 :: u8)))" by (simp add: blocks_fit_def)
  from fill_identifies_blocks [OF this, of 5] show ?thesis by auto
qed

section \<open>The state of a run\<close>

text \<open>What opening a pipe has checked, and what holds between two turns.\<close>

definition stg_params_ok :: "SPD_IOCTL_STORAGE_UNIT_PARAMS \<Rightarrow> bool" where
  "stg_params_ok par \<longleftrightarrow> BlockCount par \<noteq> 0 \<and> 16 \<le> BlockLength par \<and> MaxTransferLength par \<noteq> 0 \<and>
     MaxTransferLength par mod BlockLength par = 0"

lemma pipe_handle: "IsPipeHandle (SetPipeHandle h)"
proof -
  have "bit ((h OR 1) AND 1) 0" by (simp add: bit_simps)
  then show ?thesis unfolding IsPipeHandle_def SetPipeHandle_def by (metis bit_0_eq bot_apply bot_bool_def)
qed

lemma open_pipe_ok:
  "StgOpenPipe opened again pipe_mode params = Inr (h, par) \<Longrightarrow> stg_params_ok par \<and> IsPipeHandle h"
  by (auto simp: StgOpenPipe_def stg_params_ok_def pipe_handle not_less split: sum.splits if_splits prod.splits)

text \<open>The limit is at least one block, and whole blocks up to the limit stay below it.\<close>

lemma params_limits:
  assumes "stg_params_ok par"
  shows "16 \<le> unat (BlockLength par)" and "unat (BlockLength par) \<le> unat (MaxTransferLength par)"
    and "MaxTransferLength par div BlockLength par \<noteq> 0"
    and "n \<le> MaxTransferLength par div BlockLength par \<Longrightarrow>
      unat n * unat (BlockLength par) \<le> unat (MaxTransferLength par)"
proof -
  have 16: "16 \<le> unat (BlockLength par)" using assms by (simp add: stg_params_ok_def word_le_nat_alt)
  have "unat (MaxTransferLength par) \<noteq> 0" "unat (MaxTransferLength par) mod unat (BlockLength par) = 0"
    using assms by (simp_all add: stg_params_ok_def unat_eq_zero flip: unat_mod)
  then have le: "unat (BlockLength par) \<le> unat (MaxTransferLength par)"
    by (meson dvd_imp_le mod_0_imp_dvd neq0_conv)
  then have "unat (MaxTransferLength par) div unat (BlockLength par) \<noteq> 0" using 16 by (simp add: div_eq_0_iff)
  then show "MaxTransferLength par div BlockLength par \<noteq> 0"
    by (metis unat_div unsigned_0)
  show "16 \<le> unat (BlockLength par)" "unat (BlockLength par) \<le> unat (MaxTransferLength par)" by fact+
  assume "n \<le> MaxTransferLength par div BlockLength par"
  then have "unat n \<le> unat (MaxTransferLength par) div unat (BlockLength par)"
    by (simp add: word_le_nat_alt unat_div)
  then have "unat n * unat (BlockLength par) \<le> unat (MaxTransferLength par) div unat (BlockLength par) * unat (BlockLength par)"
    by (rule mult_le_mono1)
  also have "\<dots> \<le> unat (MaxTransferLength par)" by simp
  finally show "unat n * unat (BlockLength par) \<le> unat (MaxTransferLength par)" .
qed

text \<open>The blocks of a round are some blocks of the unit, and fit in the buffer.\<close>

definition round_fits :: "SPD_IOCTL_STORAGE_UNIT_PARAMS \<Rightarrow> 'w stg_run \<Rightarrow> bool" where
  "round_fits par s \<longleftrightarrow> unat (rn_OpCount s) * unat (BlockLength par) \<le> unat (MaxTransferLength par)"

definition round_inside :: "SPD_IOCTL_STORAGE_UNIT_PARAMS \<Rightarrow> 'w stg_run \<Rightarrow> bool" where
  "round_inside par s \<longleftrightarrow> unat (rn_Address s) + unat (rn_OpCount s) \<le> unat (BlockCount par)"

definition run_inv :: "SPD_IOCTL_STORAGE_UNIT_PARAMS \<Rightarrow> 'w stg_run \<Rightarrow> bool" where
  "run_inv par s \<longleftrightarrow> length (rn_Data s) = unat (MaxTransferLength par) \<and> (rn_J s \<noteq> 0 \<longrightarrow> round_fits par s)"

lemma next_address_fields:
  "rn_Data (next_address par ra I s) = rn_Data s" "rn_unit (next_address par ra I s) = rn_unit s"
  "rn_J (next_address par ra I s) = rn_J s"
  "BlockCount par \<noteq> 0 \<Longrightarrow> rn_Address (next_address par ra I s) < BlockCount par"
  by (auto simp: next_address_def Let_def split: prod.splits intro: word_mod_less_divisor simp: word_gt_0)

lemma op_count_bound:
  fixes A BC :: u64 and n :: u32
  assumes "A < BC"
  shows "\<not> A + ucast n \<le> BC \<Longrightarrow> unat (BC - A) < unat n \<and> unat (ucast (BC - A) :: u32) = unat (BC - A)"
proof -
  assume gt: "\<not> A + ucast n \<le> BC"
  have n: "unat (ucast n :: u64) = unat n" by (simp add: unat_ucast_up)
  have lt: "unat A < unat BC" "unat BC < 2 ^ 64" "unat n < 2 ^ 32"
    using assms unsigned_less [of BC, where ?'a = nat] unsigned_less [of n, where ?'a = nat]
    by (simp_all add: word_less_nat_alt)
  have sub: "unat (BC - A) = unat BC - unat A" using assms by (simp add: unat_sub)
  have "unat BC < unat A + unat n"
  proof (cases "unat A + unat n < 2 ^ 64")
    case True
    then have "unat (A + ucast n) = unat A + unat n" using n by (simp add: unat_add_no_wrap)
    with gt show ?thesis by (simp add: word_le_nat_alt)
  next
    case False
    with lt show ?thesis by linarith
  qed
  then have "unat (BC - A) < unat n" using sub lt by linarith
  moreover from this lt have "unat (ucast (BC - A) :: u32) = unat (BC - A)"
    by (simp add: unsigned_ucast_eq take_bit_nat_eq_self)
  ultimately show ?thesis by simp
qed

lemma next_count_ok:
  assumes "stg_params_ok par" and "rn_Address s < BlockCount par"
  shows "\<exists>s'. next_count par rc s = Some s' \<and> rn_Data s' = rn_Data s \<and> rn_unit s' = rn_unit s \<and> rn_J s' = rn_J s \<and>
    rn_Test s' = SpdIoctlTransactReservedKind \<and> round_fits par s' \<and>
    (unat (BlockCount par) + 2 ^ 32 \<le> 2 ^ 64 \<longrightarrow> round_inside par s')"
proof -
  define M where "M = MaxTransferLength par div BlockLength par"
  have M: "M \<noteq> 0" using params_limits(3) [OF assms(1)] by (simp add: M_def)
  define s1 where "s1 = (if rc then (case GenRandomBytes (rn_Seed s) 4 of
      (bs, Seed) \<Rightarrow> s\<lparr>rn_Count := getl32 bs mod M, rn_Seed := Seed\<rparr>)
    else if M < rn_Count s then s\<lparr>rn_Count := M\<rparr> else s)"
  define s2 where "s2 = (if rn_Count s1 = 0 then s1\<lparr>rn_Count := 1\<rparr> else s1)"
  define s3 where "s3 = s2\<lparr>rn_OpCount := (if rn_Address s2 + ucast (rn_Count s2) \<le> BlockCount par then rn_Count s2
      else ucast (BlockCount par - rn_Address s2)), rn_Test := SpdIoctlTransactReservedKind\<rparr>"
  have "x mod M \<le> M" for x :: u32
    using M by (intro less_imp_le word_mod_less_divisor) (simp add: word_gt_0)
  then have "rn_Count s1 \<le> M"
    by (auto simp: s1_def split: prod.splits)
  moreover have "1 \<le> M" using M by (simp add: word_le_nat_alt Suc_le_eq unat_gt_0)
  ultimately have cnt: "rn_Count s2 \<le> M" by (simp add: s2_def)
  have same: "rn_Address s2 = rn_Address s" "rn_Data s2 = rn_Data s" "rn_unit s2 = rn_unit s" "rn_J s2 = rn_J s"
    by (auto simp: s2_def s1_def split: prod.splits)
  have A: "unat (rn_Address s2) < unat (BlockCount par)" using assms(2) same by (simp add: word_less_nat_alt)
  have le: "rn_OpCount s3 \<le> rn_Count s2"
    using op_count_bound [of "rn_Address s2" "BlockCount par" "rn_Count s2"] assms(2) same(1)
    by (auto simp: s3_def word_le_nat_alt)
  then have "round_fits par s3"
    using params_limits(4) [OF assms(1), of "rn_OpCount s3"] cnt unfolding M_def round_fits_def by (meson order_trans)
  moreover have "round_inside par s3" if "unat (BlockCount par) + 2 ^ 32 \<le> 2 ^ 64"
  proof (cases "rn_Address s2 + ucast (rn_Count s2) \<le> BlockCount par")
    case True
    have "unat (rn_Count s2) < 2 ^ 32" using unsigned_less [of "rn_Count s2", where ?'a = nat] by simp
    then have "unat (rn_Address s2 + ucast (rn_Count s2)) = unat (rn_Address s2) + unat (rn_Count s2)"
      using A that by (simp add: unat_add_no_wrap unat_ucast_up)
    with True show ?thesis by (simp add: round_inside_def s3_def word_le_nat_alt)
  next
    case False
    then show ?thesis
      using op_count_bound [of "rn_Address s2" "BlockCount par" "rn_Count s2"] assms(2) same(1) A
      by (simp add: round_inside_def s3_def unat_sub)
  qed
  moreover have "next_count par rc s = Some s3"
    using M unfolding next_count_def M_def [symmetric] by (simp add: Let_def s3_def flip: s1_def s2_def)
  ultimately show ?thesis using same by (auto simp: s3_def)
qed

section \<open>No unit makes the tester leave its buffers\<close>

lemma unat_mult_small: "unat a * unat b < 2 ^ LENGTH('a) \<Longrightarrow> unat (a * b) = unat a * unat b" for a b :: "'a::len word"
  by (simp add: unat_word_ariths)

lemma round_octets:
  assumes "round_fits par s"
  shows "unat (rn_OpCount s * BlockLength par) = unat (rn_OpCount s) * unat (BlockLength par)"
    and "rn_OpCount s * BlockLength par \<le> MaxTransferLength par"
proof -
  have "unat (MaxTransferLength par) < 2 ^ LENGTH(32)" by (rule unsigned_less)
  with assms show n: "unat (rn_OpCount s * BlockLength par) = unat (rn_OpCount s) * unat (BlockLength par)"
    by (intro unat_mult_small) (simp add: round_fits_def)
  show "rn_OpCount s * BlockLength par \<le> MaxTransferLength par"
    using assms by (simp add: word_le_nat_alt n round_fits_def)
qed

lemma round_blocks_fit:
  "round_fits par s \<Longrightarrow> length D = unat (MaxTransferLength par) \<Longrightarrow>
   blocks_fit (BlockLength par) (unat (rn_OpCount s)) (length D)"
  using unsigned_less [of "MaxTransferLength par", where ?'a = nat]
  by (simp add: round_fits_def blocks_fit_def)

lemma range_op_fields [simp]:
  "Op_BlockAddress (range_op f par a n) = a" "Op_BlockCount (range_op f par a n) = n"
  by (simp_all add: range_op_def Let_def)

text \<open>The kinds of operations a run makes.\<close>

definition stg_kind :: "u8 \<Rightarrow> bool" where
  "stg_kind Kind \<longleftrightarrow> Kind = SpdIoctlTransactReadKind \<or> Kind = SpdIoctlTransactWriteKind \<or>
     Kind = SpdIoctlTransactFlushKind \<or> Kind = SpdIoctlTransactUnmapKind"

lemma op_kind_of_ok: "op_kind_of c = Some Kind \<Longrightarrow> stg_kind Kind"
  by (simp add: op_kind_of_def stg_kind_def split: if_splits)

lemma op_kinds_ok: "op_kinds OpSet \<noteq> []" "Kind \<in> set (op_kinds OpSet) \<Longrightarrow> stg_kind Kind"
proof -
  have *: "set (List.map_filter op_kind_of xs) \<subseteq> {k. stg_kind k}" for xs
    by (induction xs) (auto dest: op_kind_of_ok split: option.splits)
  show "op_kinds OpSet \<noteq> []" by (simp add: op_kinds_def Let_def)
  show "stg_kind Kind" if "Kind \<in> set (op_kinds OpSet)"
  proof (cases "List.map_filter op_kind_of (take 32 OpSet) = []")
    case False
    with that * [of "take 32 OpSet"] show ?thesis by (auto simp: op_kinds_def Let_def)
  qed (use that in \<open>auto simp: op_kinds_def stg_kind_def\<close>)
qed

lemma nth_kinds: "stg_kind (op_kinds OpSet ! (I mod length (op_kinds OpSet)))"
  by (rule op_kinds_ok(2) [of _ OpSet]) (simp add: op_kinds_ok(1))

lemma stg_request_ok:
  assumes "stg_params_ok par" and "round_fits par s" and "length (rn_Data s) = unat (MaxTransferLength par)"
    and "stg_kind Kind"
  shows "\<exists>Req D T. stg_request par ThreadId I Kind s = Some (Req, s\<lparr>rn_Data := D, rn_Test := T\<rparr>) \<and>
    length D = length (rn_Data s) \<and> pipe_data_length par Req \<le> MaxTransferLength par"
proof -
  note lim = params_limits(1,2) [OF assms(1)]
  have 16: "16 \<le> length (rn_Data s)" "16 \<le> MaxTransferLength par"
    using lim assms(3) by (simp_all add: word_le_nat_alt)
  note n = round_octets(2) [OF assms(2)]
  have same: "s = s\<lparr>rn_Data := rn_Data s, rn_Test := rn_Test s\<rparr>" by simp
  consider "Kind = SpdIoctlTransactReadKind \<or> Kind = SpdIoctlTransactFlushKind" | "Kind = SpdIoctlTransactWriteKind"
    | "Kind = SpdIoctlTransactUnmapKind"
    using assms(4) by (auto simp: stg_kind_def)
  then show ?thesis
  proof cases
    case 1
    then have "\<exists>Req. stg_request par ThreadId I Kind s = Some (Req, s) \<and> pipe_data_length par Req = 0"
      by (auto simp: stg_request_def Let_def pipe_data_length_def)
    then show ?thesis using same by (metis word_zero_le)
  next
    case 2
    obtain D where "FillOrTest (rn_Data s) (BlockLength par) (rn_Address s) (rn_OpCount s) 0 = Some (True, D)"
        "length D = length (rn_Data s)"
      using FillOrTest_fill [OF round_blocks_fit [OF assms(2,3)]] by blast
    with 2 n show ?thesis by (auto simp: stg_request_def Let_def pipe_data_length_def)
  next
    case 3
    with 16 show ?thesis
      by (auto simp: stg_request_def Let_def pipe_data_length_def length_put codec_simps zero_req_def
          Op_set_UnmapCount_def Op_UnmapCount_def)
  qed
qed

lemma transact_pipe_ok:
  assumes "length D = unat (MaxTransferLength par)" and "pipe_data_length par Req \<le> MaxTransferLength par"
  shows "\<exists>Error Rsp' D' w'. StgTransactPipe si par (Some Req) (Some Rsp) (Some D) w =
      Some (Error, Some Rsp', Some D', w') \<and> length D' = length D"
proof -
  have n: "\<not> (MaxTransferLength par < pipe_data_length par Req \<or> length D < unat (pipe_data_length par Req))"
    using assms by (simp add: word_le_nat_alt not_less)
  define m where "m = Op_BlockCount (Req_Op Req) * BlockLength par"
  have len: "length (put k (replicate (unat m - k) 0) (put 0 (take k d) D)) = length D"
    if "\<not> MaxTransferLength par < m" "k = min (length d) (unat m)" for k and d :: bytes
    using that assms(1) by (simp add: length_put not_less word_le_nat_alt)
  have m: "\<not> length D < unat m" if "\<not> MaxTransferLength par < m"
    using that assms(1) by (simp add: not_less word_le_nat_alt)
  obtain r w' where r: "si_call si Req (slice D 0 (unat (pipe_data_length par Req))) w = (r, w')" by fastforce
  show ?thesis
  proof (cases r)
    case (Inr a)
    show ?thesis
    proof (cases a)
      case (Some md)
      then obtain Msg d where "a = Some (Msg, d)" by (cases md) simp
      then show ?thesis
        using n r Inr len [of "min (length d) (unat m)" d] m
        by (simp add: StgTransactPipe_def Let_def flip: m_def)
    qed (use n r Inr in \<open>simp add: StgTransactPipe_def Let_def\<close>)
  qed (use n r in \<open>simp add: StgTransactPipe_def Let_def\<close>)
qed

lemma stg_check_ok:
  assumes "round_fits par s" and "length (rn_Data s) = unat (MaxTransferLength par)"
  shows "\<exists>Error. stg_check par Req Rsp s = Some Error"
  using FillOrTest_test [OF round_blocks_fit [OF assms]] by (auto simp: stg_check_def)

lemma stg_turn_ok:
  assumes "stg_params_ok par" and "IsPipeHandle h" and "run_inv par s"
  shows "\<exists>Error s'. stg_turn si par h ThreadId (op_kinds OpSet) ra rc I s = Some (Error, s') \<and> run_inv par s'"
proof -
  obtain s1 where s1: "(if rn_J s = 0 then next_count par rc (next_address par ra I s) else Some s) = Some s1"
      "rn_Data s1 = rn_Data s" "rn_J s1 = rn_J s" "round_fits par s1"
  proof (cases "rn_J s = 0")
    case True
    have "rn_Address (next_address par ra I s) < BlockCount par"
      using assms(1) by (intro next_address_fields(4)) (simp add: stg_params_ok_def)
    from next_count_ok [OF assms(1) this, of rc] True that show ?thesis by (auto simp: next_address_fields)
  qed (use assms(3) that in \<open>auto simp: run_inv_def\<close>)
  have len: "length (rn_Data s1) = unat (MaxTransferLength par)" using assms(3) s1(2) by (simp add: run_inv_def)
  obtain Req D T where req: "stg_request par ThreadId (of_nat I) (op_kinds OpSet ! (I mod length (op_kinds OpSet))) s1 =
      Some (Req, s1\<lparr>rn_Data := D, rn_Test := T\<rparr>)" "length D = length (rn_Data s1)"
      "pipe_data_length par Req \<le> MaxTransferLength par"
    using stg_request_ok [OF assms(1) s1(4) len nth_kinds] by blast
  obtain Error Rsp D' w' where tr: "StgTransactPipe si par (Some Req) (Some zero_rsp) (Some D) (rn_unit s1) =
      Some (Error, Some Rsp, Some D', w')" "length D' = length D"
    using transact_pipe_ok [of D par Req] len req by metis
  define s2 where "s2 = s1\<lparr>rn_Test := T, rn_Data := D', rn_unit := w'\<rparr>"
  have s2: "round_fits par s2" "length (rn_Data s2) = unat (MaxTransferLength par)"
    using s1(4) len req(2) tr(2) by (simp_all add: s2_def round_fits_def)
  obtain e where e: "stg_check par Req Rsp s2 = Some e" using stg_check_ok [OF s2] by blast
  have "stg_turn si par h ThreadId (op_kinds OpSet) ra rc I s = Some (if Error \<noteq> ERROR_SUCCESS then (Error, s2)
      else (e, if e = ERROR_SUCCESS then s2\<lparr>rn_J := (rn_J s2 + 1) mod length (op_kinds OpSet)\<rparr> else s2))"
    using s1(1) req(1) tr(1) assms(2) e
    by (simp add: stg_turn_def StgTransact_def Let_def flip: s2_def)
  then show ?thesis using s2 by (auto simp: run_inv_def round_fits_def)
qed

lemma stg_loop_ok:
  "stg_params_ok par \<Longrightarrow> IsPipeHandle h \<Longrightarrow> run_inv par s \<Longrightarrow>
   \<exists>Error s'. stg_loop si par h ThreadId (op_kinds OpSet) ra rc Is s = Some (Error, s')"
proof (induction Is arbitrary: s)
  case (Cons I Is)
  obtain e s1 where "stg_turn si par h ThreadId (op_kinds OpSet) ra rc I s = Some (e, s1)" "run_inv par s1"
    using stg_turn_ok [OF Cons.prems] by blast
  with Cons show ?case by auto
qed simp

text \<open>No unit can make the tester leave its buffers or stay in its loop. After a pipe has been opened, a run
  with any operations, addresses and counts ends with some error or success, without an access outside
  of the message or the data buffer and without a division by zero, whatever the pipe answers.\<close>

lemma stgtest_never_faults:
  assumes "opened = StgOpenPipe create again pipe_mode params"
    and "\<forall>n D. alloc n = Some D \<longrightarrow> length D = unat n"
  shows "\<exists>Error Seed' w'. stgtest_run si opened alloc ThreadId OpCount OpSet BlockAddress Count Seed w =
    Some (Error, Seed', w')"
proof (cases opened)
  case (Inr r)
  obtain h par where r: "r = (h, par)" by fastforce
  then have ok: "stg_params_ok par" "IsPipeHandle h"
    using open_pipe_ok assms(1) Inr by metis+
  show ?thesis
  proof (cases "alloc (MaxTransferLength par)")
    case (Some D)
    with assms(2) have "length D = unat (MaxTransferLength par)" by blast
    then show ?thesis
      using stg_loop_ok [OF ok, of "\<lparr>rn_J = 0, rn_Address = BlockAddress, rn_Count = Count, rn_OpCount = 0, rn_Test = 0,
          rn_Seed = Seed, rn_Data = D, rn_unit = w\<rparr>" si ThreadId OpSet "BlockAddress = - 1" "Count = - 1"
          "[0..<unat (if OpCount = 0 then 1 else OpCount)]"]
      by (auto simp: stgtest_run_def Inr r Some run_inv_def)
  qed (simp add: stgtest_run_def Inr r)
qed (auto simp: stgtest_run_def)

definition tester_params :: SPD_IOCTL_STORAGE_UNIT_PARAMS where
  "tester_params = zero_params\<lparr>BlockCount := 1024, BlockLength := 512, MaxTransferLength := 65536\<rparr>"

lemma tester_open: "StgOpenPipe (Inr 4) (Inl 0) ERROR_SUCCESS (Inr (128, tester_params)) = Inr (5, tester_params)"
  by (simp add: StgOpenPipe_def tester_params_def SetPipeHandle_def)

text \<open>A pipe that answers each request with more data than was asked for.\<close>

definition rude_io :: "nat stg_io" where
  "rude_io = \<lparr>si_init_error = 0, si_allocated = True,
     si_call = \<lambda>Req d w. (Inr (Some (\<lparr>Rsp_Hint = Req_Hint Req, Rsp_Kind = SpdIoctlTransactReadKind,
       Rsp_Status = zero_status\<rparr>, replicate 100000 1)), w + 1),
     si_write = \<lambda>_ _ w. (Inl 0, w), si_read = \<lambda>_ _ w. (Inl 0, w)\<rparr>"

lemma stgtest_never_faults_witness:
  "(\<exists>Error Seed' w'. stgtest_run rude_io (StgOpenPipe (Inr 4) (Inl 0) ERROR_SUCCESS (Inr (128, tester_params)))
      (\<lambda>n. Some (replicate (unat n) 0)) 1 100 [0x57, 0x52, 0x55] (- 1) (- 1) 7 0 = Some (Error, Seed', w')) \<and>
    StgOpenPipe (Inr 4) (Inl 0) ERROR_SUCCESS (Inr (128, tester_params)) = Inr (5, tester_params)"
  by (rule conjI [OF stgtest_never_faults [OF refl] tester_open]) simp

section \<open>A dispatcher behind the pipe\<close>

text \<open>
  What the thread of a dispatcher does with one message, between two waits for a request: the second half
  of one call of \<open>SpdStorageUnitHandleTransactPipe\<close>, the operation, and the first half of the next call.
  Each operation on the pipe completes. A client without an answer gets the error of a broken pipe.
\<close>

definition done_with :: "u32 \<Rightarrow> overlapped" where
  "done_with n = \<lparr>ov_success = True, ov_last_error = 0, ov_wait = WAIT_OBJECT_1, ov_wait_error = 0, ov_result = True,
     ov_result_error = 0, ov_bytes = n\<rparr>"

definition message_io :: "SPD_IOCTL_TRANSACT_REQ \<Rightarrow> bytes \<Rightarrow> transact_io" where
  "message_io Req d = \<lparr>io_init_error = 0, io_msg_allocated = True, io_hint_allocated = True,
     io_connect = done_with 0, io_params = done_with 128, io_write = done_with 48,
     io_read = done_with (48 + of_nat (length d)), io_msg_req = Req, io_msg_data = d\<rparr>"

type_synonym 'w served_unit = "STORAGE_UNIT \<times> bytes \<times> 'w"

definition serve_message ::
    "(SPD_IOCTL_TRANSACT_REQ \<Rightarrow> bytes \<Rightarrow> 'w \<Rightarrow> bool \<times> bytes \<times> SPD_IOCTL_STORAGE_UNIT_STATUS \<times> 'w) \<Rightarrow>
     SPD_IOCTL_TRANSACT_REQ \<Rightarrow> bytes \<Rightarrow> 'w served_unit \<Rightarrow>
     (u32 + (SPD_IOCTL_TRANSACT_RSP \<times> bytes) option) \<times> 'w served_unit" where
  "serve_message act Req d = (\<lambda>(su, D, w).
     case pipe_receive (message_io Req d) D su of
       (Deliver Req D, su) \<Rightarrow>
         if Req_Hint Req = 0 then (Inl ERROR_BROKEN_PIPE, su, D, w)
         else (case act Req D w of (Complete, D, st, w) \<Rightarrow>
           if \<not> Complete then (Inl ERROR_BROKEN_PIPE, su, D, w)
           else (case pipe_respond (message_io Req d)
                   \<lparr>Rsp_Hint = Req_Hint Req, Rsp_Kind = Req_Kind Req, Rsp_Status = st\<rparr> (Some D) su of
               Some (_, [WroteRsp Rsp r], su) \<Rightarrow> (Inr (Some (Rsp, r)), su, D, w)
             | _ \<Rightarrow> (Inl ERROR_BROKEN_PIPE, su, D, w)))
     | (_, su) \<Rightarrow> (Inl ERROR_BROKEN_PIPE, su, D, w))"

text \<open>The two halves are the call of the code, on a unit with a client.\<close>

lemma transact_pipe_halves:
  assumes "su_table s = Some table" and "unat (SPD_INDEX_FROM_BTL Btl) < length table"
    and "table ! unat (SPD_INDEX_FROM_BTL Btl) = p" and "su_heap s p = Some su" and "0 < sint (su_Connected su)"
    and "pipe_respond (message_io Req d) Rsp (Some D) su = Some (ERROR_SUCCESS, out, su1)"
    and "pipe_receive (message_io Req d) D su1 = (Deliver Req' D', su2)"
  shows "SpdStorageUnitHandleTransactPipe (message_io Req d) p Btl (Some Rsp) (Some zero_req) (Some D) s =
    Some (ERROR_SUCCESS, Some Req', Some D', out, set_su p su2 s)"
  using assms by (simp add: SpdStorageUnitHandleTransactPipe_def message_io_def pipe_connect_def Let_def)

definition served_ok :: "('w \<Rightarrow> bool) \<Rightarrow> SPD_IOCTL_STORAGE_UNIT_PARAMS \<Rightarrow>
    'w served_unit \<Rightarrow> bool" where
  "served_ok Q par = (\<lambda>(su, D, w). su_Params su = par \<and> hints_ok su \<and> hints su = Map.empty \<and>
     length D = unat (MaxTransferLength par) \<and> Q w)"

lemma wait_done [simp]: "WaitOverlappedResult (done_with n) = (ERROR_SUCCESS, n)"
  by (simp add: WaitOverlappedResult_def done_with_def)

lemma receive_data_whole:
  assumes "length d = unat n" and "unat n \<le> length D"
  shows "slice (receive_data (48 + n) n d D) 0 (unat n) = d"
    and "length (receive_data (48 + n) n d D) = length D"
proof -
  have "slice d 0 (unat n) = d" by (simp add: slice_def assms(1))
  moreover have "put k [] b = b" for k and b :: bytes by (simp add: put_def)
  ultimately have "receive_data (48 + n) n d D = put 0 d D"
    by (simp add: receive_data_def sizeof_TRANSACT_MSG_def)
  then show "slice (receive_data (48 + n) n d D) 0 (unat n) = d"
    "length (receive_data (48 + n) n d D) = length D"
    using assms by (simp_all add: slice_put_same length_put)
qed

lemma message_size:
  fixes n :: u32
  assumes "unat n < 2 ^ 32 - 48"
  shows "\<not> 48 + n < sizeof_TRANSACT_MSG"
proof -
  have "unat (48 + n) = 48 + unat n" using assms by (simp add: unat_word_ariths)
  then show ?thesis by (simp add: sizeof_TRANSACT_MSG_def word_less_nat_alt)
qed

lemma served_okD:
  assumes "served_ok Q par (su, D, w)"
  shows "su_Params su = par" "hints_ok su" "hints su = Map.empty" "length D = unat (MaxTransferLength par)"
    "Q w"
  using assms by (simp_all add: served_ok_def)

text \<open>A read: its hint is remembered, and taken again for the answer.\<close>

lemma serve_message_read:
  assumes "served_ok Q par (su, D, w)" and "Req_Kind Req = SpdIoctlTransactReadKind" and "Req_Hint Req \<noteq> 0"
    and "n = Op_BlockCount (Req_Op Req) * BlockLength par" and "n \<le> MaxTransferLength par"
    and "act Req D w = (True, D', zero_status, w')" and "length D' = length D"
    and "Q w'"
  shows "\<exists>s'. serve_message act Req [] (su, D, w) =
      (Inr (Some (\<lparr>Rsp_Hint = Req_Hint Req, Rsp_Kind = Req_Kind Req, Rsp_Status = zero_status\<rparr>, slice D' 0 (unat n))), s') \<and>
    served_ok Q par s' \<and> snd (snd s') = w'"
proof -
  note su = served_okD [OF assms(1)]
  have put: "fst (PutHintValue True (Req_Hint Req) n su)" using hint.put_ok [OF su(2)] su(3) by simp
  define su1 where "su1 = snd (PutHintValue True (Req_Hint Req) n su)"
  define su2 where "su2 = snd (TakeHintValue (Req_Hint Req) su1)"
  have su1: "PutHintValue True (Req_Hint Req) n su = (True, su1)" "hints_ok su1" "su_Params su1 = par"
  proof -
    show "PutHintValue True (Req_Hint Req) n su = (True, su1)" using put by (simp add: su1_def prod_eq_iff)
    show "hints_ok su1" unfolding su1_def by (rule hint.put_inv [OF su(2)])
    show "su_Params su1 = par" by (simp only: su1_def params_put su(1))
  qed
  have su2: "TakeHintValue (Req_Hint Req) su1 = (n, su2)" "hints su2 = Map.empty" "su_Params su2 = par" "hints_ok su2"
  proof -
    note t = hint.take_after_put [OF su(2) put, folded su1_def]
    show "TakeHintValue (Req_Hint Req) su1 = (n, su2)" using t(1) by (simp add: su2_def prod_eq_iff)
    show "hints su2 = Map.empty" using t(2) su(3) by (simp only: su2_def)
    show "su_Params su2 = par" by (simp only: su2_def params_take su1(3))
    show "hints_ok su2" unfolding su2_def by (rule hint.take_inv [OF su1(2)])
  qed
  have r: "pipe_receive (message_io Req []) D su = (Deliver Req D, su1)"
    using assms(2,4,5) su(1) su1(1)
    by (simp add: pipe_receive_def message_io_def sizeof_TRANSACT_MSG_def not_less Let_def)
  have "serve_message act Req [] (su, D, w) =
      (Inr (Some (\<lparr>Rsp_Hint = Req_Hint Req, Rsp_Kind = Req_Kind Req, Rsp_Status = zero_status\<rparr>, slice D' 0 (unat n))), su2, D', w')"
    using assms(2,3,5,6) su2(1,3) r
    by (simp add: serve_message_def pipe_respond_def message_io_def not_less Let_def)
  then show ?thesis using su su2 assms(7,8) by (simp add: served_ok_def)
qed

text \<open>A write or an unmap: the data comes with the message.\<close>

lemma serve_message_data:
  assumes "served_ok Q par (su, D, w)" and "Req_Kind Req = SpdIoctlTransactWriteKind \<or> Req_Kind Req = SpdIoctlTransactUnmapKind"
    and "Req_Hint Req \<noteq> 0" and "n = pipe_data_length par Req" and "n \<le> MaxTransferLength par"
    and "unat (MaxTransferLength par) < 2 ^ 32 - 48" and "length d = unat n"
    and "\<And>D1. length D1 = length D \<Longrightarrow> slice D1 0 (unat n) = d \<Longrightarrow>
      \<exists>D' w'. act Req D1 w = (True, D', zero_status, w') \<and> length D' = length D \<and>
        Q w' \<and> P w'"
  shows "\<exists>s'. serve_message act Req d (su, D, w) =
      (Inr (Some (\<lparr>Rsp_Hint = Req_Hint Req, Rsp_Kind = Req_Kind Req, Rsp_Status = zero_status\<rparr>, [])), s') \<and>
    served_ok Q par s' \<and> P (snd (snd s'))"
proof -
  note su = served_okD [OF assms(1)]
  have n: "unat n < 2 ^ 32 - 48" "unat n \<le> length D" using assms(5,6) su(4) by (simp_all add: word_le_nat_alt)
  have dn: "of_nat (length d) = n" by (simp add: assms(7))
  define D1 where "D1 = receive_data (48 + n) n d D"
  have D1: "length D1 = length D" "slice D1 0 (unat n) = d"
    using receive_data_whole [OF assms(7) n(2)] by (simp_all add: D1_def)
  obtain D' w' where act: "act Req D1 w = (True, D', zero_status, w')" "length D' = length D"
      "Q w'" "P w'"
    using assms(8) [OF D1] by blast
  have r: "pipe_receive (message_io Req d) D su = (Deliver Req D1, su)"
    using assms(2,4,5) su(1) message_size [OF n(1)]
    by (auto simp: pipe_receive_def message_io_def not_less pipe_data_length_def Let_def D1_def dn)
  have k: "Req_Kind Req \<noteq> SpdIoctlTransactReadKind" using assms(2) by auto
  then have "serve_message act Req d (su, D, w) =
      (Inr (Some (\<lparr>Rsp_Hint = Req_Hint Req, Rsp_Kind = Req_Kind Req, Rsp_Status = zero_status\<rparr>, [])), su, D', w')"
    using assms(3) act(1) r
    by (simp add: serve_message_def pipe_respond_def message_io_def Let_def slice_def)
  then show ?thesis using su act by (simp add: served_ok_def)
qed

text \<open>A flush has no data.\<close>

lemma serve_message_flush:
  assumes "served_ok Q par (su, D, w)" and "Req_Kind Req = SpdIoctlTransactFlushKind" and "Req_Hint Req \<noteq> 0"
    and "act Req D w = (True, D', zero_status, w')" and "length D' = length D"
    and "Q w'"
  shows "\<exists>s'. serve_message act Req [] (su, D, w) =
      (Inr (Some (\<lparr>Rsp_Hint = Req_Hint Req, Rsp_Kind = Req_Kind Req, Rsp_Status = zero_status\<rparr>, [])), s') \<and>
    served_ok Q par s' \<and> snd (snd s') = w'"
proof -
  note su = served_okD [OF assms(1)]
  have r: "pipe_receive (message_io Req []) D su = (Deliver Req D, su)"
    using assms(2) by (simp add: pipe_receive_def message_io_def sizeof_TRANSACT_MSG_def Let_def)
  have "serve_message act Req [] (su, D, w) =
      (Inr (Some (\<lparr>Rsp_Hint = Req_Hint Req, Rsp_Kind = Req_Kind Req, Rsp_Status = zero_status\<rparr>, [])), su, D', w')"
    using assms(2,3,4) r by (simp add: serve_message_def pipe_respond_def message_io_def Let_def slice_def)
  then show ?thesis using su assms(5,6) by (simp add: served_ok_def)
qed

section \<open>A unit in working order passes\<close>

text \<open>The device of the unit has its octets; the outcomes of the tester's own calls are good.\<close>

definition has_blocks :: "('w \<Rightarrow> bytes) \<Rightarrow> ('w \<Rightarrow> bool) \<Rightarrow> SPD_IOCTL_STORAGE_UNIT_PARAMS \<Rightarrow> nat \<Rightarrow> 'w \<Rightarrow> bool" where
  "has_blocks disk ok par BL w \<longleftrightarrow> ok w \<and> length (disk w) = unat (BlockCount par) * BL"

definition served_by ::
    "(SPD_IOCTL_TRANSACT_REQ \<Rightarrow> bytes \<Rightarrow> 'w \<Rightarrow> bool \<times> bytes \<times> SPD_IOCTL_STORAGE_UNIT_STATUS \<times> 'w) \<Rightarrow>
     'w served_unit stg_io \<Rightarrow> bool" where
  "served_by act si \<longleftrightarrow> si_init_error si = ERROR_SUCCESS \<and> si_allocated si \<and> si_call si = serve_message act"

definition test_holds :: "SPD_IOCTL_STORAGE_UNIT_PARAMS \<Rightarrow> bytes \<Rightarrow> 'w stg_run \<Rightarrow> bool" where
  "test_holds par dsk s \<longleftrightarrow>
     (let BL = unat (BlockLength par); off = unat (rn_Address s) * BL; n = unat (rn_OpCount s)
      in (rn_Test s = SpdIoctlTransactWriteKind \<longrightarrow> filled BL (rn_Address s) n dsk off) \<and>
         (rn_Test s = SpdIoctlTransactUnmapKind \<longrightarrow> zeroed BL n dsk off))"

abbreviation round_octets_of :: "SPD_IOCTL_STORAGE_UNIT_PARAMS \<Rightarrow> 'w stg_run \<Rightarrow> nat" where
  "round_octets_of par s \<equiv> unat (rn_OpCount s) * unat (BlockLength par)"

abbreviation round_offset_of :: "SPD_IOCTL_STORAGE_UNIT_PARAMS \<Rightarrow> 'w stg_run \<Rightarrow> nat" where
  "round_offset_of par s \<equiv> unat (rn_Address s) * unat (BlockLength par)"

lemma round_bounds:
  assumes "round_fits par s" and "round_inside par s" and "length dsk = unat (BlockCount par) * unat (BlockLength par)"
  shows "round_offset_of par s + round_octets_of par s \<le> length dsk" and "round_octets_of par s < 2 ^ 32"
proof -
  have "(unat (rn_Address s) + unat (rn_OpCount s)) * unat (BlockLength par) \<le> unat (BlockCount par) * unat (BlockLength par)"
    using assms(2) by (intro mult_le_mono1) (simp add: round_inside_def)
  then show "round_offset_of par s + round_octets_of par s \<le> length dsk" by (simp add: assms(3) add_mult_distrib)
  show "round_octets_of par s < 2 ^ 32"
    using assms(1) unsigned_less [of "MaxTransferLength par", where ?'a = nat] by (simp add: round_fits_def)
qed

lemma round_request:
  assumes "Op_BlockAddress (Req_Op Req) = rn_Address s" and "Op_BlockCount (Req_Op Req) = rn_OpCount s"
  shows "req_offset (unat (BlockLength par)) Req = round_offset_of par s"
    and "req_octets (unat (BlockLength par)) Req = round_octets_of par s"
  using assms by (simp_all add: req_offset_def req_octets_def)

text \<open>What the tester gets for its three kinds of requests.\<close>

lemma client_read:
  assumes "thin_device act disk ok (unat (BlockLength par))" and "served_by act si"
    and "served_ok (has_blocks disk ok par (unat (BlockLength par))) par st" and "round_fits par s" and "round_inside par s"
    and "Req_Kind Req = SpdIoctlTransactReadKind" and "Req_Hint Req \<noteq> 0"
    and op: "Op_BlockAddress (Req_Op Req) = rn_Address s" "Op_BlockCount (Req_Op Req) = rn_OpCount s"
    and "length D = unat (MaxTransferLength par)"
  shows "\<exists>D' st'. StgTransactPipe si par (Some Req) (Some zero_rsp) (Some D) st =
      Some (ERROR_SUCCESS, Some \<lparr>Rsp_Hint = Req_Hint Req, Rsp_Kind = Req_Kind Req, Rsp_Status = zero_status\<rparr>, Some D', st') \<and>
    served_ok (has_blocks disk ok par (unat (BlockLength par))) par st' \<and> disk (snd (snd st')) = disk (snd (snd st)) \<and> length D' = length D \<and>
    slice D' 0 (round_octets_of par s) = slice (disk (snd (snd st))) (round_offset_of par s) (round_octets_of par s)"
proof -
  obtain su B w where st: "st = (su, B, w)" by (cases st) auto
  note su = served_okD [OF assms(3) [unfolded st]]
  have dev: "ok w" "length (disk w) = unat (BlockCount par) * unat (BlockLength par)"
    using su(5) by (simp_all add: has_blocks_def)
  note b = round_bounds [OF assms(4,5) dev(2)]
  note q = round_request [OF op, of par]
  define n where "n = rn_OpCount s * BlockLength par"
  have n: "unat n = round_octets_of par s" "n \<le> MaxTransferLength par"
    using round_octets [OF assms(4)] by (simp_all add: n_def)
  have le: "unat n \<le> length B" "unat n \<le> length D" using n(2) su(4) assms(10) by (simp_all add: word_le_nat_alt)
  have "request_fits (unat (BlockLength par)) Req B (disk w)"
    using b le by (simp add: request_fits_def request_inside_def q n(1))
  from block_device.act_read [OF thin_device.axioms(1) [OF assms(1)] dev(1) assms(6) this] obtain B' w' where
    act: "act Req B w = (True, B', zero_status, w')" "ok w'" "disk w' = disk w" "length B' = length B"
      "slice B' 0 (unat n) = slice (disk w) (round_offset_of par s) (unat n)"
    by (auto simp: q n(1))
  have "has_blocks disk ok par (unat (BlockLength par)) w'" using act dev by (simp add: has_blocks_def)
  moreover have nd: "n = Op_BlockCount (Req_Op Req) * BlockLength par" by (simp add: n_def op)
  ultimately
  obtain st' where st': "serve_message act Req [] (su, B, w) =
      (Inr (Some (\<lparr>Rsp_Hint = Req_Hint Req, Rsp_Kind = Req_Kind Req, Rsp_Status = zero_status\<rparr>, slice B' 0 (unat n))), st')"
      "served_ok (has_blocks disk ok par (unat (BlockLength par))) par st'" "snd (snd st') = w'"
    using serve_message_read [where act = act, OF assms(3) [unfolded st] assms(6,7) nd n(2) act(1,4)] by blast
  define r where "r = slice B' 0 (unat n)"
  have r: "length r = unat n" using le act(4) by (simp add: r_def length_slice)
  have "put k [] X = X" "slice X 0 0 = []" for k and X :: bytes by (simp_all add: put_def slice_def)
  then have "StgTransactPipe si par (Some Req) (Some zero_rsp) (Some D) st =
      Some (ERROR_SUCCESS, Some \<lparr>Rsp_Hint = Req_Hint Req, Rsp_Kind = Req_Kind Req, Rsp_Status = zero_status\<rparr>, Some (put 0 r D), st')"
    using assms(2,6) st'(1) [folded r_def] n(2) le(2) r
    by (simp add: StgTransactPipe_def served_by_def pipe_data_length_def st op Let_def not_less zero_status_def
        flip: n_def)
  moreover have "slice (put 0 r D) 0 (round_octets_of par s) = slice (disk w) (round_offset_of par s) (round_octets_of par s)"
    using act(5) [folded r_def] r le(2) n(1) by (simp add: slice_put_same)
  moreover have "length (put 0 r D) = length D" using r le(2) by (simp add: length_put)
  ultimately show ?thesis using st'(2,3) act(3) st by auto
qed

lemma client_write:
  assumes "thin_device act disk ok (unat (BlockLength par))" and "served_by act si"
    and "served_ok (has_blocks disk ok par (unat (BlockLength par))) par st" and "round_fits par s" and "round_inside par s"
    and "Req_Kind Req = SpdIoctlTransactWriteKind" and "Req_Hint Req \<noteq> 0"
    and op: "Op_BlockAddress (Req_Op Req) = rn_Address s" "Op_BlockCount (Req_Op Req) = rn_OpCount s"
    and "length D = unat (MaxTransferLength par)" and "unat (MaxTransferLength par) < 2 ^ 32 - 48"
  shows "\<exists>st'. StgTransactPipe si par (Some Req) (Some zero_rsp) (Some D) st =
      Some (ERROR_SUCCESS, Some \<lparr>Rsp_Hint = Req_Hint Req, Rsp_Kind = Req_Kind Req, Rsp_Status = zero_status\<rparr>, Some D, st') \<and>
    served_ok (has_blocks disk ok par (unat (BlockLength par))) par st' \<and>
    slice (disk (snd (snd st'))) (round_offset_of par s) (round_octets_of par s) = slice D 0 (round_octets_of par s)"
proof -
  obtain su B w where st: "st = (su, B, w)" by (cases st) auto
  note su = served_okD [OF assms(3) [unfolded st]]
  have dev: "ok w" "length (disk w) = unat (BlockCount par) * unat (BlockLength par)"
    using su(5) by (simp_all add: has_blocks_def)
  note b = round_bounds [OF assms(4,5) dev(2)]
  note q = round_request [OF op, of par]
  define n where "n = pipe_data_length par Req"
  have n: "unat n = round_octets_of par s" "n \<le> MaxTransferLength par"
    using round_octets [OF assms(4)] assms(6) by (simp_all add: n_def pipe_data_length_def op)
  have le: "unat n \<le> length B" "unat n \<le> length D" using n(2) su(4) assms(10) by (simp_all add: word_le_nat_alt)
  have d: "length (slice D 0 (unat n)) = unat n" using le by (simp add: length_slice)
  have act: "\<exists>B' w'. act Req B1 w = (True, B', zero_status, w') \<and> length B' = length B \<and>
      has_blocks disk ok par (unat (BlockLength par)) w' \<and>
      slice (disk w') (round_offset_of par s) (round_octets_of par s) = slice D 0 (unat n)"
    if B1: "length B1 = length B" "slice B1 0 (unat n) = slice D 0 (unat n)" for B1
  proof -
    have "request_fits (unat (BlockLength par)) Req B1 (disk w)"
      using b le B1(1) by (simp add: request_fits_def request_inside_def q n(1))
    from block_device.act_write [OF thin_device.axioms(1) [OF assms(1)] dev(1) assms(6) this] obtain B' w' where
      w': "act Req B1 w = (True, B', zero_status, w')" "ok w'" "length B' = length B1"
        "disk w' = put (round_offset_of par s) (slice D 0 (unat n)) (disk w)"
      using B1(2) by (auto simp: q n(1))
    moreover have "slice (disk w') (round_offset_of par s) (round_octets_of par s) = slice D 0 (unat n)"
      unfolding w'(4) using b(1) d n(1) by (intro slice_put_same) simp_all
    moreover have "length (disk w') = length (disk w)" unfolding w'(4) using b(1) d n(1) by (intro length_put) simp
    ultimately show ?thesis using B1(1) dev(2) by (auto simp: has_blocks_def)
  qed
  note dat = serve_message_data [OF assms(3) [unfolded st] disjI1 [OF assms(6)] assms(7) n_def n(2) assms(11) d, of act
      "\<lambda>w'. slice (disk w') (round_offset_of par s) (round_octets_of par s) = slice D 0 (unat n)"]
  obtain st' where st': "serve_message act Req (slice D 0 (unat n)) (su, B, w) =
      (Inr (Some (\<lparr>Rsp_Hint = Req_Hint Req, Rsp_Kind = Req_Kind Req, Rsp_Status = zero_status\<rparr>, [])), st')"
      "served_ok (has_blocks disk ok par (unat (BlockLength par))) par st'"
      "slice (disk (snd (snd st'))) (round_offset_of par s) (round_octets_of par s) = slice D 0 (unat n)"
    using dat [OF act] by blast
  have "StgTransactPipe si par (Some Req) (Some zero_rsp) (Some D) st =
      Some (ERROR_SUCCESS, Some \<lparr>Rsp_Hint = Req_Hint Req, Rsp_Kind = Req_Kind Req, Rsp_Status = zero_status\<rparr>, Some D, st')"
    using assms(2,6) st'(1) n(2) le(2)
    by (simp add: StgTransactPipe_def served_by_def st Let_def not_less flip: n_def)
  then show ?thesis using st'(2,3) n(1) by auto
qed

text \<open>The descriptor of an unmap, as the tester writes it and as the device reads it.\<close>

lemma unmap_descriptor:
  assumes "slice X 0 16 = le64 a @ le32 n @ le32 0"
  shows "unmap_range BL X 0 = (unat a * BL, unat n * BL)"
proof -
  have "slice X 0 16 = slice (le64 a @ le32 n @ le32 0) 0 16"
    unfolding assms by (simp add: slice_def codec_simps)
  from slice_eq_sub [OF this, of 0 8] slice_eq_sub [OF this, of 8 4]
  have "slice X 0 8 = le64 a" "slice X 8 4 = le32 n"
    by (simp_all add: slice_def codec_simps)
  then show ?thesis by (simp add: unmap_range_def l64.dec_enc l32.dec_enc)
qed

lemma zeroed_by_nth:
  assumes "\<forall>i. off \<le> i \<and> i < off + n * BL \<longrightarrow> dsk ! i = 0" and "off + n * BL \<le> length dsk"
  shows "zeroed BL n dsk off"
proof -
  have z: "getl64 (replicate 8 0) = 0" by (simp add: getl64_def get64_def numeral_nat)
  have "slice dsk (off + k) 8 = replicate 8 0" if "k + 8 \<le> n * BL" for k
    using that assms by (intro nth_equalityI) (simp_all add: slice_def)
  then show ?thesis using word_inside [of _ n _ BL] z by (simp add: zeroed_def add.assoc)
qed

lemma client_unmap:
  assumes "thin_device act disk ok (unat (BlockLength par))" and "served_by act si"
    and "served_ok (has_blocks disk ok par (unat (BlockLength par))) par st" and "round_fits par s" and "round_inside par s"
    and "Req_Kind Req = SpdIoctlTransactUnmapKind" and "Req_Hint Req \<noteq> 0" and "Op_UnmapCount (Req_Op Req) = 1"
    and "slice D 0 16 = le64 (rn_Address s) @ le32 (rn_OpCount s) @ le32 0"
    and "length D = unat (MaxTransferLength par)" and "16 \<le> unat (MaxTransferLength par)"
    and "unat (MaxTransferLength par) < 2 ^ 32 - 48"
  shows "\<exists>st'. StgTransactPipe si par (Some Req) (Some zero_rsp) (Some D) st =
      Some (ERROR_SUCCESS, Some \<lparr>Rsp_Hint = Req_Hint Req, Rsp_Kind = Req_Kind Req, Rsp_Status = zero_status\<rparr>, Some D, st') \<and>
    served_ok (has_blocks disk ok par (unat (BlockLength par))) par st' \<and>
    zeroed (unat (BlockLength par)) (unat (rn_OpCount s)) (disk (snd (snd st'))) (round_offset_of par s)"
proof -
  obtain su B w where st: "st = (su, B, w)" by (cases st) auto
  note su = served_okD [OF assms(3) [unfolded st]]
  have dev: "ok w" "length (disk w) = unat (BlockCount par) * unat (BlockLength par)"
    using su(5) by (simp_all add: has_blocks_def)
  note b = round_bounds [OF assms(4,5) dev(2)]
  have n: "16 = pipe_data_length par Req" "16 \<le> MaxTransferLength par"
    using assms(6,8,11) by (simp_all add: pipe_data_length_def word_le_nat_alt)
  have d: "length (slice D 0 16) = unat (16 :: u32)" using assms(10,11) by (simp add: length_slice)
  have act: "\<exists>B' w'. act Req B1 w = (True, B', zero_status, w') \<and> length B' = length B \<and>
      has_blocks disk ok par (unat (BlockLength par)) w' \<and>
      zeroed (unat (BlockLength par)) (unat (rn_OpCount s)) (disk w') (round_offset_of par s)"
    if B1: "length B1 = length B" "slice B1 0 (unat (16 :: u32)) = slice D 0 16" for B1
  proof -
    have r: "unmap_range (unat (BlockLength par)) B1 0 = (round_offset_of par s, round_octets_of par s)"
      by (rule unmap_descriptor) (use B1(2) assms(9) in simp)
    then have "\<forall>I < unat (Op_UnmapCount (Req_Op Req)). unmap_ok (unat (BlockLength par)) B1 I (disk w)"
      using b by (simp add: assms(8) unmap_ok_def)
    from thin_device.act_unmap [OF assms(1) dev(1) assms(6) this] obtain B' w' where
      w': "act Req B1 w = (True, B', zero_status, w')" "ok w'" "length B' = length B1" "length (disk w') = length (disk w)"
        "\<forall>i < length (disk w). disk w' ! i =
          (if round_offset_of par s \<le> i \<and> i < round_offset_of par s + round_octets_of par s then 0 else disk w ! i)"
      by (auto simp: assms(8) r)
    have "zeroed (unat (BlockLength par)) (unat (rn_OpCount s)) (disk w') (round_offset_of par s)"
      using w'(4,5) b(1) by (intro zeroed_by_nth) simp_all
    then show ?thesis using w' B1(1) dev(2) by (auto simp: has_blocks_def)
  qed
  note dat = serve_message_data [OF assms(3) [unfolded st] disjI2 [OF assms(6)] assms(7) n assms(12) d, of act
      "\<lambda>w'. zeroed (unat (BlockLength par)) (unat (rn_OpCount s)) (disk w') (round_offset_of par s)"]
  obtain st' where st': "serve_message act Req (slice D 0 16) (su, B, w) =
      (Inr (Some (\<lparr>Rsp_Hint = Req_Hint Req, Rsp_Kind = Req_Kind Req, Rsp_Status = zero_status\<rparr>, [])), st')"
      "served_ok (has_blocks disk ok par (unat (BlockLength par))) par st'"
      "zeroed (unat (BlockLength par)) (unat (rn_OpCount s)) (disk (snd (snd st'))) (round_offset_of par s)"
    using dat [OF act] by blast
  have "StgTransactPipe si par (Some Req) (Some zero_rsp) (Some D) st =
      Some (ERROR_SUCCESS, Some \<lparr>Rsp_Hint = Req_Hint Req, Rsp_Kind = Req_Kind Req, Rsp_Status = zero_status\<rparr>, Some D, st')"
    using assms(2,6,10,11) st'(1) n(2)
    by (simp add: StgTransactPipe_def served_by_def st Let_def not_less flip: n(1))
  then show ?thesis using st'(2,3) by auto
qed

lemma client_flush:
  assumes "thin_device act disk ok (unat (BlockLength par))" and "served_by act si"
    and "served_ok (has_blocks disk ok par (unat (BlockLength par))) par st" and "round_fits par s" and "round_inside par s"
    and "Req_Kind Req = SpdIoctlTransactFlushKind" and "Req_Hint Req \<noteq> 0"
    and op: "Op_BlockAddress (Req_Op Req) = rn_Address s" "Op_BlockCount (Req_Op Req) = rn_OpCount s"
  shows "\<exists>st'. StgTransactPipe si par (Some Req) (Some zero_rsp) (Some D) st =
      Some (ERROR_SUCCESS, Some \<lparr>Rsp_Hint = Req_Hint Req, Rsp_Kind = Req_Kind Req, Rsp_Status = zero_status\<rparr>, Some D, st') \<and>
    served_ok (has_blocks disk ok par (unat (BlockLength par))) par st' \<and> disk (snd (snd st')) = disk (snd (snd st))"
proof -
  obtain su B w where st: "st = (su, B, w)" by (cases st) auto
  note su = served_okD [OF assms(3) [unfolded st]]
  have dev: "ok w" "length (disk w) = unat (BlockCount par) * unat (BlockLength par)"
    using su(5) by (simp_all add: has_blocks_def)
  note b = round_bounds [OF assms(4,5) dev(2)]
  have "request_inside (unat (BlockLength par)) Req (disk w)"
    using b by (simp add: request_inside_def round_request [OF op])
  from thin_device.act_flush [OF assms(1) dev(1) assms(6) this, of B] obtain B' w' where
    act: "act Req B w = (True, B', zero_status, w')" "ok w'" "disk w' = disk w" "length B' = length B"
    by auto
  moreover have "has_blocks disk ok par (unat (BlockLength par)) w'" using act dev by (simp add: has_blocks_def)
  ultimately obtain st' where st': "serve_message act Req [] (su, B, w) =
      (Inr (Some (\<lparr>Rsp_Hint = Req_Hint Req, Rsp_Kind = Req_Kind Req, Rsp_Status = zero_status\<rparr>, [])), st')"
      "served_ok (has_blocks disk ok par (unat (BlockLength par))) par st'" "snd (snd st') = w'"
    using serve_message_flush [where act = act, OF assms(3) [unfolded st] assms(6,7) act(1,4)] by blast
  have "StgTransactPipe si par (Some Req) (Some zero_rsp) (Some D) st =
      Some (ERROR_SUCCESS, Some \<lparr>Rsp_Hint = Req_Hint Req, Rsp_Kind = Req_Kind Req, Rsp_Status = zero_status\<rparr>, Some D, st')"
    using assms(2,6) st'(1)
    by (simp add: StgTransactPipe_def served_by_def pipe_data_length_def st Let_def slice_def)
  then show ?thesis using st'(2,3) act(3) st by auto
qed

text \<open>The state between two turns of a run that has found no error, and the second half of a turn.\<close>

definition passing ::
    "('w \<Rightarrow> bytes) \<Rightarrow> ('w \<Rightarrow> bool) \<Rightarrow> SPD_IOCTL_STORAGE_UNIT_PARAMS \<Rightarrow> 'w served_unit stg_run \<Rightarrow> bool" where
  "passing disk ok par s \<longleftrightarrow> run_inv par s \<and>
     served_ok (has_blocks disk ok par (unat (BlockLength par))) par (rn_unit s) \<and>
     (rn_J s \<noteq> 0 \<longrightarrow> round_inside par s \<and> test_holds par (disk (snd (snd (rn_unit s)))) s)"

lemma hint_nonzero: "ThreadId \<noteq> 0 \<Longrightarrow> push_bit 32 (ucast ThreadId) OR ucast (I :: u32) \<noteq> (0 :: u64)" for ThreadId :: u32
proof -
  assume "ThreadId \<noteq> 0"
  then obtain m where m: "bit ThreadId m" by (metis bit_eqI bit_0_eq bot_apply bot_bool_def)
  then have "m < 32" using bit_imp_le_length by fastforce
  with m have "bit (push_bit 32 (ucast ThreadId) OR ucast I :: u64) (m + 32)" by (simp add: bit_simps)
  then show ?thesis by auto
qed

lemma round_passes:
  assumes "thin_device act disk ok (unat (BlockLength par))" and "served_by act si" and "stg_params_ok par"
    and "unat (MaxTransferLength par) < 2 ^ 32 - 48" and "ThreadId \<noteq> 0"
    and "served_ok (has_blocks disk ok par (unat (BlockLength par))) par (rn_unit s)"
    and "round_fits par s" and "round_inside par s" and "length (rn_Data s) = unat (MaxTransferLength par)"
    and "test_holds par (disk (snd (snd (rn_unit s)))) s" and "stg_kind Kind"
  shows "\<exists>Req D T Rsp D' st. stg_request par ThreadId I Kind s = Some (Req, s\<lparr>rn_Data := D, rn_Test := T\<rparr>) \<and>
    StgTransactPipe si par (Some Req) (Some zero_rsp) (Some D) (rn_unit s) = Some (ERROR_SUCCESS, Some Rsp, Some D', st) \<and>
    stg_check par Req Rsp (s\<lparr>rn_Test := T, rn_Data := D', rn_unit := st\<rparr>) = Some ERROR_SUCCESS \<and>
    length D' = unat (MaxTransferLength par) \<and>
    served_ok (has_blocks disk ok par (unat (BlockLength par))) par st \<and>
    test_holds par (disk (snd (snd st))) (s\<lparr>rn_Test := T\<rparr>)"
proof -
  define H where "H = push_bit 32 (ucast ThreadId) OR (ucast I :: u64)"
  have H: "H \<noteq> 0" using hint_nonzero [OF assms(5)] by (simp add: H_def)
  define Req where "Req u = zero_req\<lparr>Req_Hint := H, Req_Kind := Kind, Req_Op := u\<rparr>" for u
  have Req: "Req_Hint (Req u) = H" "Req_Kind (Req u) = Kind" "Req_Op (Req u) = u" for u by (simp_all add: Req_def)
  have max: "16 \<le> unat (MaxTransferLength par)" using params_limits(1,2) [OF assms(3)] by linarith
  have same: "s = s\<lparr>rn_Data := rn_Data s, rn_Test := rn_Test s\<rparr>" by simp
  have good: "ScsiStatus zero_status = SCSISTAT_GOOD" by (simp add: zero_status_def)
  have step: ?thesis
    if "stg_request par ThreadId I Kind s = Some (R, s\<lparr>rn_Data := D, rn_Test := T\<rparr>)"
      "StgTransactPipe si par (Some R) (Some zero_rsp) (Some D) (rn_unit s) = Some (ERROR_SUCCESS, Some Rsp, Some D', st)"
      "stg_check par R Rsp (s\<lparr>rn_Test := T, rn_Data := D', rn_unit := st\<rparr>) = Some ERROR_SUCCESS"
      "length D' = unat (MaxTransferLength par)"
      "served_ok (has_blocks disk ok par (unat (BlockLength par))) par st"
      "test_holds par (disk (snd (snd st))) (s\<lparr>rn_Test := T\<rparr>)" for R D T Rsp D' st
    using that by blast
  consider "Kind = SpdIoctlTransactReadKind" | "Kind = SpdIoctlTransactWriteKind" | "Kind = SpdIoctlTransactFlushKind"
    | "Kind = SpdIoctlTransactUnmapKind" using assms(11) by (auto simp: stg_kind_def)
  then show ?thesis
  proof cases
    case 1
    let ?R = "Req (range_op True par (rn_Address s) (rn_OpCount s))"
    have R: "stg_request par ThreadId I Kind s = Some (?R, s\<lparr>rn_Data := rn_Data s, rn_Test := rn_Test s\<rparr>)"
      using 1 by (simp add: stg_request_def Let_def Req_def H_def)
    obtain D' st where t: "StgTransactPipe si par (Some ?R) (Some zero_rsp) (Some (rn_Data s)) (rn_unit s) =
        Some (ERROR_SUCCESS, Some \<lparr>Rsp_Hint = H, Rsp_Kind = Kind, Rsp_Status = zero_status\<rparr>, Some D', st)"
        "served_ok (has_blocks disk ok par (unat (BlockLength par))) par st"
        "disk (snd (snd st)) = disk (snd (snd (rn_unit s)))" "length D' = length (rn_Data s)"
        "slice D' 0 (round_octets_of par s) = slice (disk (snd (snd (rn_unit s)))) (round_offset_of par s) (round_octets_of par s)"
      using client_read [OF assms(1,2,6,7,8) _ _ _ _ assms(9), of ?R] 1 H by (auto simp: Req)
    define s1 where "s1 = s\<lparr>rn_Test := rn_Test s, rn_Data := D', rn_unit := st\<rparr>"
    have s1: "round_fits par s1" "length (rn_Data s1) = unat (MaxTransferLength par)"
      using assms(7,9) t(4) by (simp_all add: s1_def round_fits_def)
    note test = FillOrTest_test [OF round_blocks_fit [OF s1], of "rn_Address s1"]
    have f: "rn_Test s1 = SpdIoctlTransactWriteKind \<Longrightarrow>
        filled (unat (BlockLength par)) (rn_Address s1) (unat (rn_OpCount s1)) (rn_Data s1) 0"
      "rn_Test s1 = SpdIoctlTransactUnmapKind \<Longrightarrow> zeroed (unat (BlockLength par)) (unat (rn_OpCount s1)) (rn_Data s1) 0"
      using assms(10) filled_cong [OF t(5)] by (simp_all add: test_holds_def Let_def s1_def)
    have c: "stg_check par ?R \<lparr>Rsp_Hint = H, Rsp_Kind = Kind, Rsp_Status = zero_status\<rparr> s1 = Some ERROR_SUCCESS"
    proof (cases "rn_Test s1 = SpdIoctlTransactWriteKind \<or> rn_Test s1 = SpdIoctlTransactUnmapKind")
      case True
      then show ?thesis using f test by (elim disjE) (simp_all add: stg_check_def Req good)
    qed (simp add: stg_check_def Req good)
    have "test_holds par (disk (snd (snd st))) (s\<lparr>rn_Test := rn_Test s\<rparr>)" using assms(10) t(3) by simp
    then show ?thesis using step [OF R t(1) c [unfolded s1_def] _ t(2)] t(4) assms(9) by simp
  next
    case 2
    let ?R = "Req (range_op True par (rn_Address s) (rn_OpCount s))"
    obtain D where D: "FillOrTest (rn_Data s) (BlockLength par) (rn_Address s) (rn_OpCount s) 0 = Some (True, D)"
        "length D = length (rn_Data s)" "filled (unat (BlockLength par)) (rn_Address s) (unat (rn_OpCount s)) D 0"
      using FillOrTest_fill [OF round_blocks_fit [OF assms(7,9)]] by blast
    have R: "stg_request par ThreadId I Kind s = Some (?R, s\<lparr>rn_Data := D, rn_Test := SpdIoctlTransactWriteKind\<rparr>)"
      using 2 D(1) by (simp add: stg_request_def Let_def Req_def H_def)
    obtain st where t: "StgTransactPipe si par (Some ?R) (Some zero_rsp) (Some D) (rn_unit s) =
        Some (ERROR_SUCCESS, Some \<lparr>Rsp_Hint = H, Rsp_Kind = Kind, Rsp_Status = zero_status\<rparr>, Some D, st)"
        "served_ok (has_blocks disk ok par (unat (BlockLength par))) par st"
        "slice (disk (snd (snd st))) (round_offset_of par s) (round_octets_of par s) = slice D 0 (round_octets_of par s)"
      using client_write [OF assms(1,2,6,7,8) _ _ _ _ _ assms(4), of ?R D] 2 H D(2) assms(9) by (auto simp: Req)
    have "test_holds par (disk (snd (snd st))) (s\<lparr>rn_Test := SpdIoctlTransactWriteKind\<rparr>)"
      using D(3) filled_cong(1) [OF t(3)] by (simp add: test_holds_def Let_def)
    moreover have c: "stg_check par ?R \<lparr>Rsp_Hint = H, Rsp_Kind = Kind, Rsp_Status = zero_status\<rparr>
        (s\<lparr>rn_Test := SpdIoctlTransactWriteKind, rn_Data := D, rn_unit := st\<rparr>) = Some ERROR_SUCCESS"
      using 2 by (simp add: stg_check_def Req good)
    ultimately show ?thesis
      using step [OF R t(1) c _ t(2)] D(2) assms(9) by simp
  next
    case 3
    let ?R = "Req (range_op False par (rn_Address s) (rn_OpCount s))"
    have R: "stg_request par ThreadId I Kind s = Some (?R, s\<lparr>rn_Data := rn_Data s, rn_Test := rn_Test s\<rparr>)"
      using 3 by (simp add: stg_request_def Let_def Req_def H_def)
    obtain st where t: "StgTransactPipe si par (Some ?R) (Some zero_rsp) (Some (rn_Data s)) (rn_unit s) =
        Some (ERROR_SUCCESS, Some \<lparr>Rsp_Hint = H, Rsp_Kind = Kind, Rsp_Status = zero_status\<rparr>, Some (rn_Data s), st)"
        "served_ok (has_blocks disk ok par (unat (BlockLength par))) par st"
        "disk (snd (snd st)) = disk (snd (snd (rn_unit s)))"
      using client_flush [OF assms(1,2,6,7,8), of ?R "rn_Data s"] 3 H by (auto simp: Req)
    have c: "stg_check par ?R \<lparr>Rsp_Hint = H, Rsp_Kind = Kind, Rsp_Status = zero_status\<rparr>
        (s\<lparr>rn_Test := rn_Test s, rn_Data := rn_Data s, rn_unit := st\<rparr>) = Some ERROR_SUCCESS"
      using 3 by (simp add: stg_check_def Req good)
    have "test_holds par (disk (snd (snd st))) (s\<lparr>rn_Test := rn_Test s\<rparr>)" using assms(10) t(3) by simp
    then show ?thesis using step [OF R t(1) c assms(9) t(2)] by simp
  next
    case 4
    let ?R = "Req (Op_set_UnmapCount 1 (Req_Op zero_req))"
    define D where "D = put 0 (le64 (rn_Address s) @ le32 (rn_OpCount s) @ le32 0) (rn_Data s)"
    have D: "length D = unat (MaxTransferLength par)" "slice D 0 16 = le64 (rn_Address s) @ le32 (rn_OpCount s) @ le32 0"
      using max assms(9) by (simp_all add: D_def length_put slice_put_same codec_simps)
    have R: "stg_request par ThreadId I Kind s = Some (?R, s\<lparr>rn_Data := D, rn_Test := SpdIoctlTransactUnmapKind\<rparr>)"
      using 4 max assms(9) by (simp add: stg_request_def Let_def Req_def H_def D_def)
    have one: "Op_UnmapCount (Req_Op ?R) = 1" by (simp add: Req zero_req_def Op_set_UnmapCount_def Op_UnmapCount_def)
    obtain st where t: "StgTransactPipe si par (Some ?R) (Some zero_rsp) (Some D) (rn_unit s) =
        Some (ERROR_SUCCESS, Some \<lparr>Rsp_Hint = H, Rsp_Kind = Kind, Rsp_Status = zero_status\<rparr>, Some D, st)"
        "served_ok (has_blocks disk ok par (unat (BlockLength par))) par st"
        "zeroed (unat (BlockLength par)) (unat (rn_OpCount s)) (disk (snd (snd st))) (round_offset_of par s)"
      using client_unmap [OF assms(1,2,6,7,8) _ _ one D(2,1) max assms(4)] 4 H by (auto simp: Req)
    have "test_holds par (disk (snd (snd st))) (s\<lparr>rn_Test := SpdIoctlTransactUnmapKind\<rparr>)"
      using t(3) by (simp add: test_holds_def Let_def)
    moreover have c: "stg_check par ?R \<lparr>Rsp_Hint = H, Rsp_Kind = Kind, Rsp_Status = zero_status\<rparr>
        (s\<lparr>rn_Test := SpdIoctlTransactUnmapKind, rn_Data := D, rn_unit := st\<rparr>) = Some ERROR_SUCCESS"
      using 4 by (simp add: stg_check_def Req good)
    ultimately show ?thesis using step [OF R t(1) c D(1) t(2)] by simp
  qed
qed

lemma turn_passes:
  assumes "thin_device act disk ok (unat (BlockLength par))" and "served_by act si" and "stg_params_ok par"
    and "unat (MaxTransferLength par) < 2 ^ 32 - 48" and "ThreadId \<noteq> 0" and "IsPipeHandle h"
    and "unat (BlockCount par) + 2 ^ 32 \<le> 2 ^ 64" and "passing disk ok par s"
  shows "\<exists>s'. stg_turn si par h ThreadId (op_kinds OpSet) ra rc I s = Some (ERROR_SUCCESS, s') \<and> passing disk ok par s'"
proof -
  obtain s1 where s1: "(if rn_J s = 0 then next_count par rc (next_address par ra I s) else Some s) = Some s1"
      "rn_Data s1 = rn_Data s" "rn_unit s1 = rn_unit s" "round_fits par s1" "round_inside par s1"
      "test_holds par (disk (snd (snd (rn_unit s)))) s1"
  proof (cases "rn_J s = 0")
    case True
    have "rn_Address (next_address par ra I s) < BlockCount par"
      using assms(3) by (intro next_address_fields(4)) (simp add: stg_params_ok_def)
    from next_count_ok [OF assms(3) this, of rc] True assms(7) that show ?thesis
      by (auto simp: next_address_fields test_holds_def Let_def)
  qed (use assms(8) that in \<open>auto simp: passing_def run_inv_def\<close>)
  have len: "length (rn_Data s1) = unat (MaxTransferLength par)"
    and served: "served_ok (has_blocks disk ok par (unat (BlockLength par))) par (rn_unit s1)"
    using assms(8) s1(2,3) by (simp_all add: passing_def run_inv_def)
  from round_passes [OF assms(1-5) served s1(4,5) len _ nth_kinds, of "of_nat I" OpSet I] s1(3,6)
  obtain Req D T Rsp D' st where q: "stg_request par ThreadId (of_nat I) (op_kinds OpSet ! (I mod length (op_kinds OpSet))) s1 =
        Some (Req, s1\<lparr>rn_Data := D, rn_Test := T\<rparr>)"
      "StgTransactPipe si par (Some Req) (Some zero_rsp) (Some D) (rn_unit s1) = Some (ERROR_SUCCESS, Some Rsp, Some D', st)"
      "stg_check par Req Rsp (s1\<lparr>rn_Test := T, rn_Data := D', rn_unit := st\<rparr>) = Some ERROR_SUCCESS"
      "length D' = unat (MaxTransferLength par)"
      "served_ok (has_blocks disk ok par (unat (BlockLength par))) par st"
      "test_holds par (disk (snd (snd st))) (s1\<lparr>rn_Test := T\<rparr>)"
    by auto
  define s2 where "s2 = s1\<lparr>rn_Test := T, rn_Data := D', rn_unit := st\<rparr>"
  have "stg_turn si par h ThreadId (op_kinds OpSet) ra rc I s =
      Some (ERROR_SUCCESS, s2\<lparr>rn_J := (rn_J s2 + 1) mod length (op_kinds OpSet)\<rparr>)"
    using s1(1) q(1-3) assms(6) by (simp add: stg_turn_def StgTransact_def Let_def flip: s2_def)
  moreover have "passing disk ok par (s2\<lparr>rn_J := J\<rparr>)" for J
    using q(4-6) s1(4,5)
    by (simp add: passing_def s2_def run_inv_def round_fits_def round_inside_def test_holds_def Let_def)
  ultimately show ?thesis by blast
qed

lemma loop_passes:
  assumes "thin_device act disk ok (unat (BlockLength par))" and "served_by act si" and "stg_params_ok par"
    and "unat (MaxTransferLength par) < 2 ^ 32 - 48" and "ThreadId \<noteq> 0" and "IsPipeHandle h"
    and "unat (BlockCount par) + 2 ^ 32 \<le> 2 ^ 64" and "passing disk ok par s"
  shows "\<exists>s'. stg_loop si par h ThreadId (op_kinds OpSet) ra rc Is s = Some (ERROR_SUCCESS, s') \<and> passing disk ok par s'"
  using assms(8)
proof (induction Is arbitrary: s)
  case (Cons I Is)
  obtain s1 where "stg_turn si par h ThreadId (op_kinds OpSet) ra rc I s = Some (ERROR_SUCCESS, s1)" "passing disk ok par s1"
    using turn_passes [OF assms(1-7) Cons.prems] by blast
  with Cons.IH show ?case by simp
qed simp

text \<open>C5: A unit in working order passes. When the dispatcher of the DLL serves a pipe with a device that reads,
  writes, flushes and unmaps as it should, the tester, run over this pipe with any operations, addresses,
  counts and seed, ends with success, and the device is still in working order.\<close>

theorem stgtest_passes_working_device:
  assumes "thin_device act disk ok (unat (BlockLength par))" and "ok w" and "served_by act si"
    and "StgOpenPipe (Inr hnd) again ERROR_SUCCESS (Inr (128, par)) = Inr (h, par)"
    and "length (disk w) = unat (BlockCount par) * unat (BlockLength par)" and "length (disk w) < 2 ^ 64"
    and "unat (MaxTransferLength par) < 2 ^ 32 - 48"
    and "length D = unat (MaxTransferLength par)" and "length D' = unat (MaxTransferLength par)" and "ThreadId \<noteq> 0"
  shows "\<exists>Seed' su E w'. stgtest_run si (StgOpenPipe (Inr hnd) again ERROR_SUCCESS (Inr (128, par))) (\<lambda>n. Some D')
      ThreadId OpCount OpSet BlockAddress Count Seed (new_pipe_unit par, D, w) =
    Some (ERROR_SUCCESS, Seed', su, E, w') \<and> ok w' \<and> length (disk w') = length (disk w)"
proof -
  have par: "stg_params_ok par" "IsPipeHandle h" using open_pipe_ok [OF assms(4)] by auto
  have "unat (BlockCount par) * 16 < 2 ^ 64"
    using assms(5,6) params_limits(1) [OF par(1)] by (metis le_less_trans mult_le_mono2)
  then have bc: "unat (BlockCount par) + 2 ^ 32 \<le> 2 ^ 64" by simp
  define s where "s = \<lparr>rn_J = 0, rn_Address = BlockAddress, rn_Count = Count, rn_OpCount = 0, rn_Test = 0,
    rn_Seed = Seed, rn_Data = D', rn_unit = (new_pipe_unit par, D, w)\<rparr>"
  have "passing disk ok par s"
    using assms(2,5,8,9)
    by (simp add: passing_def s_def run_inv_def served_ok_def has_blocks_def new_pipe_unit_def [of par, THEN arg_cong, of su_Params])
  from loop_passes [OF assms(1,3) par(1) assms(7,10) par(2) bc this]
  obtain s' where s': "stg_loop si par h ThreadId (op_kinds OpSet) (BlockAddress = - 1) (Count = - 1)
        [0..<unat (if OpCount = 0 then 1 else OpCount)] s = Some (ERROR_SUCCESS, s')" "passing disk ok par s'"
    by blast
  obtain su E w' where u: "rn_unit s' = (su, E, w')" by (cases "rn_unit s'") auto
  have "ok w'" "length (disk w') = length (disk w)"
    using s'(2) assms(5) by (simp_all add: passing_def u served_ok_def has_blocks_def)
  with s'(1) u show ?thesis
    unfolding assms(4) by (simp add: stgtest_run_def flip: s_def)
qed

definition tester_io :: "RAWDISK served_unit stg_io" where
  "tester_io = \<lparr>si_init_error = 0, si_allocated = True, si_call = serve_message (dispatch_op (RawDiskInterface good_sys)),
     si_write = \<lambda>_ _ w. (Inl 0, w), si_read = \<lambda>_ _ w. (Inl 0, w)\<rparr>"

theorem stgtest_passes_working_device_witness:
  "\<exists>Seed' su E w'. stgtest_run tester_io (StgOpenPipe (Inr 4) (Inl 0) ERROR_SUCCESS (Inr (128, tester_params)))
      (\<lambda>n. Some (replicate 65536 0)) 1 1000 [0x57, 0x52, 0x55, 0x52, 0x46] (- 1) (- 1) 7
      (new_pipe_unit tester_params, replicate 65536 0, demo_disk) =
    Some (ERROR_SUCCESS, Seed', su, E, w')"
proof -
  have par: "unat (BlockLength tester_params) = 512" "unat (BlockCount tester_params) = 1024"
    "unat (MaxTransferLength tester_params) = 65536" by (simp_all add: tester_params_def)
  have dev: "thin_device (dispatch_op (RawDiskInterface good_sys)) rd_Memory (\<lambda>rd. sys_works good_sys \<and> rd_ok 512 rd)
      (unat (BlockLength tester_params))"
    unfolding par by (rule rawdisk.thin_device_axioms)
  have "served_by (dispatch_op (RawDiskInterface good_sys)) tester_io" by (simp add: served_by_def tester_io_def)
  moreover have "length (rd_Memory demo_disk) = 524288" by (simp add: demo_disk_def)
  ultimately show ?thesis
    using stgtest_passes_working_device [OF dev demo_disk_ok _ tester_open, where D = "replicate 65536 0"
        and D' = "replicate 65536 0" and ThreadId = 1 and OpCount = 1000 and OpSet = "[0x57, 0x52, 0x55, 0x52, 0x46]"
        and BlockAddress = "- 1" and Count = "- 1" and Seed = 7 and si = tester_io]
    by (simp add: par) blast
qed

end
