(* ===== verification/ScsiText.thy ===== *)
theory ScsiText
  imports Shared_Util
begin

text \<open>
  The text of SCSI data: src/scsitool/scsitext.c. A format is a text with one field in a line: the type
  of the field, its width, its name. \<open>ScsiText\<close> goes through the data and the format together and calls a
  function for each field, which prints a line or a cell of a table.

  Texts are lists of character codes. An offset or a length of a buffer in memory is a natural number,
  which the 64-bit type of the code holds; the value of a field and a width are words, which wrap.
\<close>

section \<open>Formats\<close>

definition chars :: "string \<Rightarrow> int list" where "chars s = map of_char s"

text \<open>
  A line: whether it starts with a star, the type, the width (\<open>None\<close> for the width \<open>m\<close> that an earlier
  field has set), the name, and the numbers of \<open>(n-v)\<close> and \<open>(m-v)\<close> in it, all ones if there are none.
\<close>

record text_line =
  ln_star :: bool
  ln_type :: int
  ln_width :: "u32 option"
  ln_name :: "int list"
  ln_n :: u32
  ln_m :: u32

definition line_width :: "int list \<Rightarrow> u32 option \<times> int list" where
  "line_width p =
     (if char0 p = 0x6d then (None, tl p)
      else case strtoint p 10 False of (v, p) \<Rightarrow> (Some (ucast v), p))"

text \<open>The number after an opening bracket, a letter and a minus sign, if a closing bracket ends it.\<close>

definition minus_value :: "int \<Rightarrow> int list \<Rightarrow> u32 option" where
  "minus_value c p =
     (if take 3 p = [0x28, c, 0x2d]
      then (case strtoint (drop 3 p) 10 False of (v, q) \<Rightarrow> if char0 q = 0x29 then Some (ucast v) else None)
      else None)"

fun scan_name :: "int list \<Rightarrow> u32 \<Rightarrow> u32 \<Rightarrow> int list \<times> u32 \<times> u32 \<times> int list" where
  "scan_name [] n m = ([], n, m, [])"
| "scan_name (c # p) n m =
     (if c = 0 \<or> c = 0x0a then ([], n, m, c # p)
      else case (case minus_value 0x6e (c # p) of Some v \<Rightarrow> (v, m)
                 | None \<Rightarrow> (case minus_value 0x6d (c # p) of Some v \<Rightarrow> (n, v) | None \<Rightarrow> (n, m))) of
        (n, m) \<Rightarrow> (case scan_name p n m of (name, n, m, p) \<Rightarrow> (c # name, n, m, p)))"

text \<open>The line at the start of a format, and what follows behind its end; \<open>None\<close> at the end of the format.\<close>

definition parse_line :: "int list \<Rightarrow> (text_line \<times> int list) option" where
  "parse_line p =
     (let star = (char0 p = 0x2a); p = (if star then tl p else p); type = char0 p
      in if type = 0 then None
         else case line_width (tl p) of (width, p) \<Rightarrow>
           case scan_name (dropWhile (\<lambda>c. c = 0x20) p) (- 1) (- 1) of (name, n, m, p) \<Rightarrow>
             Some (\<lparr>ln_star = star, ln_type = type, ln_width = width, ln_name = name, ln_n = n, ln_m = m\<rparr>,
               if char0 p = 0x0a then tl p else p))"

section \<open>Fields\<close>

text \<open>A field as the function gets it: the value of a number or the octets of a text.\<close>

record scsi_field =
  fd_type :: int
  fd_width :: u32
  fd_name :: "int list"
  fd_uval :: u64
  fd_octets :: bytes
  fd_warn :: "int list option"

text \<open>The loop that collects the bits of a number, at most those of one octet at a time.\<close>

function bits_loop :: "bytes \<Rightarrow> nat \<Rightarrow> nat \<Rightarrow> u64 \<Rightarrow> u64 \<times> nat" where
  "bits_loop buf bitpos loopw uval =
     (if loopw = 0 then (uval, bitpos)
      else
        let endpos = (bitpos + 8) div 8 * 8;
            w = (if endpos < bitpos + loopw then endpos - bitpos else loopw);
            u = buf ! (bitpos div 8)
        in bits_loop buf (bitpos + w) (loopw - w)
             (push_bit w uval OR ucast (drop_bit (8 - w) (push_bit (bitpos mod 8) u))))"
  by pat_completeness auto

termination
proof (relation "measure (\<lambda>(_, _, loopw, _). loopw)")
  fix buf :: bytes and bitpos loopw endpos w :: nat and uval :: u64
  assume l: "loopw \<noteq> 0" and e: "endpos = (bitpos + 8) div 8 * 8"
    and w: "w = (if endpos < bitpos + loopw then endpos - bitpos else loopw)"
  have "bitpos < endpos" unfolding e by linarith
  with l w have "0 < w" by auto
  with l show "((buf, bitpos + w, loopw - w, push_bit w uval OR ucast (drop_bit (8 - w) (push_bit (bitpos mod 8) x))),
      buf, bitpos, loopw, uval) \<in> measure (\<lambda>(_, _, loopw, _). loopw)" for x :: u8
    by simp
qed simp

declare bits_loop.simps [simp del]

definition invariant_strncmp :: "int list \<Rightarrow> int list \<Rightarrow> nat \<Rightarrow> u32" where
  "invariant_strncmp s t n = wcsncmp_loop id n (map word_of_int s) (map word_of_int t)"

text \<open>
  The state of the loop: the place in the format, the last line with a star, the width \<open>m\<close>, the length
  of the data, which a field may shorten, and the position in bits.
\<close>

record text_state =
  ts_p :: "int list"
  ts_star :: "int list option"
  ts_m :: u32
  ts_len :: nat
  ts_bitpos :: nat

definition line_width_of :: "text_line \<Rightarrow> text_state \<Rightarrow> u32" where
  "line_width_of l s = (case ln_width l of Some w \<Rightarrow> w | None \<Rightarrow> ts_m s)"

text \<open>An upper-case type: octets from the next whole one on.\<close>

definition octets_field :: "bytes \<Rightarrow> text_line \<Rightarrow> text_state \<Rightarrow> scsi_field list \<times> text_state" where
  "octets_field buf l s =
     (let width = line_width_of l s;
          at = (ts_bitpos s + 7) div 8;
          lval = (if ts_len s < at + unat width then ts_len s - at else unat width)
      in (if width \<noteq> 0
          then [\<lparr>fd_type = ln_type l, fd_width = width, fd_name = ln_name l, fd_uval = 0,
                 fd_octets = slice buf at lval, fd_warn = None\<rparr>] else [],
          s\<lparr>ts_bitpos := at * 8 + lval * 8\<rparr>))"

text \<open>
  A lower-case type: a number. It may tell the length of the data, or set \<open>m\<close>, and a reserved field
  should be zero.
\<close>

definition number_field :: "bytes \<Rightarrow> text_line \<Rightarrow> text_state \<Rightarrow> scsi_field list \<times> text_state" where
  "number_field buf l s =
     (let width = line_width_of l s;
          loopw = (if ts_len s * 8 < ts_bitpos s + unat width then ts_len s * 8 - ts_bitpos s else unat width)
      in case bits_loop buf (ts_bitpos s) loopw 0 of (uval, bitpos) \<Rightarrow>
        let newlen = unat (uval + ucast (ln_n l) + 1);
            warn = (if ln_n l \<noteq> - 1 \<and> ts_len s \<noteq> newlen then Some (chars ''data buffer length mismatch'') else None);
            warn = (if invariant_strncmp (chars ''Reserved'') (ln_name l) (length (ln_name l)) = 0 \<and> uval \<noteq> 0
                    then Some (chars ''non-zero reserved value'') else warn)
        in ([\<lparr>fd_type = ln_type l, fd_width = width, fd_name = ln_name l, fd_uval = uval, fd_octets = [],
              fd_warn = warn\<rparr>],
            s\<lparr>ts_bitpos := bitpos,
              ts_len := (if ln_n l \<noteq> - 1 \<and> newlen < ts_len s then newlen else ts_len s),
              ts_m := (if ln_n l = - 1 \<and> ln_m l \<noteq> - 1 then ucast uval else ts_m s)\<rparr>))"

definition line_field :: "bytes \<Rightarrow> text_line \<Rightarrow> text_state \<Rightarrow> scsi_field list \<times> text_state" where
  "line_field buf l s =
     (if 0x41 \<le> ln_type l \<and> ln_type l \<le> 0x5a then octets_field buf l s
      else if 0x61 \<le> ln_type l \<and> ln_type l \<le> 0x7a then number_field buf l s
      else ([], s))"

section \<open>The loop\<close>

text \<open>
  One turn, \<open>None\<close> at the end. At the end of the format the loop goes on at the last star, if there was
  one.
\<close>

definition text_turn :: "bytes \<Rightarrow> text_state \<Rightarrow> (scsi_field list \<times> text_state) option" where
  "text_turn buf s =
     (if \<not> ts_bitpos s < ts_len s * 8 then None
      else
        let s = (if char0 (ts_p s) = 0x2a then s\<lparr>ts_star := Some (ts_p s)\<rparr> else s)
        in case parse_line (ts_p s) of
            Some (l, p) \<Rightarrow> Some (line_field buf l (s\<lparr>ts_p := p\<rparr>))
          | None \<Rightarrow> map_option (\<lambda>p. ([], s\<lparr>ts_p := p\<rparr>)) (ts_star s))"

text \<open>The loop may not end, when the lines from a star on take no data; this is the result \<open>None\<close>.\<close>

partial_function (option) text_loop :: "bytes \<Rightarrow> text_state \<Rightarrow> scsi_field list option" where
  "text_loop buf s =
     (case text_turn buf s of
        None \<Rightarrow> Some []
      | Some (fs, s) \<Rightarrow> do { gs \<leftarrow> text_loop buf s; Some (fs @ gs) })"

declare text_loop.simps [code]

text \<open>The fields in the order in which the function is called for them.\<close>

definition ScsiText :: "int list \<Rightarrow> bytes \<Rightarrow> nat \<Rightarrow> scsi_field list option" where
  "ScsiText format buf len =
     text_loop buf \<lparr>ts_p = format, ts_star = None, ts_m = 1, ts_len = len, ts_bitpos = 0\<rparr>"

section \<open>The printer\<close>

text \<open>
  What was written to the handle, the buffer of 1024 characters with its fill, and the column of a table.
\<close>

record ScsiTextPrinter =
  pr_out :: "int list"
  pr_buf :: "int list"
  pr_pos :: nat
  pr_col :: nat

definition new_printer :: ScsiTextPrinter where
  "new_printer = \<lparr>pr_out = [], pr_buf = replicate 1024 0, pr_pos = 0, pr_col = 0\<rparr>"

text \<open>\<open>None\<close> when what does not fit is longer than the buffer.\<close>

definition ScsiTextPrint :: "int list \<Rightarrow> ScsiTextPrinter \<Rightarrow> ScsiTextPrinter option" where
  "ScsiTextPrint s pr =
     (if 1024 < pr_pos pr + length s
      then let k = 1024 - pr_pos pr; full = splice (pr_buf pr) (pr_pos pr) (take k s)
           in if 1024 < length s - k then None
              else Some (pr\<lparr>pr_out := pr_out pr @ full, pr_buf := splice full 0 (drop k s), pr_pos := length s - k\<rparr>)
      else Some (pr\<lparr>pr_buf := splice (pr_buf pr) (pr_pos pr) s, pr_pos := pr_pos pr + length s\<rparr>))"

definition ScsiTextPrintc :: "int \<Rightarrow> ScsiTextPrinter \<Rightarrow> ScsiTextPrinter option" where
  "ScsiTextPrintc c = ScsiTextPrint [c]"

definition ScsiTextFlush :: "ScsiTextPrinter \<Rightarrow> ScsiTextPrinter" where
  "ScsiTextFlush pr =
     (if pr_pos pr \<noteq> 0 then pr\<lparr>pr_out := pr_out pr @ take (pr_pos pr) (pr_buf pr), pr_pos := 0\<rparr> else pr)"

text \<open>The texts that the formats of the printer stand for: decimal and hexadecimal numbers.\<close>

fun digits :: "nat \<Rightarrow> nat \<Rightarrow> int list" where
  "digits b n =
     (if b < 2 then [] else
      (if n < b then [] else digits b (n div b)) @ [int (n mod b) + (if n mod b < 10 then 0x30 else 0x57)])"

declare digits.simps [simp del]

definition pad_zeros :: "nat \<Rightarrow> int list \<Rightarrow> int list" where
  "pad_zeros k s = replicate (k - length s) 0x30 @ s"

definition number_text :: "u64 \<Rightarrow> int list" where
  "number_text uval =
     (if 0x100000000 \<le> uval
      then digits 16 (unat (drop_bit 32 uval)) @ [0x3a] @ pad_zeros 8 (digits 16 (unat (ucast uval :: u32)))
      else if 10 \<le> uval
      then digits 10 (unat uval) @ chars '' (0x'' @ digits 16 (unat uval) @ [0x29]
      else digits 10 (unat uval))"

text \<open>A character of a text is a dot when it cannot be printed.\<close>

definition printable :: "u8 \<Rightarrow> int" where
  "printable c = (if sint c < 0x20 \<or> 0x7f \<le> sint c then 0x2e else sint c)"

fun print_chars :: "bytes \<Rightarrow> ScsiTextPrinter \<Rightarrow> ScsiTextPrinter option" where
  "print_chars [] pr = Some pr"
| "print_chars (c # cs) pr = do { pr \<leftarrow> ScsiTextPrintc (printable c) pr; print_chars cs pr }"

fun print_octets :: "int list \<Rightarrow> bytes \<Rightarrow> ScsiTextPrinter \<Rightarrow> ScsiTextPrinter option" where
  "print_octets sep [] pr = Some pr"
| "print_octets sep (c # cs) pr = do {
     pr \<leftarrow> ScsiTextPrint (sep @ pad_zeros 2 (digits 16 (unat c))) pr;
     print_octets [0x20] cs pr
   }"

definition ScsiLineTextFn :: "scsi_field \<Rightarrow> ScsiTextPrinter \<Rightarrow> ScsiTextPrinter option" where
  "ScsiLineTextFn f pr = do {
     pr \<leftarrow> ScsiTextPrint (fd_name f) pr;
     pr \<leftarrow> ScsiTextPrintc 0x3d pr;
     pr \<leftarrow> (if fd_type f = 0x75 then ScsiTextPrint (number_text (fd_uval f)) pr
           else if fd_type f = 0x41 then print_chars (fd_octets f) pr
           else if fd_type f = 0x58 then print_octets [] (fd_octets f) pr
           else Some pr);
     pr \<leftarrow> (case fd_warn f of Some w \<Rightarrow> ScsiTextPrint (chars '' (WARN: '' @ w @ [0x29]) pr | None \<Rightarrow> Some pr);
     ScsiTextPrintc 0x0a pr
   }"

text \<open>The function for each field in turn.\<close>

fun print_fields :: "(scsi_field \<Rightarrow> ScsiTextPrinter \<Rightarrow> ScsiTextPrinter option) \<Rightarrow> scsi_field list \<Rightarrow>
    ScsiTextPrinter \<Rightarrow> ScsiTextPrinter option" where
  "print_fields fn [] pr = Some pr"
| "print_fields fn (f # fs) pr = do { pr \<leftarrow> fn f pr; print_fields fn fs pr }"

definition ScsiLineText :: "int list \<Rightarrow> bytes \<Rightarrow> nat \<Rightarrow> int list option" where
  "ScsiLineText format buf len = do {
     fs \<leftarrow> ScsiText format buf len;
     pr \<leftarrow> print_fields ScsiLineTextFn fs new_printer;
     Some (pr_out (ScsiTextFlush pr))
   }"

section \<open>Tables\<close>

text \<open>
  The text of a cell, behind its bar, goes to the middle of the cell. A cell without its bar would
  move all of the memory.
\<close>

definition ScsiTableTextCenter :: "nat \<Rightarrow> ScsiTextPrinter \<Rightarrow> ScsiTextPrinter option" where
  "ScsiTableTextCenter colwidth pr =
     (if pr_pos pr < colwidth
      then if pr_pos pr = 0 then None
           else let n = colwidth - pr_pos pr;
                    b = splice (pr_buf pr) (1 + n div 2) (slice (pr_buf pr) 1 (pr_pos pr - 1));
                    b = splice b 1 (replicate (n div 2) 0x20);
                    b = splice b (n div 2 + pr_pos pr) (replicate (n - n div 2) 0x20)
                in Some (pr\<lparr>pr_buf := b, pr_pos := colwidth\<rparr>)
      else Some pr)"

definition boundary :: "int list" where
  "boundary = concat (replicate 8 (chars ''+--------'')) @ [0x2b, 0x0a]"

definition bar_end :: "int list" where "bar_end = [0x7c, 0x0a]"

definition ScsiTablePrintBoundary :: "ScsiTextPrinter \<Rightarrow> ScsiTextPrinter option" where
  "ScsiTablePrintBoundary pr = do {
     pr \<leftarrow> ScsiTextPrint boundary pr;
     Some (pr\<lparr>pr_col := 0\<rparr>)
   }"

text \<open>The rest of a row that has no room for the next cell, and the line below it.\<close>

definition stair :: "nat \<Rightarrow> nat \<Rightarrow> int list" where
  "stair col i =
     (if i * 9 < col then chars ''+--------'' else if i * 9 = col then chars ''+        ''
      else chars ''         '')"

fun print_stairs :: "nat \<Rightarrow> nat list \<Rightarrow> ScsiTextPrinter \<Rightarrow> ScsiTextPrinter option" where
  "print_stairs col [] pr = Some pr"
| "print_stairs col (i # is) pr = do { pr \<leftarrow> ScsiTextPrint (stair col i) pr; print_stairs col is pr }"

definition break_row :: "ScsiTextPrinter \<Rightarrow> ScsiTextPrinter option" where
  "break_row pr =
     (let col = pr_col pr
      in if 71 < col then None
      else do {
        pr \<leftarrow> ScsiTextPrintc 0x7c pr;
        pr \<leftarrow> ScsiTextPrint (replicate (72 - col - 1) 0x20) pr;
        pr \<leftarrow> ScsiTextPrint bar_end pr;
        pr \<leftarrow> print_stairs col [0..<8] pr;
        pr \<leftarrow> ScsiTextPrint bar_end pr;
        Some (ScsiTextFlush pr)
      })"

text \<open>The end of a name that is too long for its cell is overwritten with the value.\<close>

definition cut_cell :: "nat \<Rightarrow> ScsiTextPrinter \<Rightarrow> ScsiTextPrinter" where
  "cut_cell colwidth pr =
     (let p = length (takeWhile (\<lambda>c. c \<noteq> 0x3d) (take (pr_pos pr) (pr_buf pr)));
          n = pr_pos pr - p;
          q = p - (pr_pos pr - colwidth)
      in if colwidth < pr_pos pr \<and> p < pr_pos pr
         then pr\<lparr>pr_buf := splice (pr_buf pr) q (slice (pr_buf pr) p n), pr_pos := q + n\<rparr> else pr)"

definition number_cell :: "scsi_field \<Rightarrow> ScsiTextPrinter \<Rightarrow> ScsiTextPrinter option" where
  "number_cell f pr = do {
     pr \<leftarrow> ScsiTextPrintc 0x3d pr;
     pr \<leftarrow> ScsiTextPrint (number_text (fd_uval f)) pr;
     let colwidth = 9 * (if fd_width f < 8 then unat (fd_width f) else 8);
     pr \<leftarrow> ScsiTableTextCenter colwidth pr;
     let pr = cut_cell colwidth pr;
     let pr = pr\<lparr>pr_col := pr_col pr + pr_pos pr\<rparr>;
     if 72 \<le> pr_col pr then do { pr \<leftarrow> ScsiTextPrint bar_end pr; ScsiTablePrintBoundary pr } else Some pr
   }"

text \<open>The end of a row of octets, and the bar of the next row.\<close>

definition next_row :: "ScsiTextPrinter \<Rightarrow> ScsiTextPrinter option" where
  "next_row pr = do {
     pr \<leftarrow> ScsiTableTextCenter 72 pr;
     pr \<leftarrow> ScsiTextPrint bar_end pr;
     ScsiTextPrintc 0x7c (ScsiTextFlush pr)
   }"

fun table_chars :: "nat \<Rightarrow> bytes \<Rightarrow> ScsiTextPrinter \<Rightarrow> ScsiTextPrinter option" where
  "table_chars i [] pr = Some pr"
| "table_chars i (c # cs) pr = do {
     pr \<leftarrow> (if i mod 64 = 0 then next_row pr else Some pr);
     pr \<leftarrow> ScsiTextPrintc (printable c) pr;
     table_chars (i + 1) cs pr
   }"

fun table_octets :: "nat \<Rightarrow> int list \<Rightarrow> bytes \<Rightarrow> ScsiTextPrinter \<Rightarrow> ScsiTextPrinter option" where
  "table_octets i sep [] pr = Some pr"
| "table_octets i sep (c # cs) pr = do {
     pr \<leftarrow> (if i mod 16 = 0 then next_row pr else Some pr);
     pr \<leftarrow> ScsiTextPrint (sep @ pad_zeros 2 (digits 16 (unat c))) pr;
     table_octets (i + 1) [0x20] cs pr
   }"

definition end_rows :: "ScsiTextPrinter \<Rightarrow> ScsiTextPrinter option" where
  "end_rows pr = do {
     pr \<leftarrow> ScsiTableTextCenter 72 pr;
     pr \<leftarrow> ScsiTextPrint bar_end pr;
     ScsiTablePrintBoundary pr
   }"

definition ScsiTableTextFn :: "scsi_field \<Rightarrow> ScsiTextPrinter \<Rightarrow> ScsiTextPrinter option" where
  "ScsiTableTextFn f pr = do {
     pr \<leftarrow> (if fd_type f = 0x75 \<and> pr_col pr \<noteq> 0 \<and> 72 < pr_col pr + unat (9 * fd_width f)
           then break_row pr else Some pr);
     pr \<leftarrow> ScsiTextPrintc 0x7c pr;
     pr \<leftarrow> ScsiTextPrint (fd_name f) pr;
     pr \<leftarrow> (if fd_type f = 0x75 then number_cell f pr
           else if fd_type f = 0x41 then do { pr \<leftarrow> table_chars 0 (fd_octets f) pr; end_rows pr }
           else if fd_type f = 0x58 then do { pr \<leftarrow> table_octets 0 [] (fd_octets f) pr; end_rows pr }
           else Some pr);
     Some (ScsiTextFlush pr)
   }"

definition ScsiTableText :: "int list \<Rightarrow> bytes \<Rightarrow> nat \<Rightarrow> int list option" where
  "ScsiTableText format buf len = do {
     pr \<leftarrow> ScsiTablePrintBoundary new_printer;
     fs \<leftarrow> ScsiText format buf len;
     pr \<leftarrow> print_fields ScsiTableTextFn fs (ScsiTextFlush pr);
     Some (pr_out pr)
   }"

end
