(* ===== verification/ScsiText_Props.thy ===== *)
theory ScsiText_Props
  imports ScsiText "HOL-Library.Sublist"
begin

text \<open>
  The properties of the SCSI texts: a field of a number is the bits of the data at its position, a format
  whose repeated part takes data comes to its end, only the data is read, the printer writes what it is
  given, and the rows of a table are equally long.
\<close>

section \<open>The bits of the data\<close>

text \<open>The data as bits, from the highest of the first octet on, and the number that bits stand for.\<close>

definition octet_bits :: "u8 \<Rightarrow> bool list" where "octet_bits u = map (\<lambda>i. bit u (7 - i)) [0..<8]"

definition data_bits :: "bytes \<Rightarrow> bool list" where "data_bits buf = concat (map octet_bits buf)"

definition bits_value :: "bool list \<Rightarrow> u64" where "bits_value bs = horner_sum of_bool 2 (rev bs)"

lemma length_octet_bits [simp]: "length (octet_bits u) = 8"
  by (simp add: octet_bits_def)

lemma data_bits_simps [simp]: "data_bits [] = []" "data_bits (u # us) = octet_bits u @ data_bits us"
  by (simp_all add: data_bits_def)

lemma length_data_bits [simp]: "length (data_bits buf) = 8 * length buf"
  by (induction buf) simp_all

lemma data_bits_append: "data_bits (xs @ ys) = data_bits xs @ data_bits ys"
  by (simp add: data_bits_def)

lemma drop_data_bits: "drop (8 * k) (data_bits buf) = data_bits (drop k buf)"
proof (induction buf arbitrary: k)
  case (Cons u us)
  show ?case
  proof (cases k)
    case (Suc j)
    have "drop (8 * k) (data_bits (u # us)) = drop (8 * j) (data_bits us)" by (simp add: Suc)
    then show ?thesis using Cons.IH by (simp add: Suc)
  qed simp
qed simp

lemma bit_bits_value: "bit (bits_value bs) j \<longleftrightarrow> j < 64 \<and> j < length bs \<and> bs ! (length bs - 1 - j)"
  by (auto simp: bits_value_def bit_horner_sum_bit_iff rev_nth)

lemma bits_value_append:
  "bits_value (xs @ ys) = push_bit (length ys) (bits_value xs) OR bits_value ys"
proof (rule bit_word_eqI)
  fix j assume "j < LENGTH(64)"
  then show "bit (bits_value (xs @ ys)) j \<longleftrightarrow> bit (push_bit (length ys) (bits_value xs) OR bits_value ys) j"
    by (cases "j < length ys") (auto simp: bit_bits_value bit_or_iff bit_push_bit_iff nth_append)
qed

text \<open>The bits that one turn of the loop takes from an octet.\<close>

lemma octet_part:
  fixes u :: u8
  assumes "r + w \<le> 8"
  shows "ucast (drop_bit (8 - w) (push_bit r u)) = bits_value (take w (drop r (octet_bits u)))"
proof (rule bit_word_eqI)
  fix j assume j: "j < LENGTH(64)"
  have "8 - w + j = r + (8 - w - r + j)" using assms by simp
  moreover have "j < w \<Longrightarrow> 7 - (r + (w - 1 - j)) = 8 - w - r + j" using assms by simp
  ultimately show "bit (ucast (drop_bit (8 - w) (push_bit r u)) :: u64) j \<longleftrightarrow>
      bit (bits_value (take w (drop r (octet_bits u)))) j"
    using assms j
    by (auto simp: bit_bits_value bit_ucast_iff bit_drop_bit_eq bit_push_bit_iff octet_bits_def)
qed

lemma drop_octet:
  assumes "k < length buf"
  shows "drop (8 * k) (data_bits buf) = octet_bits (buf ! k) @ drop (8 * (k + 1)) (data_bits buf)"
  using assms unfolding drop_data_bits by (simp add: Cons_nth_drop_Suc [symmetric])

lemma take_octet_part:
  assumes "pos div 8 < length buf" and "pos mod 8 + w \<le> 8"
  shows "take w (drop pos (data_bits buf)) = take w (drop (pos mod 8) (octet_bits (buf ! (pos div 8))))"
proof -
  have "drop pos (data_bits buf) = drop (pos mod 8) (drop (8 * (pos div 8)) (data_bits buf))"
    by simp
  then show ?thesis using assms by (simp only: drop_octet) simp
qed

lemma bits_loop_step:
  assumes "loopw \<noteq> 0" and "w = min (8 - bitpos mod 8) loopw"
  shows "bits_loop buf bitpos loopw v = bits_loop buf (bitpos + w) (loopw - w)
      (push_bit w v OR ucast (drop_bit (8 - w) (push_bit (bitpos mod 8) (buf ! (bitpos div 8)))))"
proof -
  have e: "(bitpos + 8) div 8 * 8 = bitpos + (8 - bitpos mod 8)"
    by (simp add: minus_mod_eq_div_mult [symmetric])
  have "(if (bitpos + 8) div 8 * 8 < bitpos + loopw then (bitpos + 8) div 8 * 8 - bitpos else loopw) = w"
    unfolding e assms(2) min_def using mod_less_divisor [of 8 bitpos] by auto
  then show ?thesis by (subst bits_loop.simps) (simp only: Let_def assms(1) if_False)
qed

lemma bits_loop_bits:
  "bitpos + loopw \<le> 8 * length buf \<Longrightarrow>
   bits_loop buf bitpos loopw (bits_value bs) =
     (bits_value (bs @ take loopw (drop bitpos (data_bits buf))), bitpos + loopw)"
proof (induction loopw arbitrary: bitpos bs rule: less_induct)
  case (less loopw)
  show ?case
  proof (cases "loopw = 0")
    case True
    then show ?thesis by (simp add: bits_loop.simps)
  next
    case False
    define w where "w = min (8 - bitpos mod 8) loopw"
    have w: "0 < w" "w \<le> loopw" "bitpos mod 8 + w \<le> 8"
      using False mod_less_divisor [of 8 bitpos] unfolding w_def by linarith+
    have "bitpos div 8 < length buf" using less.prems False by (simp add: div_less_iff_less_mult)
    note part = take_octet_part [OF this w(3)] octet_part [OF w(3)]
    define cs where "cs = take w (drop bitpos (data_bits buf))"
    have "length cs = w" using less.prems w by (simp add: cs_def)
    then have "bits_loop buf bitpos loopw (bits_value bs) =
        bits_loop buf (bitpos + w) (loopw - w) (bits_value (bs @ cs))"
      by (simp only: bits_loop_step [OF False w_def] bits_value_append part cs_def)
    also have "\<dots> = (bits_value ((bs @ cs) @ take (loopw - w) (drop (bitpos + w) (data_bits buf))), bitpos + w + (loopw - w))"
      using less.prems w by (intro less.IH) auto
    also have "(bs @ cs) @ take (loopw - w) (drop (bitpos + w) (data_bits buf)) = bs @ take loopw (drop bitpos (data_bits buf))"
      using w take_add [of w "loopw - w" "drop bitpos (data_bits buf)"] by (simp add: cs_def add.commute)
    finally show ?thesis using w by simp
  qed
qed

lemma bits_loop_value:
  "bitpos + loopw \<le> 8 * length buf \<Longrightarrow>
   bits_loop buf bitpos loopw 0 = (bits_value (take loopw (drop bitpos (data_bits buf))), bitpos + loopw)"
  using bits_loop_bits [of bitpos loopw buf "[]"] by (simp add: bits_value_def)

section \<open>The lines of a format\<close>

lemma suffix_tl [intro, simp]: "suffix (tl p) p"
  by (cases p) (simp_all add: suffix_Cons)

lemma int_digits_suffix: "suffix (snd (int_digits b d a v p)) p"
proof (induction p arbitrary: v)
  case (Cons c p)
  show ?case by (auto simp: Let_def intro!: suffix_ConsI Cons.IH)
qed simp

lemma strtoint_suffix: "suffix (snd (strtoint p 10 False)) p"
  using int_digits_suffix [of 10 "10 - 1 + 0x30" 0 0 p]
  by (simp add: strtoint_def int_sign_def int_base_def split: prod.splits)

lemma line_width_suffix: "suffix (snd (line_width p)) p"
  using strtoint_suffix [of p] by (auto simp: line_width_def split: prod.splits)

lemma scan_name_suffix: "suffix (snd (snd (snd (scan_name p n m)))) p"
proof (induction p arbitrary: n m)
  case (Cons c p)
  have "suffix (snd (snd (snd (scan_name p n m)))) (c # p)" for n m using Cons.IH by (rule suffix_ConsI)
  then show ?case by (simp add: case_prod_beta)
qed simp

lemma suffix_trans: "suffix r q \<Longrightarrow> suffix q p \<Longrightarrow> suffix r p"
  by (rule suffix_order.trans)

lemma parse_line_suffix:
  assumes "parse_line p = Some (l, q)"
  shows "p \<noteq> [] \<and> suffix q (tl p)"
proof -
  define p1 where "p1 = (if char0 p = 0x2a then tl p else p)"
  obtain w p2 where w: "line_width (tl p1) = (w, p2)" by fastforce
  obtain name n m p3 where name: "scan_name (dropWhile (\<lambda>c. c = 0x20) p2) (- 1) (- 1) = (name, n, m, p3)"
    by (metis prod.exhaust)
  from assms have "char0 p1 \<noteq> 0" and q: "q = (if char0 p3 = 0x0a then tl p3 else p3)"
    by (auto simp: parse_line_def Let_def w name p1_def [symmetric] split: if_splits)
  then have "p \<noteq> []" by (auto simp: char0_def p1_def split: if_splits)
  moreover have "suffix (tl p1) (tl p)" by (simp add: p1_def)
  moreover have "suffix p2 (tl p1)" using line_width_suffix [of "tl p1"] by (simp add: w)
  moreover have "suffix p3 (dropWhile (\<lambda>c. c = 0x20) p2)"
    using scan_name_suffix [of "dropWhile (\<lambda>c. c = 0x20) p2" "- 1" "- 1"] by (simp add: name)
  moreover have "suffix (dropWhile (\<lambda>c. c = 0x20) p2) p2" by (rule suffix_dropWhile)
  moreover have "suffix q p3" by (simp add: q)
  ultimately show ?thesis by (meson suffix_trans)
qed

lemma parse_line_shorter: "parse_line p = Some (l, q) \<Longrightarrow> length q < length p"
  using parse_line_suffix [of p l q] by (cases p) (auto dest: suffix_length_le)

lemma parse_line_set: "parse_line p = Some (l, q) \<Longrightarrow> set q \<subseteq> set p"
  using parse_line_suffix [of p l q] by (cases p) (auto dest: set_mono_suffix)

function format_lines :: "int list \<Rightarrow> text_line list" where
  "format_lines p = (case parse_line p of None \<Rightarrow> [] | Some (l, q) \<Rightarrow> l # format_lines q)"
  by pat_completeness auto

termination
  by (relation "measure length") (auto dest: parse_line_shorter)

declare format_lines.simps [simp del]

section \<open>The end of the loop\<close>

text \<open>A line that takes at least a bit of the data, if there is one.\<close>

definition number_type :: "int \<Rightarrow> bool" where "number_type c \<longleftrightarrow> 0x61 \<le> c \<and> c \<le> 0x7a"
definition octets_type :: "int \<Rightarrow> bool" where "octets_type c \<longleftrightarrow> 0x41 \<le> c \<and> c \<le> 0x5a"

definition takes_data :: "text_line \<Rightarrow> bool" where
  "takes_data l \<longleftrightarrow> (number_type (ln_type l) \<or> octets_type (ln_type l)) \<and> ln_width l \<noteq> None \<and> ln_width l \<noteq> Some 0"

text \<open>
  A format that the loop comes to the end of: the first line of every part that is repeated takes data, and
  the format does not end in a star.
\<close>

function format_ends :: "int list \<Rightarrow> bool" where
  "format_ends p = (case parse_line p of None \<Rightarrow> char0 p \<noteq> 0x2a
     | Some (l, q) \<Rightarrow> (char0 p = 0x2a \<longrightarrow> takes_data l) \<and> format_ends q)"
  by pat_completeness auto

termination
  by (relation "measure length") (auto dest: parse_line_shorter)

declare format_ends.simps [simp del]

lemma bits_loop_position: "snd (bits_loop buf bitpos loopw v) = bitpos + loopw"
proof (induction loopw arbitrary: bitpos v rule: less_induct)
  case (less loopw)
  show ?case
  proof (cases "loopw = 0")
    case True
    then show ?thesis by (simp add: bits_loop.simps)
  next
    case False
    define w where "w = min (8 - bitpos mod 8) loopw"
    have "0 < w" "w \<le> loopw" using False mod_less_divisor [of 8 bitpos] unfolding w_def by linarith+
    with less.IH [of "loopw - w"] show ?thesis by (simp add: bits_loop_step [OF False w_def])
  qed
qed

lemma line_field_keeps [simp]:
  "ts_p (snd (line_field buf l s)) = ts_p s" "ts_star (snd (line_field buf l s)) = ts_star s"
  by (simp_all add: line_field_def octets_field_def number_field_def Let_def split: prod.split)

definition bits_left :: "text_state \<Rightarrow> nat" where "bits_left s = ts_len s * 8 - ts_bitpos s"

lemma number_field_state:
  "ts_bitpos (snd (number_field buf l s)) =
     ts_bitpos s + (if ts_len s * 8 < ts_bitpos s + unat (line_width_of l s) then ts_len s * 8 - ts_bitpos s
                    else unat (line_width_of l s))"
  "ts_len (snd (number_field buf l s)) \<le> ts_len s"
  by (simp_all add: number_field_def Let_def case_prod_beta bits_loop_position)

lemma octets_field_state:
  "ts_bitpos (snd (octets_field buf l s)) =
     (ts_bitpos s + 7) div 8 * 8 +
       (if ts_len s < (ts_bitpos s + 7) div 8 + unat (line_width_of l s) then ts_len s - (ts_bitpos s + 7) div 8
        else unat (line_width_of l s)) * 8"
  "ts_len (snd (octets_field buf l s)) = ts_len s"
  by (simp_all add: octets_field_def Let_def)

lemma number_field_left: "bits_left (snd (number_field buf l s)) \<le> bits_left s"
  using number_field_state [of buf l s] unfolding bits_left_def by (intro diff_le_mono2 [THEN le_trans, OF _ diff_le_mono]) auto

lemma octets_field_left: "bits_left (snd (octets_field buf l s)) \<le> bits_left s"
  unfolding bits_left_def octets_field_state by (intro diff_le_mono2) linarith

lemma line_field_left: "bits_left (snd (line_field buf l s)) \<le> bits_left s"
  by (simp add: line_field_def number_field_left octets_field_left)

lemma takes_data_left:
  assumes "takes_data l" and "ts_bitpos s < ts_len s * 8"
  shows "bits_left (snd (line_field buf l s)) < bits_left s"
proof -
  obtain w where w: "ln_width l = Some w" "0 < unat w"
    using assms(1) by (auto simp: takes_data_def unat_gt_0)
  then have width: "line_width_of l s = w" by (simp add: line_width_of_def)
  show ?thesis
  proof (cases "octets_type (ln_type l)")
    case True
    then have "line_field buf l s = octets_field buf l s" by (simp add: line_field_def octets_type_def)
    then show ?thesis
      using assms(2) w octets_field_state [of buf l s]
      unfolding bits_left_def width by auto
  next
    case False
    with assms(1) have "line_field buf l s = number_field buf l s"
      by (auto simp: line_field_def octets_type_def number_type_def takes_data_def)
    then show ?thesis
      using assms(2) w number_field_state [of buf l s]
      unfolding bits_left_def width by auto
  qed
qed

lemma text_loop_cases:
  "text_turn buf s = None \<Longrightarrow> text_loop buf s = Some []"
  "text_turn buf s = Some (fs, s') \<Longrightarrow> text_loop buf s = map_option ((@) fs) (text_loop buf s')"
  by (subst text_loop.simps, simp) (subst text_loop.simps, simp split: bind_splits)

text \<open>The states of the loop at a place of such a format.\<close>

definition text_ok :: "text_state \<Rightarrow> bool" where
  "text_ok s \<longleftrightarrow> format_ends (ts_p s) \<and> (\<forall>q. ts_star s = Some q \<longrightarrow> char0 q = 0x2a \<and> format_ends q)"

definition place :: "text_state \<Rightarrow> nat" where
  "place s = (if char0 (ts_p s) = 0x2a then 0 else length (ts_p s) + 1)"

text \<open>A turn reads a line, or goes back to the last star.\<close>

definition starred :: "text_state \<Rightarrow> text_state" where
  "starred s = (if char0 (ts_p s) = 0x2a then s\<lparr>ts_star := Some (ts_p s)\<rparr> else s)"

lemma starred_keeps [simp]:
  "ts_p (starred s) = ts_p s" "ts_bitpos (starred s) = ts_bitpos s" "ts_len (starred s) = ts_len s" "ts_m (starred s) = ts_m s"
  by (simp_all add: starred_def)

lemma text_turn_cases:
  assumes "text_turn buf s = Some (fs, s')"
  obtains (line) l q where "ts_bitpos s < ts_len s * 8" and "parse_line (ts_p s) = Some (l, q)"
      and "fs = fst (line_field buf l (starred s\<lparr>ts_p := q\<rparr>))" and "s' = snd (line_field buf l (starred s\<lparr>ts_p := q\<rparr>))"
  | (star) q where "parse_line (ts_p s) = None" and "ts_star (starred s) = Some q" and "fs = []" and "s' = starred s\<lparr>ts_p := q\<rparr>"
proof -
  have more: "ts_bitpos s < ts_len s * 8" using assms by (auto simp: text_turn_def split: if_splits)
  then have turn: "(case parse_line (ts_p s) of Some (l, p) \<Rightarrow> Some (line_field buf l (starred s\<lparr>ts_p := p\<rparr>))
      | None \<Rightarrow> map_option (\<lambda>p. ([], starred s\<lparr>ts_p := p\<rparr>)) (ts_star (starred s))) = Some (fs, s')"
    using assms by (simp add: text_turn_def Let_def starred_def [symmetric])
  show thesis
  proof (cases "parse_line (ts_p s)")
    case None
    with turn show thesis by (auto intro: star)
  next
    case (Some lq)
    obtain l q where lq: "parse_line (ts_p s) = Some (l, q)" using Some by (cases lq) auto
    with turn have "(fs, s') = line_field buf l (starred s\<lparr>ts_p := q\<rparr>)" by simp
    then show thesis by (intro line [OF more lq]) (metis fst_conv, metis snd_conv)
  qed
qed

lemma text_turn_progress:
  assumes ok: "text_ok s" and "text_turn buf s = Some (fs, s')"
  shows "text_ok s' \<and> (bits_left s' < bits_left s \<or> bits_left s' \<le> bits_left s \<and> place s' < place s)"
  using assms(2)
proof (cases rule: text_turn_cases)
  case (line l q)
  let ?s = "starred s\<lparr>ts_p := q\<rparr>"
  have s: "ts_bitpos ?s < ts_len ?s * 8" "bits_left ?s = bits_left s" using line(1) by (simp_all add: bits_left_def)
  have q: "char0 (ts_p s) = 0x2a \<Longrightarrow> takes_data l" "format_ends q"
    using ok by (auto simp: text_ok_def format_ends.simps [of "ts_p s"] line(2))
  have "text_ok s'" using ok q(2) by (simp add: text_ok_def line(4) starred_def)
  moreover have "char0 (ts_p s) \<noteq> 0x2a \<Longrightarrow> place s' < place s"
    using parse_line_shorter [OF line(2)] by (simp add: place_def line(4))
  ultimately show ?thesis
    using q(1) takes_data_left [OF _ s(1), of l buf] line_field_left [of buf l ?s] s(2) by (auto simp: line(4))
next
  case (star q)
  have "char0 (ts_p s) \<noteq> 0x2a"
    using ok star(1) by (simp add: text_ok_def format_ends.simps [of "ts_p s"])
  with ok star show ?thesis by (auto simp: text_ok_def place_def bits_left_def starred_def)
qed

lemma text_loop_ends: "text_ok s \<Longrightarrow> \<exists>fs. text_loop buf s = Some fs"
proof (induction s rule: wf_induct_rule [OF wf_measures [of "[bits_left, place]"]])
  case (1 s)
  show ?case
  proof (cases "text_turn buf s")
    case None
    then show ?thesis by (simp add: text_loop_cases)
  next
    case (Some r)
    obtain fs s' where r: "text_turn buf s = Some (fs, s')" using Some by (cases r) auto
    from text_turn_progress [OF 1(2) this] have "text_ok s'" "(s', s) \<in> measures [bits_left, place]" by auto
    from 1(1) [OF this(2,1)] show ?thesis by (auto simp: text_loop_cases(2) [OF r])
  qed
qed

text \<open>
  The loop comes to an end for every data, if the first line of each part of the format that is repeated
  takes at least a bit and the format does not end in a star.
\<close>

lemma scsi_text_ends:
  assumes "format_ends format"
  shows "\<exists>fs. ScsiText format buf len = Some fs"
  using assms unfolding ScsiText_def by (intro text_loop_ends) (simp add: text_ok_def)

section \<open>Only the data is read\<close>

lemma bits_loop_data:
  "bitpos + loopw \<le> 8 * n \<Longrightarrow> take n buf = take n buf' \<Longrightarrow>
   bits_loop buf bitpos loopw v = bits_loop buf' bitpos loopw v"
proof (induction loopw arbitrary: bitpos v rule: less_induct)
  case (less loopw)
  show ?case
  proof (cases "loopw = 0")
    case False
    define w where "w = min (8 - bitpos mod 8) loopw"
    have w: "0 < w" "w \<le> loopw" using False mod_less_divisor [of 8 bitpos] unfolding w_def by linarith+
    have "bitpos div 8 < n" using less.prems(1) False by (simp add: div_less_iff_less_mult)
    then have same: "buf ! (bitpos div 8) = buf' ! (bitpos div 8)" using less.prems(2) by (metis nth_take)
    show ?thesis
      unfolding bits_loop_step [OF False w_def] same using less.prems w by (intro less.IH) auto
  qed (simp add: bits_loop.simps)
qed

lemma slice_data:
  assumes "k + j \<le> n" and "take n buf = take n buf'"
  shows "slice buf k j = slice buf' k j"
proof -
  have "slice xs k j = drop k (take (k + j) (take n xs))" for xs :: "'a list"
    using assms(1) by (simp add: slice_def drop_take min_def)
  then show ?thesis using assms(2) by metis
qed

lemma line_field_data:
  assumes "ts_bitpos s < ts_len s * 8" and "take (ts_len s) buf = take (ts_len s) buf'"
  shows "line_field buf l s = line_field buf' l s"
proof -
  have "number_field buf l s = number_field buf' l s"
    unfolding number_field_def Let_def using assms
    by (subst bits_loop_data [where n = "ts_len s" and buf' = buf']) auto
  moreover have "octets_field buf l s = octets_field buf' l s"
    unfolding octets_field_def Let_def using assms
    by (subst slice_data [where n = "ts_len s" and buf' = buf']) auto
  ultimately show ?thesis by (simp add: line_field_def)
qed

lemma text_turn_data:
  assumes "take (ts_len s) buf = take (ts_len s) buf'"
  shows "text_turn buf s = text_turn buf' s"
  using assms line_field_data [of _ buf buf'] by (auto simp: text_turn_def Let_def split: option.split)

lemma line_field_len: "ts_len (snd (line_field buf l s)) \<le> ts_len s"
  by (simp add: line_field_def number_field_state octets_field_state)

lemma text_turn_len:
  assumes "text_turn buf s = Some (fs, s')"
  shows "ts_len s' \<le> ts_len s"
  using assms
proof (cases rule: text_turn_cases)
  case (line l q)
  then show ?thesis using line_field_len [of buf l "starred s\<lparr>ts_p := q\<rparr>"] line(4) by simp
qed simp

lemma text_loop_data:
  assumes "text_loop buf s = Some fs"
  shows "\<forall>buf'. take (ts_len s) buf = take (ts_len s) buf' \<longrightarrow> text_loop buf' s = Some fs"
proof (rule text_loop.raw_induct [OF _ assms,
    where P = "\<lambda>buf s fs. \<forall>buf'. take (ts_len s) buf = take (ts_len s) buf' \<longrightarrow> text_loop buf' s = Some fs"], intro allI impI)
  fix loop buf s fs buf'
  assume IH: "\<And>buf s fs. loop buf s = Some fs \<Longrightarrow>
      \<forall>buf'. take (ts_len s) buf = take (ts_len s) buf' \<longrightarrow> text_loop buf' s = Some fs"
    and turn: "(case text_turn buf s of None \<Rightarrow> Some []
      | Some (fs, s) \<Rightarrow> do { gs \<leftarrow> loop buf s; Some (fs @ gs) }) = Some fs"
    and same: "take (ts_len s) buf = take (ts_len s) buf'"
  note turns = text_turn_data [OF same]
  show "text_loop buf' s = Some fs"
  proof (cases "text_turn buf s")
    case None
    with turn turns show ?thesis by (simp add: text_loop_cases)
  next
    case (Some r)
    obtain gs s' where r: "text_turn buf s = Some (gs, s')" using Some by (cases r) auto
    with turn obtain hs where hs: "loop buf s' = Some hs" "fs = gs @ hs" by (auto split: bind_splits)
    have "take (ts_len s') buf = take (ts_len s') buf'"
      using same text_turn_len [OF r] by (metis min.absorb1 take_take)
    with IH [OF hs(1)] show ?thesis using r turns by (simp add: text_loop_cases(2) hs(2))
  qed
qed

text \<open>
  The fields depend on the data alone: two buffers that agree in the first \<open>len\<close> octets give the same
  fields, whatever the format, so the loop reads nothing behind the data.
\<close>

lemma scsi_text_reads_data:
  assumes "take len buf = take len buf'"
  shows "ScsiText format buf len = ScsiText format buf' len"
proof -
  have step: "ScsiText format b len = Some fs \<Longrightarrow> take len b = take len b' \<Longrightarrow> ScsiText format b' len = Some fs"
    for b b' fs
    unfolding ScsiText_def by (drule text_loop_data) simp
  show ?thesis
  proof (cases "ScsiText format buf len")
    case None
    have "ScsiText format buf' len \<noteq> Some fs" for fs
      using step [OF _ assms [symmetric], of fs] None by auto
    then show ?thesis using None by (cases "ScsiText format buf' len") auto
  next
    case (Some fs)
    then show ?thesis using step [OF Some assms] by simp
  qed
qed

lemma scsi_text_reads_data_witness:
  "ScsiText (chars ''u8 A'') [5, 1] 1 = ScsiText (chars ''u8 A'') [5, 2] 1"
  by (rule scsi_text_reads_data) simp

section \<open>The fields as bits of the data\<close>

text \<open>
  What a format without stars says: the data is a list of bits, and each line takes as many as it is wide.
  An octet of the data is eight bits; a text starts at the next whole octet. A number that tells the length
  of the data cuts off what lies behind.
\<close>

function octets_of :: "bool list \<Rightarrow> bytes" where
  "octets_of bs = (if length bs < 8 then [] else horner_sum of_bool 2 (rev (take 8 bs)) # octets_of (drop 8 bs))"
  by pat_completeness auto

termination by (relation "measure length") auto

declare octets_of.simps [simp del]

definition reserved_name :: "int list \<Rightarrow> bool" where
  "reserved_name s \<longleftrightarrow> invariant_strncmp (chars ''Reserved'') s (length s) = 0"

definition reserved_warning :: "text_line \<Rightarrow> u64 \<Rightarrow> bool" where
  "reserved_warning l v \<longleftrightarrow> reserved_name (ln_name l) \<and> v \<noteq> 0"

definition number_at :: "text_line \<Rightarrow> u32 \<Rightarrow> nat \<Rightarrow> u64 \<Rightarrow> scsi_field" where
  "number_at l w len v =
     \<lparr>fd_type = ln_type l, fd_width = w, fd_name = ln_name l, fd_uval = v, fd_octets = [],
      fd_warn = (if reserved_warning l v then Some (chars ''non-zero reserved value'')
        else if ln_n l \<noteq> - 1 \<and> len \<noteq> unat (v + ucast (ln_n l) + 1) then Some (chars ''data buffer length mismatch'')
        else None)\<rparr>"

definition octets_at :: "text_line \<Rightarrow> u32 \<Rightarrow> bytes \<Rightarrow> scsi_field" where
  "octets_at l w os = \<lparr>fd_type = ln_type l, fd_width = w, fd_name = ln_name l, fd_uval = 0, fd_octets = os, fd_warn = None\<rparr>"

fun fields_of :: "u32 \<Rightarrow> nat \<Rightarrow> text_line list \<Rightarrow> bool list \<Rightarrow> scsi_field list" where
  "fields_of m len [] bs = []"
| "fields_of m len (l # ls) bs =
     (let w = (case ln_width l of Some w \<Rightarrow> w | None \<Rightarrow> m)
      in if bs = [] then []
      else if octets_type (ln_type l) then
        (let cs = drop (length bs mod 8) bs
         in (if w = 0 then [] else [octets_at l w (octets_of (take (8 * unat w) cs))]) @
            fields_of m len ls (drop (8 * unat w) cs))
      else if number_type (ln_type l) then
        (let v = bits_value (take (unat w) bs); rest = drop (unat w) bs;
             newlen = unat (v + ucast (ln_n l) + 1)
         in number_at l w len v #
            (if ln_n l \<noteq> - 1 then fields_of m (min len newlen) ls (take (8 * newlen - (8 * len - length rest)) rest)
             else fields_of (if ln_m l \<noteq> - 1 then ucast v else m) len ls rest))
      else fields_of m len ls bs)"

lemma octets_of_bits: "octets_of (data_bits os) = os"
proof (induction os)
  case Nil
  then show ?case by (simp add: octets_of.simps)
next
  case (Cons u us)
  have "(horner_sum of_bool 2 (rev (octet_bits u)) :: u8) = u"
    by (rule bit_word_eqI) (auto simp: bit_horner_sum_bit_iff rev_nth octet_bits_def)
  then show ?case using Cons.IH by (simp add: octets_of.simps [of "octet_bits u @ data_bits us"])
qed

lemma take_data_bits: "take (8 * k) (data_bits buf) = data_bits (take k buf)"
proof (induction buf arbitrary: k)
  case (Cons u us)
  show ?case
  proof (cases k)
    case (Suc j)
    have "take (8 * k) (data_bits (u # us)) = octet_bits u @ take (8 * j) (data_bits us)" by (simp add: Suc)
    then show ?thesis using Cons.IH by (simp add: Suc)
  qed simp
qed simp

text \<open>The bits that are left in a state.\<close>

definition bits_of :: "bytes \<Rightarrow> text_state \<Rightarrow> bool list" where
  "bits_of buf s = drop (ts_bitpos s) (data_bits (take (ts_len s) buf))"

lemma length_bits_of: "ts_len s \<le> length buf \<Longrightarrow> length (bits_of buf s) = 8 * ts_len s - ts_bitpos s"
  by (simp add: bits_of_def)

lemma bits_of_take: "bits_of buf s = take (8 * ts_len s - ts_bitpos s) (drop (ts_bitpos s) (data_bits buf))"
  by (simp add: bits_of_def take_data_bits [symmetric] drop_take)

lemma number_step:
  fixes s :: text_state and l :: text_line and buf :: bytes
  assumes pos: "ts_bitpos s < 8 * ts_len s" and len: "ts_len s \<le> length buf"
  defines "w \<equiv> line_width_of l s"
  defines "v \<equiv> bits_value (take (unat w) (bits_of buf s))" and "rest \<equiv> drop (unat w) (bits_of buf s)"
  defines "newlen \<equiv> unat (v + ucast (ln_n l) + 1)"
  defines "r \<equiv> number_field buf l s"
  shows "fst r = [number_at l w (ts_len s) v]"
    and "ts_len (snd r) = (if ln_n l \<noteq> - 1 then min (ts_len s) newlen else ts_len s)"
    and "ts_m (snd r) = (if ln_n l = - 1 \<and> ln_m l \<noteq> - 1 then ucast v else ts_m s)"
    and "bits_of buf (snd r) =
      (if ln_n l \<noteq> - 1 then take (8 * newlen - (8 * ts_len s - length rest)) rest else rest)"
proof -
  define k where "k = min (unat w) (8 * ts_len s - ts_bitpos s)"
  have k: "(if ts_len s * 8 < ts_bitpos s + unat w then ts_len s * 8 - ts_bitpos s else unat w) = k"
    using pos by (auto simp: k_def min_def)
  have loop: "bits_loop buf (ts_bitpos s) k 0 = (v, ts_bitpos s + k)"
    using bits_loop_value [of "ts_bitpos s" k buf] pos len by (simp add: v_def bits_of_take k_def)
  have r: "r = ([number_at l w (ts_len s) v],
      s\<lparr>ts_bitpos := ts_bitpos s + k,
        ts_len := (if ln_n l \<noteq> - 1 \<and> newlen < ts_len s then newlen else ts_len s),
        ts_m := (if ln_n l = - 1 \<and> ln_m l \<noteq> - 1 then ucast v else ts_m s)\<rparr>)"
    unfolding r_def number_field_def Let_def w_def [symmetric] k loop prod.case newlen_def [symmetric]
    by (simp add: number_at_def reserved_warning_def reserved_name_def newlen_def)
  show "fst r = [number_at l w (ts_len s) v]" by (simp add: r)
  show "ts_len (snd r) = (if ln_n l \<noteq> - 1 then min (ts_len s) newlen else ts_len s)" by (simp add: r min_def)
  show "ts_m (snd r) = (if ln_n l = - 1 \<and> ln_m l \<noteq> - 1 then ucast v else ts_m s)" by (simp add: r)
  have rest: "rest = drop (ts_bitpos s + k) (take (8 * ts_len s) (data_bits buf))"
    unfolding rest_def bits_of_take k_def using pos len by (auto simp: drop_take min_def add.commute)
  have "8 * ts_len s - length rest = ts_bitpos s + k" using pos len by (simp add: rest k_def)
  moreover have "take (8 * newlen - (ts_bitpos s + k)) rest =
      drop (ts_bitpos s + k) (take (8 * min (ts_len s) newlen) (data_bits buf))"
    unfolding rest drop_take [symmetric] take_take by (simp add: min_def)
  ultimately show "bits_of buf (snd r) =
      (if ln_n l \<noteq> - 1 then take (8 * newlen - (8 * ts_len s - length rest)) rest else rest)"
    by (simp add: r bits_of_def take_data_bits [symmetric] rest)
qed

lemma octets_step:
  fixes s :: text_state and l :: text_line and buf :: bytes
  assumes pos: "ts_bitpos s < 8 * ts_len s" and len: "ts_len s \<le> length buf"
  defines "w \<equiv> line_width_of l s"
  defines "cs \<equiv> drop (length (bits_of buf s) mod 8) (bits_of buf s)"
  defines "r \<equiv> octets_field buf l s"
  shows "fst r = (if w = 0 then [] else [octets_at l w (octets_of (take (8 * unat w) cs))])"
    and "ts_len (snd r) = ts_len s" and "ts_m (snd r) = ts_m s"
    and "bits_of buf (snd r) = drop (8 * unat w) cs"
proof -
  define at where "at = (ts_bitpos s + 7) div 8"
  define k where "k = min (unat w) (ts_len s - at)"
  have at: "at \<le> ts_len s" "ts_bitpos s \<le> 8 * at" using pos by (auto simp: at_def)
  have k: "(if ts_len s < at + unat w then ts_len s - at else unat w) = k" using at by (auto simp: k_def min_def)
  have r: "r = (if w = 0 then [] else [octets_at l w (slice buf at k)], s\<lparr>ts_bitpos := at * 8 + k * 8\<rparr>)"
    unfolding r_def octets_field_def Let_def w_def [symmetric] at_def [symmetric] k by (simp add: octets_at_def)
  have "8 * ts_len s - ts_bitpos s = 8 * at - ts_bitpos s + (ts_len s - at) * 8" using at by simp
  moreover have "8 * at - ts_bitpos s < 8" unfolding at_def by linarith
  ultimately have "length (bits_of buf s) mod 8 = 8 * at - ts_bitpos s"
    unfolding length_bits_of [OF len] by (metis mod_mult_self1 mod_less)
  then have "cs = drop (8 * at) (data_bits (take (ts_len s) buf))"
    using at by (simp add: cs_def bits_of_def)
  then have cs: "cs = data_bits (slice buf at (ts_len s - at))"
    by (simp add: drop_data_bits drop_take slice_def)
  have "take (8 * unat w) cs = data_bits (slice buf at k)"
    by (simp add: cs take_data_bits slice_def k_def)
  then show "fst r = (if w = 0 then [] else [octets_at l w (octets_of (take (8 * unat w) cs))])"
    by (simp add: r octets_of_bits)
  have "drop (8 * unat w) cs = data_bits (drop k (slice buf at (ts_len s - at)))"
    using len by (auto simp: cs drop_data_bits k_def min_def slice_def)
  also have "drop k (slice buf at (ts_len s - at)) = drop (at + k) (take (ts_len s) buf)"
    using at by (simp add: slice_def drop_take add.commute)
  finally show "bits_of buf (snd r) = drop (8 * unat w) cs"
    using drop_data_bits [of "at + k"] by (simp add: r bits_of_def algebra_simps)
qed (simp_all add: r_def octets_field_def Let_def)

lemma bits_of_empty: "ts_len s \<le> length buf \<Longrightarrow> bits_of buf s = [] \<longleftrightarrow> \<not> ts_bitpos s < ts_len s * 8"
  by (auto simp: length_bits_of simp flip: length_0_conv)

lemma line_step:
  fixes s :: text_state and l :: text_line and buf :: bytes
  assumes pos: "ts_bitpos s < 8 * ts_len s" and len: "ts_len s \<le> length buf"
  defines "r \<equiv> line_field buf l s"
  shows "fields_of (ts_m s) (ts_len s) (l # ls) (bits_of buf s) =
    fst r @ fields_of (ts_m (snd r)) (ts_len (snd r)) ls (bits_of buf (snd r))"
proof -
  have w: "(case ln_width l of Some w \<Rightarrow> w | None \<Rightarrow> ts_m s) = line_width_of l s" by (simp add: line_width_of_def)
  have more: "bits_of buf s \<noteq> []" using pos len by (simp add: bits_of_empty)
  consider (octets) "octets_type (ln_type l)" | (number) "\<not> octets_type (ln_type l)" "number_type (ln_type l)"
    | (other) "\<not> octets_type (ln_type l)" "\<not> number_type (ln_type l)" by blast
  then show ?thesis
  proof cases
    case octets
    then have "r = octets_field buf l s" by (simp add: r_def line_field_def octets_type_def)
    then show ?thesis using octets more by (simp add: w octets_step [OF pos len] Let_def)
  next
    case number
    then have "r = number_field buf l s" by (auto simp: r_def line_field_def octets_type_def number_type_def)
    then show ?thesis using number more by (simp add: w number_step [OF pos len] Let_def)
  next
    case other
    then have "r = ([], s)" by (auto simp: r_def line_field_def octets_type_def number_type_def)
    then show ?thesis using other more by simp
  qed
qed

lemma text_loop_fields:
  "0x2a \<notin> set (ts_p s) \<Longrightarrow> ts_star s = None \<Longrightarrow> ts_len s \<le> length buf \<Longrightarrow>
   text_loop buf s = Some (fields_of (ts_m s) (ts_len s) (format_lines (ts_p s)) (bits_of buf s))"
proof (induction "length (ts_p s)" arbitrary: s rule: less_induct)
  case less
  have plain: "starred s = s" using less.prems(1) by (auto simp: starred_def char0_def split: list.splits)
  show ?case
  proof (cases "ts_bitpos s < ts_len s * 8")
    case False
    then have "text_turn buf s = None" by (simp add: text_turn_def)
    moreover have "bits_of buf s = []" using False less.prems(3) by (simp add: bits_of_empty)
    ultimately show ?thesis by (cases "format_lines (ts_p s)") (simp_all add: text_loop_cases)
  next
    case True
    show ?thesis
    proof (cases "parse_line (ts_p s)")
      case None
      then have "text_turn buf s = None"
        using less.prems(2) plain by (simp add: text_turn_def starred_def [symmetric])
      with None show ?thesis by (simp add: text_loop_cases format_lines.simps)
    next
      case (Some lq)
      obtain l q where lq: "parse_line (ts_p s) = Some (l, q)" using Some by (cases lq) auto
      define r where "r = line_field buf l (s\<lparr>ts_p := q\<rparr>)"
      have turn: "text_turn buf s = Some r"
        using True lq plain by (simp add: text_turn_def starred_def [symmetric] r_def)
      have "text_loop buf (snd r) = Some (fields_of (ts_m (snd r)) (ts_len (snd r)) (format_lines q) (bits_of buf (snd r)))"
        using less.hyps [of "snd r"] parse_line_shorter [OF lq] parse_line_set [OF lq] less.prems
          line_field_len [of buf l "s\<lparr>ts_p := q\<rparr>"] by (auto simp: r_def)
      moreover have "fields_of (ts_m s) (ts_len s) (l # format_lines q) (bits_of buf s) =
          fst r @ fields_of (ts_m (snd r)) (ts_len (snd r)) (format_lines q) (bits_of buf (snd r))"
        using line_step [of "s\<lparr>ts_p := q\<rparr>" buf l "format_lines q"] True less.prems(3)
        by (simp add: r_def bits_of_def mult.commute)
      ultimately show ?thesis
        using text_loop_cases(2) [of buf s "fst r" "snd r"] turn lq by (simp add: format_lines.simps [of "ts_p s"])
    qed
  qed
qed

lemma text_fields:
  assumes "0x2a \<notin> set format" and "len \<le> length buf"
  shows "ScsiText format buf len = Some (fields_of 1 len (format_lines format) (data_bits (take len buf)))"
  using assms unfolding ScsiText_def by (subst text_loop_fields) (simp_all add: bits_of_def)

text \<open>C18: For a format without stars the loop yields, for every data, the fields that the reference takes from
  the bits of the data: each number is the big-endian value of as many bits as its line is wide, from where the
  field before it ended, each text is the octets from the next whole octet on, and a field that
  tells the length cuts the data.
\<close>

theorem scsi_text_fields:
  assumes "0x2a \<notin> set format" and "len \<le> length buf"
  shows "ScsiText format buf len = Some (fields_of 1 len (format_lines format) (data_bits (take len buf)))"
  using assms by (rule text_fields)

theorem scsi_text_fields_witness:
  "\<exists>fs. ScsiText (chars ''u4 A'' @ [0x0a] @ chars ''u12 B'') [0x12, 0x34] 2 = Some fs \<and> map fd_uval fs = [1, 0x234]"
proof -
  let ?format = "chars ''u4 A'' @ [0x0a] @ chars ''u12 B''"
  have star: "0x2a \<notin> set ?format" by code_simp
  have lines: "format_lines ?format =
      [\<lparr>ln_star = False, ln_type = 0x75, ln_width = Some 4, ln_name = [0x41], ln_n = - 1, ln_m = - 1\<rparr>,
       \<lparr>ln_star = False, ln_type = 0x75, ln_width = Some 12, ln_name = [0x42], ln_n = - 1, ln_m = - 1\<rparr>]"
    by code_simp
  have bits: "octet_bits 0x12 = [False, False, False, True, False, False, True, False]"
    "octet_bits 0x34 = [False, False, True, True, False, True, False, False]"
    by (simp_all add: octet_bits_def upt_rec)
  from scsi_text_fields [OF star, of 2 "[0x12, 0x34]"] show ?thesis
    unfolding lines by (simp add: bits octets_type_def number_type_def number_at_def bits_value_def Let_def)
qed

section \<open>The printer\<close>

text \<open>What has been printed: what was written and what the buffer holds.\<close>

definition printed :: "ScsiTextPrinter \<Rightarrow> int list" where
  "printed pr = pr_out pr @ take (pr_pos pr) (pr_buf pr)"

definition printer_ok :: "ScsiTextPrinter \<Rightarrow> bool" where
  "printer_ok pr \<longleftrightarrow> length (pr_buf pr) = 1024 \<and> pr_pos pr \<le> 1024"

lemma ScsiTextPrint_appends:
  assumes "printer_ok pr" and "length s \<le> 1024"
  obtains pr' where "ScsiTextPrint s pr = Some pr'" "printer_ok pr'" "printed pr' = printed pr @ s" "pr_col pr' = pr_col pr"
proof (cases "1024 < pr_pos pr + length s")
  case False
  let ?pr = "pr\<lparr>pr_buf := splice (pr_buf pr) (pr_pos pr) s, pr_pos := pr_pos pr + length s\<rparr>"
  show thesis
    by (rule that [of ?pr])
      (use False assms in \<open>auto simp: ScsiTextPrint_def printer_ok_def printed_def length_splice take_splice_prefix\<close>)
next
  case True
  define k where "k = 1024 - pr_pos pr"
  define full where "full = splice (pr_buf pr) (pr_pos pr) (take k s)"
  have k: "k < length s" "pr_pos pr + k = 1024" using True assms by (auto simp: k_def printer_ok_def)
  have full: "full = take (pr_pos pr) (pr_buf pr) @ take k s"
    using k assms by (simp add: full_def splice_def printer_ok_def)
  then have len: "length full = 1024" using k assms by (simp add: printer_ok_def)
  show thesis
    by (rule that [of "pr\<lparr>pr_out := pr_out pr @ full, pr_buf := splice full 0 (drop k s), pr_pos := length s - k\<rparr>"])
      (use True k len assms full in \<open>auto simp: ScsiTextPrint_def Let_def k_def [symmetric] full_def [symmetric] printer_ok_def
        printed_def length_splice splice_def\<close>)
qed

text \<open>A routine that appends a text to what has been printed.\<close>

definition appends :: "int list \<Rightarrow> (ScsiTextPrinter \<Rightarrow> ScsiTextPrinter option) \<Rightarrow> bool" where
  "appends s f \<longleftrightarrow> (\<forall>pr. printer_ok pr \<longrightarrow> (\<exists>pr'. f pr = Some pr' \<and> printer_ok pr' \<and> printed pr' = printed pr @ s))"

lemma appends_print: "length s \<le> 1024 \<Longrightarrow> appends s (ScsiTextPrint s)"
  unfolding appends_def by (metis ScsiTextPrint_appends)

lemma appends_printc: "appends [c] (ScsiTextPrintc c)"
  using appends_print [of "[c]"] by (simp add: ScsiTextPrintc_def)

lemma appends_nothing: "appends [] Some"
  by (simp add: appends_def)

lemma appends_then:
  assumes "appends s f" and "appends t g"
  shows "appends (s @ t) (\<lambda>pr. do { pr \<leftarrow> f pr; g pr })"
  unfolding appends_def
proof (intro allI impI)
  fix pr assume "printer_ok pr"
  with assms(1) obtain pr1 where pr1: "f pr = Some pr1" "printer_ok pr1" "printed pr1 = printed pr @ s"
    by (auto simp: appends_def)
  with assms(2) obtain pr2 where "g pr1 = Some pr2" "printer_ok pr2" "printed pr2 = printed pr1 @ t"
    by (auto simp: appends_def)
  with pr1 show "\<exists>pr'. do { pr \<leftarrow> f pr; g pr } = Some pr' \<and> printer_ok pr' \<and> printed pr' = printed pr @ s @ t"
    by simp
qed

lemma appends_each:
  assumes "\<And>f. f \<in> set fs \<Longrightarrow> appends (t f) (fn f)"
  shows "appends (concat (map t fs)) (print_fields fn fs)"
  using assms
proof (induction fs)
  case Nil
  then show ?case by (simp add: appends_nothing [unfolded appends_def] appends_def)
next
  case (Cons f fs)
  have "appends (t f @ concat (map t fs)) (\<lambda>pr. do { pr \<leftarrow> fn f pr; print_fields fn fs pr })"
    using Cons by (intro appends_then) auto
  then show ?case by (simp add: appends_def)
qed

lemma appends_chars: "appends (map printable cs) (print_chars cs)"
proof (induction cs)
  case (Cons c cs)
  from appends_then [OF appends_printc this, of "printable c"] show ?case by (simp add: appends_def)
qed (simp add: appends_def)

text \<open>Octets in hexadecimal, between separators.\<close>

definition octet_text :: "u8 \<Rightarrow> int list" where "octet_text c = pad_zeros 2 (digits 16 (unat c))"

fun octets_text :: "int list \<Rightarrow> bytes \<Rightarrow> int list" where
  "octets_text sep [] = []"
| "octets_text sep (c # cs) = sep @ octet_text c @ octets_text [0x20] cs"

lemma length_digits: "n < b ^ k \<Longrightarrow> 2 \<le> b \<Longrightarrow> 0 < k \<Longrightarrow> length (digits b n) \<le> k"
proof (induction k arbitrary: n)
  case (Suc k)
  show ?case
  proof (cases "n < b")
    case True
    then show ?thesis using Suc.prems by (simp add: digits.simps [of b n])
  next
    case False
    with Suc.prems have "0 < k" by (cases k) auto
    moreover have "n div b < b ^ k" using Suc.prems by (simp add: div_less_iff_less_mult mult.commute)
    ultimately have "length (digits b (n div b)) \<le> k" using Suc by simp
    then show ?thesis using False Suc.prems by (simp add: digits.simps [of b n])
  qed
qed simp

lemma unat_below: "unat x < 2 ^ LENGTH('a)" for x :: "'a::len word"
  by (rule unsigned_less)

lemma length_octet_text: "length (octet_text c) = 2"
  using length_digits [of "unat c" 16 2] unat_below [of c] by (simp add: octet_text_def pad_zeros_def)

lemma appends_octets: "length sep \<le> 1 \<Longrightarrow> appends (octets_text sep cs) (print_octets sep cs)"
proof (induction sep cs rule: octets_text.induct)
  case (2 sep c cs)
  have "appends (sep @ octet_text c) (ScsiTextPrint (sep @ octet_text c))"
    using 2 by (intro appends_print) (simp add: length_octet_text)
  from appends_then [OF this 2(1)] show ?case by (simp add: appends_def octet_text_def)
qed (simp add: appends_def)

lemma length_number_text: "length (number_text v) \<le> 23" "v < 10 \<Longrightarrow> length (number_text v) \<le> 1"
proof -
  have "length (digits 16 (unat (drop_bit 32 v))) \<le> 8"
    using unat_below [of v]
    by (intro length_digits) (simp_all add: drop_bit_eq_div unat_div_distrib div_less_iff_less_mult)
  moreover have "length (digits 16 (unat (ucast v :: u32))) \<le> 8"
    using unat_below [of "ucast v :: u32"] by (intro length_digits) simp_all
  moreover have "v < 0x100000000 \<Longrightarrow> length (digits 10 (unat v)) \<le> 10" "v < 0x100000000 \<Longrightarrow> length (digits 16 (unat v)) \<le> 8"
    by (rule length_digits; simp add: word_less_nat_alt)+
  moreover have one: "length (digits 10 (unat v)) \<le> 1" if "v < 10"
    using that by (intro length_digits) (simp_all add: word_less_nat_alt)
  ultimately show "length (number_text v) \<le> 23" by (auto simp: number_text_def pad_zeros_def chars_def not_le)
  show "length (number_text v) \<le> 1" if "v < 10"
  proof -
    have "\<not> 0x100000000 \<le> v" "\<not> 10 \<le> v" using that by (auto simp: word_le_nat_alt word_less_nat_alt)
    then show ?thesis using one [OF that] by (simp add: number_text_def)
  qed
qed

text \<open>The line of a field.\<close>

definition value_text :: "scsi_field \<Rightarrow> int list" where
  "value_text f =
     (if fd_type f = 0x75 then number_text (fd_uval f)
      else if fd_type f = 0x41 then map printable (fd_octets f)
      else if fd_type f = 0x58 then octets_text [] (fd_octets f) else [])"

definition warn_text :: "scsi_field \<Rightarrow> int list" where
  "warn_text f = (case fd_warn f of Some w \<Rightarrow> chars '' (WARN: '' @ w @ [0x29] | None \<Rightarrow> [])"

definition line_text :: "scsi_field \<Rightarrow> int list" where
  "line_text f = fd_name f @ [0x3d] @ value_text f @ warn_text f @ [0x0a]"

definition field_fits :: "scsi_field \<Rightarrow> bool" where
  "field_fits f \<longleftrightarrow> length (fd_name f) \<le> 1024 \<and> length (warn_text f) \<le> 1024"

lemma appends_line: "field_fits f \<Longrightarrow> appends (line_text f) (ScsiLineTextFn f)"
  unfolding line_text_def ScsiLineTextFn_def
  by (intro appends_then appends_printc appends_print)
     (auto simp: field_fits_def value_text_def warn_text_def appends_chars appends_octets appends_nothing
       intro!: appends_print length_number_text(1) [THEN le_trans] split: option.splits)

text \<open>The fields that come from a line.\<close>

definition field_from :: "text_line \<Rightarrow> scsi_field \<Rightarrow> bool" where
  "field_from l f \<longleftrightarrow> fd_type f = ln_type l \<and> fd_name f = ln_name l \<and>
     (\<forall>w. ln_width l = Some w \<longrightarrow> fd_width f = w) \<and>
     (case fd_warn f of Some w \<Rightarrow> length w \<le> 100 | None \<Rightarrow> True)"

lemma line_field_from: "f \<in> set (fst (line_field buf l s)) \<Longrightarrow> field_from l f"
  by (auto simp: line_field_def octets_field_def number_field_def Let_def case_prod_beta field_from_def line_width_of_def
    chars_def split: if_splits)

definition lines_within :: "text_line set \<Rightarrow> text_state \<Rightarrow> bool" where
  "lines_within L s \<longleftrightarrow> set (format_lines (ts_p s)) \<subseteq> L \<and> (\<forall>q. ts_star s = Some q \<longrightarrow> set (format_lines q) \<subseteq> L)"

lemma text_turn_within:
  assumes "text_turn buf s = Some (fs, s')" and "lines_within L s"
  shows "lines_within L s' \<and> (\<forall>f \<in> set fs. \<exists>l \<in> L. field_from l f)"
  using assms(1)
proof (cases rule: text_turn_cases)
  case (line l q)
  then show ?thesis
    using assms(2) line_field_from [of _ buf l "starred s\<lparr>ts_p := q\<rparr>"]
    by (auto simp: lines_within_def starred_def format_lines.simps [of "ts_p s"] intro!: bexI [of _ l])
next
  case (star q)
  then show ?thesis using assms(2) by (auto simp: lines_within_def starred_def split: if_splits)
qed

lemma text_loop_within:
  assumes "text_loop buf s = Some fs"
  shows "lines_within L s \<longrightarrow> (\<forall>f \<in> set fs. \<exists>l \<in> L. field_from l f)"
proof (rule text_loop.raw_induct [OF _ assms,
    where P = "\<lambda>buf s fs. lines_within L s \<longrightarrow> (\<forall>f \<in> set fs. \<exists>l \<in> L. field_from l f)"], intro impI)
  fix loop buf s fs
  assume IH: "\<And>buf s fs. loop buf s = Some fs \<Longrightarrow> lines_within L s \<longrightarrow> (\<forall>f \<in> set fs. \<exists>l \<in> L. field_from l f)"
    and turn: "(case text_turn buf s of None \<Rightarrow> Some []
      | Some (fs, s) \<Rightarrow> do { gs \<leftarrow> loop buf s; Some (fs @ gs) }) = Some fs"
    and within: "lines_within L s"
  show "\<forall>f \<in> set fs. \<exists>l \<in> L. field_from l f"
  proof (cases "text_turn buf s")
    case (Some r)
    obtain gs s' where r: "text_turn buf s = Some (gs, s')" using Some by (cases r) auto
    with turn obtain hs where hs: "loop buf s' = Some hs" "fs = gs @ hs" by (auto split: bind_splits)
    with text_turn_within [OF r within] IH [OF hs(1)] show ?thesis by auto
  qed (use turn in simp)
qed

lemma scsi_text_within:
  assumes "ScsiText format buf len = Some fs" and "f \<in> set fs"
  shows "\<exists>l \<in> set (format_lines format). field_from l f"
  using text_loop_within [of buf _ fs "set (format_lines format)"] assms
  by (fastforce simp: ScsiText_def lines_within_def)

lemma new_printer_ok: "printer_ok new_printer" "printed new_printer = []"
  by (simp_all add: printer_ok_def printed_def new_printer_def)

lemma lines_written:
  assumes "format_ends format" and "list_all (\<lambda>l. length (ln_name l) \<le> 1024) (format_lines format)"
  shows "\<exists>fs. ScsiText format buf len = Some fs \<and> ScsiLineText format buf len = Some (concat (map line_text fs))"
proof -
  obtain fs where fs: "ScsiText format buf len = Some fs"
    using text_loop_ends [of "\<lparr>ts_p = format, ts_star = None, ts_m = 1, ts_len = len, ts_bitpos = 0\<rparr>" buf] assms(1)
    by (auto simp: text_ok_def ScsiText_def)
  have "field_fits f" if f: "f \<in> set fs" for f
    using scsi_text_within [OF fs f] assms(2)
    by (auto simp: field_fits_def field_from_def warn_text_def chars_def list_all_iff split: option.splits)
  then have "appends (concat (map line_text fs)) (print_fields ScsiLineTextFn fs)"
    by (intro appends_each appends_line)
  then obtain pr where "print_fields ScsiLineTextFn fs new_printer = Some pr" "printed pr = concat (map line_text fs)"
    using new_printer_ok by (auto simp: appends_def)
  then show ?thesis using fs by (auto simp: ScsiLineText_def ScsiTextFlush_def printed_def)
qed

text \<open>What is written for the lines of a format is exactly the texts of its fields one after the
  other, each the name, an equals sign, the value, a warning if there is one, and a newline: nothing is
  lost or written twice at the ends of the buffer of 1024 characters.
\<close>

lemma scsi_lines_written:
  assumes "format_ends format" and "list_all (\<lambda>l. length (ln_name l) \<le> 1024) (format_lines format)"
  shows "\<exists>fs. ScsiText format buf len = Some fs \<and> ScsiLineText format buf len = Some (concat (map line_text fs))"
  using assms by (rule lines_written)

lemma scsi_lines_written_witness:
  "\<exists>fs. ScsiText (chars ''u8 A'') [5] 1 = Some fs \<and> ScsiLineText (chars ''u8 A'') [5] 1 = Some (concat (map line_text fs))"
proof (rule scsi_lines_written)
  show "format_ends (chars ''u8 A'')" by code_simp
  show "list_all (\<lambda>l. length (ln_name l) \<le> 1024) (format_lines (chars ''u8 A''))" by code_simp
qed

end
