(* ===== verification/ScsiTable_Props.thy ===== *)
theory ScsiTable_Props
  imports ScsiText_Props
begin

text \<open>
  The tables of the SCSI texts: when the cells of a format fill rows of eight bits, every row that is
  written is 74 characters long, and no step of the layout faults.
\<close>

section \<open>The layout of a format\<close>

text \<open>
  The column, in bits, behind a cell of a number: a cell that has no room in the row starts a new one, and
  must fill it. Texts take rows of their own.
\<close>

definition next_column :: "nat \<Rightarrow> nat \<Rightarrow> nat" where
  "next_column c w = (if 8 \<le> c + w then 0 else c + w)"

definition cell_ok :: "nat \<Rightarrow> int \<Rightarrow> nat \<Rightarrow> bool" where
  "cell_ok c type w \<longleftrightarrow>
     (if type = 0x75 then 0 < w \<and> w \<le> 64 \<and> (c = 0 \<or> c + w \<le> 8 \<or> 8 \<le> w) else (type = 0x41 \<or> type = 0x58) \<and> c = 0)"

definition column_after :: "nat \<Rightarrow> int \<Rightarrow> nat \<Rightarrow> nat" where
  "column_after c type w = (if type = 0x75 then next_column c w else 0)"

definition name_ok :: "int list \<Rightarrow> bool" where "name_ok s \<longleftrightarrow> length s \<le> 70 \<and> 0x3d \<notin> set s"

text \<open>The width of a number must be in the line; that of a text does not matter.\<close>

definition literal_width :: "text_line \<Rightarrow> nat" where
  "literal_width l = (case ln_width l of Some w \<Rightarrow> unat w | None \<Rightarrow> 0)"

fun layout :: "bool \<Rightarrow> nat \<Rightarrow> text_line list \<Rightarrow> bool" where
  "layout star c [] \<longleftrightarrow> (star \<longrightarrow> c = 0)"
| "layout star c (l # ls) \<longleftrightarrow>
     name_ok (ln_name l) \<and> cell_ok c (ln_type l) (literal_width l) \<and> (ln_star l \<longrightarrow> c = 0) \<and>
     layout (star \<or> ln_star l) (column_after c (ln_type l) (literal_width l)) ls"

fun fields_laid :: "nat \<Rightarrow> scsi_field list \<Rightarrow> bool" where
  "fields_laid c [] \<longleftrightarrow> True"
| "fields_laid c (f # fs) \<longleftrightarrow>
     name_ok (fd_name f) \<and> cell_ok c (fd_type f) (unat (fd_width f)) \<and>
     (fd_type f = 0x75 \<and> unat (fd_width f) < 4 \<longrightarrow> fd_uval f < 10) \<and>
     fields_laid (column_after c (fd_type f) (unat (fd_width f))) fs"

section \<open>The fields of a format\<close>

text \<open>A number has no more bits than its field is wide.\<close>

lemma bits_loop_bound:
  "(\<forall>j \<ge> k. \<not> bit v j) \<Longrightarrow> (\<forall>j \<ge> k + loopw. \<not> bit (fst (bits_loop buf bitpos loopw v)) j)"
proof (induction loopw arbitrary: bitpos v k rule: less_induct)
  case (less loopw)
  show ?case
  proof (cases "loopw = 0")
    case True
    then show ?thesis using less.prems by (simp add: bits_loop.simps)
  next
    case False
    define w where "w = min (8 - bitpos mod 8) loopw"
    have w: "0 < w" "w \<le> loopw" "w \<le> 8" using False mod_less_divisor [of 8 bitpos] unfolding w_def by linarith+
    define v' where "v' = push_bit w v OR ucast (drop_bit (8 - w) (push_bit (bitpos mod 8) (buf ! (bitpos div 8))))"
    have "\<not> bit v' j" if "k + w \<le> j" for j
      using that w less.prems by (auto simp: v'_def bit_simps dest!: bit_imp_le_length)
    with less.IH [of "loopw - w" "k + w" v' "bitpos + w"] w show ?thesis
      by (simp add: bits_loop_step [OF False w_def] v'_def)
  qed
qed

lemma number_small:
  assumes "loopw < 4"
  shows "fst (bits_loop buf bitpos loopw 0) < 10"
proof -
  let ?v = "fst (bits_loop buf bitpos loopw 0)"
  have "\<not> bit ?v j" if "3 \<le> j" for j
    using bits_loop_bound [of 0 0 loopw buf bitpos] that assms by auto
  then have "?v = take_bit 3 ?v" by (intro bit_word_eqI) (auto simp: bit_take_bit_iff not_le [symmetric])
  then have "unat ?v = take_bit 3 (unat ?v)" by (metis unsigned_take_bit_eq)
  then have "unat ?v < 8" using take_bit_nat_less_exp [of 3 "unat ?v"] by simp
  then show ?thesis by (simp add: word_less_nat_alt)
qed

lemma number_field_small:
  "unat (line_width_of l s) < 4 \<Longrightarrow> f \<in> set (fst (number_field buf l s)) \<Longrightarrow> fd_uval f < 10"
  using number_small [of "if ts_len s * 8 < ts_bitpos s + unat (line_width_of l s) then ts_len s * 8 - ts_bitpos s
      else unat (line_width_of l s)" buf "ts_bitpos s"]
  by (auto simp: number_field_def Let_def case_prod_beta split: if_splits)

lemma line_field_laid:
  assumes "name_ok (ln_name l)" and "cell_ok c (ln_type l) (literal_width l)"
    and "fields_laid (column_after c (ln_type l) (literal_width l)) fs"
  shows "fields_laid c (fst (line_field buf l s) @ fs)"
proof (cases "ln_type l = 0x75")
  case True
  then obtain w where w: "ln_width l = Some w"
    using assms(2) by (cases "ln_width l") (auto simp: cell_ok_def literal_width_def)
  have wo: "line_width_of l s = w" by (simp add: line_width_of_def w)
  obtain f where f: "fst (line_field buf l s) = [f]" "fd_type f = ln_type l" "fd_name f = ln_name l" "fd_width f = w"
    using True by (auto simp: line_field_def number_field_def Let_def case_prod_beta wo)
  moreover have "unat w < 4 \<Longrightarrow> fd_uval f < 10"
    using number_field_small [of l s f buf] f(1) True by (simp add: wo line_field_def)
  ultimately show ?thesis using assms by (simp add: literal_width_def w)
next
  case False
  then have t: "ln_type l = 0x41 \<or> ln_type l = 0x58" "c = 0" using assms(2) by (auto simp: cell_ok_def)
  then have "fst (line_field buf l s) = [] \<or>
      (\<exists>f. fst (line_field buf l s) = [f] \<and> fd_type f = ln_type l \<and> fd_name f = ln_name l)"
    by (auto simp: line_field_def octets_field_def Let_def)
  then show ?thesis using assms t by (auto simp: cell_ok_def column_after_def)
qed

definition laid_state :: "nat \<Rightarrow> text_state \<Rightarrow> bool" where
  "laid_state c s \<longleftrightarrow> text_ok s \<and> layout (ts_star s \<noteq> None) c (format_lines (ts_p s)) \<and>
     (\<forall>q. ts_star s = Some q \<longrightarrow> layout True 0 (format_lines q))"

lemma laid_starred:
  assumes "laid_state c s" and "parse_line (ts_p s) = Some (l, q)"
  shows "laid_state (column_after c (ln_type l) (literal_width l)) (starred s\<lparr>ts_p := q\<rparr>)"
    and "name_ok (ln_name l)" "cell_ok c (ln_type l) (literal_width l)"
proof -
  have lines: "format_lines (ts_p s) = l # format_lines q" by (simp add: format_lines.simps [of "ts_p s"] assms(2))
  have star: "ln_star l \<longleftrightarrow> char0 (ts_p s) = 0x2a"
    using assms(2) by (auto simp: parse_line_def Let_def split: if_splits prod.splits)
  show "laid_state (column_after c (ln_type l) (literal_width l)) (starred s\<lparr>ts_p := q\<rparr>)"
    using assms(1) star by (auto simp: laid_state_def text_ok_def format_ends.simps [of "ts_p s"] assms(2) lines starred_def)
  show "name_ok (ln_name l)" "cell_ok c (ln_type l) (literal_width l)"
    using assms(1) by (auto simp: laid_state_def lines)
qed

lemma laid_line_field [simp]: "laid_state c (snd (line_field buf l s)) = laid_state c s"
  by (simp add: laid_state_def text_ok_def)

lemma text_loop_laid:
  assumes "text_loop buf s = Some fs"
  shows "\<forall>c. laid_state c s \<longrightarrow> fields_laid c fs"
proof (rule text_loop.raw_induct [OF _ assms, where P = "\<lambda>buf s fs. \<forall>c. laid_state c s \<longrightarrow> fields_laid c fs"],
    intro allI impI)
  fix loop buf s fs c
  assume IH: "\<And>buf s fs. loop buf s = Some fs \<Longrightarrow> \<forall>c. laid_state c s \<longrightarrow> fields_laid c fs"
    and turn: "(case text_turn buf s of None \<Rightarrow> Some []
      | Some (fs, s) \<Rightarrow> do { gs \<leftarrow> loop buf s; Some (fs @ gs) }) = Some fs"
    and laid: "laid_state c s"
  show "fields_laid c fs"
  proof (cases "text_turn buf s")
    case (Some r)
    obtain gs s' where r: "text_turn buf s = Some (gs, s')" using Some by (cases r) auto
    with turn obtain hs where hs: "loop buf s' = Some hs" "fs = gs @ hs" by (auto split: bind_splits)
    note rest = IH [OF hs(1), rule_format]
    from r show ?thesis
    proof (cases rule: text_turn_cases)
      case (line l q)
      note l = laid_starred [OF laid line(2)]
      from l(1) have "fields_laid (column_after c (ln_type l) (literal_width l)) hs"
        by (intro rest) (simp add: line(4))
      with l(2,3) show ?thesis unfolding hs(2) line(3) by (rule line_field_laid)
    next
      case (star q)
      have "format_lines (ts_p s) = []" by (simp add: format_lines.simps [of "ts_p s"] star(1))
      moreover have "char0 (ts_p s) \<noteq> 0x2a"
        using laid star(1) by (simp add: laid_state_def text_ok_def format_ends.simps [of "ts_p s"])
      ultimately have "laid_state c s'"
        using laid star(2) by (auto simp: laid_state_def star(4) starred_def text_ok_def)
      then show ?thesis using rest by (simp add: hs(2) star(3))
    qed
  qed (use turn in simp)
qed

section \<open>What the buffer holds\<close>

definition held :: "ScsiTextPrinter \<Rightarrow> int list" where "held pr = take (pr_pos pr) (pr_buf pr)"

lemma length_held: "printer_ok pr \<Longrightarrow> length (held pr) = pr_pos pr"
  by (simp add: held_def printer_ok_def)

text \<open>A step that does not fault and leaves what was written as it was.\<close>

definition gives :: "ScsiTextPrinter option \<Rightarrow> int list \<Rightarrow> int list \<Rightarrow> nat \<Rightarrow> bool" where
  "gives r out h c \<longleftrightarrow> (\<exists>pr. r = Some pr \<and> printer_ok pr \<and> pr_out pr = out \<and> held pr = h \<and> pr_col pr = c)"

lemma gives_bind:
  assumes "gives r out h c"
    and "\<And>pr. r = Some pr \<Longrightarrow> printer_ok pr \<Longrightarrow> pr_out pr = out \<Longrightarrow> held pr = h \<Longrightarrow> pr_col pr = c \<Longrightarrow> gives (f pr) out' h' c'"
  shows "gives (r \<bind> f) out' h' c'"
  using assms by (auto simp: gives_def)

lemma gives_Some: "printer_ok pr \<Longrightarrow> gives (Some pr) (pr_out pr) (held pr) (pr_col pr)"
  by (simp add: gives_def)

lemma gives_print:
  assumes "printer_ok pr" and "length (held pr) + length s \<le> 1024"
  shows "gives (ScsiTextPrint s pr) (pr_out pr) (held pr @ s) (pr_col pr)"
  using assms by (auto simp: gives_def ScsiTextPrint_def length_held printer_ok_def held_def length_splice take_splice_prefix)

text \<open>A routine that prints a text which has room in the buffer.\<close>

definition prints :: "int list \<Rightarrow> (ScsiTextPrinter \<Rightarrow> ScsiTextPrinter option) \<Rightarrow> bool" where
  "prints s f \<longleftrightarrow> (\<forall>pr. printer_ok pr \<and> length (held pr) + length s \<le> 1024 \<longrightarrow>
     gives (f pr) (pr_out pr) (held pr @ s) (pr_col pr))"

lemma prints_then:
  assumes "prints s f" and "prints t g"
  shows "prints (s @ t) (\<lambda>pr. f pr \<bind> g)"
  unfolding prints_def
proof (intro allI impI, elim conjE)
  fix pr assume "printer_ok pr" "length (held pr) + length (s @ t) \<le> 1024"
  then have "gives (f pr) (pr_out pr) (held pr @ s) (pr_col pr)" using assms(1) by (simp add: prints_def)
  then show "gives (f pr \<bind> g) (pr_out pr) (held pr @ s @ t) (pr_col pr)"
    using assms(2) \<open>length (held pr) + length (s @ t) \<le> 1024\<close> by (intro gives_bind) (auto simp: prints_def)
qed

lemma prints_print: "prints s (ScsiTextPrint s)"
  by (simp add: prints_def gives_print)

lemma prints_printc: "prints [c] (ScsiTextPrintc c)"
  using prints_print [of "[c]"] by (simp add: ScsiTextPrintc_def)

lemma prints_nothing: "prints [] Some"
  by (simp add: prints_def gives_Some)

lemma prints_run:
  assumes "prints s f" and "printer_ok pr" and "length (held pr) + length s \<le> 1024"
  obtains pr' where "f pr = Some pr'" "printer_ok pr'" "pr_out pr' = pr_out pr" "held pr' = held pr @ s" "pr_col pr' = pr_col pr"
  using assms by (auto simp: prints_def gives_def)

lemma lengths: "length bar_end = 2" "length boundary = 74" "last bar_end = 0x0a" "last boundary = 0x0a"
  "bar_end \<noteq> []" "boundary \<noteq> []"
  by code_simp+

lemma gives_boundary:
  assumes "printer_ok pr" and "length (held pr) \<le> 900"
  shows "gives (ScsiTablePrintBoundary pr) (pr_out pr) (held pr @ boundary) 0"
proof -
  obtain pr' where "ScsiTextPrint boundary pr = Some pr'" "printer_ok pr'" "pr_out pr' = pr_out pr" "held pr' = held pr @ boundary"
    by (rule prints_run [OF prints_print assms(1), of boundary]) (use assms(2) in \<open>simp_all add: lengths\<close>)
  then show ?thesis by (simp add: ScsiTablePrintBoundary_def gives_def printer_ok_def held_def)
qed

lemma gives_printc:
  "printer_ok pr \<Longrightarrow> length (held pr) < 1024 \<Longrightarrow> gives (ScsiTextPrintc c pr) (pr_out pr) (held pr @ [c]) (pr_col pr)"
  using gives_print [of pr "[c]"] by (simp add: ScsiTextPrintc_def)

lemma flush_state:
  assumes "printer_ok pr"
  shows "printer_ok (ScsiTextFlush pr)" "pr_out (ScsiTextFlush pr) = pr_out pr @ held pr" "held (ScsiTextFlush pr) = []"
    "pr_col (ScsiTextFlush pr) = pr_col pr"
  using assms by (simp_all add: ScsiTextFlush_def printer_ok_def held_def)

lemma gives_center:
  assumes "printer_ok pr" and "held pr \<noteq> []" and "cw \<le> 1024"
  obtains h where "gives (ScsiTableTextCenter cw pr) (pr_out pr) h (pr_col pr)"
    "length (held pr) < cw \<Longrightarrow> length h = cw" "cw \<le> length (held pr) \<Longrightarrow> h = held pr"
proof (cases "pr_pos pr < cw")
  case False
  show thesis
    by (rule that [of "held pr"]) (use False assms(1) in \<open>auto simp: ScsiTableTextCenter_def length_held gives_Some\<close>)
next
  case True
  define n where "n = cw - pr_pos pr"
  define b where "b = splice (splice (splice (pr_buf pr) (1 + n div 2) (slice (pr_buf pr) 1 (pr_pos pr - 1))) 1
    (replicate (n div 2) 0x20)) (n div 2 + pr_pos pr) (replicate (n - n div 2) 0x20)"
  have p: "0 < pr_pos pr" "length (pr_buf pr) = 1024" using assms by (auto simp: held_def printer_ok_def)
  then have "length b = 1024"
    using True assms(3) by (simp add: b_def n_def length_splice length_slice)
  moreover have "ScsiTableTextCenter cw pr = Some (pr\<lparr>pr_buf := b, pr_pos := cw\<rparr>)"
    using True p by (simp add: ScsiTableTextCenter_def Let_def b_def n_def)
  ultimately show thesis
    using True assms by (intro that [of "take cw b"]) (auto simp: gives_def printer_ok_def held_def)
qed

section \<open>The cell of a number\<close>

lemma cut_cell_state:
  assumes ok: "printer_ok pr" and held: "held pr = 0x7c # name @ 0x3d # num" and name: "0x3d \<notin> set name"
    and num: "length num < cw" and cw: "cw \<le> 1024"
  shows "printer_ok (cut_cell cw pr) \<and> pr_out (cut_cell cw pr) = pr_out pr \<and> pr_col (cut_cell cw pr) = pr_col pr \<and>
    (if cw < length (held pr) then length (held (cut_cell cw pr)) = cw else held (cut_cell cw pr) = held pr)"
proof -
  have pos: "pr_pos pr = length name + length num + 2" using length_held [OF ok] by (simp add: held)
  have p: "length (takeWhile (\<lambda>c. c \<noteq> 0x3d) (take (pr_pos pr) (pr_buf pr))) = 1 + length name"
    unfolding held_def [symmetric] held using name by (simp add: takeWhile_append)
  show ?thesis
  proof (cases "cw < pr_pos pr")
    case False
    then show ?thesis using ok by (simp add: cut_cell_def Let_def length_held [OF ok])
  next
    case True
    define q where "q = 1 + length name - (pr_pos pr - cw)"
    have q: "q + (length num + 1) = cw" using True num pos by (simp add: q_def)
    have c: "cut_cell cw pr = pr\<lparr>pr_buf := splice (pr_buf pr) q (slice (pr_buf pr) (1 + length name) (length num + 1)), pr_pos := cw\<rparr>"
      using True pos q unfolding cut_cell_def Let_def p by (simp add: q_def)
    have "length (splice (pr_buf pr) q (slice (pr_buf pr) (1 + length name) (length num + 1))) = 1024"
      using ok pos q cw by (simp add: length_splice length_slice printer_ok_def)
    then show ?thesis
      using True cw ok by (simp add: c printer_ok_def held_def length_held [OF ok, unfolded held_def])
  qed
qed

lemma gives_number_cell:
  assumes ok: "printer_ok pr" and held: "held pr = 0x7c # fd_name f" and name: "name_ok (fd_name f)"
    and w: "0 < unat (fd_width f)" and small: "unat (fd_width f) < 4 \<Longrightarrow> fd_uval f < 10"
  defines "cw \<equiv> 9 * min (unat (fd_width f)) 8"
  obtains h where "length h = cw" and "gives (number_cell f pr) (pr_out pr)
      (if 72 \<le> pr_col pr + cw then h @ bar_end @ boundary else h) (if 72 \<le> pr_col pr + cw then 0 else pr_col pr + cw)"
proof -
  let ?num = "number_text (fd_uval f)"
  have cw: "9 * (if fd_width f < 8 then unat (fd_width f) else 8) = cw" "cw \<le> 72"
    by (auto simp: cw_def min_def word_less_nat_alt)
  have num: "length ?num < cw"
    using length_number_text [of "fd_uval f"] small w by (cases "unat (fd_width f) < 4") (auto simp: cw_def)
  have small: "length (fd_name f) \<le> 70" "0x3d \<notin> set (fd_name f)" using name by (auto simp: name_ok_def)
  obtain pr1 where pr1: "ScsiTextPrintc 0x3d pr = Some pr1" "printer_ok pr1" "held pr1 = held pr @ [0x3d]"
      "pr_out pr1 = pr_out pr" "pr_col pr1 = pr_col pr"
    using gives_printc [OF ok, of "0x3d"] small(1) by (auto simp: gives_def held)
  obtain pr2 where pr2: "ScsiTextPrint ?num pr1 = Some pr2" "printer_ok pr2" "held pr2 = held pr @ [0x3d] @ ?num"
      "pr_out pr2 = pr_out pr" "pr_col pr2 = pr_col pr"
    using gives_print [OF pr1(2), of ?num] small(1) pr1 length_number_text(1) [of "fd_uval f"] by (auto simp: gives_def held)
  have ne: "held pr2 \<noteq> []" by (simp add: pr2 held)
  obtain h where h: "gives (ScsiTableTextCenter cw pr2) (pr_out pr2) h (pr_col pr2)"
    "length (held pr2) < cw \<Longrightarrow> length h = cw" "cw \<le> length (held pr2) \<Longrightarrow> h = held pr2"
    by (rule gives_center [OF pr2(2) ne, of cw]) (use cw in auto)
  then obtain pr3 where pr3: "ScsiTableTextCenter cw pr2 = Some pr3" "printer_ok pr3" "held pr3 = h"
      "pr_out pr3 = pr_out pr" "pr_col pr3 = pr_col pr"
    using pr2 by (auto simp: gives_def)
  define pr4 where "pr4 = cut_cell cw pr3"
  have pr4: "printer_ok pr4 \<and> pr_out pr4 = pr_out pr \<and> pr_col pr4 = pr_col pr \<and> length (held pr4) = cw"
  proof (cases "cw < length (held pr2)")
    case True
    then have "held pr3 = 0x7c # fd_name f @ 0x3d # ?num" using h pr3 pr2 by (simp add: held)
    from cut_cell_state [OF pr3(2) this small(2) num] cw True h pr3 show ?thesis by (simp add: pr4_def)
  next
    case False
    then have "length h = cw" using h by (cases "length (held pr2) < cw") auto
    then have "pr_pos pr3 = cw" using length_held [OF pr3(2)] pr3 by simp
    then have "pr4 = pr3" by (simp add: pr4_def cut_cell_def Let_def)
    with pr3 \<open>length h = cw\<close> show ?thesis by simp
  qed
  define pr5 where "pr5 = pr4\<lparr>pr_col := pr_col pr4 + pr_pos pr4\<rparr>"
  have pr5: "printer_ok pr5" "held pr5 = held pr4" "pr_out pr5 = pr_out pr" "pr_col pr5 = pr_col pr + cw"
    using pr4 by (auto simp: pr5_def printer_ok_def held_def)
  have cell: "number_cell f pr = (if 72 \<le> pr_col pr5 then do { pr \<leftarrow> ScsiTextPrint bar_end pr5; ScsiTablePrintBoundary pr }
      else Some pr5)"
    by (simp only: number_cell_def pr1 pr2 cw(1) pr3 pr4_def [symmetric] pr5_def [symmetric] Let_def bind.bind_lunit)
  show thesis
  proof (rule that [of "held pr4"])
    show "length (held pr4) = cw" using pr4 by simp
    have "gives (do { pr \<leftarrow> ScsiTextPrint bar_end pr5; ScsiTablePrintBoundary pr }) (pr_out pr) (held pr4 @ bar_end @ boundary) 0"
    proof (rule gives_bind)
      show "gives (ScsiTextPrint bar_end pr5) (pr_out pr) (held pr4 @ bar_end) (pr_col pr5)"
        using gives_print [OF pr5(1), of bar_end] pr5 pr4 cw lengths by simp
      fix pr6 assume pr6: "printer_ok pr6" "pr_out pr6 = pr_out pr" "held pr6 = held pr4 @ bar_end"
      show "gives (ScsiTablePrintBoundary pr6) (pr_out pr) (held pr4 @ bar_end @ boundary) 0"
        using gives_boundary [OF pr6(1)] pr6 pr4 cw by (simp add: lengths)
    qed
    then show "gives (number_cell f pr) (pr_out pr)
        (if 72 \<le> pr_col pr + cw then held pr4 @ bar_end @ boundary else held pr4) (if 72 \<le> pr_col pr + cw then 0 else pr_col pr + cw)"
      using gives_Some [OF pr5(1)] pr5 by (simp add: cell)
  qed
qed

section \<open>Rows\<close>

definition row_ok :: "int list \<Rightarrow> bool" where "row_ok r \<longleftrightarrow> length r = 74 \<and> last r = 0x0a"

text \<open>Whole rows, and the part of a row with a length.\<close>

definition rows_and :: "nat \<Rightarrow> int list \<Rightarrow> bool" where
  "rows_and n out \<longleftrightarrow> (\<exists>rows part. out = concat rows @ part \<and> list_all row_ok rows \<and> length part = n)"

lemma rows_and_part: "rows_and n out \<Longrightarrow> length s = k \<Longrightarrow> rows_and (n + k) (out @ s)"
  unfolding rows_and_def by (metis append_assoc length_append)

lemma rows_and_row:
  assumes "rows_and n out" and "n + length s = 74" and "last s = 0x0a" and "s \<noteq> []"
  shows "rows_and 0 (out @ s)"
proof -
  obtain rows part where "out = concat rows @ part" "list_all row_ok rows" "length part = n"
    using assms(1) by (auto simp: rows_and_def)
  with assms show ?thesis
    unfolding rows_and_def by (intro exI [of _ "rows @ [part @ s]"] exI [of _ "[]"]) (simp add: row_ok_def)
qed

text \<open>The printer between two fields, with the column.\<close>

definition at_column :: "nat \<Rightarrow> ScsiTextPrinter \<Rightarrow> bool" where
  "at_column c pr \<longleftrightarrow> printer_ok pr \<and> held pr = [] \<and> c < 8 \<and> pr_col pr = 9 * c \<and> rows_and (9 * c) (pr_out pr)"

lemma length_stair: "length (stair col i) = 9"
  by (simp add: stair_def chars_def)

lemma prints_stairs: "prints (concat (map (stair col) is)) (print_stairs col is)"
proof (induction "is")
  case (Cons i "is")
  from prints_then [OF prints_print this] show ?case by (simp add: prints_def)
qed (simp add: prints_def gives_Some)

text \<open>A row that is broken is filled up, and the row of stairs below it is whole.\<close>

lemma break_row_rows:
  assumes "at_column c pr"
  obtains pr' where "break_row pr = Some pr'" "printer_ok pr'" "held pr' = []" "pr_col pr' = 9 * c" "rows_and 0 (pr_out pr')"
proof -
  have pr: "printer_ok pr" "held pr = []" "c < 8" "pr_col pr = 9 * c" "rows_and (9 * c) (pr_out pr)"
    using assms by (auto simp: at_column_def)
  define blank where "blank = replicate (72 - 9 * c - 1) (0x20 :: int)"
  define stairs where "stairs = concat (map (stair (9 * c)) [0..<8])"
  have len: "1 + length blank + 2 + 9 * c = 74" "length stairs = 72"
    using pr by (simp_all add: blank_def stairs_def length_concat comp_def length_stair upt_rec)
  have "prints ([0x7c] @ blank @ bar_end @ stairs @ bar_end @ []) (\<lambda>pr. do {
      pr \<leftarrow> ScsiTextPrintc 0x7c pr;
      pr \<leftarrow> ScsiTextPrint blank pr;
      pr \<leftarrow> ScsiTextPrint bar_end pr;
      pr \<leftarrow> print_stairs (9 * c) [0..<8] pr;
      pr \<leftarrow> ScsiTextPrint bar_end pr;
      Some pr })" (is "prints ?s ?f")
    unfolding stairs_def by (intro prints_then prints_printc prints_print prints_stairs prints_nothing)
  then obtain pr1 where run: "?f pr = Some pr1" and 1: "printer_ok pr1" "pr_out pr1 = pr_out pr" "held pr1 = ?s"
      "pr_col pr1 = pr_col pr"
    by (rule prints_run [OF _ pr(1)]) (use pr len in \<open>simp_all add: lengths\<close>)
  have "break_row pr = Some (ScsiTextFlush pr1)"
    using run pr by (auto simp: break_row_def blank_def Let_def split: bind_splits)
  moreover have "rows_and 0 (pr_out pr @ [0x7c] @ blank @ bar_end)"
    using pr(5) by (rule rows_and_row) (use len in \<open>simp_all add: lengths\<close>)
  then have "rows_and 0 ((pr_out pr @ [0x7c] @ blank @ bar_end) @ stairs @ bar_end)"
    by (rule rows_and_row) (use len in \<open>simp_all add: lengths\<close>)
  ultimately show thesis using that [of "ScsiTextFlush pr1"] flush_state [OF 1(1)] 1 pr by simp
qed

section \<open>Rows of a text\<close>

definition row_open :: "ScsiTextPrinter \<Rightarrow> bool" where
  "row_open pr \<longleftrightarrow> printer_ok pr \<and> held pr \<noteq> [] \<and> length (held pr) \<le> 71 \<and> pr_col pr = 0 \<and> rows_and 0 (pr_out pr)"

lemma center_row:
  assumes "row_open pr"
  obtains pr' where "(do { pr \<leftarrow> ScsiTableTextCenter 72 pr; ScsiTextPrint bar_end pr }) = Some pr'" "printer_ok pr'" "pr_col pr' = 0"
    "rows_and 0 (pr_out pr' @ held pr')" "length (held pr') = 74"
proof -
  have pr: "printer_ok pr" "held pr \<noteq> []" "length (held pr) < 72" "pr_col pr = 0" "rows_and 0 (pr_out pr)"
    using assms by (auto simp: row_open_def)
  obtain h where h: "gives (ScsiTableTextCenter 72 pr) (pr_out pr) h (pr_col pr)" "length h = 72"
    by (rule gives_center [OF pr(1,2), of 72]) (use pr(3) in auto)
  obtain pr1 where 1: "ScsiTableTextCenter 72 pr = Some pr1" "printer_ok pr1" "pr_out pr1 = pr_out pr" "held pr1 = h"
      "pr_col pr1 = pr_col pr"
    using h(1) by (auto simp: gives_def)
  obtain pr2 where 2: "ScsiTextPrint bar_end pr1 = Some pr2" "printer_ok pr2" "pr_out pr2 = pr_out pr" "held pr2 = h @ bar_end"
      "pr_col pr2 = 0"
    by (rule prints_run [OF prints_print 1(2), of bar_end]) (use 1 h pr in \<open>simp_all add: lengths\<close>)
  have "rows_and 0 (pr_out pr @ h @ bar_end)" using pr(5) by (rule rows_and_row) (use h(2) in \<open>simp_all add: lengths\<close>)
  with 1 2 h show thesis by (intro that [of pr2]) (simp_all add: lengths)
qed

lemma next_row_rows:
  assumes "row_open pr"
  obtains pr' where "next_row pr = Some pr'" "row_open pr'" "length (held pr') = 1"
proof -
  obtain pr1 where 1: "(do { pr \<leftarrow> ScsiTableTextCenter 72 pr; ScsiTextPrint bar_end pr }) = Some pr1" "printer_ok pr1"
      "pr_col pr1 = 0" "rows_and 0 (pr_out pr1 @ held pr1)"
    using center_row [OF assms] by blast
  obtain pr2 where 2: "ScsiTextPrintc 0x7c (ScsiTextFlush pr1) = Some pr2" "printer_ok pr2"
      "pr_out pr2 = pr_out pr1 @ held pr1" "held pr2 = [0x7c]" "pr_col pr2 = 0"
    by (rule prints_run [OF prints_printc flush_state(1) [OF 1(2)], of "0x7c"]) (use flush_state [OF 1(2)] 1 in simp_all)
  have "next_row pr = Some pr2" using 1(1) 2(1) by (auto simp: next_row_def split: bind_splits)
  with 1 2 show thesis by (intro that [of pr2]) (simp_all add: row_open_def)
qed

lemma end_rows_rows:
  assumes "row_open pr"
  obtains pr' where "end_rows pr = Some pr'" "printer_ok pr'" "pr_col pr' = 0" "rows_and 0 (pr_out pr' @ held pr')"
proof -
  obtain pr1 where 1: "(do { pr \<leftarrow> ScsiTableTextCenter 72 pr; ScsiTextPrint bar_end pr }) = Some pr1" "printer_ok pr1"
      "pr_col pr1 = 0" "rows_and 0 (pr_out pr1 @ held pr1)" "length (held pr1) = 74"
    using center_row [OF assms] by blast
  obtain pr2 where 2: "ScsiTablePrintBoundary pr1 = Some pr2" "printer_ok pr2" "pr_out pr2 = pr_out pr1"
      "held pr2 = held pr1 @ boundary" "pr_col pr2 = 0"
    using gives_boundary [OF 1(2)] 1(5) by (auto simp: gives_def)
  have "end_rows pr = Some pr2"
    using 1(1) 2(1) by (auto simp: end_rows_def split: bind_splits)
  moreover have "rows_and 0 ((pr_out pr1 @ held pr1) @ boundary)" using 1(4) by (rule rows_and_row) (simp_all add: lengths)
  ultimately show thesis using 2 by (intro that [of pr2]) simp_all
qed

text \<open>
  What a row of a text still holds after an item of at most \<open>k\<close> characters has been printed, \<open>n\<close> items in a row.
\<close>

lemma row_item:
  assumes open_row: "row_open pr" and n: "0 < n" "k * n \<le> 70" and len: "length s \<le> k" and i: "i mod n \<noteq> 0 \<longrightarrow> length (held pr) \<le> 1 + k * (i mod n)"
  obtains pr1 pr2 where "(if i mod n = 0 then next_row pr else Some pr) = Some pr1" "ScsiTextPrint s pr1 = Some pr2"
    "row_open pr2" "(i + 1) mod n \<noteq> 0 \<longrightarrow> length (held pr2) \<le> 1 + k * ((i + 1) mod n)"
proof -
  obtain pr' where "next_row pr = Some pr'" "row_open pr'" "length (held pr') = 1"
    by (rule next_row_rows [OF open_row])
  with open_row i obtain pr1 where 1: "(if i mod n = 0 then next_row pr else Some pr) = Some pr1" "row_open pr1"
      "length (held pr1) \<le> 1 + k * (i mod n)"
    by (cases "i mod n = 0") auto
  have "i mod n + 1 \<le> n" using n by (simp add: Suc_leI)
  then have "k * (i mod n) + k \<le> k * n" by (metis add_mult_distrib2 mult.right_neutral mult_le_mono2)
  then have room: "length (held pr1) + length s \<le> 71" using 1(3) len n(2) by linarith
  have ok: "printer_ok pr1" using 1(2) by (simp add: row_open_def)
  obtain pr2 where 2: "ScsiTextPrint s pr1 = Some pr2" "printer_ok pr2" "pr_out pr2 = pr_out pr1" "held pr2 = held pr1 @ s"
      "pr_col pr2 = pr_col pr1"
    by (rule prints_run [OF prints_print ok, of s]) (use room in simp_all)
  have "row_open pr2" using 1(2) 2 room by (simp add: row_open_def)
  moreover have "(i + 1) mod n \<noteq> 0 \<longrightarrow> length (held pr2) \<le> 1 + k * ((i + 1) mod n)"
  proof
    assume "(i + 1) mod n \<noteq> 0"
    then have "(i + 1) mod n = i mod n + 1" by (simp add: mod_Suc split: if_splits)
    then show "length (held pr2) \<le> 1 + k * ((i + 1) mod n)" using 1(3) 2 len by simp
  qed
  ultimately show thesis using that 1 2 by blast
qed

lemma table_chars_rows:
  "row_open pr \<Longrightarrow> i mod 64 \<noteq> 0 \<longrightarrow> length (held pr) \<le> 1 + 1 * (i mod 64) \<Longrightarrow>
   \<exists>pr'. table_chars i cs pr = Some pr' \<and> row_open pr'"
proof (induction cs arbitrary: i pr)
  case (Cons c cs)
  obtain pr1 pr2 where "(if i mod 64 = 0 then next_row pr else Some pr) = Some pr1" "ScsiTextPrint [printable c] pr1 = Some pr2"
    "row_open pr2" "(i + 1) mod 64 \<noteq> 0 \<longrightarrow> length (held pr2) \<le> 1 + 1 * ((i + 1) mod 64)"
    by (rule row_item [OF Cons.prems(1), of 64 1 "[printable c]" i]) (use Cons.prems in simp_all)
  with Cons.IH [of pr2 "i + 1"] show ?case by (simp add: ScsiTextPrintc_def)
qed simp

lemma table_octets_rows:
  "row_open pr \<Longrightarrow> length sep \<le> 1 \<Longrightarrow> i mod 16 \<noteq> 0 \<longrightarrow> length (held pr) \<le> 1 + 3 * (i mod 16) \<Longrightarrow>
   \<exists>pr'. table_octets i sep cs pr = Some pr' \<and> row_open pr'"
proof (induction cs arbitrary: i sep pr)
  case (Cons c cs)
  let ?s = "sep @ octet_text c"
  obtain pr1 pr2 where "(if i mod 16 = 0 then next_row pr else Some pr) = Some pr1" "ScsiTextPrint ?s pr1 = Some pr2"
    "row_open pr2" "(i + 1) mod 16 \<noteq> 0 \<longrightarrow> length (held pr2) \<le> 1 + 3 * ((i + 1) mod 16)"
    by (rule row_item [OF Cons.prems(1), of 16 3 ?s i]) (use Cons.prems in \<open>simp_all add: length_octet_text\<close>)
  with Cons.IH [of pr2 "[0x20]" "i + 1"] show ?case by (simp add: octet_text_def)
qed simp

section \<open>The rows of a table\<close>

text \<open>The bar and the name of a field, in a row that has room for it.\<close>

lemma field_start:
  assumes "printer_ok pr" and "held pr = []" and "length name \<le> 70"
  obtains pr1 pr2 where "ScsiTextPrintc 0x7c pr = Some pr1" "ScsiTextPrint name pr1 = Some pr2" "printer_ok pr2"
    "pr_out pr2 = pr_out pr" "held pr2 = 0x7c # name" "pr_col pr2 = pr_col pr"
proof -
  obtain pr1 where 1: "ScsiTextPrintc 0x7c pr = Some pr1" "printer_ok pr1" "pr_out pr1 = pr_out pr" "held pr1 = [0x7c]" "pr_col pr1 = pr_col pr"
    by (rule prints_run [OF prints_printc assms(1), of "0x7c"]) (use assms in simp_all)
  obtain pr2 where "ScsiTextPrint name pr1 = Some pr2" "printer_ok pr2" "pr_out pr2 = pr_out pr1" "held pr2 = 0x7c # name" "pr_col pr2 = pr_col pr1"
    by (rule prints_run [OF prints_print 1(2), of name]) (use 1 assms in simp_all)
  with 1 show thesis using that [of pr1 pr2] by simp
qed

lemma octets_field_rows:
  assumes at: "at_column 0 pr" and name: "name_ok (fd_name f)" and type: "fd_type f = 0x41 \<or> fd_type f = 0x58"
  obtains pr' where "ScsiTableTextFn f pr = Some pr'" "at_column 0 pr'"
proof -
  have pr: "printer_ok pr" "held pr = []" "pr_col pr = 0" "rows_and 0 (pr_out pr)" using at by (auto simp: at_column_def)
  have n: "length (fd_name f) \<le> 70" using name by (simp add: name_ok_def)
  obtain pr1 pr2 where 1: "ScsiTextPrintc 0x7c pr = Some pr1" "ScsiTextPrint (fd_name f) pr1 = Some pr2" "printer_ok pr2"
    "pr_out pr2 = pr_out pr" "held pr2 = 0x7c # fd_name f" "pr_col pr2 = pr_col pr"
    by (rule field_start [OF pr(1,2) n])
  have row: "row_open pr2" using 1 pr n by (simp add: row_open_def)
  have "\<exists>pr3. (if fd_type f = 0x41 then table_chars 0 (fd_octets f) pr2 else table_octets 0 [] (fd_octets f) pr2) = Some pr3 \<and> row_open pr3"
    using table_chars_rows [OF row, of 0] table_octets_rows [OF row, of "[]" 0] by simp
  then obtain pr3 where 3: "(if fd_type f = 0x41 then table_chars 0 (fd_octets f) pr2 else table_octets 0 [] (fd_octets f) pr2) = Some pr3"
    "row_open pr3" by blast
  obtain pr4 where 4: "end_rows pr3 = Some pr4" "printer_ok pr4" "pr_col pr4 = 0" "rows_and 0 (pr_out pr4 @ held pr4)"
    by (rule end_rows_rows [OF 3(2)])
  have "ScsiTableTextFn f pr = Some (ScsiTextFlush pr4)"
    using type 1 3(1) 4(1) by (auto simp: ScsiTableTextFn_def split: if_splits)
  moreover have "at_column 0 (ScsiTextFlush pr4)" using flush_state [OF 4(2)] 4 by (simp add: at_column_def)
  ultimately show thesis by (rule that)
qed

lemma number_field_rows:
  assumes at: "at_column c pr" and name: "name_ok (fd_name f)" and type: "fd_type f = 0x75"
    and cell: "cell_ok c (fd_type f) (unat (fd_width f))" and small: "unat (fd_width f) < 4 \<Longrightarrow> fd_uval f < 10"
  obtains pr' where "ScsiTableTextFn f pr = Some pr'" "at_column (next_column c (unat (fd_width f))) pr'"
proof -
  let ?w = "unat (fd_width f)"
  define cw where "cw = 9 * min ?w 8"
  have pr: "printer_ok pr" "held pr = []" "c < 8" "pr_col pr = 9 * c" "rows_and (9 * c) (pr_out pr)"
    using at by (auto simp: at_column_def)
  have w: "0 < ?w" "?w \<le> 64" "c = 0 \<or> c + ?w \<le> 8 \<or> 8 \<le> ?w" using cell type by (auto simp: cell_ok_def)
  have w9: "unat (9 * fd_width f) = 9 * ?w" using w(2) by (simp add: unat_word_ariths)
  define full where "full \<longleftrightarrow> c \<noteq> 0 \<and> 8 < c + ?w"
  have full_w: "full \<Longrightarrow> 8 \<le> ?w" using w(3) by (auto simp: full_def)
  have cond: "(fd_type f = 0x75 \<and> pr_col pr \<noteq> 0 \<and> 72 < pr_col pr + unat (9 * fd_width f)) = full"
    using type by (auto simp: w9 pr(4) full_def)
  obtain pr' where "break_row pr = Some pr'" "printer_ok pr'" "held pr' = []" "pr_col pr' = 9 * c" "rows_and 0 (pr_out pr')"
    by (rule break_row_rows [OF at])
  with pr obtain pr0 where 0: "(if full then break_row pr else Some pr) = Some pr0" "printer_ok pr0" "held pr0 = []"
      "pr_col pr0 = 9 * c" "rows_and (if full then 0 else 9 * c) (pr_out pr0)"
    by (cases full) auto
  have n: "length (fd_name f) \<le> 70" using name by (simp add: name_ok_def)
  obtain pr1 pr2 where 1: "ScsiTextPrintc 0x7c pr0 = Some pr1" "ScsiTextPrint (fd_name f) pr1 = Some pr2" "printer_ok pr2"
    "pr_out pr2 = pr_out pr0" "held pr2 = 0x7c # fd_name f" "pr_col pr2 = pr_col pr0"
    by (rule field_start [OF 0(2,3) n])
  obtain h where h: "length h = cw" "gives (number_cell f pr2) (pr_out pr2)
      (if 72 \<le> pr_col pr2 + cw then h @ bar_end @ boundary else h) (if 72 \<le> pr_col pr2 + cw then 0 else pr_col pr2 + cw)"
    using gives_number_cell [OF 1(3,5) name w(1) small] unfolding cw_def by metis
  define last_cell where "last_cell \<longleftrightarrow> 72 \<le> 9 * c + cw"
  obtain pr3 where 3: "number_cell f pr2 = Some pr3" "printer_ok pr3" "pr_out pr3 = pr_out pr0"
      "held pr3 = (if last_cell then h @ bar_end @ boundary else h)" "pr_col pr3 = (if last_cell then 0 else 9 * c + cw)"
    using h(2) 1 0 unfolding last_cell_def gives_def by auto
  have last_iff: "last_cell \<longleftrightarrow> 8 \<le> c + ?w" using pr(3) by (auto simp: last_cell_def cw_def min_def)
  have fn: "ScsiTableTextFn f pr = Some (ScsiTextFlush pr3)"
    unfolding ScsiTableTextFn_def cond using type 0(1) 1 3(1) by simp
  have "at_column (next_column c ?w) (ScsiTextFlush pr3)"
  proof (cases last_cell)
    case True
    have "(if full then 0 else 9 * c) + cw = 72"
    proof (cases full)
      case True
      then show ?thesis using full_w by (simp add: cw_def)
    next
      case False
      then show ?thesis using True last_iff w pr(3) by (auto simp: full_def cw_def min_def)
    qed
    then have "rows_and 0 (pr_out pr0 @ h @ bar_end)"
      using 0(5) h(1) by (intro rows_and_row [OF 0(5)]) (simp_all add: lengths)
    then have "rows_and 0 ((pr_out pr0 @ h @ bar_end) @ boundary)" by (rule rows_and_row) (simp_all add: lengths)
    then show ?thesis
      using True 3 flush_state [OF 3(2)] last_iff by (simp add: at_column_def next_column_def)
  next
    case False
    then have "\<not> full" using last_iff by (auto simp: full_def)
    then have "rows_and (9 * c + cw) (pr_out pr0 @ h)" using 0(5) h(1) by (intro rows_and_part) simp_all
    moreover have "cw = 9 * ?w" using False last_iff by (simp add: cw_def)
    ultimately show ?thesis
      using False 3 flush_state [OF 3(2)] last_iff by (simp add: at_column_def next_column_def)
  qed
  with fn show thesis by (rule that)
qed

lemma print_table_rows:
  "at_column c pr \<Longrightarrow> fields_laid c fs \<Longrightarrow> \<exists>c' pr'. print_fields ScsiTableTextFn fs pr = Some pr' \<and> at_column c' pr'"
proof (induction fs arbitrary: c pr)
  case (Cons f fs)
  have f: "name_ok (fd_name f)" "cell_ok c (fd_type f) (unat (fd_width f))" "unat (fd_width f) < 4 \<Longrightarrow> fd_type f = 0x75 \<Longrightarrow> fd_uval f < 10"
    "fields_laid (column_after c (fd_type f) (unat (fd_width f))) fs" using Cons.prems(2) by auto
  have "\<exists>pr'. ScsiTableTextFn f pr = Some pr' \<and> at_column (column_after c (fd_type f) (unat (fd_width f))) pr'"
  proof (cases "fd_type f = 0x75")
    case True
    then show ?thesis using number_field_rows [OF Cons.prems(1) f(1) True f(2)] f(3) by (auto simp: column_after_def)
  next
    case False
    then have "c = 0" "fd_type f = 0x41 \<or> fd_type f = 0x58" using f(2) by (auto simp: cell_ok_def)
    then show ?thesis using octets_field_rows [of pr f] Cons.prems(1) f(1) False by (auto simp: column_after_def)
  qed
  with Cons.IH f(4) show ?case by auto
qed auto

lemma table_rows:
  assumes "format_ends format" and "layout False 0 (format_lines format)"
  shows "\<exists>rows part. ScsiTableText format buf len = Some (concat rows @ part) \<and>
    list_all (\<lambda>r. length r = 74 \<and> last r = 0x0a) rows \<and> length part < 72"
proof -
  let ?s = "\<lparr>ts_p = format, ts_star = None, ts_m = 1, ts_len = len, ts_bitpos = 0\<rparr>"
  obtain fs where fs: "ScsiText format buf len = Some fs"
    using text_loop_ends [of ?s buf] assms(1) by (auto simp: text_ok_def ScsiText_def)
  have "laid_state 0 ?s" using assms by (simp add: laid_state_def text_ok_def)
  then have laid: "fields_laid 0 fs" using text_loop_laid [of buf ?s fs] fs by (simp add: ScsiText_def)
  have new: "held new_printer = []" "pr_out new_printer = []" "pr_col new_printer = 0"
    by (simp_all add: held_def new_printer_def)
  obtain pr where pr: "ScsiTablePrintBoundary new_printer = Some pr" "printer_ok pr" "pr_out pr = []" "held pr = boundary" "pr_col pr = 0"
    using gives_boundary [OF new_printer_ok(1)] new by (auto simp: gives_def)
  have "rows_and 0 []" by (auto simp: rows_and_def intro: exI [of _ "[]"])
  from rows_and_row [OF this, of boundary] have "at_column 0 (ScsiTextFlush pr)"
    using flush_state [OF pr(2)] pr by (simp add: at_column_def lengths)
  from print_table_rows [OF this laid] obtain c' pr' where
    "print_fields ScsiTableTextFn fs (ScsiTextFlush pr) = Some pr'" "at_column c' pr'" by blast
  moreover from this obtain rows part where "pr_out pr' = concat rows @ part"
    "list_all (\<lambda>r. length r = 74 \<and> last r = 0x0a) rows" "length part < 72"
    by (auto simp: at_column_def rows_and_def row_ok_def [abs_def])
  ultimately show ?thesis
    using pr(1) fs by (intro exI [of _ rows] exI [of _ part]) (simp add: ScsiTableText_def)
qed

text \<open>For a format whose cells fill rows of eight bits the table is printed without a fault, for every data, and
  every row of it, the boundaries, the cells, the rows of a text and the stairs of a broken row included, is 74
  characters long; only the last row may be a part of one, when the data end inside of it.
\<close>

lemma scsi_table_rows:
  assumes "format_ends format" and "layout False 0 (format_lines format)"
  shows "\<exists>rows part. ScsiTableText format buf len = Some (concat rows @ part) \<and>
    list_all (\<lambda>r. length r = 74 \<and> last r = 0x0a) rows \<and> length part < 72"
  using assms by (rule table_rows)

lemma scsi_table_rows_witness:
  "\<exists>rows part. ScsiTableText (chars ''u4 A'' @ [0x0a] @ chars ''u12 B'') [0x12, 0x34] 2 = Some (concat rows @ part) \<and>
     list_all (\<lambda>r. length r = 74 \<and> last r = 0x0a) rows \<and> length part < 72"
proof (rule scsi_table_rows)
  show "format_ends (chars ''u4 A'' @ [0x0a] @ chars ''u12 B'')" by code_simp
  show "layout False 0 (format_lines (chars ''u4 A'' @ [0x0a] @ chars ''u12 B''))" by code_simp
qed

end
