(* ===== verification/ScsiTool.thy ===== *)
theory ScsiTool
  imports ScsiText
begin

text \<open>
  The command line tool that sends a SCSI command and prints the answer: src/scsitool/scsitool.c. The
  formats are those of the source, a line in a string; a command block is 16 octets.
\<close>

section \<open>Printing\<close>

text \<open>What the tool puts out: messages, texts of the printer, and the message about the usage.\<close>

datatype tool_out = Info "int list" | Written "int list" | Usage

definition wchars :: "string \<Rightarrow> wstr" where "wchars s = map of_char s"

definition format_of :: "string list \<Rightarrow> int list" where
  "format_of ls = concat (map (\<lambda>l. chars l @ [0x0a]) ls)"

definition ScsiPrint :: "bool \<Rightarrow> int list \<Rightarrow> bytes \<Rightarrow> nat \<Rightarrow> tool_out list option" where
  "ScsiPrint ScsiPrintCanonical format buf len =
     map_option (\<lambda>s. [Written s])
       (if ScsiPrintCanonical then ScsiLineText format buf len else ScsiTableText format buf len)"

definition sense_format :: "int list" where
  "sense_format = format_of [
     ''u1  VALID'', ''u7  RESPONSE CODE (70h or 71h)'', ''u8  Obsolete'', ''u1  FILEMARK'', ''u1  EOM'',
     ''u1  ILI'', ''u1  Reserved'', ''u4  SENSE KEY'', ''u32 INFORMATION'',
     ''u8  ADDITIONAL SENSE LENGTH (n-7)'', ''u32 COMMAND-SPECIFIC INFORMATION'', ''u8  ADDITIONAL SENSE CODE'',
     ''u8  ADDITIONAL SENSE CODE QUALIFIER'', ''u8  FIELD REPLACEABLE UNIT CODE'', ''u1  SKSV'',
     ''u23 SENSE KEY SPECIFIC''] @ chars ''X14 Additional sense bytes''"

definition ScsiPrintSenseInfo :: "bool \<Rightarrow> u8 \<Rightarrow> bytes \<Rightarrow> tool_out list option" where
  "ScsiPrintSenseInfo ScsiPrintCanonical status sense =
     map_option (\<lambda>out. Info (chars ''ScsiStatus='' @ digits 10 (unat status)) # out)
       (ScsiPrint ScsiPrintCanonical sense_format sense 32)"

section \<open>Sending a command\<close>

text \<open>
  The address of the device as bus, target and unit; a part that is not there leaves the ones before
  it in the low octets.
\<close>

definition btl_part :: "int list \<Rightarrow> u32 \<times> int list" where
  "btl_part p = (case strtoint p 10 False of (v, p) \<Rightarrow> (ucast (ucast v :: u8), p))"

definition parse_btl :: "wstr \<Rightarrow> u32" where
  "parse_btl s =
     (case btl_part (map uint s) of (b, p) \<Rightarrow>
        if char0 p \<noteq> 0x3a then b
        else (case btl_part (tl p) of (t, p) \<Rightarrow>
          let Btl = push_bit 8 b OR t
          in if char0 p \<noteq> 0x3a then Btl
             else (case btl_part (tl p) of (l, p) \<Rightarrow> push_bit 8 Btl OR l)))"

text \<open>
  What the tool gets from the system: the lookup of hardware identifiers, opening, the pass-through request
  of a device, closing, memory with its contents, and what is on the stack where the sense data go.
\<close>

record 'w tool_io =
  ti_by_id :: "wstr \<Rightarrow> u32 + wstr"
  ti_CreateFileW :: "wstr \<Rightarrow> u32 + ptr"
  ti_scsi :: "ptr \<Rightarrow> SCSI_PASS_THROUGH \<Rightarrow> bytes \<Rightarrow> 'w \<Rightarrow> (u32 + SCSI_PASS_THROUGH \<times> bytes) \<times> 'w"
  ti_close :: "ptr \<Rightarrow> 'w \<Rightarrow> 'w"
  ti_alloc :: "u32 \<Rightarrow> bytes option"
  ti_stack :: bytes

text \<open>
  The result is the error, the output and the state; the usage message ends the program with the error
  for an invalid parameter.
\<close>

definition ScsiDataInAndPrint ::
    "'w tool_io \<Rightarrow> bool \<Rightarrow> wstr list \<Rightarrow> bytes \<Rightarrow> u32 \<Rightarrow> int list \<Rightarrow> 'w \<Rightarrow> (u32 \<times> tool_out list \<times> 'w) option" where
  "ScsiDataInAndPrint io canonical argv cdb DataLength Format w =
     (if length argv < 2 \<or> 3 < length argv then Some (ERROR_INVALID_PARAMETER, [Usage], w)
      else
        let Btl = (if length argv = 3 then parse_btl (argv ! 2) else 0)
        in case SpdIoctlOpenDevice (ti_by_id io) (ti_CreateFileW io) (argv ! 1) of
            Inl Error \<Rightarrow> Some (Error, [], w)
          | Inr DeviceHandle \<Rightarrow>
              (case ti_alloc io DataLength of
                 None \<Rightarrow> Some (ERROR_NOT_ENOUGH_MEMORY, [], ti_close io DeviceHandle w)
               | Some Data \<Rightarrow>
                   (case SpdIoctlScsiExecute (ti_scsi io DeviceHandle) Btl cdb 1 Data (Some DataLength) w of
                      (Inl Error, w) \<Rightarrow> Some (Error, [], ti_close io DeviceHandle w)
                    | (Inr (DataLength, status, sense, Data), w) \<Rightarrow>
                        map_option (\<lambda>out. (ERROR_SUCCESS, out, ti_close io DeviceHandle w))
                          (if status = SCSISTAT_GOOD then ScsiPrint canonical Format Data (unat DataLength)
                           else ScsiPrintSenseInfo canonical status
                                  (splice (ti_stack io) 0 (case sense of Some b \<Rightarrow> b | None \<Rightarrow> []))))))"

section \<open>The commands\<close>

text \<open>A command of the tool: from the arguments and the state to the error, the output and the state.\<close>

type_synonym 'w tool_command = "'w tool_io \<Rightarrow> bool \<Rightarrow> wstr list \<Rightarrow> 'w \<Rightarrow> (u32 \<times> tool_out list \<times> 'w) option"

definition devpath :: "'w tool_command" where
  "devpath io canonical argv w =
     (if length argv \<noteq> 2 then Some (ERROR_INVALID_PARAMETER, [Usage], w)
      else case SpdIoctlGetDevicePath (ti_by_id io) (argv ! 1) 2048 of
          Inl Error \<Rightarrow> Some (Error, [], w)
        | Inr PathBuf \<Rightarrow> Some (ERROR_SUCCESS, [Info (map uint PathBuf)], w))"

text \<open>The command blocks; 255 is the largest length of an answer to INQUIRY and MODE SENSE.\<close>

definition cdb16 :: "(nat \<times> u8) list \<Rightarrow> bytes" where
  "cdb16 fs = fold (\<lambda>(i, v) b. b[i := v]) fs (replicate 16 0)"

abbreviation VPD_MAX_BUFFER_SIZE :: u8 where "VPD_MAX_BUFFER_SIZE \<equiv> 0xff"

definition inquiry_cdb :: "u8 \<Rightarrow> u8 \<Rightarrow> bytes" where
  "inquiry_cdb vpd page = cdb16 [(0, SCSIOP_INQUIRY), (1, vpd), (2, page), (4, VPD_MAX_BUFFER_SIZE)]"

definition mode_sense_cdb :: "u8 \<Rightarrow> bytes" where
  "mode_sense_cdb page = cdb16 [(0, SCSIOP_MODE_SENSE), (2, page), (4, 255)]"

definition report_luns_cdb :: bytes where
  "report_luns_cdb = cdb16 [(0, SCSIOP_REPORT_LUNS), (8, 4), (9, 0)]"

definition capacity_cdb :: bytes where "capacity_cdb = cdb16 [(0, SCSIOP_READ_CAPACITY)]"

definition capacity16_cdb :: bytes where
  "capacity16_cdb = cdb16 [(0, SCSIOP_SERVICE_ACTION_IN16), (1, SERVICE_ACTION_READ_CAPACITY16), (13, 255)]"

definition report_luns_format :: "int list" where
  "report_luns_format = format_of [
     ''u32 LUN LIST LENGTH (n-7)'', ''u32 Reserved'', ''*u64 LUN'']"

definition report_luns :: "'w tool_command" where
  "report_luns io canonical argv = ScsiDataInAndPrint io canonical argv report_luns_cdb 1024 report_luns_format"

definition inquiry_format :: "int list" where
  "inquiry_format = format_of [
     ''u3  PERIPHERAL QUALIFIER'', ''u5  PERIPHERAL DEVICE TYPE'', ''u1  RMB'', ''u7  Reserved'',
     ''u8  VERSION'', ''u1  Obsolete'', ''u1  Obsolete'', ''u1  NORMACA'', ''u1  HISUP'',
     ''u4  RESPONSE DATA FORMAT'', ''u8  ADDITIONAL LENGTH (n-4)'', ''u1  SCCS'', ''u1  ACC'', ''u2  TPGS'',
     ''u1  3PC'', ''u2  Reserved'', ''u1  PROTECT'', ''u1  BQUE'', ''u1  ENCSERV'', ''u1  VS'', ''u1  MULTIP'',
     ''u1  MCHNGR'', ''u1  Obsolete'', ''u1  Obsolete'', ''u1  ADDR16'', ''u1  Obsolete'', ''u1  Obsolete'',
     ''u1  WBUS16'', ''u1  SYNC'', ''u1  LINKED'', ''u1  Obsolete'', ''u1  CMDQUE'', ''u1  VS'',
     ''A8  T10 VENDOR IDENTIFICATION'', ''A16 PRODUCT IDENTIFICATION'', ''A4  PRODUCT REVISION LEVEL'',
     ''X20 Vendor specific'', ''u4  Reserved'', ''u2  CLOCKING'', ''u1  QAS'', ''u1  IUS'', ''u8  Reserved'',
     ''u16 VERSION DESCRIPTOR 1'', ''u16 VERSION DESCRIPTOR 2'', ''u16 VERSION DESCRIPTOR 3'',
     ''u16 VERSION DESCRIPTOR 4'', ''u16 VERSION DESCRIPTOR 5'', ''u16 VERSION DESCRIPTOR 6'',
     ''u16 VERSION DESCRIPTOR 7'', ''u16 VERSION DESCRIPTOR 8'', ''X22 Reserved'', ''X160 Vendor specific'']"

definition inquiry :: "'w tool_command" where
  "inquiry io canonical argv = ScsiDataInAndPrint io canonical argv (inquiry_cdb 0 0) 255 inquiry_format"

definition inquiry_vpd0_format :: "int list" where
  "inquiry_vpd0_format = format_of [
     ''u3  PERIPHERAL QUALIFIER'', ''u5  PERIPHERAL DEVICE TYPE'', ''u8  PAGE CODE (00h)'', ''u8  Reserved'',
     ''u8  PAGE LENGTH (n-3)'', ''X255 Supported VPD page list'']"

definition inquiry_vpd0 :: "'w tool_command" where
  "inquiry_vpd0 io canonical argv = ScsiDataInAndPrint io canonical argv (inquiry_cdb 1 0) 255 inquiry_vpd0_format"

definition inquiry_vpd80_format :: "int list" where
  "inquiry_vpd80_format = format_of [
     ''u3  PERIPHERAL QUALIFIER'', ''u5  PERIPHERAL DEVICE TYPE'', ''u8  PAGE CODE (80h)'', ''u8  Reserved'',
     ''u8  PAGE LENGTH (n-3)'', ''A255 PRODUCT SERIAL NUMBER'']"

definition inquiry_vpd80 :: "'w tool_command" where
  "inquiry_vpd80 io canonical argv = ScsiDataInAndPrint io canonical argv (inquiry_cdb 1 0x80) 255 inquiry_vpd80_format"

definition inquiry_vpd83_format :: "int list" where
  "inquiry_vpd83_format = format_of [
     ''u3  PERIPHERAL QUALIFIER'', ''u5  PERIPHERAL DEVICE TYPE'', ''u8  PAGE CODE (83h)'',
     ''u16 PAGE LENGTH (n-3)'', ''*u4  PROTOCOL IDENTIFIER'', ''u4  CODE SET'', ''u1  PIV'', ''u1  Reserved'',
     ''u2  ASSOCIATION'', ''u4  IDENTIFIER TYPE'', ''u8  Reserved'', ''u8  IDENTIFIER LENGTH (m-3)'',
     ''Am  IDENTIFIER'']"

definition inquiry_vpd83 :: "'w tool_command" where
  "inquiry_vpd83 io canonical argv = ScsiDataInAndPrint io canonical argv (inquiry_cdb 1 0x83) 255 inquiry_vpd83_format"

definition inquiry_vpdb0_format :: "int list" where
  "inquiry_vpdb0_format = format_of [
     ''u3  PERIPHERAL QUALIFIER'', ''u5  PERIPHERAL DEVICE TYPE'', ''u8  PAGE CODE (B0h)'',
     ''u16 PAGE LENGTH (003Ch)'', ''u8  Reserved'', ''u8  MAXIMUM COMPARE AND WRITE LENGTH'',
     ''u16 OPTIMAL TRANSFER LENGTH GRANULARITY'', ''u32 MAXIMUM TRANSFER LENGTH'',
     ''u32 OPTIMAL TRANSFER LENGTH'', ''u32 MAXIMUM PREFETCH XDREAD XDWRITE TRANSFER LENGTH'',
     ''u32 MAXIMUM UNMAP LBA COUNT'', ''u32 MAXIMUM UNMAP BLOCK DESCRIPTOR COUNT'',
     ''u32 OPTIMAL UNMAP GRANULARITY'', ''u1  UGAVALID'', ''u31 UNMAP GRANULARITY ALIGNMENT'',
     ''X28 Reserved'']"

definition inquiry_vpdb0 :: "'w tool_command" where
  "inquiry_vpdb0 io canonical argv = ScsiDataInAndPrint io canonical argv (inquiry_cdb 1 0xb0) 255 inquiry_vpdb0_format"

definition inquiry_vpdb2_format :: "int list" where
  "inquiry_vpdb2_format = format_of [
     ''u3  PERIPHERAL QUALIFIER'', ''u5  PERIPHERAL DEVICE TYPE'', ''u8  PAGE CODE (B2h)'',
     ''u16 PAGE LENGTH (n-3)'', ''u8  THRESHOLD EXPONENT'', ''u1  LBPU'', ''u1  LBPWS'', ''u4  Reserved'',
     ''u1  ANC_SUP'', ''u1  DP'', ''u5  Reserved'', ''u3  PROVISIONING TYPE'', ''u8  Reserved'',
     ''X255 PROVISIONING GROUP DESCRIPTOR'']"

definition inquiry_vpdb2 :: "'w tool_command" where
  "inquiry_vpdb2 io canonical argv = ScsiDataInAndPrint io canonical argv (inquiry_cdb 1 0xb2) 255 inquiry_vpdb2_format"

definition mode_sense_format :: "int list" where
  "mode_sense_format = format_of [
     ''u8  MODE DATA LENGTH (n-0)'', ''u8  MEDIUM TYPE'', ''u1  WP'', ''u2  Reserved'', ''u1  DPOFUA'',
     ''u4  Reserved'', ''u8  BLOCK DESCRIPTOR LENGTH (m-0)'', ''Xm  BLOCK DESCRIPTORS'', ''X255 MODE PAGES'']"

definition mode_sense :: "'w tool_command" where
  "mode_sense io canonical argv = ScsiDataInAndPrint io canonical argv (mode_sense_cdb MODE_SENSE_RETURN_ALL) 255 mode_sense_format"

definition mode_caching_format :: "int list" where
  "mode_caching_format = format_of [
     ''u8  MODE DATA LENGTH (n-0)'', ''u8  MEDIUM TYPE'', ''u1  WP'', ''u2  Reserved'', ''u1  DPOFUA'',
     ''u4  Reserved'', ''u8  BLOCK DESCRIPTOR LENGTH (m-0)'', ''Xm  BLOCK DESCRIPTORS'', ''u1  PS'',
     ''u1  SPF'', ''u6  PAGE CODE (08h)'', ''u8  PAGE LENGTH (12h)'', ''u1  IC'', ''u1  ABPF'', ''u1  CAP'',
     ''u1  DISC'', ''u1  SIZE'', ''u1  WCE'', ''u1  MF'', ''u1  RCD'', ''u4  DEMAND READ RETENTION PRIORITY'',
     ''u4  WRITE RETENTION PRIORITY'', ''u8  DISABLE PRE-FETCH TRANSFER LENGTH'', ''u8  MINIMUM PRE-FETCH'',
     ''u8  MAXIMUM PRE-FETCH'', ''u8  MAXIMUM PRE-FETCH CEILING'', ''u1  FSW'', ''u1  LBCSS'', ''u1  DRA'',
     ''u2  vendor specific'', ''u2  Reserved'', ''u1  NV_DIS'', ''u8  NUMBER OF CACHE SEGMENTS'',
     ''u16 CACHE SEGMENT SIZE'', ''u8  Reserved'', ''u24 Obsolete'']"

definition mode_caching :: "'w tool_command" where
  "mode_caching io canonical argv = ScsiDataInAndPrint io canonical argv (mode_sense_cdb MODE_PAGE_CACHING) 255 mode_caching_format"

definition capacity_format :: "int list" where
  "capacity_format = format_of [
     ''u32 RETURNED LOGICAL BLOCK ADDRESS'', ''u32 LOGICAL BLOCK LENGTH IN BYTES'']"

definition capacity :: "'w tool_command" where
  "capacity io canonical argv = ScsiDataInAndPrint io canonical argv capacity_cdb 255 capacity_format"

definition capacity16_format :: "int list" where
  "capacity16_format = format_of [
     ''u64 RETURNED LOGICAL BLOCK ADDRESS'', ''u32 LOGICAL BLOCK LENGTH IN BYTES'', ''u4  Reserved'',
     ''u3  P_TYPE'', ''u1  PROT_EN'', ''u4  P_I_EXPONENT'', ''u4  LOGICAL BLOCKS PER PHYSICAL BLOCK EXPONENT'',
     ''u1  TPE'', ''u1  TPRZ'', ''u14 LOWEST ALIGNED LOGICAL BLOCK ADDRESS'', ''X16 Reserved'']"

definition capacity16 :: "'w tool_command" where
  "capacity16 io canonical argv = ScsiDataInAndPrint io canonical argv capacity16_cdb 255 capacity16_format"

section \<open>The program\<close>

text \<open>The command with a name; the first name that compares equal.\<close>

definition tool_commands :: "(wstr \<times> 'w tool_command) list" where
  "tool_commands = [
     (wchars ''devpath'', devpath), (wchars ''luns'', report_luns), (wchars ''inquiry'', inquiry),
     (wchars ''vpd0'', inquiry_vpd0), (wchars ''vpd80'', inquiry_vpd80), (wchars ''vpd83'', inquiry_vpd83),
     (wchars ''vpdb0'', inquiry_vpdb0), (wchars ''vpdb2'', inquiry_vpdb2), (wchars ''mode-sense'', mode_sense),
     (wchars ''mode-caching'', mode_caching), (wchars ''capacity'', capacity), (wchars ''capacity16'', capacity16)]"

definition tool_wmain :: "'w tool_io \<Rightarrow> wstr list \<Rightarrow> 'w \<Rightarrow> (u32 \<times> tool_out list \<times> 'w) option" where
  "tool_wmain io argv w =
     (let argv = tl argv;
          canonical = (argv \<noteq> [] \<and> invariant_wcscmp (wchars ''-c'') (argv ! 0) = 0);
          argv = (if canonical then tl argv else argv)
      in if argv = [] then Some (ERROR_INVALID_PARAMETER, [Usage], w)
         else case List.find (\<lambda>(name, _). invariant_wcscmp name (argv ! 0) = 0) tool_commands of
             Some (_, command) \<Rightarrow> command io canonical argv w
           | None \<Rightarrow> Some (ERROR_INVALID_PARAMETER, [Usage], w))"

end
