(* ===== verification/ScsiFormats.thy ===== *)
theory ScsiFormats
  imports ScsiTable_Props ScsiTool
begin

text \<open>
  The formats of the tool, line by line: a line of a text is parsed alike whatever follows its newline, so
  the lines of a format are those of its texts, and what a format must satisfy is checked line by line.
\<close>

section \<open>A line and what follows\<close>

lemma int_digits_append:
  "int_digits 10 0x39 0 v (s @ 0x0a # r) = (case int_digits 10 0x39 0 v s of (v, q) \<Rightarrow> (v, q @ 0x0a # r))"
proof (induction s arbitrary: v)
  case Nil
  have "(10 :: int) OR 32 = 42" by simp
  then show ?case by simp
next
  case (Cons c s)
  then show ?case by (simp add: Let_def)
qed

lemma strtoint_append:
  "strtoint (s @ 0x0a # r) 10 False = (case strtoint s 10 False of (v, q) \<Rightarrow> (v, q @ 0x0a # r))"
  using int_digits_append [of 0 s r] by (simp add: strtoint_def int_sign_def int_base_def split: prod.splits)

lemma char0_append: "s \<noteq> [] \<Longrightarrow> char0 (s @ r) = char0 s"
  by (cases s) (simp_all add: char0_def)

lemma char0_append_newline: "char0 (s @ 0x0a # r) = (if s = [] then 0x0a else char0 s)"
  by (cases s) (simp_all add: char0_def)

lemma char0_Nil [simp]: "char0 [] = 0"
  by (simp add: char0_def)

lemma char0_Cons [simp]: "char0 (c # p) = c"
  by (simp add: char0_def)

lemma line_width_append: "line_width (s @ 0x0a # r) = (case line_width s of (w, q) \<Rightarrow> (w, q @ 0x0a # r))"
  by (auto simp: line_width_def char0_append_newline strtoint_append split: prod.split)

lemma minus_value_append:
  assumes "c \<noteq> 0x0a"
  shows "minus_value c (s @ 0x0a # r) = minus_value c s"
proof (cases "length s < 3")
  case True
  then consider "s = []" | a where "s = [a]" | a b where "s = [a, b]"
    by (cases s; cases "tl s"; cases "tl (tl s)") auto
  then show ?thesis using assms by cases (simp_all add: minus_value_def)
next
  case False
  then show ?thesis
    by (auto simp: minus_value_def strtoint_append char0_append_newline split: prod.split)
qed

lemma scan_name_append:
  "0x0a \<notin> set s \<Longrightarrow> scan_name (s @ 0x0a # r) n m = (case scan_name s n m of (name, n, m, q) \<Rightarrow> (name, n, m, q @ 0x0a # r))"
proof (induction s arbitrary: n m)
  case (Cons c s)
  have v: "minus_value 0x6e (c # s @ 0x0a # r) = minus_value 0x6e (c # s)" "minus_value 0x6d (c # s @ 0x0a # r) = minus_value 0x6d (c # s)"
    using minus_value_append [of _ "c # s"] by simp_all
  show ?case using Cons by (simp add: v split: prod.split option.split)
qed simp

lemma dropWhile_spaces_append: "dropWhile (\<lambda>c. c = 0x20) (s @ 0x0a # r) = dropWhile (\<lambda>c. c = 0x20) s @ 0x0a # r" for s :: "int list"
  by (induction s) simp_all

lemma parse_line_append:
  assumes "parse_line s = Some (l, [])" and nl: "0x0a \<notin> set s"
  shows "parse_line (s @ 0x0a # r) = Some (l, r)"
proof -
  define p1 where "p1 = (if char0 s = 0x2a then tl s else s)"
  obtain w p2 where w: "line_width (tl p1) = (w, p2)" by fastforce
  define p2' where "p2' = dropWhile (\<lambda>c. c = 0x20) p2"
  obtain name n m p3 where name: "scan_name p2' (- 1) (- 1) = (name, n, m, p3)" by (metis prod.exhaust)
  have p: "parse_line s = (if char0 p1 = 0 then None
      else Some (\<lparr>ln_star = (char0 s = 0x2a), ln_type = char0 p1, ln_width = w, ln_name = name, ln_n = n, ln_m = m\<rparr>,
        if char0 p3 = 0x0a then tl p3 else p3))"
    by (simp add: parse_line_def Let_def w name p1_def [symmetric] p2'_def [symmetric])
  then have "char0 p1 \<noteq> 0" using assms(1) by (simp split: if_splits)
  then have "p1 \<noteq> []" by auto
  then have "s \<noteq> []" by (auto simp: p1_def split: if_splits)
  have "suffix p2 (tl p1)" using line_width_suffix [of "tl p1"] by (simp add: w)
  moreover have "suffix (tl p1) p1" "suffix p1 s" by (simp_all add: p1_def)
  ultimately have s2: "suffix p2 s" by (meson suffix_trans)
  have "suffix p2' s" using s2 suffix_dropWhile [of "\<lambda>c. c = 0x20" p2] unfolding p2'_def by (rule suffix_trans [rotated])
  moreover from this have "suffix p3 s" using scan_name_suffix [of p2' "- 1" "- 1"] by (auto simp: name intro: suffix_trans)
  ultimately have n: "0x0a \<notin> set p2'" "0x0a \<notin> set p3" using nl by (auto dest: set_mono_suffix)
  then have "char0 p3 \<noteq> 0x0a" by (cases p3) (simp_all add: char0_def)
  with p assms(1) \<open>char0 p1 \<noteq> 0\<close> have l: "p3 = []"
    "l = \<lparr>ln_star = (char0 s = 0x2a), ln_type = char0 p1, ln_width = w, ln_name = name, ln_n = n, ln_m = m\<rparr>"
    by auto
  have "(if char0 (s @ 0x0a # r) = 0x2a then tl (s @ 0x0a # r) else s @ 0x0a # r) = p1 @ 0x0a # r"
    using \<open>s \<noteq> []\<close> by (simp add: p1_def char0_append)
  then show ?thesis
    using \<open>p1 \<noteq> []\<close> \<open>s \<noteq> []\<close> \<open>char0 p1 \<noteq> 0\<close> n
    by (simp add: parse_line_def Let_def char0_append line_width_append w dropWhile_spaces_append p2'_def [symmetric]
        scan_name_append name l char0_append_newline)
qed

section \<open>The lines of a format\<close>

text \<open>A text that is one line of a format, and the line.\<close>

definition line_good :: "string \<Rightarrow> bool" where
  "line_good l \<longleftrightarrow> 0x0a \<notin> set (chars l) \<and> (case parse_line (chars l) of Some (_, q) \<Rightarrow> q = [] | None \<Rightarrow> False)"

definition line_of :: "string \<Rightarrow> text_line" where "line_of l = fst (the (parse_line (chars l)))"

lemma parse_format_of: "line_good l \<Longrightarrow> parse_line (chars l @ 0x0a # r) = Some (line_of l, r)"
  using parse_line_append [of "chars l"] by (auto simp: line_good_def line_of_def split: option.splits prod.splits)

lemma format_of_simps [simp]: "format_of [] = []" "format_of (l # ls) = chars l @ 0x0a # format_of ls"
  by (simp_all add: format_of_def)

lemma format_lines_of: "list_all line_good ls \<Longrightarrow> format_lines (format_of ls @ t) = map line_of ls @ format_lines t"
proof (induction ls)
  case (Cons l ls)
  then show ?case by (subst format_lines.simps) (simp add: parse_format_of)
qed simp

lemma parse_line_star: "parse_line p = Some (l, q) \<Longrightarrow> ln_star l \<longleftrightarrow> char0 p = 0x2a"
  by (auto simp: parse_line_def Let_def split: if_splits prod.splits)

lemma format_ends_of:
  "list_all line_good ls \<Longrightarrow> list_all (\<lambda>l. ln_star l \<longrightarrow> takes_data l) (map line_of ls) \<Longrightarrow> format_ends t \<Longrightarrow>
   format_ends (format_of ls @ t)"
proof (induction ls)
  case (Cons l ls)
  then have p: "parse_line (format_of (l # ls) @ t) = Some (line_of l, format_of ls @ t)" by (simp add: parse_format_of)
  from Cons show ?case by (subst format_ends.simps) (simp add: p parse_line_star [OF p, symmetric] del: format_of_simps)
qed simp

text \<open>A format that ends and whose cells fill rows, so that both ways of printing it succeed.\<close>

definition format_good :: "int list \<Rightarrow> bool" where
  "format_good p \<longleftrightarrow> format_ends p \<and> layout False 0 (format_lines p)"

text \<open>The same of its lines.\<close>

definition lines_good :: "string list \<Rightarrow> bool" where
  "lines_good ls \<longleftrightarrow> list_all line_good ls \<and> list_all (\<lambda>l. ln_star l \<longrightarrow> takes_data l) (map line_of ls) \<and>
     layout False 0 (map line_of ls)"

lemma empty_format: "format_lines [] = []" "format_ends []"
  by (simp_all add: format_lines.simps [of "[]"] format_ends.simps [of "[]"] parse_line_def)

lemma format_lines_all: "list_all line_good ls \<Longrightarrow> format_lines (format_of ls) = map line_of ls"
  using format_lines_of [of ls "[]"] by (simp add: empty_format)

lemma format_good_of: "lines_good ls \<Longrightarrow> format_good (format_of ls)"
  using format_lines_of [of ls "[]"] format_ends_of [of ls "[]"]
  by (simp add: lines_good_def format_good_def empty_format)

text \<open>The last line may have no newline.\<close>

lemma format_good_last:
  assumes "lines_good (ls @ [l])"
  shows "format_good (format_of ls @ chars l)"
proof -
  have ok: "list_all line_good ls" "line_good l" "list_all (\<lambda>l. ln_star l \<longrightarrow> takes_data l) (map line_of ls)"
    "ln_star (line_of l) \<longrightarrow> takes_data (line_of l)" "layout False 0 (map line_of ls @ [line_of l])"
    using assms by (simp_all add: lines_good_def)
  then have p: "parse_line (chars l) = Some (line_of l, [])"
    by (auto simp: line_good_def line_of_def split: option.splits prod.splits)
  then have "format_lines (chars l) = [line_of l]"
    by (subst format_lines.simps) (simp add: empty_format)
  moreover have "format_ends (chars l)"
    using ok(4) by (subst format_ends.simps) (simp add: p parse_line_star [OF p, symmetric] empty_format)
  ultimately show ?thesis
    using ok by (simp add: format_good_def format_lines_of format_ends_of)
qed

section \<open>The formats of the tool\<close>

lemma good_sense_format: "format_good sense_format"
  unfolding sense_format_def by (rule format_good_last) code_simp

lemma good_report_luns_format: "format_good report_luns_format"
  unfolding report_luns_format_def by (rule format_good_of) code_simp

lemma good_inquiry_format: "format_good inquiry_format"
  unfolding inquiry_format_def by (rule format_good_of) code_simp

lemma good_inquiry_vpd0_format: "format_good inquiry_vpd0_format"
  unfolding inquiry_vpd0_format_def by (rule format_good_of) code_simp

lemma good_inquiry_vpd80_format: "format_good inquiry_vpd80_format"
  unfolding inquiry_vpd80_format_def by (rule format_good_of) code_simp

lemma good_inquiry_vpd83_format: "format_good inquiry_vpd83_format"
  unfolding inquiry_vpd83_format_def by (rule format_good_of) code_simp

lemma good_inquiry_vpdb0_format: "format_good inquiry_vpdb0_format"
  unfolding inquiry_vpdb0_format_def by (rule format_good_of) code_simp

lemma good_inquiry_vpdb2_format: "format_good inquiry_vpdb2_format"
  unfolding inquiry_vpdb2_format_def by (rule format_good_of) code_simp

lemma good_mode_sense_format: "format_good mode_sense_format"
  unfolding mode_sense_format_def by (rule format_good_of) code_simp

lemma good_mode_caching_format: "format_good mode_caching_format"
  unfolding mode_caching_format_def by (rule format_good_of) code_simp

lemma good_capacity_format: "format_good capacity_format"
  unfolding capacity_format_def by (rule format_good_of) code_simp

lemma good_capacity16_format: "format_good capacity16_format"
  unfolding capacity16_format_def by (rule format_good_of) code_simp

end
