(* ===== verification/ScsiTool_Props.thy ===== *)
theory ScsiTool_Props
  imports ScsiFormats Scsi_Props
begin

text \<open>
  The properties of the SCSI tool: it comes to its end whatever the device answers, and what it shows for
  the answers of the driver is what the unit has.
\<close>

section \<open>The tool comes to its end\<close>

lemma layout_names: "layout star c ls \<Longrightarrow> list_all (\<lambda>l. length (ln_name l) \<le> 1024) ls"
  by (induction star c ls rule: layout.induct) (auto simp: name_ok_def)

lemma print_runs: "format_good format \<Longrightarrow> \<exists>out. ScsiPrint canonical format buf len = Some out"
  using lines_written [of format buf len] table_rows [of format buf len] layout_names
  by (auto simp: ScsiPrint_def format_good_def)

lemma command_runs: "format_good format \<Longrightarrow> ScsiDataInAndPrint io canonical argv c len format w \<noteq> None"
  using print_runs [of format canonical] print_runs [OF good_sense_format, of canonical]
  by (auto simp: ScsiDataInAndPrint_def ScsiPrintSenseInfo_def Let_def split: sum.split option.split prod.split)

lemmas formats_good =
  good_report_luns_format good_inquiry_format good_inquiry_vpd0_format good_inquiry_vpd80_format good_inquiry_vpd83_format
  good_inquiry_vpdb0_format good_inquiry_vpdb2_format good_mode_sense_format good_mode_caching_format good_capacity_format
  good_capacity16_format

lemmas command_defs =
  report_luns_def inquiry_def inquiry_vpd0_def inquiry_vpd80_def inquiry_vpd83_def inquiry_vpdb0_def inquiry_vpdb2_def
  mode_sense_def mode_caching_def capacity_def capacity16_def

lemma devpath_runs: "devpath io canonical argv w \<noteq> None"
  by (auto simp: devpath_def split: sum.split)

lemma tool_command_runs: "(name, command) \<in> set tool_commands \<Longrightarrow> command io canonical argv w \<noteq> None"
  unfolding tool_commands_def list.set insert_iff empty_iff prod.inject
  by (elim disjE conjE FalseE; hypsubst) (simp_all only: command_defs devpath_runs formats_good [THEN command_runs] not_False_eq_True)

lemma find_in_set: "List.find P xs = Some x \<Longrightarrow> x \<in> set xs"
  by (auto simp: find_Some_iff)


section \<open>What is shown\<close>

text \<open>Lines without a number in brackets.\<close>

definition number_line :: "u32 \<Rightarrow> string \<Rightarrow> text_line" where
  "number_line w name = \<lparr>ln_star = False, ln_type = 0x75, ln_width = Some w, ln_name = chars name, ln_n = - 1, ln_m = - 1\<rparr>"
definition octets_line :: "string \<Rightarrow> u32 \<Rightarrow> string \<Rightarrow> text_line" where
  "octets_line t w name = \<lparr>ln_star = False, ln_type = hd (chars t), ln_width = Some w, ln_name = chars name, ln_n = - 1, ln_m = - 1\<rparr>"

lemma bits_value_word: "bits_value (map (\<lambda>i. bit v (n - 1 - i)) [0..<n]) = ucast (take_bit n v)" for v :: "'a::len word"
  by (rule bit_word_eqI) (auto simp: bit_bits_value bit_simps dest: bit_imp_le_length)

lemma data_bits_be32: "data_bits (be32 v) = map (\<lambda>i. bit v (32 - 1 - i)) [0..<32]"
  by (simp add: be32_def octet_bits_def bit_simps upt_rec)
lemma data_bits_be64: "data_bits (be64 v) = map (\<lambda>i. bit v (64 - 1 - i)) [0..<64]"
  by (simp add: be64_def octet_bits_def bit_simps upt_rec)

lemma data_bits_be [simp]: "bits_value (data_bits (be32 v)) = ucast v" "bits_value (data_bits (be64 w)) = w"
  unfolding data_bits_be32 data_bits_be64 bits_value_word by (simp_all add: take_bit_word_eq_self)

lemma take_data_first: "n = 8 * length xs \<Longrightarrow> take n (data_bits (xs @ ys)) = data_bits xs" "n = 8 * length xs \<Longrightarrow> drop n (data_bits (xs @ ys)) = data_bits ys"
  by (simp_all add: data_bits_append)

lemma number_line_fields:
  "bs \<noteq> [] \<Longrightarrow> fields_of m len (number_line w name # ls) bs =
     number_at (number_line w name) w len (bits_value (take (unat w) bs)) # fields_of m len ls (drop (unat w) bs)"
  by (simp add: number_line_def octets_type_def number_type_def Let_def)

lemma octets_line_fields:
  "bs \<noteq> [] \<Longrightarrow> octets_type (hd (chars t)) \<Longrightarrow> w \<noteq> 0 \<Longrightarrow> length bs mod 8 = 0 \<Longrightarrow> fields_of m len (octets_line t w name # ls) bs =
     octets_at (octets_line t w name) w (octets_of (take (8 * unat w) bs)) # fields_of m len ls (drop (8 * unat w) bs)"
  by (simp add: octets_line_def Let_def)

declare fields_of.simps(2) [simp del]

lemma at_simps [simp]: "fd_uval (number_at l w len v) = v" "fd_uval (octets_at l w os) = 0" "fd_octets (octets_at l w os) = os"
  "fd_warn (octets_at l w os) = None"
  by (simp_all add: number_at_def octets_at_def)

lemma number_line_warn: "fd_warn (number_at (number_line w name) w' len v) = None \<longleftrightarrow> \<not> reserved_warning (number_line w name) v"
  by (simp add: number_at_def number_line_def)

lemma reserved_zero [simp]: "\<not> reserved_warning l 0"
  by (simp add: reserved_warning_def)

lemma take_front: "length xs = n \<Longrightarrow> take n (xs @ ys) = xs" "length xs = n \<Longrightarrow> drop n (xs @ ys) = ys"
  by simp_all

lemma octet_bits_bits: "octet_bits 0 = replicate 8 False" "octet_bits (if U then 0x80 else 0) = U # replicate 7 False"
  by (auto simp: octet_bits_def upt_rec bit_simps numeral_eq_Suc)

lemma data_bits_zeros: "data_bits (replicate n 0) = replicate (8 * n) False"
  by (induction n) (simp_all add: octet_bits_bits replicate_add)

lemma bits_value_small: "bits_value (replicate n False) = 0" "bits_value [b] = of_bool b" 
  by (induction n) (simp_all add: bits_value_def horner_sum_append)

lemma bits_value_4: "bits_value [bit v 3, bit v 2, bit v 1, bit v 0] = ucast (take_bit 4 v)" for v :: u8
  using bits_value_word [of v 4] by (simp add: upt_rec)

lemma bits_value_7: "bits_value [True, True, True, False, False, False, False] = 0x70"
  by (simp add: bits_value_def)

lemma capacity16_lines: "format_lines capacity16_format = [
  number_line 64 ''RETURNED LOGICAL BLOCK ADDRESS'', number_line 32 ''LOGICAL BLOCK LENGTH IN BYTES'',
  number_line 4 ''Reserved'', number_line 3 ''P_TYPE'', number_line 1 ''PROT_EN'', number_line 4 ''P_I_EXPONENT'',
  number_line 4 ''LOGICAL BLOCKS PER PHYSICAL BLOCK EXPONENT'', number_line 1 ''TPE'', number_line 1 ''TPRZ'',
  number_line 14 ''LOWEST ALIGNED LOGICAL BLOCK ADDRESS'', octets_line ''X'' 16 ''Reserved'']"
  unfolding capacity16_format_def by (subst format_lines_all) code_simp+

lemma reserved_number_line [simp]: "reserved_warning (number_line w name) v \<longleftrightarrow> reserved_name (chars name) \<and> v \<noteq> 0"
  by (simp add: reserved_warning_def number_line_def)

lemma names_not_reserved:
  "\<not> reserved_name (chars ''RETURNED LOGICAL BLOCK ADDRESS'')" "\<not> reserved_name (chars ''LOGICAL BLOCK LENGTH IN BYTES'')"
  "\<not> reserved_name (chars ''TPE'')"
  by code_simp+

lemma type_X [simp]: "octets_type (hd (chars ''X''))"
  by code_simp

lemma data_bits_Nil [simp]: "data_bits xs = [] \<longleftrightarrow> xs = []"
  by (cases xs) (simp_all add: octet_bits_def)

lemma be_not_Nil [simp]: "be32 v \<noteq> []" "be64 w \<noteq> []"
  by (simp_all add: be32_def be64_def)

lemma capacity16_fields:
  fixes N :: u64 and L :: u32 and U :: bool
  defines "fs \<equiv> fields_of 1 32 (format_lines capacity16_format)
      (data_bits (be64 N @ be32 L @ [0, 0, (if U then 0x80 else 0), 0] @ replicate 16 0))"
  shows "map fd_uval fs = [N, ucast L, 0, 0, 0, 0, 0, of_bool U, 0, 0, 0]" "list_all (\<lambda>f. fd_warn f = None) fs"
proof -
  have d: "data_bits (be64 N @ be32 L @ [0, 0, (if U then 0x80 else 0), 0] @ replicate 16 0) =
      data_bits (be64 N) @ data_bits (be32 L) @ replicate 16 False @ U # replicate 15 False @ replicate 128 False"
    by (simp add: data_bits_append octet_bits_bits data_bits_zeros numeral_eq_Suc)
  note fields = number_line_fields take_front codec_simps octets_line_fields bits_value_small
  show "map fd_uval fs = [N, ucast L, 0, 0, 0, 0, 0, of_bool U, 0, 0, 0]"
    unfolding fs_def capacity16_lines d by (simp add: fields)
  show "list_all (\<lambda>f. fd_warn f = None) fs"
    unfolding fs_def capacity16_lines d by (simp add: fields number_line_warn names_not_reserved)
qed

lemma read_capacity16_octets:
  assumes "32 \<le> n" and "n \<le> length b"
  shows "take 32 (read_capacity16 True u (zero_memory n b)) =
    be64 (BlockCount (StorageUnitParams u) - 1) @ be32 (BlockLength (StorageUnitParams u)) @
    [0, 0, (if UnmapSupported (StorageUnitParams u) then 0x80 else 0), 0] @ replicate 16 0"
proof -
  have z: "zero_memory n b = replicate 32 0 @ replicate (n - 32) 0 @ drop n b"
    using assms by (simp add: zero_memory_def splice_def flip: replicate_add append_assoc)
  show ?thesis
    by (simp add: read_capacity16_def Let_def z put_def splice_def put_bits_def codec_simps numeral_eq_Suc nth_append list_update_append)
qed

text \<open>C19: The tool shows the size of the unit: the answer of the driver to the command block of the command
  \<open>capacity16\<close>, read with the tool's format, is the address of the last block, the block length and whether
  blocks can be unmapped, zeros elsewhere, and no warning.
\<close>

theorem tool_shows_capacity:
  assumes "SrbGetDataBuffer m srb \<noteq> 0" and "buffers_fit srb m" and "SrbGetDataTransferLength m srb = 255"
  shows "\<exists>m' fs. SpdScsiReadCapacity u srb capacity16_cdb m = (SRB_STATUS_SUCCESS, m') \<and>
    ScsiText capacity16_format (bufs m' (SrbGetDataBuffer m srb)) (unat (SrbGetDataTransferLength m' srb)) = Some fs \<and>
    map fd_uval fs = [BlockCount (StorageUnitParams u) - 1, ucast (BlockLength (StorageUnitParams u)), 0, 0, 0, 0, 0,
      of_bool (UnmapSupported (StorageUnitParams u)), 0, 0, 0] \<and>
    list_all (\<lambda>f. fd_warn f = None) fs"
proof -
  have le: "32 \<le> SrbGetDataTransferLength m srb" by (simp add: assms(3))
  define b where "b = bufs m (SrbGetDataBuffer m srb)"
  obtain m' where m': "reply srb 32 (read_capacity16 True u) (zero_data_buffer srb m) = (SRB_STATUS_SUCCESS, m')"
    "bufs m' (SrbGetDataBuffer m srb) = read_capacity16 True u (zero_memory 255 b)"
    "SrbGetDataTransferLength m' srb = 32"
    by (rule reply_zero [OF assms(1) le assms(2), of "read_capacity16 True u"]) (simp add: assms(3) b_def)
  have dz: "SrbGetDataTransferLength (zero_data_buffer srb m) srb = 255"
    by (simp add: zero_data_buffer_def srb_get_defs mem_upd_defs assms(3) [unfolded srb_get_defs])
  have cdb: "capacity16_cdb ! 0 \<noteq> SCSIOP_READ_CAPACITY" by code_simp
  have "255 \<le> length b" using assms by (simp add: buffers_fit_def b_def)
  then have octets: "take 32 (read_capacity16 True u (zero_memory 255 b)) =
      be64 (BlockCount (StorageUnitParams u) - 1) @ be32 (BlockLength (StorageUnitParams u)) @
      [0, 0, (if UnmapSupported (StorageUnitParams u) then 0x80 else 0), 0] @ replicate 16 0"
    by (intro read_capacity16_octets) simp_all
  have "length (read_capacity16 True u (zero_memory 255 b)) = length b"
    using \<open>255 \<le> length b\<close> by (simp add: read_capacity16_def Let_def buf_simps codec_simps)
  then have shown: "ScsiText capacity16_format (bufs m' (SrbGetDataBuffer m srb)) 32 =
      Some (fields_of 1 32 (format_lines capacity16_format) (data_bits (take 32 (bufs m' (SrbGetDataBuffer m srb)))))"
    using \<open>255 \<le> length b\<close> by (intro text_fields) (code_simp, simp add: m'(2))
  have "SpdScsiReadCapacity u srb capacity16_cdb m = (SRB_STATUS_SUCCESS, m')"
    using assms(1) m'(1) dz cdb by (simp add: SpdScsiReadCapacity_def Let_def)
  moreover have "unat (SrbGetDataTransferLength m' srb) = 32" by (simp add: m'(3))
  moreover obtain fs where fs: "ScsiText capacity16_format (bufs m' (SrbGetDataBuffer m srb)) 32 = Some fs"
    "map fd_uval fs = [BlockCount (StorageUnitParams u) - 1, ucast (BlockLength (StorageUnitParams u)), 0, 0, 0, 0, 0,
      of_bool (UnmapSupported (StorageUnitParams u)), 0, 0, 0]" "list_all (\<lambda>f. fd_warn f = None) fs"
    using shown capacity16_fields unfolding m'(2) octets by blast
  ultimately show ?thesis by (intro exI [of _ m'] exI [of _ fs]) simp
qed

definition capacity16_mem :: kmem where
  "capacity16_mem = inquiry_mem\<lparr>srbs := \<lambda>_. inquiry_srb\<lparr>Cdb := capacity16_cdb, DataTransferLength := 255\<rparr>,
     bufs := \<lambda>p. if p = 0x100 then replicate 255 0 else if p = 0x200 then replicate 18 0 else []\<rparr>"

theorem tool_shows_capacity_witness:
  "\<exists>m' fs. SpdScsiReadCapacity demo_unit 1 capacity16_cdb capacity16_mem = (SRB_STATUS_SUCCESS, m') \<and>
     ScsiText capacity16_format (bufs m' 0x100) (unat (SrbGetDataTransferLength m' 1)) = Some fs \<and>
     map fd_uval fs = [1023, 512, 0, 0, 0, 0, 0, 1, 0, 0, 0]"
proof -
  have f: "SrbGetDataBuffer capacity16_mem 1 = 0x100" "SrbGetDataTransferLength capacity16_mem 1 = 255"
    "buffers_fit 1 capacity16_mem"
    by (simp_all add: capacity16_mem_def inquiry_mem_def inquiry_srb_def srb_get_defs buffers_fit_def)
  have p: "BlockCount (StorageUnitParams demo_unit) = 1024" "BlockLength (StorageUnitParams demo_unit) = 512"
    "UnmapSupported (StorageUnitParams demo_unit)"
    by (simp_all add: demo_unit_def demo_params_def init_unit_def)
  show ?thesis using tool_shows_capacity [of capacity16_mem 1 demo_unit] f p by auto
qed

section \<open>Sense data\<close>

definition length_line :: "u32 \<Rightarrow> string \<Rightarrow> u32 \<Rightarrow> text_line" where
  "length_line w name n = \<lparr>ln_star = False, ln_type = 0x75, ln_width = Some w, ln_name = chars name, ln_n = n, ln_m = - 1\<rparr>"

lemma length_line_fields:
  "bs \<noteq> [] \<Longrightarrow> n \<noteq> - 1 \<Longrightarrow> v = bits_value (take (unat w) bs) \<Longrightarrow> newlen = unat (v + ucast n + 1) \<Longrightarrow>
   fields_of m len (length_line w name n # ls) bs =
     number_at (length_line w name n) w len v #
     fields_of m (min len newlen) ls (take (8 * newlen - (8 * len - length (drop (unat w) bs))) (drop (unat w) bs))"
  by (simp add: fields_of.simps(2) length_line_def octets_type_def number_type_def Let_def)

lemma sense_lines: "format_lines sense_format = [
  number_line 1 ''VALID'', number_line 7 ''RESPONSE CODE (70h or 71h)'', number_line 8 ''Obsolete'', number_line 1 ''FILEMARK'',
  number_line 1 ''EOM'', number_line 1 ''ILI'', number_line 1 ''Reserved'', number_line 4 ''SENSE KEY'', number_line 32 ''INFORMATION'',
  length_line 8 ''ADDITIONAL SENSE LENGTH (n-7)'' 7, number_line 32 ''COMMAND-SPECIFIC INFORMATION'',
  number_line 8 ''ADDITIONAL SENSE CODE'', number_line 8 ''ADDITIONAL SENSE CODE QUALIFIER'',
  number_line 8 ''FIELD REPLACEABLE UNIT CODE'', number_line 1 ''SKSV'', number_line 23 ''SENSE KEY SPECIFIC'',
  octets_line ''X'' 14 ''Additional sense bytes'']"
proof -
  have "format_lines (chars ''X14 Additional sense bytes'') = [octets_line ''X'' 14 ''Additional sense bytes'']" by code_simp
  then show ?thesis unfolding sense_format_def by (subst format_lines_of) (code_simp, simp only:, code_simp)
qed

lemma sense_octets:
  assumes "18 \<le> n" and "n \<le> length b"
  shows "take 18 (sense_data n Key Code Qualifier info b) =
    [if info = None then 0x70 else 0xf0, 0, Key AND 0x0f] @ be32 (case info of None \<Rightarrow> 0 | Some i \<Rightarrow> ucast i) @
    [10, 0, 0, 0, 0, Code, Qualifier, 0, 0, 0, 0]"
proof -
  have z: "zero_memory n b = replicate 18 0 @ replicate (n - 18) 0 @ drop n b"
    using assms by (simp add: zero_memory_def splice_def flip: replicate_add append_assoc)
  show ?thesis
    by (cases info) (simp_all add: sense_data_def Let_def z put_def splice_def put_bits_def codec_simps numeral_eq_Suc nth_append
      list_update_append be32_def)
qed

lemma fields_of_Nil [simp]: "fields_of m len ls [] = []"
  by (cases ls) (simp_all add: fields_of.simps(2))

lemma octet_bits_lists:
  "octet_bits (if c then 0x70 else 0xf0) = (\<not> c) # [True, True, True, False, False, False, False]"
  "octet_bits (Key AND 0x0f) = [False, False, False, False, bit Key 3, bit Key 2, bit Key 1, bit Key 0]"
  "octet_bits 10 = [False, False, False, False, True, False, True, False]"
  by (auto simp: octet_bits_def upt_rec bit_simps)

lemma bits_value_octet: "bits_value (octet_bits c) = ucast c"
  using bits_value_word [of c 8] by (simp add: octet_bits_def take_bit_word_eq_self)

lemma bits_value_ten: "bits_value [False, False, False, False, True, False, True, False] = 10"
  by (simp add: bits_value_def)

lemma sense_names_not_reserved:
  "\<not> reserved_name (chars ''VALID'')" "\<not> reserved_name (chars ''RESPONSE CODE (70h or 71h)'')"
  "\<not> reserved_name (chars ''SENSE KEY'')" "\<not> reserved_name (chars ''INFORMATION'')"
  "\<not> reserved_name (chars ''ADDITIONAL SENSE LENGTH (n-7)'')" "\<not> reserved_name (chars ''ADDITIONAL SENSE CODE'')"
  "\<not> reserved_name (chars ''ADDITIONAL SENSE CODE QUALIFIER'')"
  by code_simp+

lemma length_line_warn:
  "fd_warn (number_at (length_line w name n) w' len v) = None \<longleftrightarrow>
     \<not> (reserved_name (chars name) \<and> v \<noteq> 0) \<and> (n = - 1 \<or> len = unat (v + ucast n + 1))"
  by (simp add: number_at_def length_line_def reserved_warning_def)

lemma sense_starless: "0x2a \<notin> set sense_format"
  by code_simp

text \<open>C20: The tool shows the error of a command: of the sense data of the driver, the tool's format shows the valid
  bit, the response code, the sense key, the low half of the information, the length and the additional codes, and
  nothing behind the 18 octets, so what is left on the stack there is not shown. The length is always
  shown with a warning, because the buffer that the tool passes is 32 octets long.
\<close>

theorem tool_shows_sense:
  assumes "18 \<le> n" and "n \<le> length b" and "length d = 32"
    and "take 18 d = take 18 (sense_data n Key Code Qualifier info b)"
  shows "\<exists>fs. ScsiText sense_format d 32 = Some fs \<and>
    map fd_uval fs = [of_bool (info \<noteq> None), 0x70, 0, 0, 0, 0, 0, ucast (take_bit 4 Key),
      (case info of None \<Rightarrow> 0 | Some i \<Rightarrow> ucast (ucast i :: u32)), 10, 0, ucast Code, ucast Qualifier, 0, 0, 0] \<and>
    map (\<lambda>f. fd_warn f = None) fs = replicate 9 True @ [False] @ replicate 6 True"
proof -
  define i :: u32 where "i = (case info of None \<Rightarrow> 0 | Some i \<Rightarrow> ucast i)"
  define fs where "fs = fields_of 1 32 (format_lines sense_format) (data_bits d)"
  have "ScsiText sense_format d 32 = Some fs"
    unfolding fs_def using text_fields [OF sense_starless, of 32 d] assms(3) by simp
  moreover have bits: "data_bits d = [info \<noteq> None] @ [True, True, True, False, False, False, False] @ octet_bits 0 @
      replicate 4 False @ [bit Key 3, bit Key 2, bit Key 1, bit Key 0] @ data_bits (be32 i) @
      [False, False, False, False, True, False, True, False] @ replicate 32 False @ octet_bits Code @ octet_bits Qualifier @
      octet_bits 0 @ False # replicate 23 False @ data_bits (drop 18 d)"
  proof -
    have "data_bits d = data_bits (take 18 d) @ data_bits (drop 18 d)" by (simp flip: data_bits_append)
    also have "take 18 d = [if info = None then 0x70 else 0xf0, 0, Key AND 0x0f] @ be32 i @
        [10, 0, 0, 0, 0, Code, Qualifier, 0, 0, 0, 0]"
      unfolding assms(4) sense_octets [OF assms(1,2)] i_def by simp
    finally show ?thesis
      by (simp add: data_bits_append octet_bits_lists octet_bits_bits numeral_eq_Suc)
  qed
  note fields = number_line_fields length_line_fields take_front codec_simps bits_value_small
    bits_value_4 [unfolded One_nat_def] bits_value_7
    bits_value_octet bits_value_ten
  have "map fd_uval fs = [of_bool (info \<noteq> None), 0x70, 0, 0, 0, 0, 0, ucast (take_bit 4 Key),
      ucast i, 10, 0, ucast Code, ucast Qualifier, 0, 0, 0]"
    unfolding fs_def sense_lines bits by (simp add: fields assms(3))
  moreover have "map (\<lambda>f. fd_warn f = None) fs =
      [True, True, True, True, True, True, True, True, True, False, True, True, True, True, True, True]"
    unfolding fs_def sense_lines bits
    by (simp add: fields assms(3) number_line_warn length_line_warn sense_names_not_reserved)
  moreover have "(ucast i :: u64) = (case info of None \<Rightarrow> 0 | Some i \<Rightarrow> ucast (ucast i :: u32))"
    by (simp add: i_def split: option.split)
  ultimately show ?thesis by (intro exI [of _ fs]) (simp add: numeral_eq_Suc)
qed

theorem tool_shows_sense_witness:
  "\<exists>fs. ScsiText sense_format (sense_data 18 5 0x21 0 (Some 0x100000007) (replicate 32 0)) 32 = Some fs \<and>
     map fd_uval fs = [1, 0x70, 0, 0, 0, 0, 0, 5, 7, 10, 0, 0x21, 0, 0, 0, 0]"
proof -
  have "length (sense_data 18 5 0x21 0 (Some 0x100000007) (replicate 32 0)) = 32"
    by (simp add: sense_data_def Let_def buf_simps codec_simps)
  moreover have "(ucast (take_bit 4 (5 :: u8)) :: u64) = 5" by (simp add: take_bit_eq_mod)
  ultimately show ?thesis
    using tool_shows_sense [of 18 "replicate 32 0" "sense_data 18 5 0x21 0 (Some 0x100000007) (replicate 32 0)" 5 "0x21" 0
        "Some 0x100000007"] by auto
qed

end
