(* ===== verification/LaunchSystem.thy ===== *)
theory LaunchSystem
  imports Launcher "HOL-Library.Multiset"
begin

text \<open>
  What the launcher asks of the system for an instance: the volumes that its process owns, the
  end of a process, the start of one, access checks. These are the routines of src/launcher/launcher.c
  that \<open>Launcher\<close> takes as arguments. Handles are counted: a handle is opened and closed in a
  table of open handles.
\<close>

abbreviation ERROR_NO_ASSOCIATION :: u32 where "ERROR_NO_ASSOCIATION \<equiv> 1155"
abbreviation ERROR_DEVICE_IN_USE :: u32 where "ERROR_DEVICE_IN_USE \<equiv> 2404"

section \<open>Handles\<close>

text \<open>The open handles, and the closes of handles that were not open.\<close>

record handles =
  hs_open :: "ptr multiset"
  hs_bad :: "ptr list"

definition open_handle :: "ptr \<Rightarrow> handles \<Rightarrow> handles" where
  "open_handle h s = s\<lparr>hs_open := add_mset h (hs_open s)\<rparr>"

definition CloseHandle :: "ptr \<Rightarrow> handles \<Rightarrow> handles" where
  "CloseHandle h s =
     (if h \<in># hs_open s then s\<lparr>hs_open := hs_open s - {#h#}\<rparr> else s\<lparr>hs_bad := hs_bad s @ [h]\<rparr>)"

definition CloseHandles :: "ptr list \<Rightarrow> handles \<Rightarrow> handles" where
  "CloseHandles hs s = fold CloseHandle hs s"

section \<open>The owner of a volume\<close>

text \<open>
  What the system says of volumes: opening one for queries or for reading and writing, the octets of a
  property, and the locking and dismounting of an open volume (0 is success).
\<close>

record vol_system =
  vs_open :: "wstr \<Rightarrow> bool \<Rightarrow> u32 + ptr"
  vs_query :: "ptr \<Rightarrow> u32 \<Rightarrow> u32 + bytes"
  vs_lock :: "ptr \<Rightarrow> u32"
  vs_dismount :: "ptr \<Rightarrow> u32"

abbreviation StorageDeviceProperty :: u32 where "StorageDeviceProperty \<equiv> 0"
abbreviation StorageDeviceIdProperty :: u32 where "StorageDeviceIdProperty \<equiv> 2"

text \<open>A 32-bit field of a descriptor, and a 16-bit one; \<open>None\<close> when it is not inside of the buffer.\<close>

definition field32 :: "bytes \<Rightarrow> nat \<Rightarrow> u32 option" where
  "field32 b k = (if k + 4 \<le> length b then Some (getl32 (slice b k 4)) else None)"

definition field16 :: "bytes \<Rightarrow> nat \<Rightarrow> nat option" where
  "field16 b k = (if k + 2 \<le> length b then Some (unat (b ! k) + 256 * unat (b ! (k + 1))) else None)"

text \<open>The comparison of a text in the buffer with one of the program.\<close>

fun strcmp_at :: "bytes \<Rightarrow> nat \<Rightarrow> bytes \<Rightarrow> bool option" where
  "strcmp_at b k [] = (if k < length b then Some (b ! k = 0) else None)"
| "strcmp_at b k (t # ts) =
     (if \<not> k < length b then None else if b ! k = t then strcmp_at b (k + 1) ts else Some False)"

text \<open>The buffer of a query is 1024 octets; the descriptor has its size at 4 and the offset of the vendor at 12.\<close>

definition desc_buf :: "bytes \<Rightarrow> bytes" where "desc_buf out = splice (replicate 1024 0) 0 out"

definition vendor_matches :: "bytes \<Rightarrow> bool option" where
  "vendor_matches d = do {
     Size \<leftarrow> field32 d 4;
     VendorIdOffset \<leftarrow> field32 d 12;
     if Size \<le> 1024 \<and> VendorIdOffset \<noteq> 0 then strcmp_at d (unat VendorIdOffset) SPD_IOCTL_VENDOR_ID else Some False
   }"

text \<open>
  An identifier: code set, type, size, offset of the next one, association, and its octets at 16. The one
  that the driver gives has eight octets: \<open>PID\<close>, a space or an \<open>X\<close>, and the process, big-endian.
\<close>

fun match_octets :: "bytes \<Rightarrow> nat \<Rightarrow> bytes list \<Rightarrow> bool option" where
  "match_octets d k [] = Some True"
| "match_octets d k (S # Ss) =
     (if \<not> k < length d then None else if d ! k \<in> set S then match_octets d (k + 1) Ss else Some False)"

definition owner_identifier :: "bytes \<Rightarrow> nat \<Rightarrow> u32 option option" where
  "owner_identifier d k = do {
     CodeSet \<leftarrow> field32 d k;
     if CodeSet \<noteq> 1 then Some None
     else do {
       Type \<leftarrow> field32 d (k + 4);
       if Type \<noteq> 0 then Some None
       else do {
         Association \<leftarrow> field32 d (k + 12);
         if Association \<noteq> 0 then Some None
         else do {
           IdentifierSize \<leftarrow> field16 d (k + 8);
           if IdentifierSize \<noteq> 8 then Some None
           else do {
             pid \<leftarrow> match_octets d (k + 16) [[0x50], [0x49], [0x44], [0x20, 0x58]];
             if \<not> pid then Some None
             else if k + 24 \<le> length d then Some (Some (get32 (slice d (k + 20) 4))) else None
           }
         }
       }
     }
   }"

fun find_owner :: "bytes \<Rightarrow> nat \<Rightarrow> nat \<Rightarrow> u32 option option" where
  "find_owner d 0 k = Some None"
| "find_owner d (Suc n) k = do {
     r \<leftarrow> owner_identifier d k;
     if r \<noteq> None then Some r
     else do { NextOffset \<leftarrow> field16 d (k + 10); find_owner d n (k + NextOffset) }
   }"

definition device_owner :: "bytes \<Rightarrow> u32 option option" where
  "device_owner d = do {
     Size \<leftarrow> field32 d 4;
     n \<leftarrow> field32 d 8;
     if Size \<le> 1024 then find_owner d (unat n) 12 else Some None
   }"

text \<open>The error or the process. \<open>None\<close> is an access outside of the buffer.\<close>

definition GetVolumeOwnerProcessId :: "vol_system \<Rightarrow> wstr \<Rightarrow> handles \<Rightarrow> ((u32 + u32) \<times> handles) option" where
  "GetVolumeOwnerProcessId vs Volume s =
     (case vs_open vs Volume False of
        Inl Error \<Rightarrow> Some (Inl Error, s)
      | Inr Handle \<Rightarrow>
          let s = open_handle Handle s
          in map_option (\<lambda>r. (r, CloseHandle Handle s))
            (case vs_query vs Handle StorageDeviceProperty of
               Inl Error \<Rightarrow> Some (Inl Error)
             | Inr out \<Rightarrow> do {
                 ok \<leftarrow> vendor_matches (desc_buf out);
                 if \<not> ok then Some (Inl ERROR_NO_ASSOCIATION)
                 else case vs_query vs Handle StorageDeviceIdProperty of
                     Inl Error \<Rightarrow> Some (Inl Error)
                   | Inr out \<Rightarrow> map_option (\<lambda>r. case r of Some pid \<Rightarrow> Inr pid | None \<Rightarrow> Inl ERROR_NO_ASSOCIATION)
                       (device_owner (desc_buf out))
               }))"

section \<open>Dismounting\<close>

definition OpenAndDismountVolume :: "vol_system \<Rightarrow> wstr \<Rightarrow> handles \<Rightarrow> (u32 + ptr) \<times> handles" where
  "OpenAndDismountVolume vs Volume s =
     (case vs_open vs Volume True of
        Inl Error \<Rightarrow> (Inl Error, s)
      | Inr Handle \<Rightarrow>
          let s = open_handle Handle s;
              Error = (if vs_lock vs Handle \<noteq> 0 then vs_lock vs Handle else vs_dismount vs Handle)
          in if Error \<noteq> 0
             then (Inl (if Error = ERROR_ACCESS_DENIED then ERROR_DEVICE_IN_USE else Error), CloseHandle Handle s)
             else (Inr Handle, s))"

text \<open>The name of a volume without the backslash at its end.\<close>

definition strip_backslash :: "wstr \<Rightarrow> wstr" where
  "strip_backslash v = (if v \<noteq> [] \<and> last v = backslash then butlast v else v)"

text \<open>
  The loop over the volumes: the handles that are kept, and the number of devices in use. It ends
  when there is no room for another handle.
\<close>

fun dismount_loop ::
    "vol_system \<Rightarrow> u32 \<Rightarrow> nat \<Rightarrow> wstr list \<Rightarrow> ptr list \<Rightarrow> nat \<Rightarrow> handles \<Rightarrow> (ptr list \<times> nat \<times> handles) option" where
  "dismount_loop vs ProcessId Count [] Handles DevicesInUse s = Some (Handles, DevicesInUse, s)"
| "dismount_loop vs ProcessId Count (v # vols) Handles DevicesInUse s =
     (if Count \<le> length Handles then Some (Handles, DevicesInUse, s)
      else do {
        (r, s) \<leftarrow> GetVolumeOwnerProcessId vs (strip_backslash v) s;
        if r \<noteq> Inr ProcessId then dismount_loop vs ProcessId Count vols Handles DevicesInUse s
        else case OpenAndDismountVolume vs (strip_backslash v) s of
            (Inr h, s) \<Rightarrow> dismount_loop vs ProcessId Count vols (Handles @ [h]) DevicesInUse s
          | (Inl Error, s) \<Rightarrow>
              dismount_loop vs ProcessId Count vols Handles
                (if Error = ERROR_DEVICE_IN_USE then DevicesInUse + 1 else DevicesInUse) s
      })"

text \<open>
  The error, the handles in the caller's array, and the count: on an error the handles are
  closed here, but they stay in the array and in the count. \<open>volumes\<close> is what the system enumerates.
\<close>

definition OpenAndDismountVolumesForProcessId ::
    "vol_system \<Rightarrow> u32 + wstr list \<Rightarrow> u32 \<Rightarrow> nat \<Rightarrow> handles \<Rightarrow> (u32 \<times> ptr list \<times> handles) option" where
  "OpenAndDismountVolumesForProcessId vs volumes ProcessId Count s =
     (case volumes of
        Inl Error \<Rightarrow> Some (Error, [], s)
      | Inr vols \<Rightarrow> do {
          (Handles, DevicesInUse, s) \<leftarrow> dismount_loop vs ProcessId Count vols [] 0 s;
          let Error = (if DevicesInUse = 0 then ERROR_SUCCESS else ERROR_DEVICE_IN_USE);
          Some (Error, Handles, if Error \<noteq> ERROR_SUCCESS then CloseHandles Handles s else s)
        })"

section \<open>Ending a process\<close>

text \<open>
  A process gets a break event; when that cannot be sent it is terminated. Otherwise a wait is registered
  on a duplicate of its handle, if there is memory for it, and at the timeout the callback terminates the process.
\<close>

datatype kill_result = Terminated | Watched ptr | Left_alone

definition KillProcess :: "bool \<Rightarrow> bool \<Rightarrow> ptr option \<Rightarrow> bool \<Rightarrow> handles \<Rightarrow> kill_result \<times> handles" where
  "KillProcess event_sent allocated duplicate registered s =
     (if event_sent then
        (if \<not> allocated then (Left_alone, s)
         else case duplicate of
             None \<Rightarrow> (Left_alone, s)
           | Some h \<Rightarrow>
               let s = open_handle h s
               in if registered then (Watched h, s) else (Left_alone, CloseHandle h s))
      else (Terminated, s))"

text \<open>The callback: whether it terminates the process.\<close>

definition KillProcessWait :: "ptr \<Rightarrow> bool \<Rightarrow> handles \<Rightarrow> bool \<times> handles" where
  "KillProcessWait h Timeout s = (Timeout, CloseHandle h s)"

text \<open>
  The kill of an instance with the handles that it holds. On an error of the dismounting the
  handles that were in the array are closed again.
\<close>

definition kill_handles ::
    "vol_system \<Rightarrow> u32 + wstr list \<Rightarrow> bool \<Rightarrow> u32 \<Rightarrow> ptr list option \<Rightarrow> bool \<Rightarrow> handles \<Rightarrow>
     (u32 \<times> ptr list option \<times> bool \<times> handles) option" where
  "kill_handles vs volumes allocated ProcessId VolumeHandles Forced s = do {
     (Error, Handles, VolumeHandles, s) \<leftarrow>
       (case VolumeHandles of
          Some hs \<Rightarrow> Some (ERROR_SUCCESS, [], Some hs, s)
        | None \<Rightarrow> do {
            (Error, Handles, s) \<leftarrow> OpenAndDismountVolumesForProcessId vs volumes ProcessId 256 s;
            if Error = ERROR_SUCCESS \<and> Handles \<noteq> [] \<and> allocated
            then Some (Error, [], Some Handles, s) else Some (Error, Handles, None, s)
          });
     Some (Error, VolumeHandles, Error = ERROR_SUCCESS \<or> Forced, CloseHandles Handles s)
   }"

definition release_handles :: "ptr list option \<Rightarrow> handles \<Rightarrow> handles" where
  "release_handles VolumeHandles s = (case VolumeHandles of Some hs \<Rightarrow> CloseHandles hs s | None \<Rightarrow> s)"

section \<open>Rights\<close>

text \<open>
  The security descriptor with the rights of the client's user to query and to stop: \<open>probe\<close> is the result of
  asking for the size of the token's user, \<open>user\<close> of reading it.
\<close>

definition SvcInstanceAddUserRights ::
    "u32 option \<Rightarrow> bool \<Rightarrow> u32 + 'sid \<Rightarrow> (u32 \<Rightarrow> 'sid \<Rightarrow> 'sd \<Rightarrow> u32 + 'sd) \<Rightarrow> 'sd \<Rightarrow> u32 + 'sd" where
  "SvcInstanceAddUserRights probe allocated user build sd =
     (case probe of
        None \<Rightarrow> Inl ERROR_INVALID_PARAMETER
      | Some Error \<Rightarrow>
          if Error \<noteq> ERROR_INSUFFICIENT_BUFFER then Inl Error
          else if \<not> allocated then Inl ERROR_NO_SYSTEM_RESOURCES
          else (case user of
              Inl Error \<Rightarrow> Inl Error
            | Inr sid \<Rightarrow> build (SERVICE_QUERY_STATUS OR SERVICE_STOP) sid sd))"

text \<open>The rights that the generic ones stand for: read, write, execute, all.\<close>

record generic_mapping =
  GenericRead :: u32
  GenericWrite :: u32
  GenericExecute :: u32
  GenericAll :: u32

definition service_mapping :: generic_mapping where
  "service_mapping =
     \<lparr>GenericRead = 0x20000 OR 0x1 OR 0x4 OR 0x80 OR 0x8, GenericWrite = 0x20000 OR 0x2,
      GenericExecute = 0x20000 OR 0x10 OR 0x20 OR 0x40 OR 0x100, GenericAll = 0xf01ff\<rparr>"

definition SvcInstanceAccessCheck ::
    "('sd \<Rightarrow> ptr \<Rightarrow> u32 \<Rightarrow> generic_mapping \<Rightarrow> u32 + bool) \<Rightarrow> ptr \<Rightarrow> u32 \<Rightarrow> 'sd \<Rightarrow> u32" where
  "SvcInstanceAccessCheck AccessCheck ClientToken DesiredAccess sd =
     (case AccessCheck sd ClientToken DesiredAccess service_mapping of
        Inr AccessStatus \<Rightarrow> if AccessStatus then ERROR_SUCCESS else ERROR_ACCESS_DENIED
      | Inl Error \<Rightarrow> Error)"

section \<open>Starting a process\<close>

text \<open>The index of the last backslash.\<close>

fun last_backslash :: "nat \<Rightarrow> wstr \<Rightarrow> nat option \<Rightarrow> nat option" where
  "last_backslash i [] r = r"
| "last_backslash i (c # cs) r = last_backslash (i + 1) cs (if c = backslash then Some i else r)"

text \<open>The directory of a file; the backslash of a root is kept, and a file without a directory stays.\<close>

definition directory_of :: "wstr \<Rightarrow> wstr" where
  "directory_of path =
     (case last_backslash 0 path None of
        Some b \<Rightarrow> if 0 < b \<and> path ! (b - 1) \<noteq> 0x3a then take b path else path
      | None \<Rightarrow> path)"

text \<open>A work directory that is a dot is the one of the launcher's own file, \<open>module\<close>.\<close>

definition SvcInstanceCreateProcess ::
    "u32 + wstr \<Rightarrow> (wstr \<Rightarrow> wstr \<Rightarrow> wstr option \<Rightarrow> u32 + 'p) \<Rightarrow> wstr \<Rightarrow> wstr \<Rightarrow> wstr option \<Rightarrow> u32 + 'p" where
  "SvcInstanceCreateProcess module CreateProcessW Executable CommandLine WorkDirectory =
     (if WorkDirectory = Some [0x2e]
      then (case module of
              Inl Error \<Rightarrow> Inl Error
            | Inr path \<Rightarrow> CreateProcessW Executable CommandLine (Some (directory_of path)))
      else CreateProcessW Executable CommandLine WorkDirectory)"

end
