(* ===== verification/LaunchServer.thy ===== *)
theory LaunchServer
  imports LaunchSystem
begin

text \<open>
  The frame of the launcher service, the end of src/launcher/launcher.c: the thread that serves the pipe, the start of the
  service with what it acquires, the control handler, and the states that the service reports. What the
  system answers to a call is an argument.
\<close>

abbreviation ERROR_IO_PENDING :: u32 where "ERROR_IO_PENDING \<equiv> 997"
abbreviation ERROR_PIPE_CONNECTED :: u32 where "ERROR_PIPE_CONNECTED \<equiv> 535"
abbreviation ERROR_NO_DATA :: u32 where "ERROR_NO_DATA \<equiv> 232"
abbreviation ERROR_CALL_NOT_IMPLEMENTED :: u32 where "ERROR_CALL_NOT_IMPLEMENTED \<equiv> 120"

section \<open>Waiting for the pipe\<close>

text \<open>
  An operation on the pipe: its success and error, what the wait for the stop event and for its end
  returns, and the result of the operation, an error or the number of octets.
\<close>

datatype wait_result = Wait_stop | Wait_done | Wait_error u32

record pipe_io =
  io_success :: bool
  io_error :: u32
  io_wait :: wait_result
  io_result :: "u32 + nat"

text \<open>The error, and the number of octets where it is 0; the error is -1 when the thread has to stop.\<close>

definition SvcPipeWaitResult :: "pipe_io \<Rightarrow> u32 \<times> nat" where
  "SvcPipeWaitResult io =
     (if \<not> io_success io \<and> io_error io \<noteq> ERROR_IO_PENDING then (io_error io, 0)
      else case io_wait io of
          Wait_stop \<Rightarrow> (- 1, 0)
        | Wait_done \<Rightarrow> (case io_result io of Inl Error \<Rightarrow> (Error, 0) | Inr n \<Rightarrow> (0, n))
        | Wait_error Error \<Rightarrow> (Error, 0))"

section \<open>The server\<close>

text \<open>
  One turn of the loop: the three operations, the characters that the read leaves in the buffer, the success of the
  impersonation, the token of the client (0 when it cannot be opened), the success of the return to the
  service's own identity, and the system as it is for the request.
\<close>

record 'sd turn =
  t_connect :: pipe_io
  t_read :: pipe_io
  t_buffer :: wstr
  t_impersonate :: bool
  t_token :: ptr
  t_revert :: bool
  t_system :: "'sd svc_system"
  t_dismount :: "u32 \<times> nat \<times> bool"
  t_write :: pipe_io

datatype server_log = Warning_connect u32 | Warning_read u32 | Warning_token u32 | Error_revert u32 | Warning_write u32

text \<open>
  The server: the instances, whether a client is connected, whether the thread has the identity of a client, the open tokens,
  the answers that were written, and the log (without the error numbers of the token functions).
\<close>

record 'sd server =
  sv_launcher :: "'sd launcher"
  sv_connected :: bool
  sv_impersonating :: bool
  sv_tokens :: handles
  sv_answers :: "wstr list"
  sv_log :: "server_log list"

definition DisconnectNamedPipe :: "'sd server \<Rightarrow> 'sd server" where
  "DisconnectNamedPipe s = s\<lparr>sv_connected := False\<rparr>"

definition SpdServiceLog :: "server_log \<Rightarrow> 'sd server \<Rightarrow> 'sd server" where
  "SpdServiceLog m s = s\<lparr>sv_log := sv_log s @ [m]\<rparr>"

definition close_token :: "ptr \<Rightarrow> 'sd server \<Rightarrow> 'sd server" where
  "close_token h s = s\<lparr>sv_tokens := CloseHandle h (sv_tokens s)\<rparr>"

text \<open>The token of the client, 0 if there is none, and whether everything went well.\<close>

definition client_token :: "'sd turn \<Rightarrow> 'sd server \<Rightarrow> ptr \<times> bool \<times> 'sd server" where
  "client_token t s =
     (if \<not> t_impersonate t then (0, False, s)
      else let s = s\<lparr>sv_impersonating := True\<rparr>
      in if t_token t = 0 then (0, False, s)
      else let s = s\<lparr>sv_tokens := open_handle (t_token t) (sv_tokens s)\<rparr>
      in if \<not> t_revert t then (t_token t, False, s) else (t_token t, True, s\<lparr>sv_impersonating := False\<rparr>))"

text \<open>The request and its answer, with the token of the client.\<close>

definition serve_request :: "'sd turn \<Rightarrow> ptr \<Rightarrow> nat \<Rightarrow> 'sd server \<Rightarrow> (bool \<times> 'sd server) option" where
  "serve_request t ClientToken n s = do {
     (answer, l) \<leftarrow> SvcPipeTransact (t_system t) (t_dismount t) ClientToken (take (n div 2) (t_buffer t)) (sv_launcher s);
     let s = close_token ClientToken (s\<lparr>sv_launcher := l\<rparr>);
     let e = fst (SvcPipeWaitResult (t_write t));
     if e = - 1 then Some (False, s)
     else if e \<noteq> 0 then Some (True, SpdServiceLog (Warning_write e) (DisconnectNamedPipe s))
     else Some (True, DisconnectNamedPipe (s\<lparr>sv_answers := sv_answers s @ [answer]\<rparr>))
   }"

text \<open>One turn: whether the loop goes on.\<close>

definition serve_turn :: "'sd turn \<Rightarrow> 'sd server \<Rightarrow> (bool \<times> 'sd server) option" where
  "serve_turn t s =
     (let e = fst (SvcPipeWaitResult (t_connect t))
      in if e = - 1 then Some (False, s)
      else if e \<noteq> 0 \<and> e \<noteq> ERROR_PIPE_CONNECTED \<and> e \<noteq> ERROR_NO_DATA then Some (True, SpdServiceLog (Warning_connect e) s)
      else
        let s = s\<lparr>sv_connected := True\<rparr>;
            (e, n) = SvcPipeWaitResult (t_read t)
        in if e = - 1 then Some (False, s)
        else if e \<noteq> 0 \<or> n < 2
        then Some (True, (if e \<noteq> 0 then SpdServiceLog (Warning_read e) else (\<lambda>s. s)) (DisconnectNamedPipe s))
        else case client_token t s of
            (ClientToken, True, s) \<Rightarrow> serve_request t ClientToken n s
          | (ClientToken, False, s) \<Rightarrow>
              let s = DisconnectNamedPipe (close_token ClientToken s)
              in if ClientToken = 0 then Some (True, SpdServiceLog (Warning_token 0) s)
                 else Some (False, SpdServiceLog (Error_revert 0) s))"

text \<open>The loop over the turns that the system gives; \<open>True\<close> when the thread still waits for the next one.\<close>

fun serve :: "'sd turn list \<Rightarrow> 'sd server \<Rightarrow> (bool \<times> 'sd server) option" where
  "serve [] s = Some (True, s)"
| "serve (t # ts) s = do {
     (go, s) \<leftarrow> serve_turn t s;
     if go then serve ts s else Some (False, s)
   }"

section \<open>Reports\<close>

datatype svc_state_code = START_PENDING | RUNNING | STOP_PENDING | STOPPED

record service_status =
  dwCurrentState :: svc_state_code
  dwControlsAccepted :: u32
  dwWin32ExitCode :: u32
  dwCheckPoint :: u32
  dwWaitHint :: u32

abbreviation SERVICE_ACCEPT_STOP :: u32 where "SERVICE_ACCEPT_STOP \<equiv> 1"
abbreviation LAUNCHER_START_TIMEOUT :: u32 where "LAUNCHER_START_TIMEOUT \<equiv> 30000"
abbreviation LAUNCHER_STOP_TIMEOUT :: u32 where "LAUNCHER_STOP_TIMEOUT \<equiv> 30000"

definition service_stopped :: "u32 \<Rightarrow> service_status" where
  "service_stopped ExitCode =
     \<lparr>dwCurrentState = STOPPED, dwControlsAccepted = 0, dwWin32ExitCode = ExitCode, dwCheckPoint = 0, dwWaitHint = 0\<rparr>"

text \<open>
  The thread: without memory for its buffer it does not serve at all. At its end it kills every instance and reports.
  No report yet is the thread that still waits.
\<close>

definition SvcPipeServer ::
    "bool \<Rightarrow> ('sd SVC_INSTANCE \<Rightarrow> u32 \<times> nat \<times> bool) \<Rightarrow> 'sd turn list \<Rightarrow> 'sd server \<Rightarrow>
     (service_status option \<times> 'sd server) option" where
  "SvcPipeServer allocated dismounts ts s =
     (let finish = (\<lambda>ExitCode s. (Some (service_stopped ExitCode),
                      s\<lparr>sv_launcher := SvcInstanceStopAndWaitAll dismounts (sv_launcher s)\<rparr>))
      in if \<not> allocated then Some (finish ERROR_NO_SYSTEM_RESOURCES s)
      else do {
        (go, s) \<leftarrow> serve ts s;
        Some (if go then (None, s) else finish 0 s)
      })"

section \<open>The start of the service\<close>

text \<open>What the start acquires, in the order of the code.\<close>

datatype resource = Res_descriptor | Res_instance_event | Res_job | Res_stop_event | Res_io_event | Res_pipe | Res_thread

text \<open>One resource after the other, up to the first failure: the error, and what was acquired.\<close>

fun acquire :: "(resource \<Rightarrow> u32 option) \<Rightarrow> resource list \<Rightarrow> resource list \<Rightarrow> u32 option \<times> resource list" where
  "acquire fails [] held = (None, held)"
| "acquire fails (r # rs) held =
     (case fails r of Some Error \<Rightarrow> (Some Error, held) | None \<Rightarrow> acquire fails rs (held @ [r]))"

text \<open>
  The job is not needed; it is given up when its limits cannot be set. The security descriptor is freed at the end in
  any case; of the others nothing is released on a failure. The persistent instances are started last, when the
  thread runs already.
\<close>

definition SvcOnStart ::
    "(resource \<Rightarrow> u32 option) \<Rightarrow> bool \<Rightarrow> 'sd svc_system \<Rightarrow> 'sd launcher \<Rightarrow>
     (u32 \<times> resource list \<times> 'sd launcher) option" where
  "SvcOnStart fails limits_set sys l =
     (case acquire fails [Res_descriptor, Res_instance_event] [] of
        (Some Error, held) \<Rightarrow> Some (Error, removeAll Res_descriptor held, l)
      | (None, held) \<Rightarrow>
        let held = (if fails Res_job = None \<and> limits_set then held @ [Res_job] else held)
        in (case acquire fails [Res_stop_event, Res_io_event, Res_pipe, Res_thread] held of
            (Some Error, held) \<Rightarrow> Some (Error, removeAll Res_descriptor held, l)
          | (None, held) \<Rightarrow>
              map_option (\<lambda>l. (ERROR_SUCCESS, removeAll Res_descriptor held, l)) (SvcInstanceStartAllPersistent sys l)))"

text \<open>
  The main routine of the service: the reports that it makes, and the result of the start. \<open>registered\<close> is the registration of the
  control handler.
\<close>

definition SvcEntry ::
    "bool \<Rightarrow> (resource \<Rightarrow> u32 option) \<Rightarrow> bool \<Rightarrow> 'sd svc_system \<Rightarrow> 'sd launcher \<Rightarrow>
     (service_status list \<times> resource list \<times> 'sd launcher) option" where
  "SvcEntry registered fails limits_set sys l =
     (if \<not> registered then Some ([], [], l)
      else do {
        let status = \<lparr>dwCurrentState = START_PENDING, dwControlsAccepted = 0, dwWin32ExitCode = 0, dwCheckPoint = 0,
                      dwWaitHint = LAUNCHER_START_TIMEOUT\<rparr>;
        (Error, held, l) \<leftarrow> SvcOnStart fails limits_set sys l;
        Some ([status,
               if Error = ERROR_SUCCESS
               then status\<lparr>dwCurrentState := RUNNING, dwControlsAccepted := SERVICE_ACCEPT_STOP\<rparr>
               else status\<lparr>dwCurrentState := STOPPED, dwControlsAccepted := 0\<rparr>], held, l)
      })"

section \<open>Controls\<close>

datatype svc_control = SERVICE_CONTROL_SHUTDOWN | SERVICE_CONTROL_STOP | SERVICE_CONTROL_PAUSE | SERVICE_CONTROL_CONTINUE
  | SERVICE_CONTROL_OTHER u32

text \<open>The result, the report, and whether the stop event is set; it then waits for the thread.\<close>

definition SvcCtrlHandler :: "svc_control \<Rightarrow> u32 \<times> service_status option \<times> bool" where
  "SvcCtrlHandler Control =
     (if Control = SERVICE_CONTROL_SHUTDOWN \<or> Control = SERVICE_CONTROL_STOP
      then (ERROR_SUCCESS,
            Some \<lparr>dwCurrentState = STOP_PENDING, dwControlsAccepted = 0, dwWin32ExitCode = ERROR_SUCCESS, dwCheckPoint = 1,
                  dwWaitHint = LAUNCHER_STOP_TIMEOUT\<rparr>, True)
      else if Control = SERVICE_CONTROL_PAUSE \<or> Control = SERVICE_CONTROL_CONTINUE
      then (ERROR_CALL_NOT_IMPLEMENTED, None, False)
      else (ERROR_SUCCESS, None, False))"

text \<open>The program: the result of the dispatcher, 0 or its error.\<close>

definition launcher_wmain :: "u32 option \<Rightarrow> u32" where
  "launcher_wmain dispatched = (case dispatched of Some Error \<Rightarrow> Error | None \<Rightarrow> ERROR_SUCCESS)"

end
