(* ===== verification/LaunchSystem_Props.thy ===== *)
theory LaunchSystem_Props
  imports LaunchSystem Scsi_Props
begin

text \<open>
  The launcher and the volumes: it finds the owner that the driver has put into the identification of a
  unit, it dismounts exactly the volumes of the process, and the handles that it opens are
  closed again. Where they are closed twice is a theorem too.
\<close>

section \<open>Handles\<close>

lemma close_open [simp]: "CloseHandle h (open_handle h s) = s"
  by (simp add: CloseHandle_def open_handle_def)

lemma hs_open_handle [simp]:
  "hs_open (open_handle h s) = add_mset h (hs_open s)" "hs_bad (open_handle h s) = hs_bad s"
  by (simp_all add: open_handle_def)

text \<open>Handles that are open are closed, one each.\<close>

lemma CloseHandles_open:
  "hs_open s = A + mset hs \<Longrightarrow> CloseHandles hs s = s\<lparr>hs_open := A\<rparr>"
  unfolding CloseHandles_def
proof (induction hs arbitrary: s)
  case (Cons h hs)
  have "CloseHandle h s = s\<lparr>hs_open := A + mset hs\<rparr>"
    using Cons.prems by (simp add: CloseHandle_def)
  with Cons.IH [of "s\<lparr>hs_open := A + mset hs\<rparr>"] show ?case by simp
qed simp

text \<open>Handles that are not open are closed in vain.\<close>

lemma CloseHandles_bad:
  "(\<forall>h \<in> set hs. h \<notin># hs_open s) \<Longrightarrow> CloseHandles hs s = s\<lparr>hs_bad := hs_bad s @ hs\<rparr>"
  unfolding CloseHandles_def
proof (induction hs arbitrary: s)
  case (Cons h hs)
  have "CloseHandle h s = s\<lparr>hs_bad := hs_bad s @ [h]\<rparr>"
    using Cons.prems by (simp add: CloseHandle_def)
  with Cons.IH [of "s\<lparr>hs_bad := hs_bad s @ [h]\<rparr>"] Cons.prems show ?case by simp
qed simp


section \<open>The identification page\<close>

text \<open>
  The descriptors of a page, as the SCSI standard has them: code set, type, association, octets.
\<close>

type_synonym designator = "u8 \<times> u8 \<times> u8 \<times> bytes"

fun designators :: "bytes \<Rightarrow> designator list" where
  "designators (b0 # b1 # b2 # n # rest) =
     (b0 AND 15, b1 AND 15, drop_bit 4 b1 AND 3, take (unat n) rest) # designators (drop (unat n) rest)"
| "designators _ = []"

lemma designators_at:
  assumes "i + 4 + unat (b ! (i + 3)) \<le> length b"
  shows "designators (drop i b) =
    (b ! i AND 15, b ! (i + 1) AND 15, drop_bit 4 (b ! (i + 1)) AND 3, slice b (i + 4) (unat (b ! (i + 3))))
      # designators (drop (i + 4 + unat (b ! (i + 3))) b)"
proof -
  have "drop i b = b ! i # b ! (i + 1) # b ! (i + 2) # b ! (i + 3) # drop (i + 4) b"
    using assms by (simp add: Cons_nth_drop_Suc eval_nat_numeral)
  then show ?thesis by (simp add: slice_def add_ac)
qed

definition owner_octets :: "SPD_STORAGE_UNIT \<Rightarrow> bytes" where
  "owner_octets u =
     [0x50, 0x49, 0x44, if EjectDisabled (StorageUnitParams u) then 0x58 else 0x20] @ be32 (OwnerProcessId u)"

definition name_octets :: "SPD_STORAGE_UNIT \<Rightarrow> bytes" where
  "name_octets u = SPD_IOCTL_VENDOR_ID @ ProductId (StorageUnitParams u) @
     ProductRevisionLevel (StorageUnitParams u) @ SerialNumber u"

lemma nth_put_bits: "i < length b \<Longrightarrow> put_bits k m v b ! i = (if i = k then (b ! k AND NOT m) OR (v AND m) else b ! i)"
  by (simp add: put_bits_def nth_list_update)

lemma vpd_identification_octets:
  assumes u: "unit_sized u"
  defines "b \<equiv> vpd_identification u (replicate 84 0)"
  shows "length b = 84" "b ! 4 = 2" "b ! 5 = 1" "b ! 7 = 64" "b ! 72 = 1" "b ! 73 = 0" "b ! 75 = 8"
    "slice b 8 64 = name_octets u" "slice b 76 8 = owner_octets u"
proof -
  have l: "length (SPD_IOCTL_VENDOR_ID) = 8" "length (ProductId (StorageUnitParams u)) = 16"
    "length (ProductRevisionLevel (StorageUnitParams u)) = 4" "length (SerialNumber u) = 36"
    using u by (simp_all add: unit_sized_def)
  note d = vpd_identification_def Let_def b_def
  show "length b = 84" using u by (simp add: b_def length_vpd_identification)
  show "b ! 4 = 2" "b ! 5 = 1" "b ! 7 = 64" "b ! 72 = 1" "b ! 73 = 0" "b ! 75 = 8"
    by (simp_all add: d nth_put nth_put_bits buf_simps codec_simps l answer_lengths vpd_header_def put_device_type_def
         Identifier0Length_def Identifier1Length_def)
  have "slice b 76 4 = take 4 (owner_octets u)" "slice b (76 + 4) 4 = drop 4 (owner_octets u)"
    by (simp_all add: d buf_simps codec_simps l answer_lengths owner_octets_def)
  then show "slice b 76 8 = owner_octets u"
    using slice_append_slice [of b 76 4 4] by simp
  have "slice b 8 8 = SPD_IOCTL_VENDOR_ID" "slice b (8 + 8) 16 = ProductId (StorageUnitParams u)"
    "slice b (8 + 24) 4 = ProductRevisionLevel (StorageUnitParams u)" "slice b (8 + 28) 36 = SerialNumber u"
    by (simp_all add: d buf_simps codec_simps l answer_lengths)
  then show "slice b 8 64 = name_octets u"
    using slice_append_slice [of b 8 8 16] slice_append_slice [of b 8 24 4] slice_append_slice [of b 8 28 36]
    by (simp add: name_octets_def flip: append_assoc)
qed

lemma designators_vpd:
  assumes "unit_sized u"
  shows "designators (drop 4 (vpd_identification u (replicate 84 0))) =
    [(2, 1, 0, name_octets u), (1, 0, 0, owner_octets u)]"
  using vpd_identification_octets [OF assms]
    designators_at [of 4 "vpd_identification u (replicate 84 0)"]
    designators_at [of 72 "vpd_identification u (replicate 84 0)"] by simp

section \<open>What the system makes of a page\<close>

text \<open>
  The descriptor that a query returns, as the storage interface documents it: the size, the number of
  identifiers, and the identifiers, each with the offset of the next one.
\<close>

fun lists_at :: "bytes \<Rightarrow> nat \<Rightarrow> designator list \<Rightarrow> bool" where
  "lists_at d k [] \<longleftrightarrow> True"
| "lists_at d k ((c, t, a, bs) # ids) \<longleftrightarrow>
     field32 d k = Some (ucast c) \<and> field32 d (k + 4) = Some (ucast t) \<and>
     field16 d (k + 8) = Some (length bs) \<and> field32 d (k + 12) = Some (ucast a) \<and>
     k + 16 + length bs \<le> length d \<and> slice d (k + 16) (length bs) = bs \<and>
     (case field16 d (k + 10) of Some n \<Rightarrow> lists_at d (k + n) ids | None \<Rightarrow> False)"

definition id_descriptor :: "bytes \<Rightarrow> designator list \<Rightarrow> bool" where
  "id_descriptor d ids \<longleftrightarrow>
     (case field32 d 4 of Some Size \<Rightarrow> Size \<le> 1024 | None \<Rightarrow> False) \<and>
     map_option unat (field32 d 8) = Some (length ids) \<and> lists_at d 12 ids"

definition device_descriptor :: "bytes \<Rightarrow> bytes \<Rightarrow> bool" where
  "device_descriptor d vendor \<longleftrightarrow>
     (case field32 d 4 of Some Size \<Rightarrow> Size \<le> 1024 | None \<Rightarrow> False) \<and>
     (case field32 d 12 of
        Some k \<Rightarrow> k \<noteq> 0 \<and> unat k + length vendor < length d \<and>
                  slice d (unat k) (length vendor) = vendor \<and> d ! (unat k + length vendor) = 0
      | None \<Rightarrow> False)"

lemma slice_Cons: "k < length d \<Longrightarrow> slice d k (Suc n) = d ! k # slice d (k + 1) n"
  by (simp add: slice_def Cons_nth_drop_Suc [symmetric])

lemma strcmp_at_text:
  "k + length ts < length d \<Longrightarrow> slice d k (length ts) = ts \<Longrightarrow> strcmp_at d k ts = Some (d ! (k + length ts) = 0)"
  by (induction ts arbitrary: k) (simp_all add: slice_Cons)

lemma vendor_matches_text:
  assumes "device_descriptor d SPD_IOCTL_VENDOR_ID"
  shows "vendor_matches d = Some True"
  using assms strcmp_at_text [of _ SPD_IOCTL_VENDOR_ID d]
  by (auto simp: device_descriptor_def vendor_matches_def split: option.splits)

text \<open>The first identifier with the owner decides.\<close>

definition id_owner :: "designator \<Rightarrow> u32 option" where
  "id_owner = (\<lambda>(c, t, a, bs).
     if c = 1 \<and> t = 0 \<and> a = 0 \<and> length bs = 8 \<and> take 3 bs = [0x50, 0x49, 0x44] \<and> bs ! 3 \<in> {0x20, 0x58}
     then Some (get32 (drop 4 bs)) else None)"

fun first_owner :: "designator list \<Rightarrow> u32 option" where
  "first_owner [] = None"
| "first_owner (i # ids) = (if id_owner i \<noteq> None then id_owner i else first_owner ids)"

lemma ucast_u8_u32_eq: "(ucast (x :: u8) :: u32) = 0 \<longleftrightarrow> x = 0" "(ucast (x :: u8) :: u32) = 1 \<longleftrightarrow> x = 1"
  by (simp_all add: word_unat_eq_iff unat_ucast_up)

lemma slice_3: "k + 3 \<le> length d \<Longrightarrow> slice d k 3 = [d ! k, d ! (k + 1), d ! (k + 2)]"
  by (simp add: slice_Cons numeral_3_eq_3) (simp add: slice_def)

lemma match_octets_pid:
  assumes "k + 4 \<le> length d"
  shows "match_octets d k [[0x50], [0x49], [0x44], [0x20, 0x58]] =
    Some (slice d k 3 = [0x50, 0x49, 0x44] \<and> d ! (k + 3) \<in> {0x20, 0x58})"
proof -
  have "slice d k 3 = [d ! k, d ! (k + 1), d ! (k + 2)]" using assms by (simp add: slice_3)
  moreover have "k < length d" "k + 1 < length d" "k + 1 + 1 < length d" "k + 1 + 1 + 1 < length d"
    using assms by linarith+
  moreover have "d ! (k + 3) = d ! Suc (Suc (Suc k))" by (simp add: eval_nat_numeral)
  ultimately show ?thesis by simp
qed

lemma owner_identifier_at:
  assumes "lists_at d k (i # ids)"
  shows "owner_identifier d k = Some (id_owner i)"
proof (cases i)
  case (fields c t a bs)
  have e: "k + 16 + length bs \<le> length d" "slice d (k + 16) (length bs) = bs"
    using assms by (simp_all add: fields)
  show ?thesis
  proof (cases "length bs = 8")
    case True
    have bs: "bs = take 8 (drop (k + 16) d)" using e True by (simp add: slice_def)
    have p: "take 3 bs = slice d (k + 16) 3" "bs ! 3 = d ! (k + 16 + 3)" "drop 4 bs = slice d (k + 20) 4"
      using e True by (simp_all add: bs slice_def drop_take add_ac)
    have i: "id_owner i = (if c = 1 \<and> t = 0 \<and> a = 0 \<and> slice d (k + 16) 3 = [0x50, 0x49, 0x44] \<and>
        d ! (k + 16 + 3) \<in> {0x20, 0x58} then Some (get32 (slice d (k + 20) 4)) else None)"
      by (simp only: fields id_owner_def prod.case True p simp_thms)
    have "k + 16 + 4 \<le> length d" "k + 24 \<le> length d" using e True by linarith+
    then show ?thesis
      using assms True match_octets_pid [of "k + 16" d] unfolding i
      by (auto simp: fields owner_identifier_def ucast_u8_u32_eq add_ac simp del: match_octets.simps)
  qed (use assms in \<open>auto simp: fields owner_identifier_def id_owner_def ucast_u8_u32_eq\<close>)
qed

lemma find_owner_lists: "lists_at d k ids \<Longrightarrow> find_owner d (length ids) k = Some (first_owner ids)"
proof (induction ids arbitrary: k)
  case (Cons i ids)
  obtain n where "field16 d (k + 10) = Some n" "lists_at d (k + n) ids"
    using Cons.prems by (cases i) (auto split: option.splits)
  with Cons.IH [of "k + n"] owner_identifier_at [OF Cons.prems] show ?case by simp
qed simp

lemma device_owner_lists:
  assumes "id_descriptor d ids"
  shows "device_owner d = Some (first_owner ids)"
  using assms find_owner_lists [of d 12 ids]
  by (auto simp: id_descriptor_def device_owner_def split: option.splits)

section \<open>The owner of a volume\<close>

text \<open>
  A volume of a unit: it can be opened for queries, and the answers to the two queries are the
  descriptors of what the driver says to an inquiry and to its identification page.
\<close>

definition volume_of :: "vol_system \<Rightarrow> wstr \<Rightarrow> ptr \<Rightarrow> SPD_STORAGE_UNIT \<Rightarrow> bool" where
  "volume_of vs Volume h u \<longleftrightarrow>
     vs_open vs Volume False = Inr h \<and>
     (case vs_query vs h StorageDeviceProperty of
        Inr out \<Rightarrow> device_descriptor (desc_buf out) (slice (inquiry_data u (replicate 36 0)) 8 8)
      | Inl _ \<Rightarrow> False) \<and>
     (case vs_query vs h StorageDeviceIdProperty of
        Inr out \<Rightarrow> id_descriptor (desc_buf out) (designators (drop 4 (vpd_identification u (replicate 84 0))))
      | Inl _ \<Rightarrow> False)"

lemma inquiry_vendor: "unit_sized u \<Longrightarrow> slice (inquiry_data u (replicate 36 0)) 8 8 = SPD_IOCTL_VENDOR_ID"
  by (simp add: inquiry_data_def Let_def buf_simps unit_sized_def)

lemma first_owner_page:
  "unit_sized u \<Longrightarrow> first_owner (designators (drop 4 (vpd_identification u (replicate 84 0)))) = Some (OwnerProcessId u)"
  by (simp add: designators_vpd id_owner_def owner_octets_def length_be get32_be32)

text \<open>The result of the owner's query does not depend on the handles, and it leaves them as they were.\<close>

abbreviation no_handles :: handles where "no_handles \<equiv> \<lparr>hs_open = {#}, hs_bad = []\<rparr>"

definition owner_result :: "vol_system \<Rightarrow> wstr \<Rightarrow> (u32 + u32) option" where
  "owner_result vs Volume = map_option fst (GetVolumeOwnerProcessId vs Volume no_handles)"

lemma GetVolumeOwner_result:
  "GetVolumeOwnerProcessId vs Volume s = map_option (\<lambda>r. (r, s)) (owner_result vs Volume)"
  by (simp add: owner_result_def GetVolumeOwnerProcessId_def option.map_comp o_def Let_def split: sum.splits)

definition dismount_result :: "vol_system \<Rightarrow> wstr \<Rightarrow> u32 + ptr" where
  "dismount_result vs Volume = fst (OpenAndDismountVolume vs Volume no_handles)"

lemma OpenAndDismount_result:
  "OpenAndDismountVolume vs Volume s =
     (dismount_result vs Volume, case dismount_result vs Volume of Inr h \<Rightarrow> open_handle h s | Inl _ \<Rightarrow> s)"
  by (simp add: dismount_result_def OpenAndDismountVolume_def Let_def split: sum.splits)

lemma owner_of_volume:
  assumes "unit_sized u" and "volume_of vs Volume h u"
  shows "GetVolumeOwnerProcessId vs Volume s = Some (Inr (OwnerProcessId u), s)"
  using assms by (auto simp: volume_of_def GetVolumeOwnerProcessId_def inquiry_vendor vendor_matches_text
      device_owner_lists first_owner_page Let_def split: sum.splits)

section \<open>Dismounting\<close>

lemma open_all: "fold open_handle hs s = s\<lparr>hs_open := hs_open s + mset hs\<rparr>"
  by (induction hs arbitrary: s) (simp_all add: open_handle_def)

lemma dismount_loop_Cons:
  "dismount_loop vs pid n (v # vols) hs d s =
     (if n \<le> length hs then Some (hs, d, s)
      else case owner_result vs (strip_backslash v) of
          None \<Rightarrow> None
        | Some r \<Rightarrow>
          if r \<noteq> Inr pid then dismount_loop vs pid n vols hs d s
          else (case dismount_result vs (strip_backslash v) of
              Inr h \<Rightarrow> dismount_loop vs pid n vols (hs @ [h]) d (open_handle h s)
            | Inl Error \<Rightarrow> dismount_loop vs pid n vols hs (if Error = ERROR_DEVICE_IN_USE then d + 1 else d) s))"
  by (simp add: GetVolumeOwner_result OpenAndDismount_result split: option.splits sum.splits)

declare dismount_loop.simps(2) [simp del]

lemma dismount_loop_state:
  "dismount_loop vs pid n vols hs d s = Some (hs', d', s') \<Longrightarrow>
   \<exists>new. hs' = hs @ new \<and> s' = fold open_handle new s \<and> (length hs \<le> n \<longrightarrow> length hs' \<le> n)"
proof (induction vols arbitrary: hs d s)
  case (Cons v vols)
  consider (full) "n \<le> length hs" "hs' = hs" "s' = s"
    | (skip) e where "dismount_loop vs pid n vols hs e s = Some (hs', d', s')"
    | (kept) h where "length hs < n" "dismount_loop vs pid n vols (hs @ [h]) d (open_handle h s) = Some (hs', d', s')"
    using Cons.prems by (fastforce simp: dismount_loop_Cons split: if_splits option.splits sum.splits)
  then show ?case
  proof cases
    case full
    then show ?thesis by simp
  next
    case skip
    then show ?thesis by (rule Cons.IH)
  next
    case kept
    obtain new where "hs' = (hs @ [h]) @ new" "s' = fold open_handle new (open_handle h s)" "length hs' \<le> n"
      using Cons.IH [OF kept(2)] kept(1) by auto
    then show ?thesis by (intro exI [of _ "h # new"]) simp
  qed
qed simp

lemma dismounted_state:
  assumes "OpenAndDismountVolumesForProcessId vs volumes pid n s = Some (e, hs, s')"
  shows "length hs \<le> n" and "s' = (if e = 0 then s\<lparr>hs_open := hs_open s + mset hs\<rparr> else s)"
proof -
  have "length hs \<le> n \<and> s' = (if e = 0 then s\<lparr>hs_open := hs_open s + mset hs\<rparr> else s)"
  proof (cases volumes)
    case (Inl e')
    then show ?thesis using assms by (simp add: OpenAndDismountVolumesForProcessId_def)
  next
    case (Inr vols)
    obtain d t where d: "dismount_loop vs pid n vols [] 0 s = Some (hs, d, t)"
      and e: "e = (if d = 0 then 0 else ERROR_DEVICE_IN_USE)"
      and s': "s' = (if e \<noteq> 0 then CloseHandles hs t else t)"
      using assms by (auto simp: OpenAndDismountVolumesForProcessId_def Inr Let_def bind_eq_Some_conv split: if_splits)
    from dismount_loop_state [OF d] have t: "t = s\<lparr>hs_open := hs_open s + mset hs\<rparr>" and "length hs \<le> n"
      by (auto simp: open_all)
    have "CloseHandles hs t = s" by (subst CloseHandles_open [of _ "hs_open s"]) (simp_all add: t)
    then show ?thesis using s' t \<open>length hs \<le> n\<close> by simp
  qed
  then show "length hs \<le> n" "s' = (if e = 0 then s\<lparr>hs_open := hs_open s + mset hs\<rparr> else s)" by auto
qed

text \<open>The results for the volumes that the process owns, and the handles among them.\<close>

definition own_results :: "vol_system \<Rightarrow> u32 \<Rightarrow> wstr list \<Rightarrow> (u32 + ptr) list" where
  "own_results vs pid vols =
     map (\<lambda>v. dismount_result vs (strip_backslash v))
       (filter (\<lambda>v. owner_result vs (strip_backslash v) = Some (Inr pid)) vols)"

definition kept :: "(u32 + ptr) list \<Rightarrow> ptr list" where
  "kept rs = concat (map (\<lambda>r. case r of Inr h \<Rightarrow> [h] | Inl _ \<Rightarrow> []) rs)"

lemma kept_simps [simp]: "kept [] = []" "kept (Inr h # rs) = h # kept rs" "kept (Inl e # rs) = kept rs"
  by (simp_all add: kept_def)

lemma own_results_simps [simp]:
  "own_results vs pid [] = []"
  "own_results vs pid (v # vols) =
     (if owner_result vs (strip_backslash v) = Some (Inr pid)
      then dismount_result vs (strip_backslash v) # own_results vs pid vols else own_results vs pid vols)"
  by (simp_all add: own_results_def)

lemma dismount_loop_own:
  assumes "\<forall>v \<in> set vols. owner_result vs (strip_backslash v) \<noteq> None"
    and "length hs + length (kept (own_results vs pid vols)) < n"
  shows "dismount_loop vs pid n vols hs d s =
    Some (hs @ kept (own_results vs pid vols),
          d + length (filter (\<lambda>r. r = Inl ERROR_DEVICE_IN_USE) (own_results vs pid vols)),
          fold open_handle (kept (own_results vs pid vols)) s)"
  using assms
proof (induction vols arbitrary: hs d s)
  case (Cons v vols)
  obtain r where r: "owner_result vs (strip_backslash v) = Some r" using Cons.prems(1) by auto
  show ?case
  proof (cases "r = Inr pid")
    case True
    then show ?thesis
      using r Cons.prems Cons.IH by (cases "dismount_result vs (strip_backslash v)") (auto simp: dismount_loop_Cons)
  qed (use r Cons.prems Cons.IH in \<open>auto simp: dismount_loop_Cons\<close>)
qed simp

lemma dismounts_own:
  assumes "\<forall>v \<in> set vols. owner_result vs (strip_backslash v) \<noteq> None"
    and "length (kept (own_results vs pid vols)) < n"
  defines "rs \<equiv> own_results vs pid vols"
  shows "OpenAndDismountVolumesForProcessId vs (Inr vols) pid n s =
    Some (if Inl ERROR_DEVICE_IN_USE \<in> set rs then ERROR_DEVICE_IN_USE else 0, kept rs,
          if Inl ERROR_DEVICE_IN_USE \<in> set rs then s else s\<lparr>hs_open := hs_open s + mset (kept rs)\<rparr>)"
proof -
  have "length (filter (\<lambda>r. r = Inl ERROR_DEVICE_IN_USE) rs) = 0 \<longleftrightarrow> Inl ERROR_DEVICE_IN_USE \<notin> set rs"
    by (auto simp: filter_empty_conv)
  moreover have "CloseHandles hs (s\<lparr>hs_open := hs_open s + mset hs\<rparr>) = s" for hs
    by (subst CloseHandles_open [of _ "hs_open s"]) simp_all
  ultimately show ?thesis
    using dismount_loop_own [OF assms(1), of "[]" pid n 0 s] assms(2)
    by (simp add: OpenAndDismountVolumesForProcessId_def rs_def open_all Let_def)
qed

section \<open>Killing an instance\<close>

lemma kill_of_dismount:
  assumes "OpenAndDismountVolumesForProcessId vs volumes pid 256 s = Some (e, hs, t)"
  shows "kill_handles vs volumes allocated pid None Forced s =
    Some (if e = 0 \<and> hs \<noteq> [] \<and> allocated then (e, Some hs, True, t)
          else (e, None, e = 0 \<or> Forced, CloseHandles hs t))"
  by (simp add: kill_handles_def assms CloseHandles_def)

section \<open>A system with volumes\<close>

text \<open>Descriptors that list given identifiers, and a system that answers with them for two volumes of a unit.\<close>

definition le16 :: "nat \<Rightarrow> bytes" where "le16 n = [word_of_nat (n mod 256), word_of_nat (n div 256)]"

fun id_record :: "designator \<Rightarrow> bytes" where
  "id_record (c, t, a, bs) =
     le32 (ucast c) @ le32 (ucast t) @ le16 (length bs) @ le16 (16 + length bs) @ le32 (ucast a) @ bs"

lemma slice_at [simp]: "slice (pre @ x @ rest) (length pre) (length x) = x"
  by (simp add: slice_def)

lemma field32_at: "k = length pre \<Longrightarrow> field32 (pre @ le32 w @ rest) k = Some w"
  using slice_at [of pre "le32 w" rest] by (simp add: field32_def length_le l32.dec_enc)

lemma field16_at: "k = length pre \<Longrightarrow> n < 65536 \<Longrightarrow> field16 (pre @ le16 n @ rest) k = Some n"
proof -
  assume "k = length pre" "n < 65536"
  moreover from this have "n div 256 < 256" by (simp add: less_mult_imp_div_less)
  ultimately show ?thesis
    by (simp add: field16_def le16_def nth_append unsigned_of_nat take_bit_eq_mod)
qed

lemma lists_at_records:
  assumes "\<forall>(c, t, a, bs) \<in> set ids. length bs < 1000"
  shows "lists_at (pre @ concat (map id_record ids) @ post) (length pre) ids"
  using assms
proof (induction ids arbitrary: pre)
  case (Cons i ids)
  obtain c t a bs where i: "i = (c, t, a, bs)" by (cases i)
  let ?R = "concat (map id_record ids) @ post"
  let ?d = "pre @ id_record i @ ?R"
  have bs: "length bs < 1000" using Cons.prems by (simp add: i)
  have f: "field32 ?d (length pre) = Some (ucast c)" "field32 ?d (length pre + 4) = Some (ucast t)"
    "field32 ?d (length pre + 12) = Some (ucast a)"
    "field16 ?d (length pre + 8) = Some (length bs)" "field16 ?d (length pre + 10) = Some (16 + length bs)"
    using bs
    field32_at [of _ pre "ucast c" "le32 (ucast t) @ le16 (length bs) @ le16 (16 + length bs) @ le32 (ucast a) @ bs @ ?R"]
    field32_at [of _ "pre @ le32 (ucast c)" "ucast t" "le16 (length bs) @ le16 (16 + length bs) @ le32 (ucast a) @ bs @ ?R"]
    field32_at [of _ "pre @ le32 (ucast c) @ le32 (ucast t) @ le16 (length bs) @ le16 (16 + length bs)" "ucast a" "bs @ ?R"]
    field16_at [of _ "pre @ le32 (ucast c) @ le32 (ucast t)" "length bs" "le16 (16 + length bs) @ le32 (ucast a) @ bs @ ?R"]
    field16_at [of _ "pre @ le32 (ucast c) @ le32 (ucast t) @ le16 (length bs)" "16 + length bs" "le32 (ucast a) @ bs @ ?R"]
    by (simp_all add: i codec_simps le16_def)
  have len: "length (id_record i) = 16 + length bs" by (simp add: i codec_simps le16_def)
  have s: "slice ?d (length pre + 16) (length bs) = bs"
    using slice_at [of "pre @ le32 (ucast c) @ le32 (ucast t) @ le16 (length bs) @ le16 (16 + length bs) @ le32 (ucast a)" bs ?R]
    by (simp add: i codec_simps le16_def)
  have "lists_at ((pre @ id_record i) @ ?R) (length (pre @ id_record i)) ids"
    using Cons.IH [of "pre @ id_record i"] Cons.prems by simp
  then show ?case using f s len by (simp add: i add_ac del: id_record.simps)
qed simp

lemma desc_buf_pad: "length out \<le> 1024 \<Longrightarrow> desc_buf out = out @ replicate (1024 - length out) 0"
  by (simp add: desc_buf_def splice_def)

definition demo_device_out :: bytes where
  "demo_device_out = le32 0 @ le32 29 @ le32 0 @ le32 20 @ le32 0 @ SPD_IOCTL_VENDOR_ID @ [0]"

definition demo_id_out :: bytes where
  "demo_id_out = le32 0 @ le32 116 @ le32 2 @
     concat (map id_record (designators (drop 4 (vpd_identification demo_unit (replicate 84 0)))))"

text \<open>The volumes \<open>A\<close> and \<open>B\<close>; \<open>B\<close> cannot be locked.\<close>

definition demo_volumes :: vol_system where
  "demo_volumes =
     \<lparr>vs_open = (\<lambda>v rw. if v = [0x41] then Inr (if rw then 0x20 else 0x10)
                else if v = [0x42] then Inr (if rw then 0x24 else 0x14) else Inl ERROR_FILE_NOT_FOUND),
      vs_query = (\<lambda>h q. Inr (if q = StorageDeviceProperty then demo_device_out else demo_id_out)),
      vs_lock = (\<lambda>h. if h = 0x24 then ERROR_ACCESS_DENIED else 0), vs_dismount = (\<lambda>h. 0)\<rparr>"

lemma demo_volume_of:
  assumes "v = [0x41] \<and> h = 0x10 \<or> v = [0x42] \<and> h = 0x14"
  shows "volume_of demo_volumes v h demo_unit"
proof -
  note u = demo_unit_sized
  have names: "length (name_octets demo_unit) = 64" "length (owner_octets demo_unit) = 8"
    using u by (simp_all add: name_octets_def owner_octets_def unit_sized_def codec_simps)
  let ?ids = "designators (drop 4 (vpd_identification demo_unit (replicate 84 0)))"
  have ids: "?ids = [(2, 1, 0, name_octets demo_unit), (1, 0, 0, owner_octets demo_unit)]" by (rule designators_vpd [OF u])
  have ld: "length demo_id_out \<le> 1024" "length demo_device_out \<le> 1024"
    by (simp_all add: demo_id_out_def demo_device_out_def ids codec_simps names le16_def)
  have "lists_at (desc_buf demo_id_out) 12 ?ids"
    using lists_at_records [of ?ids "le32 0 @ le32 116 @ le32 2"] ld names
    by (simp add: desc_buf_pad demo_id_out_def ids codec_simps)
  moreover have "field32 (desc_buf demo_id_out) 4 = Some 116" "field32 (desc_buf demo_id_out) 8 = Some 2"
    using field32_at [of 4 "le32 0" 116] field32_at [of 8 "le32 0 @ le32 116" 2] ld
    by (simp_all add: desc_buf_pad demo_id_out_def codec_simps)
  ultimately have id: "id_descriptor (desc_buf demo_id_out) ?ids" by (simp add: id_descriptor_def ids)
  have "field32 (desc_buf demo_device_out) 4 = Some 29" "field32 (desc_buf demo_device_out) 12 = Some 20"
    using field32_at [of 4 "le32 0" 29] field32_at [of 12 "le32 0 @ le32 29 @ le32 0" 20] ld
    by (simp_all add: desc_buf_pad demo_device_out_def codec_simps)
  moreover have "slice (desc_buf demo_device_out) 20 8 = SPD_IOCTL_VENDOR_ID" "length (desc_buf demo_device_out) = 1024"
    "desc_buf demo_device_out ! 28 = 0"
    using slice_at [of "le32 0 @ le32 29 @ le32 0 @ le32 20 @ le32 0" SPD_IOCTL_VENDOR_ID] ld
    by (simp_all add: desc_buf_pad demo_device_out_def codec_simps nth_append)
  ultimately have "device_descriptor (desc_buf demo_device_out) SPD_IOCTL_VENDOR_ID"
    by (simp add: device_descriptor_def)
  with id show ?thesis using assms by (auto simp: volume_of_def demo_volumes_def inquiry_vendor [OF u])
qed

section \<open>The properties\<close>

text \<open>C26: The launcher finds the owner of a unit. On a volume of a storage unit, the query of the launcher yields the process
  that the driver has recorded as the unit's owner and written into its identification page, with or without
  the mark for ejecting; the handle that it opens for this is closed again.\<close>

theorem volume_owner_is_unit_owner:
  assumes "unit_sized u" and "volume_of vs Volume h u"
  shows "GetVolumeOwnerProcessId vs Volume s = Some (Inr (OwnerProcessId u), s)"
  by (rule owner_of_volume [OF assms])

theorem volume_owner_is_unit_owner_witness:
  "GetVolumeOwnerProcessId demo_volumes [0x41] no_handles = Some (Inr 7, no_handles)"
proof -
  have "volume_of demo_volumes [0x41] 0x10 demo_unit" by (rule demo_volume_of) simp
  from volume_owner_is_unit_owner [OF demo_unit_sized this] show ?thesis by (simp add: demo_unit_def init_unit_def)
qed

text \<open>
  The volumes of a system: some are volumes of units of the driver, the others are not known to it and their query
  ends with an error.
\<close>

definition volumes_known :: "vol_system \<Rightarrow> (wstr \<Rightarrow> (ptr \<times> SPD_STORAGE_UNIT) option) \<Rightarrow> wstr list \<Rightarrow> bool" where
  "volumes_known vs unit_on vols \<longleftrightarrow>
     (\<forall>v \<in> set vols. case unit_on (strip_backslash v) of
        Some (h, u) \<Rightarrow> unit_sized u \<and> volume_of vs (strip_backslash v) h u
      | None \<Rightarrow> (\<exists>e. owner_result vs (strip_backslash v) = Some (Inl e)))"

lemma volumes_known_owner:
  assumes "volumes_known vs unit_on vols" and "v \<in> set vols"
  shows "owner_result vs (strip_backslash v) \<noteq> None"
    and "owner_result vs (strip_backslash v) = Some (Inr pid) \<longleftrightarrow>
      (case unit_on (strip_backslash v) of Some (h, u) \<Rightarrow> OwnerProcessId u = pid | None \<Rightarrow> False)"
  using assms owner_of_volume [of _ vs "strip_backslash v" _ no_handles]
  by (auto simp: volumes_known_def owner_result_def split: option.splits prod.splits dest!: bspec)


definition demo_unit_on :: "wstr \<Rightarrow> (ptr \<times> SPD_STORAGE_UNIT) option" where
  "demo_unit_on v = (if v = [0x41] then Some (0x10, demo_unit) else if v = [0x42] then Some (0x14, demo_unit) else None)"

abbreviation demo_vols :: "wstr list" where "demo_vols \<equiv> [[0x41, 0x5c], [0x43, 0x5c], [0x42, 0x5c]]"

lemma demo_strip: "strip_backslash [c, 0x5c] = [c]"
  by (simp add: strip_backslash_def backslash_def)

lemma demo_known: "volumes_known demo_volumes demo_unit_on vols" if "set vols \<subseteq> set demo_vols"
proof -
  have o: "owner_result demo_volumes [0x43] = Some (Inl ERROR_FILE_NOT_FOUND)"
    by (simp add: owner_result_def GetVolumeOwnerProcessId_def demo_volumes_def)
  have "volume_of demo_volumes [0x41] 0x10 demo_unit" "volume_of demo_volumes [0x42] 0x14 demo_unit"
    by (rule demo_volume_of, simp)+
  then show ?thesis using that o
    by (fastforce simp: volumes_known_def demo_strip demo_unit_on_def demo_unit_sized)
qed

lemma demo_dismount:
  "dismount_result demo_volumes [0x41] = Inr 0x20" "dismount_result demo_volumes [0x42] = Inl ERROR_DEVICE_IN_USE"
  "OwnerProcessId demo_unit = 7"
  by (simp_all add: dismount_result_def OpenAndDismountVolume_def demo_volumes_def demo_unit_def init_unit_def)


text \<open>The same systems for the kill: without the volume that is in use, and with it.\<close>

lemma demo_owners:
  "owner_result demo_volumes [0x41] = Some (Inr 7)" "owner_result demo_volumes [0x42] = Some (Inr 7)"
  "owner_result demo_volumes [0x43] = Some (Inl ERROR_FILE_NOT_FOUND)"
proof -
  have "volume_of demo_volumes [0x41] 0x10 demo_unit" "volume_of demo_volumes [0x42] 0x14 demo_unit"
    by (rule demo_volume_of, simp)+
  then show "owner_result demo_volumes [0x41] = Some (Inr 7)" "owner_result demo_volumes [0x42] = Some (Inr 7)"
    by (simp_all add: owner_result_def owner_of_volume [OF demo_unit_sized] demo_dismount)
  show "owner_result demo_volumes [0x43] = Some (Inl ERROR_FILE_NOT_FOUND)"
    by (simp add: owner_result_def GetVolumeOwnerProcessId_def demo_volumes_def)
qed

lemma demo_opened:
  "OpenAndDismountVolumesForProcessId demo_volumes (Inr [[0x41, 0x5c]]) 7 256 no_handles =
     Some (ERROR_SUCCESS, [0x20], \<lparr>hs_open = {#0x20#}, hs_bad = []\<rparr>)"
  "OpenAndDismountVolumesForProcessId demo_volumes (Inr demo_vols) 7 256 no_handles =
     Some (ERROR_DEVICE_IN_USE, [0x20], no_handles)"
  by (simp_all add: OpenAndDismountVolumesForProcessId_def dismount_loop_Cons demo_strip demo_owners demo_dismount
      open_handle_def CloseHandles_def CloseHandle_def)

text \<open>The kill with handles is the one of the request routines, with the error and the number of the dismounting.\<close>

lemma kill_of_request:
  assumes "OpenAndDismountVolumesForProcessId vs volumes ProcessId 256 s = Some (e, hs, t)"
    and "kill_handles vs volumes allocated ProcessId VolumeHandles Forced s = Some (Error, VolumeHandles', ended, s')"
    and "svc_VolumeHandles i = (VolumeHandles \<noteq> None)" and "\<not> svc_Killed i"
  shows "SvcInstanceKill (e, length hs, allocated) Forced i =
    (Error, i\<lparr>svc_VolumeHandles := (VolumeHandles' \<noteq> None), svc_Killed := ended\<rparr>)"
proof (cases VolumeHandles)
  case (Some h)
  then show ?thesis using assms(2-4) by (cases i) (auto simp: kill_handles_def SvcInstanceKill_def Let_def)
next
  case None
  note k = assms(2) [unfolded None kill_of_dismount [OF assms(1)]]
  show ?thesis using k assms(3,4) None by (cases i) (auto simp: SvcInstanceKill_def Let_def split: if_splits)
qed

text \<open>C28: A kill accounts for every handle. When the dismounting succeeds, the handles that the kill leaves open are those that the
  instance now holds: releasing the instance leaves the handles as releasing it before the kill would have,
  so nothing leaks and nothing is closed twice, with or without memory for the handles; the process is ended; and an
  instance that holds handles is not dismounted again.\<close>

theorem kill_accounts_for_handles:
  assumes "kill_handles vs volumes allocated ProcessId VolumeHandles Forced s = Some (ERROR_SUCCESS, VolumeHandles', ended, s')"
  shows "release_handles VolumeHandles' s' = release_handles VolumeHandles s \<and> ended \<and>
    (VolumeHandles \<noteq> None \<longrightarrow> VolumeHandles' = VolumeHandles \<and> s' = s)"
proof (cases VolumeHandles)
  case (Some hs)
  then show ?thesis using assms by (simp add: kill_handles_def CloseHandles_def)
next
  case None
  obtain e hs t where d: "OpenAndDismountVolumesForProcessId vs volumes ProcessId 256 s = Some (e, hs, t)"
    using assms by (auto simp: kill_handles_def None bind_eq_Some_conv)
  note k = assms [unfolded None kill_of_dismount [OF d]]
  then have e: "e = 0" and ended by (auto split: if_splits)
  then have "CloseHandles hs t = s"
    using dismounted_state(2) [OF d] by (subst CloseHandles_open [of _ "hs_open s"]) simp_all
  with k e None \<open>ended\<close> show ?thesis by (auto simp: release_handles_def split: if_splits)
qed

theorem kill_accounts_for_handles_witness:
  "kill_handles demo_volumes (Inr [[0x41, 0x5c]]) True 7 None False no_handles =
     Some (ERROR_SUCCESS, Some [0x20], True, \<lparr>hs_open = {#0x20#}, hs_bad = []\<rparr>) \<and>
   release_handles (Some [0x20]) \<lparr>hs_open = {#0x20#}, hs_bad = []\<rparr> = no_handles"
proof -
  have h: "kill_handles demo_volumes (Inr [[0x41, 0x5c]]) True 7 None False no_handles =
     Some (ERROR_SUCCESS, Some [0x20], True, \<lparr>hs_open = {#0x20#}, hs_bad = []\<rparr>)"
    by (simp add: kill_of_dismount [OF demo_opened(1)])
  show ?thesis using kill_accounts_for_handles [OF h] h by (auto simp: release_handles_def)
qed

text \<open>C29: A kill that fails closes its handles twice. When some volume of the process is in use, the handles of the volumes that were
  dismounted before are closed by the routine that has opened them, but it also leaves them and their number in
  the array of the caller, which closes them again: every one of these handles is closed once more when it is not open,
  unless the number has been given to another handle meanwhile.\<close>

theorem failed_kill_closes_twice:
  assumes "OpenAndDismountVolumesForProcessId vs volumes ProcessId 256 s = Some (Error, hs, t)" and "Error \<noteq> ERROR_SUCCESS"
    and "set hs \<inter> set_mset (hs_open s) = {}"
  shows "t = s \<and> kill_handles vs volumes allocated ProcessId None Forced s =
    Some (Error, None, Forced, s\<lparr>hs_bad := hs_bad s @ hs\<rparr>)"
proof -
  have "t = s" using dismounted_state(2) [OF assms(1)] assms(2) by simp
  moreover have "CloseHandles hs s = s\<lparr>hs_bad := hs_bad s @ hs\<rparr>" using assms(3) by (intro CloseHandles_bad) blast
  ultimately show ?thesis using kill_of_dismount [OF assms(1), of allocated Forced] assms(2) by simp
qed

theorem failed_kill_closes_twice_witness:
  "kill_handles demo_volumes (Inr demo_vols) True 7 None False no_handles =
     Some (ERROR_DEVICE_IN_USE, None, False, \<lparr>hs_open = {#}, hs_bad = [0x20]\<rparr>)"
  using failed_kill_closes_twice [OF demo_opened(2), of True False] by simp

end
