(* ===== verification/LaunchServer_Props.thy ===== *)
theory LaunchServer_Props
  imports LaunchServer LaunchSystem_Props
begin

text \<open>
  The service of the launcher: the server carries out the requests in the order in which they come, each with the token of its
  client, and closes what it opens; it ends when it is told to; what it reports at its start; and the one turn after
  which the thread keeps the identity of a client.
\<close>

section \<open>One turn\<close>

text \<open>A turn that comes to its client's token, and the request of a turn that comes to one.\<close>

definition heard :: "'sd turn \<Rightarrow> bool" where
  "heard t \<longleftrightarrow> fst (SvcPipeWaitResult (t_connect t)) \<in> {0, ERROR_PIPE_CONNECTED, ERROR_NO_DATA} \<and>
     fst (SvcPipeWaitResult (t_read t)) = 0 \<and> 2 \<le> snd (SvcPipeWaitResult (t_read t))"

definition turn_request :: "'sd turn \<Rightarrow> wstr option" where
  "turn_request t =
     (if heard t \<and> t_impersonate t \<and> t_token t \<noteq> 0 \<and> t_revert t
      then Some (take (snd (SvcPipeWaitResult (t_read t)) div 2) (t_buffer t)) else None)"

text \<open>What the server has to do with the requests, one after the other.\<close>

fun process :: "'sd turn list \<Rightarrow> 'sd launcher \<Rightarrow> (wstr list \<times> 'sd launcher) option" where
  "process [] l = Some ([], l)"
| "process (t # ts) l =
     (case turn_request t of
        None \<Rightarrow> process ts l
      | Some msg \<Rightarrow> do {
          (answer, l) \<leftarrow> SvcPipeTransact (t_system t) (t_dismount t) (t_token t) msg l;
          (answers, l) \<leftarrow> process ts l;
          Some (if fst (SvcPipeWaitResult (t_write t)) = 0 then answer # answers else answers, l)
        })"

lemmas turn_defs = serve_turn_def client_token_def serve_request_def DisconnectNamedPipe_def SpdServiceLog_def close_token_def
  heard_def turn_request_def

text \<open>A turn after which the loop goes on.\<close>

lemma turn_goes_on:
  assumes "serve_turn t s = Some (True, s')" and "0 \<notin># hs_open (sv_tokens s)"
  obtains (unserved) "turn_request t = None" "sv_launcher s' = sv_launcher s" "sv_answers s' = sv_answers s"
      "hs_open (sv_tokens s') = hs_open (sv_tokens s)" "sv_connected s' \<longrightarrow> sv_connected s"
  | (served) msg a l where "turn_request t = Some msg"
      "SvcPipeTransact (t_system t) (t_dismount t) (t_token t) msg (sv_launcher s) = Some (a, l)" "sv_launcher s' = l"
      "sv_answers s' = sv_answers s @ (if fst (SvcPipeWaitResult (t_write t)) = 0 then [a] else [])"
      "hs_open (sv_tokens s') = hs_open (sv_tokens s)" "\<not> sv_connected s'"
proof (cases "turn_request t")
  case None
  have "sv_launcher s' = sv_launcher s \<and> sv_answers s' = sv_answers s \<and>
      hs_open (sv_tokens s') = hs_open (sv_tokens s) \<and> (sv_connected s' \<longrightarrow> sv_connected s)"
    using assms None
    by (auto simp: turn_defs CloseHandle_def Let_def split: if_splits prod.splits)
  with None that(1) show ?thesis by blast
next
  case (Some msg)
  then obtain a l where t: "SvcPipeTransact (t_system t) (t_dismount t) (t_token t) msg (sv_launcher s) = Some (a, l)"
    using assms(1) by (auto simp: turn_defs Let_def bind_eq_Some_conv split: if_splits prod.splits)
  have "sv_launcher s' = l \<and> sv_answers s' = sv_answers s @ (if fst (SvcPipeWaitResult (t_write t)) = 0 then [a] else []) \<and>
      hs_open (sv_tokens s') = hs_open (sv_tokens s) \<and> \<not> sv_connected s'"
    using assms(1) Some t
    by (auto simp: turn_defs Let_def bind_eq_Some_conv split: if_splits prod.splits)
  with Some t that(2) show ?thesis by blast
qed

lemma serve_goes_on:
  "serve ts s = Some (True, s') \<Longrightarrow> 0 \<notin># hs_open (sv_tokens s) \<Longrightarrow>
   \<exists>as. process ts (sv_launcher s) = Some (as, sv_launcher s') \<and> sv_answers s' = sv_answers s @ as \<and>
     hs_open (sv_tokens s') = hs_open (sv_tokens s) \<and> (sv_connected s' \<longrightarrow> sv_connected s)"
proof (induction ts arbitrary: s)
  case (Cons t ts)
  obtain s1 where t: "serve_turn t s = Some (True, s1)" and r: "serve ts s1 = Some (True, s')"
    using Cons.prems(1) by (auto simp: bind_eq_Some_conv split: if_splits)
  from t Cons.prems(2) show ?case
  proof (cases rule: turn_goes_on)
    case unserved
    then show ?thesis using Cons.IH [OF r] Cons.prems(2) by auto
  next
    case (served msg a l)
    then show ?thesis using Cons.IH [OF r] Cons.prems(2) by auto
  qed
qed simp

section \<open>A service to try it on\<close>

abbreviation io_ok :: "nat \<Rightarrow> pipe_io" where
  "io_ok n \<equiv> \<lparr>io_success = False, io_error = ERROR_IO_PENDING, io_wait = Wait_done, io_result = Inr n\<rparr>"

definition idle_launcher :: "unit launcher" where "idle_launcher = \<lparr>svc_list = [], svc_registry = [], svc_event = True\<rparr>"

definition idle_system :: "unit svc_system" where
  "idle_system = \<lparr>sys_class = (\<lambda>_. Inl ERROR_FILE_NOT_FOUND), sys_convert = (\<lambda>_. Inr ()), sys_to_string = (\<lambda>_. Inr []),
     sys_access = (\<lambda>_ _ _. 0), sys_add_rights = (\<lambda>_ _. Inr ()), sys_allocated = True, sys_process = (\<lambda>_ _. Inr 9), sys_wait = 0\<rparr>"

definition list_turn :: "unit turn" where
  "list_turn = \<lparr>t_connect = io_ok 0, t_read = io_ok 2, t_buffer = [SpdLaunchCmdGetNameList, 0], t_impersonate = True, t_token = 4,
     t_revert = True, t_system = idle_system, t_dismount = (0, 0, True), t_write = io_ok 2\<rparr>"

definition idle_server :: "unit server" where
  "idle_server = \<lparr>sv_launcher = idle_launcher, sv_connected = False, sv_impersonating = False, sv_tokens = no_handles,
     sv_answers = [], sv_log = []\<rparr>"

lemmas demo_service = list_turn_def idle_server_def SvcPipeWaitResult_def

lemma list_request: "SvcPipeTransact sys d tok [SpdLaunchCmdGetNameList] idle_launcher = Some ([SpdLaunchCmdSuccess], idle_launcher)"
  by (simp add: SvcPipeTransact_def SvcPipeTransactResult_def SvcInstanceGetNameList_def idle_launcher_def)

lemma list_served:
  "serve_turn list_turn idle_server = Some (True, idle_server\<lparr>sv_answers := [[SpdLaunchCmdSuccess]]\<rparr>)"
  by (simp add: turn_defs demo_service list_request Let_def)

lemma forced_kill [simp]: "svc_Killed (snd (SvcInstanceKill d True i))"
  by (cases d) (simp add: SvcInstanceKill_def Let_def)

section \<open>The properties\<close>

text \<open>C30: The server carries out the requests in order. As long as the server goes on, whatever fails on the way, the
  instances are what the requests of the turns that come to one make of them, one after the other and each with the token
  of its own client, and the answers are those of the requests whose answer can be written, in this order. No token stays open,
  and no client stays connected.\<close>

theorem server_serves_in_order:
  assumes "serve ts s = Some (True, s')" and "0 \<notin># hs_open (sv_tokens s)" and "\<not> sv_connected s"
  shows "\<exists>answers. process ts (sv_launcher s) = Some (answers, sv_launcher s') \<and> sv_answers s' = sv_answers s @ answers \<and>
    hs_open (sv_tokens s') = hs_open (sv_tokens s) \<and> \<not> sv_connected s'"
  using serve_goes_on [OF assms(1,2)] assms(3) by blast

theorem server_serves_in_order_witness:
  "process [list_turn] idle_launcher = Some ([[SpdLaunchCmdSuccess]], idle_launcher)"
proof -
  have r: "serve [list_turn] idle_server = Some (True, idle_server\<lparr>sv_answers := [[SpdLaunchCmdSuccess]]\<rparr>)"
    by (simp add: list_served)
  from server_serves_in_order [OF r] show ?thesis by (auto simp: idle_server_def)
qed

text \<open>C31: A stop ends the service. When the control handler has set the stop event, so that the waits return for it, the turn that
  waits for a client, or for the message of one that is connected already, is the last: every instance is
  killed, dismounting or not, no request is carried out any more, and the service, which has reported that it will stop, reports
  that it has stopped, without an error.\<close>

theorem stop_ends_server:
  assumes "serve before s = Some (True, s1)"
    and "SvcCtrlHandler Control = (Error, pending, True)"
    and "io_wait (t_connect t) = Wait_stop" and "io_wait (t_read t) = Wait_stop"
    and "io_success (t_connect t) \<or> io_error (t_connect t) = ERROR_IO_PENDING \<or>
      io_error (t_connect t) \<in> {ERROR_PIPE_CONNECTED, ERROR_NO_DATA} \<and>
      (io_success (t_read t) \<or> io_error (t_read t) = ERROR_IO_PENDING)"
  shows "map_option dwCurrentState pending = Some STOP_PENDING \<and>
    (\<exists>s2. SvcPipeServer True dismounts (before @ t # after) s = Some (Some (service_stopped 0), s2) \<and>
      sv_answers s2 = sv_answers s1 \<and> length (svc_list (sv_launcher s2)) = length (svc_list (sv_launcher s1)) \<and>
      (\<forall>i \<in> set (svc_list (sv_launcher s2)). svc_Killed i))"
proof -
  have app: "serve (before @ us) s = serve us s1" for us
    using assms(1) by (induction before arbitrary: s) (auto simp: bind_eq_Some_conv split: if_splits)
  have "\<exists>s2. serve_turn t s1 = Some (False, s2) \<and> sv_launcher s2 = sv_launcher s1 \<and> sv_answers s2 = sv_answers s1"
    using assms(3-5) by (auto simp: serve_turn_def SvcPipeWaitResult_def Let_def)
  then have "\<exists>s2. SvcPipeServer True dismounts (before @ t # after) s = Some (Some (service_stopped 0), s2) \<and>
      sv_answers s2 = sv_answers s1 \<and> length (svc_list (sv_launcher s2)) = length (svc_list (sv_launcher s1)) \<and>
      (\<forall>i \<in> set (svc_list (sv_launcher s2)). svc_Killed i)"
    by (auto simp: SvcPipeServer_def app SvcInstanceStopAndWaitAll_def)
  moreover have "map_option dwCurrentState pending = Some STOP_PENDING"
    using assms(2) by (auto simp: SvcCtrlHandler_def split: if_splits)
  ultimately show ?thesis by blast
qed

theorem stop_ends_server_witness:
  "\<exists>s2. SvcPipeServer True (\<lambda>_. (ERROR_DEVICE_IN_USE, 0, True))
     [list_turn, list_turn\<lparr>t_connect := (io_ok 0)\<lparr>io_wait := Wait_stop\<rparr>, t_read := (io_ok 0)\<lparr>io_wait := Wait_stop\<rparr>\<rparr>] idle_server =
     Some (Some (service_stopped 0), s2) \<and> sv_answers s2 = [[SpdLaunchCmdSuccess]]"
proof -
  have r: "serve [list_turn] idle_server = Some (True, idle_server\<lparr>sv_answers := [[SpdLaunchCmdSuccess]]\<rparr>)"
    by (simp add: list_served)
  have c: "SvcCtrlHandler SERVICE_CONTROL_STOP = (0, Some \<lparr>dwCurrentState = STOP_PENDING, dwControlsAccepted = 0,
      dwWin32ExitCode = ERROR_SUCCESS, dwCheckPoint = 1, dwWaitHint = LAUNCHER_STOP_TIMEOUT\<rparr>, True)"
    by (simp add: SvcCtrlHandler_def)
  show ?thesis
    using stop_ends_server [OF r c, of "list_turn\<lparr>t_connect := (io_ok 0)\<lparr>io_wait := Wait_stop\<rparr>, t_read := (io_ok 0)\<lparr>io_wait := Wait_stop\<rparr>\<rparr>"
      "\<lambda>_. (ERROR_DEVICE_IN_USE, 0, True)" "[]"] by auto
qed

text \<open>C32: When the thread keeps the identity of a client. A thread with the identity of the service takes part in a turn and goes
  on with the identity of a client exactly when it could take on the identity but could not open the token: this
  path does not return to the service's own identity, and it closes the handle 0.\<close>

theorem failed_token_keeps_identity:
  assumes "serve_turn t s = Some (True, s')" and "\<not> sv_impersonating s" and "0 \<notin># hs_open (sv_tokens s)"
  shows "sv_impersonating s' = (heard t \<and> t_impersonate t \<and> t_token t = 0) \<and>
    (sv_impersonating s' \<longrightarrow> hs_bad (sv_tokens s') = hs_bad (sv_tokens s) @ [0])"
  using assms
  by (auto simp: turn_defs CloseHandle_def Let_def bind_eq_Some_conv split: if_splits prod.splits)

theorem failed_token_keeps_identity_witness:
  "\<exists>s'. serve_turn (list_turn\<lparr>t_token := 0\<rparr>) idle_server = Some (True, s') \<and> sv_impersonating s' \<and> hs_bad (sv_tokens s') = [0]"
proof -
  obtain s' where t: "serve_turn (list_turn\<lparr>t_token := 0\<rparr>) idle_server = Some (True, s')"
    by (simp add: turn_defs demo_service Let_def)
  have h: "heard (list_turn\<lparr>t_token := 0\<rparr>)" by (simp add: heard_def demo_service)
  from failed_token_keeps_identity [OF t] h show ?thesis using t by (auto simp: idle_server_def list_turn_def)
qed

abbreviation needed :: "resource list" where
  "needed \<equiv> [Res_descriptor, Res_instance_event, Res_stop_event, Res_io_event, Res_pipe, Res_thread]"

lemma acquire_all: "acquire fails rs held = (None, held') \<longleftrightarrow> (\<forall>r \<in> set rs. fails r = None) \<and> held' = held @ rs"
  by (induction rs arbitrary: held) (auto split: option.splits)

lemma acquire_fails: "acquire fails rs held = (Some Error, held') \<Longrightarrow> \<exists>r \<in> set rs. fails r = Some Error"
  by (induction rs arbitrary: held) (auto split: option.splits)

lemma SvcOnStart_cases:
  assumes "SvcOnStart fails limits sys l = Some (Error, held, l')" and "\<forall>r. fails r \<noteq> Some ERROR_SUCCESS"
  obtains (started) "\<forall>r \<in> set needed. fails r = None" "Error = ERROR_SUCCESS"
      "set held = set needed - {Res_descriptor} \<union> (if fails Res_job = None \<and> limits then {Res_job} else {})"
      "SvcInstanceStartAllPersistent sys l = Some l'"
  | (failed) r where "r \<in> set needed" "fails r = Some Error" "Error \<noteq> ERROR_SUCCESS" "l' = l" "Res_descriptor \<notin> set held"
proof -
  obtain x1 h1 where a: "acquire fails [Res_descriptor, Res_instance_event] [] = (x1, h1)" by fastforce
  define h where "h = (if fails Res_job = None \<and> limits then h1 @ [Res_job] else h1)"
  obtain x2 h2 where b: "acquire fails [Res_stop_event, Res_io_event, Res_pipe, Res_thread] h = (x2, h2)" by fastforce
  note run = assms(1) [unfolded SvcOnStart_def a prod.case]
  consider (first) e where "x1 = Some e" | (second) e where "x1 = None" "x2 = Some e" | (none) "x1 = None" "x2 = None"
    by (cases x1; cases x2) auto
  then show thesis
  proof cases
    case first
    with acquire_fails [OF a [unfolded first]] obtain r where "r \<in> set needed" "fails r = Some e" by auto
    moreover have "Error = e" "l' = l" "Res_descriptor \<notin> set held" using run first by auto
    ultimately show thesis using failed assms(2) by blast
  next
    case second
    with acquire_fails [OF b [unfolded second]] obtain r where "r \<in> set needed" "fails r = Some e" by auto
    moreover have "Error = e" "l' = l" "Res_descriptor \<notin> set held"
      using run second by (auto simp: h_def [symmetric] b Let_def simp del: acquire.simps)
    ultimately show thesis using failed assms(2) by blast
  next
    case none
    have s: "Error = ERROR_SUCCESS" "SvcInstanceStartAllPersistent sys l = Some l'" "held = removeAll Res_descriptor h2"
      using run none by (auto simp: h_def [symmetric] b Let_def simp del: acquire.simps)
    from a b have "h1 = [Res_descriptor, Res_instance_event]" "h2 = h @ [Res_stop_event, Res_io_event, Res_pipe, Res_thread]"
      "\<forall>r \<in> set needed. fails r = None"
      unfolding none acquire_all by auto
    then show thesis using s by (intro started) (auto simp: h_def)
  qed
qed

text \<open>C33: What the service reports at its start. It reports that it starts, and then that it runs, and accepts a stop and no other control,
  exactly when everything that it needs could be acquired; the job is not needed. Otherwise it reports that it has stopped, and
  has started no instance; but the exit code of this report is 0 although there was an error.\<close>

theorem service_start_reports:
  assumes "SvcEntry True fails limits sys l = Some (reports, held, l')" and "\<forall>r. fails r \<noteq> Some ERROR_SUCCESS"
  shows "map dwCurrentState reports = [START_PENDING, if \<forall>r \<in> set needed. fails r = None then RUNNING else STOPPED] \<and>
    map dwControlsAccepted reports = [0, if \<forall>r \<in> set needed. fails r = None then SERVICE_ACCEPT_STOP else 0] \<and>
    map dwWin32ExitCode reports = [0, 0] \<and>
    (if \<forall>r \<in> set needed. fails r = None then SvcInstanceStartAllPersistent sys l = Some l' else l' = l)"
proof -
  obtain Error where s: "SvcOnStart fails limits sys l = Some (Error, held, l')"
    and r: "map dwCurrentState reports = [START_PENDING, if Error = 0 then RUNNING else STOPPED]"
      "map dwControlsAccepted reports = [0, if Error = 0 then SERVICE_ACCEPT_STOP else 0]" "map dwWin32ExitCode reports = [0, 0]"
    using assms(1) by (auto simp: SvcEntry_def bind_eq_Some_conv Let_def)
  from s assms(2) show ?thesis
  proof (cases rule: SvcOnStart_cases)
    case started
    then show ?thesis by (simp add: r del: set_simps list.set)
  next
    case (failed x)
    then have "\<not> (\<forall>r \<in> set needed. fails r = None)" by (metis option.distinct(1))
    then show ?thesis by (simp only: r failed if_False if_True simp_thms)
  qed
qed

theorem service_start_reports_witness:
  "\<exists>reports held l'. SvcEntry True (\<lambda>r. if r = Res_pipe then Some ERROR_ACCESS_DENIED else None) True idle_system idle_launcher =
     Some (reports, held, l') \<and> map dwCurrentState reports = [START_PENDING, STOPPED] \<and> map dwWin32ExitCode reports = [0, 0]"
proof -
  obtain reports held l' where e: "SvcEntry True (\<lambda>r. if r = Res_pipe then Some ERROR_ACCESS_DENIED else None) True idle_system idle_launcher =
     Some (reports, held, l')"
    by (simp add: SvcEntry_def SvcOnStart_def Let_def)
  from service_start_reports [OF this] e show ?thesis by auto
qed

text \<open>
  The thread runs when the start reports: without memory for its buffer it may have reported its end before the service is reported
  to run, and the last report is then that it runs.
\<close>

lemma ended_thread_runs:
  "[START_PENDING, STOPPED, RUNNING] \<in> (#) START_PENDING ` shuffles [RUNNING]
     [dwCurrentState (the (fst (the (SvcPipeServer False dismounts ts s))))]"
  by (simp add: SvcPipeServer_def service_stopped_def)

end
