(* ===== verification/EventLog.thy ===== *)
theory EventLog
  imports LaunchSystem
begin

text \<open>
  The messages of the programs, src/src/shared/log.c: printed lines, events with the name of the program, and the choice between them by the
  window station of the process.
\<close>

section \<open>Printing\<close>

text \<open>
  A line: at most 1023 characters of the text are kept; \<open>utf8\<close> converts them, to nothing on an error, and \<open>allocated\<close> is the
  buffer for the octets. The result is what is written.
\<close>

definition SpdPrintLogV :: "(wstr \<Rightarrow> bytes) \<Rightarrow> bool \<Rightarrow> wstr \<Rightarrow> bytes option" where
  "SpdPrintLogV utf8 allocated text =
     (let BufW = take 1023 text; BufA = utf8 BufW
      in if allocated \<and> 0 < length BufA then Some (BufA @ [0x0a]) else None)"

section \<open>Names and events of the log\<close>

text \<open>
  The name of the program in the log: of the path of its file the part behind the last backslash, without what follows the last dot of the
  path, and at most 19 characters. A dot in front of the last backslash does not count.
\<close>

fun ident_loop :: "nat \<Rightarrow> wstr \<Rightarrow> nat \<Rightarrow> nat option \<Rightarrow> nat \<times> nat option" where
  "ident_loop i [] base dot = (base, dot)"
| "ident_loop i (c # cs) base dot =
     (if c = backslash then ident_loop (i + 1) cs (i + 1) dot
      else if c = 0x2e then ident_loop (i + 1) cs base (Some i)
      else ident_loop (i + 1) cs base dot)"

definition SpdDiagIdentInitialize :: "wstr option \<Rightarrow> wstr" where
  "SpdDiagIdentInitialize module =
     (let path = (case module of Some p \<Rightarrow> p | None \<Rightarrow> [0x55, 0x4e, 0x4b, 0x4e, 0x4f, 0x57, 0x4e]);
          (base, dot) = ident_loop 0 path 0 None;
          text = (case dot of Some d \<Rightarrow> (if base \<le> d then take (d - base) (drop base path) else drop base path) | None \<Rightarrow> drop base path)
      in take 19 text)"

text \<open>
  An event: its type, its number by the type, and two strings, the name of the program and at most 1023 characters of the text. Nothing is
  reported without a registered source.
\<close>

abbreviation EVENTLOG_ERROR_TYPE :: u32 where "EVENTLOG_ERROR_TYPE \<equiv> 1"
abbreviation EVENTLOG_WARNING_TYPE :: u32 where "EVENTLOG_WARNING_TYPE \<equiv> 2"

definition SpdEventLogV :: "bool \<Rightarrow> u32 \<Rightarrow> wstr option \<Rightarrow> wstr \<Rightarrow> (u16 \<times> u32 \<times> wstr list) option" where
  "SpdEventLogV registered Type module text =
     (if \<not> registered then None
      else Some (ucast Type,
        if Type = EVENTLOG_WARNING_TYPE then 0xA0000001 else if Type = EVENTLOG_ERROR_TYPE then 0xE0000001 else 0x60000001,
        [SpdDiagIdentInitialize module, take 1023 text]))"

text \<open>
  Whether the process is interactive: the answer for the last window station is kept until the station changes. The state is the last
  station and the answer; \<open>visible\<close> is what the system says of the current one, if it can.
\<close>

definition SpdIsInteractive :: "ptr \<Rightarrow> bool option \<Rightarrow> ptr \<times> bool \<Rightarrow> bool \<times> ptr \<times> bool" where
  "SpdIsInteractive Current visible st =
     (case st of (Station, IsInteractive) \<Rightarrow>
        let st = (if Current \<noteq> 0 \<and> Station \<noteq> Current
                  then (Current, case visible of Some v \<Rightarrow> v | None \<Rightarrow> IsInteractive) else (Station, IsInteractive))
        in (snd st, st))"

text \<open>A message of the service is printed for a user who sees it, and is an event otherwise.\<close>

definition SpdServiceLogV ::
    "(wstr \<Rightarrow> bytes) \<Rightarrow> bool \<Rightarrow> bool \<Rightarrow> wstr option \<Rightarrow> ptr \<Rightarrow> bool option \<Rightarrow> u32 \<Rightarrow> wstr \<Rightarrow> ptr \<times> bool \<Rightarrow>
     (bytes option + (u16 \<times> u32 \<times> wstr list) option) \<times> ptr \<times> bool" where
  "SpdServiceLogV utf8 allocated registered module Current visible Type text st =
     (case SpdIsInteractive Current visible st of (IsInteractive, st) \<Rightarrow>
        (if IsInteractive then Inl (SpdPrintLogV utf8 allocated text) else Inr (SpdEventLogV registered Type module text), st))"

end
