(* ===== verification/LaunchCtl.thy ===== *)
theory LaunchCtl
  imports EventLog
begin

text \<open>
  The command line client of the launcher, src/src/launcher/launchctl.c, with the call over a pipe whose owner is
  checked, src/src/shared/secpipe.c.
\<close>

section \<open>A call over a pipe\<close>

text \<open>
  What the system does with a pipe: opening it at the first or the second try, with or without the right to impersonate;
  a well-known identity by its number; the owner; the message mode; and the exchange of messages, for an answer of
  so many octets at most. The state has the handles and the messages that were sent.
\<close>

record 'sid pipe_system =
  ps_open :: "nat \<Rightarrow> bool \<Rightarrow> u32 + ptr"
  ps_well_known :: "nat \<Rightarrow> u32 + 'sid"
  ps_owner :: "ptr \<Rightarrow> u32 + 'sid"
  ps_mode :: "ptr \<Rightarrow> u32"
  ps_transact :: "ptr \<Rightarrow> wstr \<Rightarrow> nat \<Rightarrow> u32 + wstr"

record pipe_client =
  pc_handles :: handles
  pc_sent :: "(ptr \<times> wstr) list"

text \<open>The identity that the owner must have: none, one below 1024 for a well-known one, or one itself.\<close>

datatype 'sid sid_arg = No_sid | Known_sid nat | This_sid 'sid

abbreviation ERROR_PIPE_BUSY :: u32 where "ERROR_PIPE_BUSY \<equiv> 231"

definition check_owner :: "'sid pipe_system \<Rightarrow> 'sid sid_arg \<Rightarrow> ptr \<Rightarrow> u32" where
  "check_owner ps Sid Pipe =
     (let owner_is = (\<lambda>sid. case ps_owner ps Pipe of
            Inl Error \<Rightarrow> Error
          | Inr OwnerSid \<Rightarrow> if OwnerSid \<noteq> sid then ERROR_ACCESS_DENIED else ERROR_SUCCESS)
      in case Sid of
          No_sid \<Rightarrow> ERROR_SUCCESS
        | Known_sid n \<Rightarrow> (case ps_well_known ps n of Inl Error \<Rightarrow> Error | Inr sid \<Rightarrow> owner_is sid)
        | This_sid sid \<Rightarrow> owner_is sid)"

definition open_pipe :: "'sid pipe_system \<Rightarrow> bool \<Rightarrow> u32 + ptr" where
  "open_pipe ps AllowImpersonation =
     (case ps_open ps 0 AllowImpersonation of
        Inl Error \<Rightarrow> if Error \<noteq> ERROR_PIPE_BUSY then Inl Error else ps_open ps 1 AllowImpersonation
      | Inr Pipe \<Rightarrow> Inr Pipe)"

definition SpdCallNamedPipeSecurelyEx ::
    "'sid pipe_system \<Rightarrow> wstr \<Rightarrow> nat \<Rightarrow> bool \<Rightarrow> 'sid sid_arg \<Rightarrow> pipe_client \<Rightarrow> (u32 + wstr) \<times> pipe_client" where
  "SpdCallNamedPipeSecurelyEx ps InBuffer OutBufferSize AllowImpersonation Sid s =
     (case open_pipe ps AllowImpersonation of
        Inl Error \<Rightarrow> (Inl Error, s)
      | Inr Pipe \<Rightarrow>
        let s = s\<lparr>pc_handles := open_handle Pipe (pc_handles s)\<rparr>;
            Error = check_owner ps Sid Pipe;
            (r, s) = (if Error \<noteq> ERROR_SUCCESS then (Inl Error, s)
                      else if ps_mode ps Pipe \<noteq> 0 then (Inl (ps_mode ps Pipe), s)
                      else (ps_transact ps Pipe InBuffer OutBufferSize, s\<lparr>pc_sent := pc_sent s @ [(Pipe, InBuffer)]\<rparr>))
        in (r, s\<lparr>pc_handles := CloseHandle Pipe (pc_handles s)\<rparr>))"

definition SpdCallNamedPipeSecurely ::
    "'sid pipe_system \<Rightarrow> wstr \<Rightarrow> nat \<Rightarrow> 'sid sid_arg \<Rightarrow> pipe_client \<Rightarrow> (u32 + wstr) \<times> pipe_client" where
  "SpdCallNamedPipeSecurely ps InBuffer OutBufferSize Sid s =
     SpdCallNamedPipeSecurelyEx ps InBuffer OutBufferSize False Sid s"

section \<open>The report\<close>

text \<open>The messages of the program; those of a failed call go to the error output.\<close>

datatype ctl_message =
  Call_failed u32 | Empty_buffer | Corrupted_buffer | Launcher_ok | Launcher_data wstr | Launcher_error wstr | Usage

text \<open>The loop over the answer: every second zero is the end of a line, the others are spaces.\<close>

fun replace_zeros :: "nat \<Rightarrow> wstr \<Rightarrow> wstr" where
  "replace_zeros Count [] = []"
| "replace_zeros Count (c # cs) =
     (if c = 0 then (if Count mod 2 = 1 then 0x0a else 0x20) # replace_zeros (Count + 1) cs
      else c # replace_zeros Count cs)"

text \<open>
  The text behind the code, up to the zero that is put behind the answer, or over its last character when the answer fills the
  buffer of \<open>n\<close> characters.
\<close>

definition answer_text :: "nat \<Rightarrow> wstr \<Rightarrow> wstr" where
  "answer_text n r = takeWhile (\<lambda>c. c \<noteq> 0) (tl (if length r < n then r else take (n - 1) r))"

definition report :: "nat \<Rightarrow> u32 + wstr \<Rightarrow> u32 \<times> ctl_message" where
  "report RecvSize r =
     (case r of
        Inl Error \<Rightarrow> (Error, Call_failed Error)
      | Inr [] \<Rightarrow> (0, Empty_buffer)
      | Inr (c # cs) \<Rightarrow>
        (0, if c = SpdLaunchCmdSuccess
            then (if cs = [] then Launcher_ok else Launcher_data (answer_text (RecvSize div 2) (replace_zeros 0 (c # cs))))
            else if c = SpdLaunchCmdFailure then Launcher_error (answer_text (RecvSize div 2) (c # cs))
            else Corrupted_buffer))"

text \<open>\<open>pipe_call\<close> is the call to the launcher with a message and the size of the buffer for the answer.\<close>

definition call_pipe_and_report :: "(wstr \<Rightarrow> nat \<Rightarrow> u32 + wstr) \<Rightarrow> wstr \<Rightarrow> nat \<Rightarrow> u32 \<times> ctl_message" where
  "call_pipe_and_report pipe_call msg RecvSize = report RecvSize (pipe_call msg RecvSize)"

section \<open>The commands\<close>

text \<open>The size of a string with its zero, and of some of them, in characters.\<close>

definition ctl_size :: "wstr \<Rightarrow> u32" where "ctl_size s = of_nat (length s) + 1"

definition ctl_args_size :: "wstr list \<Rightarrow> u32" where
  "ctl_args_size Argv = foldl (\<lambda>ArgvSize a. ArgvSize + ctl_size a) 0 Argv"

definition ctl_strings :: "wstr list \<Rightarrow> wstr" where "ctl_strings ss = concat (map (\<lambda>s. s @ [0]) ss)"

text \<open>A message that does not fit is refused without a word.\<close>

definition ctl_start ::
    "(wstr \<Rightarrow> nat \<Rightarrow> u32 + wstr) \<Rightarrow> nat \<Rightarrow> wstr \<Rightarrow> wstr \<Rightarrow> wstr list \<Rightarrow> u32 \<times> ctl_message option" where
  "ctl_start pipe_call PipeBufSize ClassName InstanceName Argv =
     (if PipeBufSize < 2 * unat (1 + ctl_size ClassName + ctl_size InstanceName + ctl_args_size Argv)
      then (ERROR_INVALID_PARAMETER, None)
      else map_prod id Some (call_pipe_and_report pipe_call
        (SpdLaunchCmdStart # ctl_strings (ClassName # InstanceName # Argv)) PipeBufSize))"

definition ctl_names ::
    "u16 \<Rightarrow> (wstr \<Rightarrow> nat \<Rightarrow> u32 + wstr) \<Rightarrow> nat \<Rightarrow> wstr \<Rightarrow> wstr \<Rightarrow> u32 \<times> ctl_message option" where
  "ctl_names Command pipe_call PipeBufSize ClassName InstanceName =
     (if PipeBufSize < 2 * unat (1 + ctl_size ClassName + ctl_size InstanceName) then (ERROR_INVALID_PARAMETER, None)
      else map_prod id Some (call_pipe_and_report pipe_call (Command # ctl_strings [ClassName, InstanceName]) PipeBufSize))"

definition ctl_stop :: "(wstr \<Rightarrow> nat \<Rightarrow> u32 + wstr) \<Rightarrow> nat \<Rightarrow> wstr \<Rightarrow> wstr \<Rightarrow> bool \<Rightarrow> u32 \<times> ctl_message option" where
  "ctl_stop pipe_call PipeBufSize ClassName InstanceName Forced =
     ctl_names (if Forced then SpdLaunchCmdStopForced else SpdLaunchCmdStop) pipe_call PipeBufSize ClassName InstanceName"

definition ctl_getinfo :: "(wstr \<Rightarrow> nat \<Rightarrow> u32 + wstr) \<Rightarrow> nat \<Rightarrow> wstr \<Rightarrow> wstr \<Rightarrow> u32 \<times> ctl_message option" where
  "ctl_getinfo pipe_call PipeBufSize ClassName InstanceName =
     ctl_names SpdLaunchCmdGetInfo pipe_call PipeBufSize ClassName InstanceName"

definition ctl_command :: "u16 \<Rightarrow> (wstr \<Rightarrow> nat \<Rightarrow> u32 + wstr) \<Rightarrow> nat \<Rightarrow> u32 \<times> ctl_message option" where
  "ctl_command Command pipe_call PipeBufSize =
     (if PipeBufSize < 2 then (ERROR_INVALID_PARAMETER, None)
      else map_prod id Some (call_pipe_and_report pipe_call [Command] PipeBufSize))"

definition ctl_list :: "(wstr \<Rightarrow> nat \<Rightarrow> u32 + wstr) \<Rightarrow> nat \<Rightarrow> u32 \<times> ctl_message option" where
  "ctl_list = ctl_command SpdLaunchCmdGetNameList"

abbreviation SpdLaunchCmdQuit :: u16 where "SpdLaunchCmdQuit \<equiv> 0x51"

definition ctl_quit :: "(wstr \<Rightarrow> nat \<Rightarrow> u32 + wstr) \<Rightarrow> nat \<Rightarrow> u32 \<times> ctl_message option" where
  "ctl_quit = ctl_command SpdLaunchCmdQuit"

section \<open>The program\<close>

definition ascii :: "string \<Rightarrow> wstr" where "ascii s = map (\<lambda>c. word_of_nat (of_char c)) s"

text \<open>The arguments are those behind the name of the program. The usage ends the program with an error.\<close>

definition launchctl_wmain :: "(wstr \<Rightarrow> nat \<Rightarrow> u32 + wstr) \<Rightarrow> bool \<Rightarrow> wstr list \<Rightarrow> u32 \<times> ctl_message option" where
  "launchctl_wmain pipe_call allocated argv =
     (let size = unat SPD_LAUNCH_PIPE_BUFFER_SIZE; usage = (ERROR_INVALID_PARAMETER, Some Usage)
      in if \<not> allocated then (ERROR_NO_SYSTEM_RESOURCES, None)
         else case argv of
             [] \<Rightarrow> usage
           | cmd # args \<Rightarrow>
             if invariant_wcscmp (ascii ''start'') cmd = 0
             then (case args of
                 c # n # rest \<Rightarrow> if 12 < length argv then usage else ctl_start pipe_call size c n rest
               | _ \<Rightarrow> usage)
             else if invariant_wcscmp (ascii ''stop'') cmd = 0
             then (case args of [c, n] \<Rightarrow> ctl_stop pipe_call size c n False | _ \<Rightarrow> usage)
             else if invariant_wcscmp (ascii ''stopForced'') cmd = 0
             then (case args of [c, n] \<Rightarrow> ctl_stop pipe_call size c n True | _ \<Rightarrow> usage)
             else if invariant_wcscmp (ascii ''info'') cmd = 0
             then (case args of [c, n] \<Rightarrow> ctl_getinfo pipe_call size c n | _ \<Rightarrow> usage)
             else if invariant_wcscmp (ascii ''list'') cmd = 0
             then (if args = [] then ctl_list pipe_call size else usage)
             else if invariant_wcscmp (ascii ''quit'') cmd = 0
             then (if args = [] then ctl_quit pipe_call size else usage)
             else usage)"

end
