(* ===== verification/LaunchCtl_Props.thy ===== *)
theory LaunchCtl_Props
  imports LaunchCtl LaunchServer_Props Launch_Props
begin

text \<open>
  The command line client and the launcher on the two ends of the pipe: what a start and a list of the user print, and to
  whom a message goes.
\<close>

section \<open>The pipe\<close>

text \<open>The identity that a call asks for, as an identity, if it is known.\<close>

definition asked_sid :: "'sid pipe_system \<Rightarrow> 'sid sid_arg \<Rightarrow> 'sid option" where
  "asked_sid ps Sid =
     (case Sid of No_sid \<Rightarrow> None | This_sid sid \<Rightarrow> Some sid
      | Known_sid n \<Rightarrow> (case ps_well_known ps n of Inr sid \<Rightarrow> Some sid | Inl _ \<Rightarrow> None))"

text \<open>C38: A message goes only to the owner that is asked for. The call opens at most one pipe and closes it again; it sends the
  message once or not at all, and when an identity is given, only over a pipe that this identity owns; otherwise the
  result is an error. The answer is the one of that pipe. (An error of the system is not 0.)\<close>

theorem message_goes_to_owner:
  assumes "SpdCallNamedPipeSecurelyEx ps msg n imp Sid s = (r, s')"
    and "\<forall>h. ps_owner ps h \<noteq> Inl 0" and "\<forall>k. ps_well_known ps k \<noteq> Inl 0"
  shows "pc_handles s' = pc_handles s \<and>
    (pc_sent s' = pc_sent s \<and> (\<exists>Error. r = Inl Error) \<or>
     (\<exists>Pipe. open_pipe ps imp = Inr Pipe \<and> pc_sent s' = pc_sent s @ [(Pipe, msg)] \<and> r = ps_transact ps Pipe msg n \<and>
        (Sid \<noteq> No_sid \<longrightarrow> (\<exists>sid. asked_sid ps Sid = Some sid \<and> ps_owner ps Pipe = Inr sid))))"
  using assms
  by (auto simp: SpdCallNamedPipeSecurelyEx_def check_owner_def asked_sid_def Let_def
      split: sum.splits if_splits sid_arg.splits)

definition demo_pipes :: "nat pipe_system" where
  "demo_pipes = \<lparr>ps_open = (\<lambda>i _. if i = 0 then Inl ERROR_PIPE_BUSY else Inr 8), ps_well_known = (\<lambda>n. Inr n), ps_owner = (\<lambda>_. Inr 22),
     ps_mode = (\<lambda>_. 0), ps_transact = (\<lambda>_ _ _. Inr [SpdLaunchCmdSuccess])\<rparr>"

theorem message_goes_to_owner_witness:
  "\<exists>r s'. SpdCallNamedPipeSecurelyEx demo_pipes [SpdLaunchCmdGetNameList] 4096 False (Known_sid 22)
      \<lparr>pc_handles = no_handles, pc_sent = []\<rparr> = (r, s') \<and> pc_handles s' = no_handles \<and> r = Inr [SpdLaunchCmdSuccess]"
proof -
  obtain r s' where c: "SpdCallNamedPipeSecurelyEx demo_pipes [SpdLaunchCmdGetNameList] 4096 False (Known_sid 22)
      \<lparr>pc_handles = no_handles, pc_sent = []\<rparr> = (r, s')" by fastforce
  then have "r = Inr [SpdLaunchCmdSuccess]"
    by (auto simp: SpdCallNamedPipeSecurelyEx_def open_pipe_def check_owner_def demo_pipes_def Let_def)
  moreover have "pc_handles s' = no_handles"
    using message_goes_to_owner [OF c] by (auto simp: demo_pipes_def)
  ultimately show ?thesis using c by blast
qed

section \<open>The launcher at the other end\<close>

text \<open>A call that the launcher answers, in its state \<open>l\<close>.\<close>

definition launcher_call :: "'sd svc_system \<Rightarrow> u32 \<times> nat \<times> bool \<Rightarrow> ptr \<Rightarrow> 'sd launcher \<Rightarrow> wstr \<Rightarrow> nat \<Rightarrow> u32 + wstr" where
  "launcher_call sys dismount token l msg n =
     (case SvcPipeTransact sys dismount token msg l of Some (r, _) \<Rightarrow> Inr r | None \<Rightarrow> Inl ERROR_BROKEN_PIPE)"

lemma ctl_strings_packed: "ctl_strings ss = packed ss"
  by (simp add: ctl_strings_def packed_def)

lemma ctl_args_size: "foldl (\<lambda>s a. s + ctl_size a) n Argv = n + of_nat (length (packed Argv))"
  by (induction Argv arbitrary: n) (simp_all add: ctl_size_def add_ac)

lemma ctl_fits:
  assumes "2 * (1 + length (packed (c # n # Argv))) \<le> 4096"
  shows "unat (1 + ctl_size c + ctl_size n + ctl_args_size Argv) = 1 + length (packed (c # n # Argv))"
proof -
  have "1 + ctl_size c + ctl_size n + ctl_args_size Argv = of_nat (1 + length (packed (c # n # Argv)))"
    by (simp add: ctl_args_size_def ctl_args_size) (simp add: ctl_size_def)
  moreover have "unat (of_nat m :: u32) = m" if "2 * m \<le> 4096" for m
    using that by (simp add: unsigned_of_nat take_bit_nat_eq_self)
  ultimately show ?thesis using assms by metis
qed

lemma commands [simp]:
  "invariant_wcscmp (ascii ''start'') (ascii ''start'') = 0" "invariant_wcscmp (ascii ''list'') (ascii ''list'') = 0"
  "invariant_wcscmp (ascii ''start'') (ascii ''list'') \<noteq> 0" "invariant_wcscmp (ascii ''stop'') (ascii ''list'') \<noteq> 0"
  "invariant_wcscmp (ascii ''stopForced'') (ascii ''list'') \<noteq> 0" "invariant_wcscmp (ascii ''info'') (ascii ''list'') \<noteq> 0"
  by (simp_all add: invariant_wcscmp_def ascii_def)

text \<open>The text of an error has no zero and fits.\<close>

lemma decimal_zero_free: "0 \<notin> set (decimal n)"
proof (induction n rule: decimal.induct)
  case (1 n)
  have "(word_of_nat (48 + d) :: u16) \<noteq> 0" if "d < 10" for d
  proof -
    from that have "d \<in> {0, 1, 2, 3, 4, 5, 6, 7, 8, 9}" by auto
    then show ?thesis by (elim insertE) simp_all
  qed
  from 1 this [of n] this [of "n mod 10"] show ?case by (simp add: decimal.simps [of n])
qed

lemma print_ld_text: "answer_text 2048 (SpdLaunchCmdFailure # print_ld e @ [0]) = print_ld e"
proof -
  have "0 \<notin> set (print_ld e)" by (simp add: print_ld_def decimal_zero_free)
  then have "takeWhile (\<lambda>c. c \<noteq> 0) (print_ld e @ [0]) = print_ld e" by (subst takeWhile_append2) auto
  then show ?thesis using length_print_ld [of e] by (simp add: answer_text_def)
qed



section \<open>Lists\<close>

text \<open>A line of the list.\<close>

definition list_line :: "'sd SVC_INSTANCE \<Rightarrow> wstr" where
  "list_line i = svc_ClassName i @ [0x20] @ svc_InstanceName i @ [0x0a]"

abbreviation list_names :: "'sd SVC_INSTANCE list \<Rightarrow> wstr" where
  "list_names is \<equiv> concat (map (\<lambda>i. svc_ClassName i @ [0] @ svc_InstanceName i @ [0]) is)"

lemma name_list_all: "length (buf @ list_names is) \<le> room \<Longrightarrow> name_list_loop room is buf = buf @ list_names is"
  by (induction "is" arbitrary: buf) (simp_all add: Let_def)

lemma replace_zeros_append: "zero_free s \<Longrightarrow> replace_zeros k (s @ r) = s @ replace_zeros k r"
  by (induction s arbitrary: k) auto

lemma replace_zeros_names:
  "\<forall>i \<in> set is. zero_free (svc_ClassName i) \<and> zero_free (svc_InstanceName i) \<Longrightarrow> even k \<Longrightarrow>
   replace_zeros k (list_names is) = concat (map list_line is)"
  by (induction "is" arbitrary: k) (simp_all add: replace_zeros_append list_line_def even_iff_mod_2_eq_zero mod_Suc)

lemma length_lines: "length (concat (map list_line is)) = length (list_names is)"
  by (induction "is") (simp_all add: list_line_def)



text \<open>But a printed line has 1023 characters at most: a longer list is cut.\<close>

lemma print_cuts: "SpdPrintLogV utf8 allocated text = Some out \<Longrightarrow> out = utf8 (take 1023 text) @ [0x0a]"
  by (auto simp: SpdPrintLogV_def Let_def split: if_splits)

end
