(* ===== verification/DevSetup.thy ===== *)
theory DevSetup
  imports LaunchSystem
begin

text \<open>
  The installer of the adapter, src/src/devsetup/devsetup.c: it adds the device of a hardware identifier with its driver, and
  removes it with or without the files of its driver. What the setup library does is an argument.
\<close>

abbreviation ERROR_SUCCESS_REBOOT_REQUIRED :: u32 where "ERROR_SUCCESS_REBOOT_REQUIRED \<equiv> 3010"
abbreviation ERROR_NOT_ENOUGH_MEMORY :: u32 where "ERROR_NOT_ENOUGH_MEMORY \<equiv> 8"
abbreviation ERROR_SHARING_VIOLATION :: u32 where "ERROR_SHARING_VIOLATION \<equiv> 32"

section \<open>Enumerating devices\<close>

text \<open>
  The loop over the hardware identifiers of a device: for each that is the wanted one the function is called. The
  result is an error, or whether the device was found and whether a reboot is required.
\<close>

fun call_ids ::
    "('d \<Rightarrow> 's \<Rightarrow> u32 \<times> 's) option \<Rightarrow> wstr \<Rightarrow> 'd \<Rightarrow> wstr list \<Rightarrow> bool \<times> bool \<Rightarrow> 's \<Rightarrow> (u32 + bool \<times> bool) \<times> 's" where
  "call_ids Fn HardwareId d [] (Found, Reboot) s = (Inr (Found, Reboot), s)"
| "call_ids Fn HardwareId d (P # Ps) (Found, Reboot) s =
     (if invariant_wcsicmp P HardwareId \<noteq> 0 then call_ids Fn HardwareId d Ps (Found, Reboot) s
      else case Fn of
          None \<Rightarrow> call_ids Fn HardwareId d Ps (True, Reboot) s
        | Some f \<Rightarrow>
          (case f d s of (Error, s) \<Rightarrow>
             if Error \<noteq> 0 \<and> Error \<noteq> ERROR_SUCCESS_REBOOT_REQUIRED then (Inl Error, s)
             else call_ids Fn HardwareId d Ps (True, Reboot \<or> Error \<noteq> 0) s))"

text \<open>The loop over the devices, which ends with the first that is found. A device whose identifiers cannot be read is passed over.\<close>

fun enum_devices ::
    "('d \<Rightarrow> 's \<Rightarrow> u32 \<times> 's) option \<Rightarrow> wstr \<Rightarrow> ('d \<times> wstr list option) list \<Rightarrow> bool \<times> bool \<Rightarrow> 's \<Rightarrow> (u32 + bool \<times> bool) \<times> 's" where
  "enum_devices Fn HardwareId [] fr s = (Inr fr, s)"
| "enum_devices Fn HardwareId ((d, ids) # devs) (Found, Reboot) s =
     (if Found then (Inr (Found, Reboot), s)
      else case ids of
          None \<Rightarrow> enum_devices Fn HardwareId devs (Found, Reboot) s
        | Some ids \<Rightarrow>
          (case call_ids Fn HardwareId d ids (Found, Reboot) s of
             (Inl Error, s) \<Rightarrow> (Inl Error, s)
           | (Inr fr, s) \<Rightarrow> enum_devices Fn HardwareId devs fr s))"

text \<open>\<open>last_error\<close> is the error when the enumeration ends.\<close>

definition EnumerateDevices ::
    "u32 + ('d \<times> wstr list option) list \<Rightarrow> u32 \<Rightarrow> wstr \<Rightarrow> ('d \<Rightarrow> 's \<Rightarrow> u32 \<times> 's) option \<Rightarrow> 's \<Rightarrow> u32 \<times> 's" where
  "EnumerateDevices devices last_error HardwareId Fn s =
     (case (case devices of
              Inl Error \<Rightarrow> (Error, s)
            | Inr devs \<Rightarrow>
              (case enum_devices Fn HardwareId devs (False, False) s of
                 (Inl Error, s) \<Rightarrow> (Error, s)
               | (Inr (Found, Reboot), s) \<Rightarrow>
                   (if \<not> Found then last_error
                    else if Reboot then ERROR_SUCCESS_REBOOT_REQUIRED else ERROR_SUCCESS, s)))
      of (Error, s) \<Rightarrow> (if Error = ERROR_NO_MORE_ITEMS then ERROR_FILE_NOT_FOUND else Error, s))"

section \<open>The driver of a device\<close>

text \<open>
  What the setup library has for a device: the steps before the list of its drivers, with the error of the one that fails; the
  drivers, each with the error of its details, if any, and the name of its file; the error at the end of the list; and, for the
  files, the steps before the scan, the files of the queue that the scan comes to, and the error if it fails by itself.
\<close>

record driver_system =
  dr_params :: "u32 option"
  dr_set_params :: "u32 option"
  dr_build :: "u32 option"
  dr_drivers :: "(u32 option \<times> wstr) list"
  dr_last_error :: u32
  dr_queue_steps :: "u32 option list"
  dr_files :: "wstr list"
  dr_scan_error :: "u32 option"

fun first_driver :: "(u32 option \<times> wstr) list \<Rightarrow> wstr option" where
  "first_driver [] = None"
| "first_driver ((Error, InfFile) # ds) =
     (if Error \<noteq> None \<and> Error \<noteq> Some ERROR_INSUFFICIENT_BUFFER then first_driver ds else Some InfFile)"

text \<open>The file of the driver, or the error.\<close>

definition GetInstalledDriver :: "driver_system \<Rightarrow> u32 + wstr" where
  "GetInstalledDriver d =
     (case (case dr_params d of
              Some Error \<Rightarrow> Inl Error
            | None \<Rightarrow> (case dr_set_params d of
                Some Error \<Rightarrow> Inl Error
              | None \<Rightarrow> (case dr_build d of
                  Some Error \<Rightarrow> Inl Error
                | None \<Rightarrow> (case first_driver (dr_drivers d) of Some InfFile \<Rightarrow> Inr InfFile | None \<Rightarrow> Inl (dr_last_error d)))))
      of Inl Error \<Rightarrow> Inl (if Error = ERROR_NO_MORE_ITEMS then ERROR_FILE_NOT_FOUND else Error)
       | Inr InfFile \<Rightarrow> Inr InfFile)"

text \<open>The scan of the queue calls the callback for each file, until it returns an error.\<close>

fun scan_files :: "(wstr \<Rightarrow> 's \<Rightarrow> u32 \<times> 's) \<Rightarrow> wstr list \<Rightarrow> 's \<Rightarrow> u32 \<times> 's" where
  "scan_files Fn [] s = (0, s)"
| "scan_files Fn (f # fs) s = (case Fn f s of (Error, s) \<Rightarrow> if Error \<noteq> 0 then (Error, s) else scan_files Fn fs s)"

definition EnumerateDriverFiles :: "driver_system \<Rightarrow> (wstr \<Rightarrow> 's \<Rightarrow> u32 \<times> 's) \<Rightarrow> 's \<Rightarrow> u32 \<times> 's" where
  "EnumerateDriverFiles d Fn s =
     (case find (\<lambda>e. e \<noteq> None) (dr_queue_steps d) of
        Some (Some Error) \<Rightarrow> (Error, s)
      | _ \<Rightarrow>
          (case scan_files Fn (dr_files d) s of (ScanResult, s) \<Rightarrow>
             (if ScanResult \<noteq> 0 then ScanResult else case dr_scan_error d of Some Error \<Rightarrow> Error | None \<Rightarrow> ERROR_SUCCESS, s)))"

section \<open>The files of a driver\<close>

text \<open>
  The buffer of file names: its size in octets, with the four of the size itself, and the characters behind it. \<open>None\<close> is no buffer yet.
  \<open>room f\<close> is the reallocation for the name \<open>f\<close>; when it fails, the old buffer stays.
\<close>

type_synonym file_buffer = "(u32 \<times> wstr) option"

definition RemoveDeviceAndDriverCallback :: "(wstr \<Rightarrow> bool) \<Rightarrow> wstr \<Rightarrow> file_buffer \<Rightarrow> u32 \<times> file_buffer" where
  "RemoveDeviceAndDriverCallback room FileName Buffer =
     (let FileNameSize = (of_nat (length FileName) + 1) * 2;
          (OldSize, chars) = (case Buffer of None \<Rightarrow> (4, []) | Some (n, cs) \<Rightarrow> (n, cs));
          NewSize = OldSize + FileNameSize
      in if \<not> room FileName then (ERROR_NOT_ENOUGH_MEMORY, Buffer)
         else (ERROR_SUCCESS, Some (NewSize, chars @ FileName @ [0])))"

text \<open>The loop over the names: \<open>k\<close> is the offset of the next one in octets.\<close>

function buffer_names :: "u32 \<Rightarrow> nat \<Rightarrow> wstr \<Rightarrow> wstr list" where
  "buffer_names n k cs =
     (if k < unat n
      then (let P = takeWhile (\<lambda>c. c \<noteq> 0) cs in P # buffer_names n (k + 2 * (length P + 1)) (drop (length P + 1) cs))
      else [])"
  by pat_completeness auto
termination by (relation "measure (\<lambda>(n, k, _). unat n - k)") auto

declare buffer_names.simps [simp del]

definition file_names :: "file_buffer \<Rightarrow> wstr list" where
  "file_names Buffer = (case Buffer of None \<Rightarrow> [] | Some (n, cs) \<Rightarrow> buffer_names n 4 cs)"

text \<open>
  What the file system does with a file: the renaming, the two tries to open it for its deletion, and the move that is delayed. The
  result is the error and whether a reboot is required.
\<close>

record file_system =
  fs_move :: "u32 option"
  fs_open :: "u32 option"
  fs_open_again :: "u32 option"
  fs_delay :: "u32 option"

definition RemoveFile :: "file_system \<Rightarrow> bool \<Rightarrow> u32 \<times> bool" where
  "RemoveFile f RebootRequired =
     (let delayed = (case fs_delay f of Some Error \<Rightarrow> (Error, RebootRequired) | None \<Rightarrow> (ERROR_SUCCESS, True));
          (Error, RebootRequired) =
            (case fs_move f of
               Some Error \<Rightarrow> (Error, RebootRequired)
             | None \<Rightarrow>
               (case fs_open f of
                  None \<Rightarrow> (ERROR_SUCCESS, RebootRequired)
                | Some Error \<Rightarrow>
                    if Error = ERROR_ACCESS_DENIED
                    then (if fs_open_again f = None then (ERROR_SUCCESS, RebootRequired) else delayed)
                    else if Error = ERROR_SHARING_VIOLATION then delayed
                    else (Error, RebootRequired)))
      in (if Error = ERROR_FILE_NOT_FOUND then ERROR_SUCCESS else Error, RebootRequired))"

text \<open>The name of a file without its directory.\<close>

definition base_name :: "wstr \<Rightarrow> wstr" where
  "base_name path = (case last_backslash 0 path None of Some b \<Rightarrow> drop (b + 1) path | None \<Rightarrow> path)"

section \<open>Removing\<close>

text \<open>
  The world that the installer changes: the devices that were uninstalled, the files that it has set out to remove, and the
  driver packages.
\<close>

record 'd dev_world =
  dw_devices :: "'d list"
  dw_files :: "wstr list"
  dw_infs :: "wstr list"

text \<open>The uninstalling of a device: its error, or whether a reboot is required.\<close>

definition RemoveDevice :: "('d \<Rightarrow> u32 + bool) \<Rightarrow> 'd \<Rightarrow> 'd dev_world \<Rightarrow> u32 \<times> 'd dev_world" where
  "RemoveDevice uninstall d w =
     (case uninstall d of
        Inl Error \<Rightarrow> (Error, w)
      | Inr Reboot \<Rightarrow> (if Reboot then ERROR_SUCCESS_REBOOT_REQUIRED else ERROR_SUCCESS, w\<lparr>dw_devices := dw_devices w @ [d]\<rparr>))"

fun remove_files :: "(wstr \<Rightarrow> file_system) \<Rightarrow> wstr list \<Rightarrow> bool \<Rightarrow> 'd dev_world \<Rightarrow> bool \<times> 'd dev_world" where
  "remove_files fs [] Reboot w = (Reboot, w)"
| "remove_files fs (f # files) Reboot w =
     remove_files fs files (snd (RemoveFile (fs f) Reboot)) (w\<lparr>dw_files := dw_files w @ [f]\<rparr>)"

definition RemoveDeviceAndDriver ::
    "('d \<Rightarrow> driver_system) \<Rightarrow> (wstr \<Rightarrow> bool) \<Rightarrow> ('d \<Rightarrow> u32 + bool) \<Rightarrow> (wstr \<Rightarrow> file_system) \<Rightarrow> 'd \<Rightarrow> 'd dev_world \<Rightarrow>
     u32 \<times> 'd dev_world" where
  "RemoveDeviceAndDriver driver room uninstall fs d w =
     (let (DriverFiles, BaseName) =
            (case GetInstalledDriver (driver d) of
               Inl _ \<Rightarrow> (None, None)
             | Inr InfFile \<Rightarrow> (snd (EnumerateDriverFiles (driver d) (RemoveDeviceAndDriverCallback room) None), Some (base_name InfFile)));
          (Error, w) = RemoveDevice uninstall d w;
          (Reboot, w) = remove_files fs (file_names DriverFiles) (Error = ERROR_SUCCESS_REBOOT_REQUIRED) w;
          w = (case BaseName of Some InfFile \<Rightarrow> w\<lparr>dw_infs := dw_infs w @ [InfFile]\<rparr> | None \<Rightarrow> w)
      in (if Reboot then ERROR_SUCCESS_REBOOT_REQUIRED else ERROR_SUCCESS, w))"

section \<open>Adding\<close>

text \<open>The steps of the creation of a device, and the error of the one that fails.\<close>

datatype add_step = Step_class | Step_list | Step_create | Step_hardware_id | Step_register | Step_params

definition add_steps :: "add_step list" where
  "add_steps = [Step_class, Step_list, Step_create, Step_hardware_id, Step_register, Step_params]"

text \<open>
  \<open>known\<close> is the search for a device that has the identifier; only when it fails a device is created, which then is
  registered with the first 256 characters of the identifier. \<open>reboot\<close> is the flag of the new device, \<open>update\<close> the result of giving the
  driver to all devices with the identifier. The result has the identifiers of the devices that were registered.
\<close>

definition AddDevice ::
    "u32 + wstr \<Rightarrow> u32 \<Rightarrow> (add_step \<Rightarrow> u32 option) \<Rightarrow> bool \<Rightarrow> (wstr \<Rightarrow> wstr \<Rightarrow> u32 + bool) \<Rightarrow> wstr \<Rightarrow> u32 \<times> wstr list" where
  "AddDevice full_path known fails reboot update HardwareId =
     (case full_path of
        Inl Error \<Rightarrow> (Error, [])
      | Inr FileName \<Rightarrow>
        let failed = (if known = ERROR_SUCCESS then None else find (\<lambda>s. fails s \<noteq> None) add_steps);
            registered = (if known \<noteq> ERROR_SUCCESS \<and> (failed = None \<or> failed = Some Step_params) then [take 256 HardwareId] else [])
        in (case failed of
              Some s \<Rightarrow> (the (fails s), registered)
            | None \<Rightarrow>
              (case update HardwareId FileName of
                 Inl Error \<Rightarrow> (Error, registered)
               | Inr RebootRequired1 \<Rightarrow>
                   (if (known \<noteq> ERROR_SUCCESS \<and> reboot) \<or> RebootRequired1 then ERROR_SUCCESS_REBOOT_REQUIRED else ERROR_SUCCESS,
                    registered))))"

section \<open>The program\<close>

text \<open>The system as the commands need it, and the commands. The usage is a box on the screen and an error.\<close>

record 'd setup_system =
  ss_devices :: "u32 + ('d \<times> wstr list option) list"
  ss_last_error :: u32
  ss_driver :: "'d \<Rightarrow> driver_system"
  ss_room :: "wstr \<Rightarrow> bool"
  ss_uninstall :: "'d \<Rightarrow> u32 + bool"
  ss_files :: "wstr \<Rightarrow> file_system"
  ss_full_path :: "wstr \<Rightarrow> u32 + wstr"
  ss_add :: "add_step \<Rightarrow> u32 option"
  ss_reboot :: bool
  ss_update :: "wstr \<Rightarrow> wstr \<Rightarrow> u32 + bool"

definition setup_add :: "'d setup_system \<Rightarrow> wstr \<Rightarrow> wstr \<Rightarrow> u32 \<times> wstr list" where
  "setup_add ss HardwareId FileName =
     AddDevice (ss_full_path ss FileName)
       (fst (EnumerateDevices (ss_devices ss) (ss_last_error ss) HardwareId (None :: ('d \<Rightarrow> unit \<Rightarrow> u32 \<times> unit) option) ()))
       (ss_add ss) (ss_reboot ss) (ss_update ss) HardwareId"

definition setup_remove :: "'d setup_system \<Rightarrow> wstr \<Rightarrow> 'd dev_world \<Rightarrow> u32 \<times> 'd dev_world" where
  "setup_remove ss HardwareId =
     EnumerateDevices (ss_devices ss) (ss_last_error ss) HardwareId
       (Some (RemoveDeviceAndDriver (ss_driver ss) (ss_room ss) (ss_uninstall ss) (ss_files ss)))"

definition setup_removedev :: "'d setup_system \<Rightarrow> wstr \<Rightarrow> 'd dev_world \<Rightarrow> u32 \<times> 'd dev_world" where
  "setup_removedev ss HardwareId =
     EnumerateDevices (ss_devices ss) (ss_last_error ss) HardwareId (Some (RemoveDevice (ss_uninstall ss)))"

definition setup_ascii :: "string \<Rightarrow> wstr" where "setup_ascii s = map (\<lambda>c. word_of_nat (of_char c)) s"

definition devsetup_wmain :: "'d setup_system \<Rightarrow> wstr list \<Rightarrow> 'd dev_world \<Rightarrow> u32 \<times> wstr list \<times> 'd dev_world" where
  "devsetup_wmain ss argv w =
     (case argv of
        [cmd, h, f] \<Rightarrow>
          if invariant_wcscmp (setup_ascii ''add'') cmd = 0
          then (case setup_add ss h f of (Error, registered) \<Rightarrow> (Error, registered, w)) else (ERROR_INVALID_PARAMETER, [], w)
      | [cmd, h] \<Rightarrow>
          if invariant_wcscmp (setup_ascii ''remove'') cmd = 0
          then (case setup_remove ss h w of (Error, w) \<Rightarrow> (Error, [], w))
          else if invariant_wcscmp (setup_ascii ''removedev'') cmd = 0
          then (case setup_removedev ss h w of (Error, w) \<Rightarrow> (Error, [], w)) else (ERROR_INVALID_PARAMETER, [], w)
      | _ \<Rightarrow> (ERROR_INVALID_PARAMETER, [], w))"

end
