(* ===== verification/RegUtil.thy ===== *)
theory RegUtil
  imports LaunchSystem "HOL-Library.Sublist"
begin

text \<open>
  The registration in the registry, src/src/shared/regutil.c. The registry is a tree of keys by their paths.
\<close>

section \<open>The registry\<close>

text \<open>A value has a type and octets; the default value of a key has the empty name.\<close>

type_synonym reg_path = "wstr list"
type_synonym reg_values = "wstr \<Rightarrow> (u32 \<times> bytes) option"

record registry =
  rg_keys :: "reg_path \<Rightarrow> reg_values option"
  rg_open :: int

text \<open>The parts of a name between backslashes.\<close>

fun split_name :: "wstr \<Rightarrow> wstr \<Rightarrow> reg_path" where
  "split_name part [] = [part]"
| "split_name part (c # cs) = (if c = backslash then part # split_name [] cs else split_name (part @ [c]) cs)"

abbreviation key_path :: "reg_path \<Rightarrow> wstr \<Rightarrow> reg_path" where
  "key_path k Name \<equiv> k @ split_name [] Name"

text \<open>
  The operations of the system; \<open>refuse\<close> is an error other than that a key or a value is not there. A key is created with those
  above it; the flag is whether it is new.
\<close>

definition RegOpenKey :: "(reg_path \<Rightarrow> u32 option) \<Rightarrow> reg_path \<Rightarrow> registry \<Rightarrow> u32 \<times> registry" where
  "RegOpenKey refuse p r =
     (case refuse p of
        Some Error \<Rightarrow> (Error, r)
      | None \<Rightarrow> if rg_keys r p = None then (ERROR_FILE_NOT_FOUND, r) else (0, r\<lparr>rg_open := rg_open r + 1\<rparr>))"

definition RegCreateKey :: "(reg_path \<Rightarrow> u32 option) \<Rightarrow> reg_path \<Rightarrow> registry \<Rightarrow> u32 \<times> bool \<times> registry" where
  "RegCreateKey refuse p r =
     (case refuse p of
        Some Error \<Rightarrow> (Error, False, r)
      | None \<Rightarrow>
        (0, rg_keys r p = None,
         r\<lparr>rg_keys := (\<lambda>q. if prefix q p \<and> rg_keys r q = None then Some (\<lambda>_. None) else rg_keys r q), rg_open := rg_open r + 1\<rparr>))"

definition RegCloseKey :: "registry \<Rightarrow> registry" where "RegCloseKey r = r\<lparr>rg_open := rg_open r - 1\<rparr>"

definition RegSetValue :: "(reg_path \<Rightarrow> u32 option) \<Rightarrow> reg_path \<Rightarrow> wstr \<Rightarrow> u32 \<times> bytes \<Rightarrow> registry \<Rightarrow> u32 \<times> registry" where
  "RegSetValue refuse p Name v r =
     (case refuse p of
        Some Error \<Rightarrow> (Error, r)
      | None \<Rightarrow> (0, r\<lparr>rg_keys := (rg_keys r)(p := map_option (\<lambda>vs. vs(Name \<mapsto> v)) (rg_keys r p))\<rparr>))"

definition RegDeleteTree :: "(reg_path \<Rightarrow> u32 option) \<Rightarrow> reg_path \<Rightarrow> registry \<Rightarrow> u32 \<times> registry" where
  "RegDeleteTree refuse p r =
     (case refuse p of
        Some Error \<Rightarrow> (Error, r)
      | None \<Rightarrow> if rg_keys r p = None then (ERROR_FILE_NOT_FOUND, r)
          else (0, r\<lparr>rg_keys := (\<lambda>q. if prefix p q then None else rg_keys r q)\<rparr>))"

definition RegDeleteValue :: "(reg_path \<Rightarrow> u32 option) \<Rightarrow> reg_path \<Rightarrow> wstr \<Rightarrow> registry \<Rightarrow> u32 \<times> registry" where
  "RegDeleteValue refuse p Name r =
     (case refuse p of
        Some Error \<Rightarrow> (Error, r)
      | None \<Rightarrow>
        (case rg_keys r p of
           None \<Rightarrow> (ERROR_FILE_NOT_FOUND, r)
         | Some vs \<Rightarrow> if vs Name = None then (ERROR_FILE_NOT_FOUND, r)
             else (0, r\<lparr>rg_keys := (rg_keys r)(p \<mapsto> vs(Name := None))\<rparr>)))"

section \<open>Entries\<close>

record REGENTRY =
  re_Name :: "wstr option"
  re_Type :: u32
  re_Value :: "bytes option"

text \<open>
  The key that an entry is relative to is the one that the entries before it have opened, or the given one, which is not closed. An
  entry with neither name nor value goes back to it.
\<close>

definition entry_path :: "reg_path \<Rightarrow> reg_path option \<Rightarrow> reg_path" where
  "entry_path Key EntryKey = (case EntryKey of Some k \<Rightarrow> k | None \<Rightarrow> Key)"

definition close_entry :: "reg_path option \<Rightarrow> registry \<Rightarrow> registry" where
  "close_entry EntryKey r = (if EntryKey \<noteq> None then RegCloseKey r else r)"

definition entry_name :: "REGENTRY \<Rightarrow> wstr" where
  "entry_name e = (case re_Name e of Some n \<Rightarrow> n | None \<Rightarrow> [])"

fun add_entries ::
    "(reg_path \<Rightarrow> u32 option) \<Rightarrow> reg_path \<Rightarrow> REGENTRY list \<Rightarrow> reg_path option \<Rightarrow> bool \<Rightarrow> registry \<Rightarrow> u32 \<times> bool \<times> registry" where
  "add_entries refuse Key [] EntryKey KeyAdded r = (ERROR_SUCCESS, KeyAdded, close_entry EntryKey r)"
| "add_entries refuse Key (e # es) EntryKey KeyAdded r =
     (let k = entry_path Key EntryKey
      in case re_Value e of
          None \<Rightarrow>
            if re_Name e = None then add_entries refuse Key es None KeyAdded (close_entry EntryKey r)
            else
              let p = key_path k (entry_name e);
                  (Error, added, r) = (if re_Type e = 0 then (case RegOpenKey refuse p r of (Error, r) \<Rightarrow> (Error, False, r))
                                       else RegCreateKey refuse p r);
                  KeyAdded = (KeyAdded \<or> added)
              in if Error \<noteq> ERROR_SUCCESS then (Error, KeyAdded, close_entry EntryKey r)
                 else add_entries refuse Key es (Some p) KeyAdded (close_entry EntryKey r)
        | Some v \<Rightarrow>
            (case RegSetValue refuse k (entry_name e) (re_Type e, v) r of
               (Error, r) \<Rightarrow>
                 if Error \<noteq> ERROR_SUCCESS then (Error, KeyAdded, close_entry EntryKey r)
                 else add_entries refuse Key es EntryKey KeyAdded r))"

definition RegAddEntries :: "(reg_path \<Rightarrow> u32 option) \<Rightarrow> reg_path \<Rightarrow> REGENTRY list \<Rightarrow> registry \<Rightarrow> u32 \<times> bool \<times> registry" where
  "RegAddEntries refuse Key Entries r = add_entries refuse Key Entries None False r"

text \<open>After a key is deleted with what is below it, the entries up to the next one without name and value are skipped.\<close>

fun delete_entries ::
    "(reg_path \<Rightarrow> u32 option) \<Rightarrow> reg_path \<Rightarrow> REGENTRY list \<Rightarrow> reg_path option \<Rightarrow> bool \<Rightarrow> bool \<Rightarrow> registry \<Rightarrow> u32 \<times> bool \<times> registry" where
  "delete_entries refuse Key [] EntryKey Skip KeyDeleted r = (ERROR_SUCCESS, KeyDeleted, close_entry EntryKey r)"
| "delete_entries refuse Key (e # es) EntryKey Skip KeyDeleted r =
     (let k = entry_path Key EntryKey
      in case re_Value e of
          None \<Rightarrow>
            if re_Name e = None then delete_entries refuse Key es None False KeyDeleted (close_entry EntryKey r)
            else if Skip then delete_entries refuse Key es EntryKey Skip KeyDeleted r
            else
              let p = key_path k (entry_name e)
              in if re_Type e = 0
                 then (case RegOpenKey refuse p r of
                     (Error, r) \<Rightarrow>
                       if Error \<noteq> ERROR_SUCCESS then (Error, KeyDeleted, close_entry EntryKey r)
                       else delete_entries refuse Key es (Some p) Skip KeyDeleted (close_entry EntryKey r))
                 else (case RegDeleteTree refuse p r of
                     (Error, r) \<Rightarrow>
                       if Error \<noteq> ERROR_SUCCESS \<and> Error \<noteq> ERROR_FILE_NOT_FOUND
                       then (Error, KeyDeleted, close_entry EntryKey r)
                       else delete_entries refuse Key es None True (KeyDeleted \<or> Error = ERROR_SUCCESS) (close_entry EntryKey r))
        | Some v \<Rightarrow>
            if Skip then delete_entries refuse Key es EntryKey Skip KeyDeleted r
            else (case RegDeleteValue refuse k (entry_name e) r of
               (Error, r) \<Rightarrow>
                 if Error \<noteq> ERROR_SUCCESS \<and> Error \<noteq> ERROR_FILE_NOT_FOUND then (Error, KeyDeleted, close_entry EntryKey r)
                 else delete_entries refuse Key es EntryKey Skip KeyDeleted r))"

definition RegDeleteEntries :: "(reg_path \<Rightarrow> u32 option) \<Rightarrow> reg_path \<Rightarrow> REGENTRY list \<Rightarrow> registry \<Rightarrow> u32 \<times> bool \<times> registry" where
  "RegDeleteEntries refuse Key Entries r = delete_entries refuse Key Entries None False False r"

end
