(* ===== verification/RegUtil_Props.thy ===== *)
theory RegUtil_Props
  imports RegUtil
begin

text \<open>
  Every key that a registration opens is closed, and deleting the entries of a registration undoes adding them.
\<close>

section \<open>Handles\<close>

lemma rg_open_ops:
  "RegOpenKey refuse p r = (e, r') \<Longrightarrow> rg_open r' = rg_open r + of_bool (e = 0 \<and> refuse p \<noteq> Some 0)"
  "RegCreateKey refuse p r = (e, a, r') \<Longrightarrow> rg_open r' = rg_open r + of_bool (e = 0 \<and> refuse p \<noteq> Some 0)"
  "RegSetValue refuse p n v r = (e, r') \<Longrightarrow> rg_open r' = rg_open r"
  "RegDeleteTree refuse p r = (e, r') \<Longrightarrow> rg_open r' = rg_open r"
  "RegDeleteValue refuse p n r = (e, r') \<Longrightarrow> rg_open r' = rg_open r"
  "rg_open (close_entry k r) = rg_open r - of_bool (k \<noteq> None)"
  by (auto simp: RegOpenKey_def RegCreateKey_def RegSetValue_def RegDeleteTree_def RegDeleteValue_def close_entry_def RegCloseKey_def
      split: option.splits if_splits)

lemma add_entries_open:
  assumes "\<forall>p. refuse p \<noteq> Some 0"
  shows "add_entries refuse Key es k a r = (e, a', r') \<Longrightarrow> rg_open r' = rg_open r - of_bool (k \<noteq> None)"
proof (induction es arbitrary: k a r)
  case (Cons x es)
  from Cons.prems show ?case
    using assms
    by (auto simp: Let_def rg_open_ops split: option.splits if_splits prod.splits dest!: rg_open_ops(1-5) Cons.IH)
qed (auto simp: rg_open_ops)

lemma delete_entries_open:
  assumes "\<forall>p. refuse p \<noteq> Some 0"
  shows "delete_entries refuse Key es k sk d r = (e, d', r') \<Longrightarrow> rg_open r' = rg_open r - of_bool (k \<noteq> None)"
proof (induction es arbitrary: k sk d r)
  case (Cons x es)
  from Cons.prems show ?case
    using assms
    by (auto simp: Let_def rg_open_ops split: option.splits if_splits prod.splits dest!: rg_open_ops(1-5) Cons.IH)
qed (auto simp: rg_open_ops)

section \<open>Groups of entries\<close>

text \<open>
  The entries of a registration come in groups: existing keys that are opened, a key that is created, and entries below it. An entry
  without name and value stands between two groups.
\<close>

record reg_group =
  gr_opens :: "wstr list"
  gr_new :: wstr
  gr_type :: u32
  gr_rest :: "REGENTRY list"

definition group_entries :: "reg_group \<Rightarrow> REGENTRY list" where
  "group_entries g = map (\<lambda>n. \<lparr>re_Name = Some n, re_Type = 0, re_Value = None\<rparr>) (gr_opens g) @
     \<lparr>re_Name = Some (gr_new g), re_Type = gr_type g, re_Value = None\<rparr> # gr_rest g"

fun registration :: "reg_group list \<Rightarrow> REGENTRY list" where
  "registration [] = []"
| "registration [g] = group_entries g"
| "registration (g # gs) = group_entries g @ \<lparr>re_Name = None, re_Type = 0, re_Value = None\<rparr> # registration gs"

definition open_path :: "reg_path \<Rightarrow> wstr list \<Rightarrow> reg_path" where
  "open_path Key ns = foldl key_path Key ns"

definition group_top :: "reg_path \<Rightarrow> reg_group \<Rightarrow> reg_path" where
  "group_top Key g = open_path Key (gr_opens g) @ [gr_new g]"

definition good_group :: "reg_group \<Rightarrow> bool" where
  "good_group g \<longleftrightarrow> gr_type g \<noteq> 0 \<and> backslash \<notin> set (gr_new g) \<and>
     (\<forall>e \<in> set (gr_rest g). re_Name e \<noteq> None \<or> re_Value e \<noteq> None)"

lemma split_name_one: "backslash \<notin> set s \<Longrightarrow> split_name part s = [part @ s]"
  by (induction s arbitrary: part) auto

lemma open_path_prefix: "prefix Key (open_path Key ns)"
  unfolding open_path_def
proof (induction ns arbitrary: Key)
  case (Cons n ns)
  have "prefix Key (key_path Key n)" by simp
  also have "prefix (key_path Key n) (foldl key_path (key_path Key n) ns)" by (rule Cons.IH)
  finally show ?case by simp
qed simp

text \<open>The keys form a tree: above a key there are keys.\<close>

definition reg_tree :: "registry \<Rightarrow> bool" where
  "reg_tree r \<longleftrightarrow> (\<forall>p q. prefix q p \<and> rg_keys r p \<noteq> None \<longrightarrow> rg_keys r q \<noteq> None)"

abbreviation no_refusal :: "reg_path \<Rightarrow> u32 option" where "no_refusal \<equiv> \<lambda>_. None"

lemma keys_close [simp]: "rg_keys (close_entry k r) = rg_keys r"
  by (simp add: close_entry_def RegCloseKey_def)

lemma reg_tree_keys: "rg_keys r = rg_keys r' \<Longrightarrow> reg_tree r = reg_tree r'"
  by (simp add: reg_tree_def)

lemma reg_tree_create:
  assumes "reg_tree r" and "RegCreateKey no_refusal p r = (e, a, r')"
  shows "reg_tree r'" and "rg_keys r' p \<noteq> None" and "e = 0"
    and "rg_keys r k \<noteq> None \<Longrightarrow> p = k @ x \<Longrightarrow> \<not> prefix k q \<Longrightarrow> rg_keys r' q = rg_keys r q"
proof -
  have r': "rg_keys r' = (\<lambda>q. if prefix q p \<and> rg_keys r q = None then Some (\<lambda>_. None) else rg_keys r q)" and e: "e = 0"
    using assms(2) by (auto simp: RegCreateKey_def)
  show "reg_tree r'"
    unfolding reg_tree_def r'
  proof (intro allI impI)
    fix p' q
    assume a: "prefix q p' \<and> (if prefix p' p \<and> rg_keys r p' = None then Some (\<lambda>_. None) else rg_keys r p') \<noteq> None"
    show "(if prefix q p \<and> rg_keys r q = None then Some (\<lambda>_. None) else rg_keys r q) \<noteq> None"
    proof (cases "rg_keys r p' = None")
      case True
      with a have "prefix q p" by (metis prefix_order.trans)
      then show ?thesis by simp
    next
      case False
      with a assms(1) show ?thesis by (auto simp: reg_tree_def)
    qed
  qed
  show "rg_keys r' p \<noteq> None" unfolding r' by simp
  show "e = 0" by (rule e)
  assume k: "rg_keys r k \<noteq> None" "p = k @ x" "\<not> prefix k q"
  have "rg_keys r q \<noteq> None" if "prefix q p"
  proof -
    from that k have "prefix q k" by (metis prefix_append prefix_same_cases prefixI)
    with assms(1) k(1) show ?thesis by (auto simp: reg_tree_def)
  qed
  then show "rg_keys r' q = rg_keys r q" unfolding r' by auto
qed

lemma create_keeps: "RegCreateKey no_refusal p r = (e, a, r') \<Longrightarrow> rg_keys r q \<noteq> None \<Longrightarrow> rg_keys r' q = rg_keys r q"
  by (auto simp: RegCreateKey_def)

lemma reg_tree_set:
  assumes "RegSetValue no_refusal k n v r = (e, r')"
  shows "e = 0" and "reg_tree r \<Longrightarrow> reg_tree r'" and "rg_keys r' q = None \<longleftrightarrow> rg_keys r q = None"
    and "q \<noteq> k \<Longrightarrow> rg_keys r' q = rg_keys r q"
proof -
  have r': "rg_keys r' = (rg_keys r)(k := map_option (\<lambda>vs. vs(n \<mapsto> v)) (rg_keys r k))" and e: "e = 0"
    using assms by (auto simp: RegSetValue_def)
  show "e = 0" by (rule e)
  have d: "rg_keys r' p = None \<longleftrightarrow> rg_keys r p = None" for p by (simp add: r')
  show "rg_keys r' q = None \<longleftrightarrow> rg_keys r q = None" by (rule d)
  show "reg_tree r'" if "reg_tree r" using that unfolding reg_tree_def d .
  show "rg_keys r' q = rg_keys r q" if "q \<noteq> k" using that by (simp add: r')
qed

section \<open>Adding\<close>

text \<open>What an addition below \<open>tp\<close> keeps.\<close>

definition below :: "reg_path \<Rightarrow> registry \<Rightarrow> registry \<Rightarrow> bool" where
  "below tp r r' \<longleftrightarrow> (reg_tree r \<longrightarrow> reg_tree r') \<and> (\<forall>q. rg_keys r q \<noteq> None \<longrightarrow> rg_keys r' q \<noteq> None) \<and>
     (\<forall>q. \<not> prefix tp q \<longrightarrow> rg_keys r' q = rg_keys r q)"

lemma below_trans: "below tp r r1 \<Longrightarrow> below tp r1 r2 \<Longrightarrow> below tp r r2"
  by (simp add: below_def)

lemma below_keys: "rg_keys r = rg_keys r' \<Longrightarrow> below tp r r'"
  using reg_tree_keys [of r r'] by (simp add: below_def)

lemma below_create:
  assumes "RegCreateKey no_refusal (k @ x) r = (e, a, r')" and "reg_tree r" and "rg_keys r k \<noteq> None" and "prefix tp k"
  shows "below tp r r'" and "rg_keys r' (k @ x) \<noteq> None"
proof -
  have "rg_keys r' q = rg_keys r q" if "\<not> prefix tp q" for q
    using reg_tree_create(4) [OF assms(2,1,3) refl] that assms(4) by (meson prefix_order.trans)
  then show "below tp r r'" using reg_tree_create(1) [OF assms(2,1)] create_keeps [OF assms(1)] by (simp add: below_def)
  show "rg_keys r' (k @ x) \<noteq> None" by (rule reg_tree_create(2) [OF assms(2,1)])
qed

lemma below_set: "RegSetValue no_refusal k n v r = (e, r') \<Longrightarrow> prefix tp k \<Longrightarrow> below tp r r'"
  using reg_tree_set [of k n v r e r'] by (auto simp: below_def)

lemma add_rest:
  assumes "\<forall>e \<in> set rest. re_Name e \<noteq> None \<or> re_Value e \<noteq> None" and "prefix tp k" and "reg_tree r" and "rg_keys r k \<noteq> None"
    and "add_entries no_refusal Key (rest @ es) (Some k) a r = (0, a', r')"
  shows "\<exists>k1 a1 r1. add_entries no_refusal Key es (Some k1) a1 r1 = (0, a', r') \<and> below tp r r1"
  using assms
proof (induction rest arbitrary: k a r)
  case Nil
  then show ?case using below_keys [of r r] by auto
next
  case (Cons e rest)
  let ?p = "key_path k (entry_name e)"
  have pre: "prefix tp ?p" using Cons.prems(2) by (metis prefix_order.trans prefixI)
  consider (opened) r1 where "RegOpenKey no_refusal ?p r = (0, r1)"
      "add_entries no_refusal Key (rest @ es) (Some ?p) a (close_entry (Some k) r1) = (0, a', r')"
    | (create) a1 r1 where "RegCreateKey no_refusal ?p r = (0, a1, r1)"
      "add_entries no_refusal Key (rest @ es) (Some ?p) (a \<or> a1) (close_entry (Some k) r1) = (0, a', r')"
    | (set) v r1 where "RegSetValue no_refusal k (entry_name e) v r = (0, r1)"
      "add_entries no_refusal Key (rest @ es) (Some k) a r1 = (0, a', r')"
    using Cons.prems(1,5) by (auto simp: Let_def entry_path_def split: option.splits if_splits prod.splits)
  then show ?case
  proof cases
    case opened
    then have o: "rg_keys r1 = rg_keys r" "rg_keys r ?p \<noteq> None" by (auto simp: RegOpenKey_def split: if_splits)
    have b: "below tp r (close_entry (Some k) r1)" by (rule below_keys) (simp add: o)
    then have "reg_tree (close_entry (Some k) r1)" using Cons.prems(3) by (simp add: below_def)
    with Cons.IH [OF _ pre _ _ opened(2)] Cons.prems(1) o show ?thesis using below_trans [OF b] by auto
  next
    case create
    note c = below_create [OF create(1) Cons.prems(3,4,2)]
    have b: "below tp r (close_entry (Some k) r1)" using c(1) below_keys [of r1 "close_entry (Some k) r1"] by (auto intro: below_trans)
    then have "reg_tree (close_entry (Some k) r1)" using Cons.prems(3) by (simp add: below_def)
    with Cons.IH [OF _ pre _ _ create(2)] Cons.prems(1) c(2) show ?thesis using below_trans [OF b] by auto
  next
    case set
    note b = below_set [OF set(1) Cons.prems(2)]
    have "reg_tree r1" "rg_keys r1 k \<noteq> None" using b Cons.prems(3,4) by (simp_all add: below_def)
    with Cons.IH [OF _ Cons.prems(2) _ _ set(2)] Cons.prems(1) show ?thesis using below_trans [OF b] by auto
  qed
qed

abbreviation open_entry :: "wstr \<Rightarrow> REGENTRY" where "open_entry n \<equiv> \<lparr>re_Name = Some n, re_Type = 0, re_Value = None\<rparr>"

lemma add_opens:
  assumes "add_entries no_refusal Key (map open_entry ns @ es) k a r = (0, a', r')" and "rg_keys r (entry_path Key k) \<noteq> None"
  shows "\<exists>k1 r1. add_entries no_refusal Key es k1 a r1 = (0, a', r') \<and> rg_keys r1 = rg_keys r \<and>
    entry_path Key k1 = open_path (entry_path Key k) ns \<and>
    (\<forall>i \<le> length ns. rg_keys r (open_path (entry_path Key k) (take i ns)) \<noteq> None)"
  using assms
proof (induction ns arbitrary: k r)
  case Nil
  then show ?case by (auto simp: open_path_def)
next
  case (Cons n ns)
  let ?p = "key_path (entry_path Key k) n"
  obtain r1 where o: "RegOpenKey no_refusal ?p r = (0, r1)"
    "add_entries no_refusal Key (map open_entry ns @ es) (Some ?p) a (close_entry k r1) = (0, a', r')"
    using Cons.prems(1) by (auto simp: Let_def entry_name_def split: prod.splits if_splits)
  then have r1: "rg_keys r1 = rg_keys r" "rg_keys r ?p \<noteq> None" by (auto simp: RegOpenKey_def split: if_splits)
  have "rg_keys (close_entry k r1) (entry_path Key (Some ?p)) \<noteq> None" using r1 by (simp add: entry_path_def)
  from Cons.IH [OF o(2) this] obtain k1 r2 where
    "add_entries no_refusal Key es k1 a r2 = (0, a', r')" "rg_keys r2 = rg_keys r" "entry_path Key k1 = open_path ?p ns"
    and ex: "\<forall>i \<le> length ns. rg_keys r (open_path ?p (take i ns)) \<noteq> None"
    using r1 by (auto simp: entry_path_def)
  moreover have "rg_keys r (open_path (entry_path Key k) (take i (n # ns))) \<noteq> None" if "i \<le> length (n # ns)" for i
    using that ex Cons.prems(2) by (cases i) (auto simp: open_path_def)
  ultimately show ?case by (auto simp: open_path_def)
qed

lemma add_group:
  assumes "good_group g" and "reg_tree r" and "rg_keys r Key \<noteq> None"
    and "add_entries no_refusal Key (group_entries g @ es) None a r = (0, a', r')"
  shows "\<exists>k1 a1 r1. add_entries no_refusal Key es (Some k1) a1 r1 = (0, a', r') \<and> below (group_top Key g) r r1 \<and>
    (\<forall>i \<le> length (gr_opens g). rg_keys r (open_path Key (take i (gr_opens g))) \<noteq> None)"
proof -
  let ?o = "open_path Key (gr_opens g)" and ?tp = "group_top Key g"
  obtain k1 r1 where a1: "add_entries no_refusal Key (\<lparr>re_Name = Some (gr_new g), re_Type = gr_type g, re_Value = None\<rparr> # gr_rest g @ es) k1 a r1 = (0, a', r')"
    and r1: "rg_keys r1 = rg_keys r" "entry_path Key k1 = ?o"
    and ex: "\<forall>i \<le> length (gr_opens g). rg_keys r (open_path Key (take i (gr_opens g))) \<noteq> None"
    using add_opens [OF assms(4) [unfolded group_entries_def, simplified]] assms(3) by (auto simp: entry_path_def)
  have tree: "reg_tree r1" using reg_tree_keys [OF r1(1)] assms(2) by simp
  have one: "split_name [] (gr_new g) = [gr_new g]" using assms(1) split_name_one [of "gr_new g" "[]"] by (simp add: good_group_def)
  obtain b r2 where c: "RegCreateKey no_refusal ?tp r1 = (0, b, r2)"
    and a2: "add_entries no_refusal Key (gr_rest g @ es) (Some ?tp) (a \<or> b) (close_entry k1 r2) = (0, a', r')"
    using a1 assms(1) r1(2) one
    by (auto simp: Let_def entry_name_def good_group_def group_top_def split: prod.splits if_splits)
  have o: "rg_keys r1 ?o \<noteq> None" using ex r1(1) by auto
  have tp: "rg_keys r2 ?tp \<noteq> None" and tree2: "reg_tree r2" using reg_tree_create [OF tree c] by auto
  have b2: "below ?tp r r2"
  proof -
    have "rg_keys r2 q = rg_keys r q" if q: "\<not> prefix ?tp q" for q
    proof (cases "prefix q ?tp")
      case True
      then have "prefix q ?o" using q by (auto simp: group_top_def)
      then have "rg_keys r1 q \<noteq> None" using tree o by (auto simp: reg_tree_def)
      then show ?thesis using create_keeps [OF c] r1(1) by simp
    next
      case False
      then show ?thesis using c r1(1) by (auto simp: RegCreateKey_def)
    qed
    then show ?thesis using tree2 create_keeps [OF c] r1(1) by (simp add: below_def)
  qed
  have "below ?tp r2 (close_entry k1 r2)" by (rule below_keys) simp
  moreover have "reg_tree (close_entry k1 r2)" using tree2 reg_tree_keys [of r2 "close_entry k1 r2"] by simp
  moreover have "\<forall>e \<in> set (gr_rest g). re_Name e \<noteq> None \<or> re_Value e \<noteq> None" using assms(1) by (simp add: good_group_def)
  ultimately show ?thesis
    using add_rest [OF _ _ _ _ a2, of ?tp] tp b2 ex by (metis below_trans keys_close prefix_order.refl)
qed

text \<open>What a registration leaves: a tree in which the opened keys are, and nothing new but below the created keys.\<close>

lemma add_registration:
  "\<forall>g \<in> set gs. good_group g \<Longrightarrow> reg_tree r \<Longrightarrow> rg_keys r Key \<noteq> None \<Longrightarrow>
   add_entries no_refusal Key (registration gs) None a r = (0, a', r') \<Longrightarrow>
   reg_tree r' \<and> (\<forall>q. rg_keys r q \<noteq> None \<longrightarrow> rg_keys r' q \<noteq> None) \<and>
   (\<forall>q. (\<forall>g \<in> set gs. \<not> prefix (group_top Key g) q) \<longrightarrow> rg_keys r' q = rg_keys r q) \<and>
   (\<forall>g \<in> set gs. \<forall>i \<le> length (gr_opens g). rg_keys r' (open_path Key (take i (gr_opens g))) \<noteq> None)"
proof (induction gs arbitrary: a r rule: registration.induct)
  case (2 g)
  obtain k1 a1 r1 where "add_entries no_refusal Key [] (Some k1) a1 r1 = (0, a', r')" and b: "below (group_top Key g) r r1"
    and ex: "\<forall>i \<le> length (gr_opens g). rg_keys r (open_path Key (take i (gr_opens g))) \<noteq> None"
    using add_group [of g r Key "[]" a a' r'] 2 by (auto simp del: add_entries.simps)
  then have "rg_keys r' = rg_keys r1" by auto
  with b ex "2.prems"(2) show ?case using reg_tree_keys [of r' r1] by (simp add: below_def)
next
  case (3 g h gs)
  let ?es = "\<lparr>re_Name = None, re_Type = 0, re_Value = None\<rparr> # registration (h # gs)"
  obtain k1 a1 r1 where m: "add_entries no_refusal Key ?es (Some k1) a1 r1 = (0, a', r')" and b: "below (group_top Key g) r r1"
    and ex: "\<forall>i \<le> length (gr_opens g). rg_keys r (open_path Key (take i (gr_opens g))) \<noteq> None"
    using add_group [of g r Key ?es a a' r'] "3.prems" by (auto simp del: add_entries.simps)
  let ?r2 = "close_entry (Some k1) r1"
  have r2: "reg_tree ?r2" "rg_keys ?r2 Key \<noteq> None"
    using b "3.prems"(2,3) reg_tree_keys [of ?r2 r1] by (simp_all add: below_def)
  have "add_entries no_refusal Key (registration (h # gs)) None a1 ?r2 = (0, a', r')"
    using m by simp
  from "3.IH" [OF _ r2 this] "3.prems"(1) have I: "reg_tree r' \<and> (\<forall>q. rg_keys r1 q \<noteq> None \<longrightarrow> rg_keys r' q \<noteq> None) \<and>
   (\<forall>q. (\<forall>g \<in> set (h # gs). \<not> prefix (group_top Key g) q) \<longrightarrow> rg_keys r' q = rg_keys r1 q) \<and>
   (\<forall>g \<in> set (h # gs). \<forall>i \<le> length (gr_opens g). rg_keys r' (open_path Key (take i (gr_opens g))) \<noteq> None)"
    by simp
  with b ex show ?case unfolding below_def by (simp add: Ball_def)
qed (auto simp: close_entry_def)

section \<open>Deleting\<close>

lemma delete_opens:
  assumes "\<forall>i \<le> length ns. rg_keys r (open_path (entry_path Key k) (take i ns)) \<noteq> None"
  shows "\<exists>k1 r1. delete_entries no_refusal Key (map open_entry ns @ es) k False d r = delete_entries no_refusal Key es k1 False d r1 \<and>
    rg_keys r1 = rg_keys r \<and> entry_path Key k1 = open_path (entry_path Key k) ns"
  using assms
proof (induction ns arbitrary: k r)
  case Nil
  then show ?case by (auto simp: open_path_def)
next
  case (Cons n ns)
  let ?p = "key_path (entry_path Key k) n"
  have p: "rg_keys r ?p \<noteq> None" using Cons.prems [rule_format, of 1] by (simp add: open_path_def)
  have "\<forall>i \<le> length ns. rg_keys (close_entry k (r\<lparr>rg_open := rg_open r + 1\<rparr>)) (open_path (entry_path Key (Some ?p)) (take i ns)) \<noteq> None"
    using Cons.prems by (force simp: open_path_def entry_path_def dest: spec [of _ "Suc _"])
  from Cons.IH [OF this] p show ?case
    by (auto simp: Let_def entry_name_def RegOpenKey_def open_path_def entry_path_def)
qed

lemma delete_skips:
  "\<forall>e \<in> set rest. re_Name e \<noteq> None \<or> re_Value e \<noteq> None \<Longrightarrow>
   delete_entries no_refusal Key (rest @ es) k True d r = delete_entries no_refusal Key es k True d r"
  by (induction rest) (auto simp: Let_def split: option.splits)

lemma delete_group:
  assumes "good_group g" and "reg_tree r" and "\<forall>i \<le> length (gr_opens g). rg_keys r (open_path Key (take i (gr_opens g))) \<noteq> None"
  shows "\<exists>d' r'. delete_entries no_refusal Key (group_entries g @ es) None False d r = delete_entries no_refusal Key es None True d' r' \<and>
    rg_keys r' = (\<lambda>q. if prefix (group_top Key g) q then None else rg_keys r q) \<and> reg_tree r'"
proof -
  let ?tp = "group_top Key g" and ?e = "\<lparr>re_Name = Some (gr_new g), re_Type = gr_type g, re_Value = None\<rparr>"
  obtain k1 r1 where o: "delete_entries no_refusal Key (group_entries g @ es) None False d r =
      delete_entries no_refusal Key (?e # gr_rest g @ es) k1 False d r1"
    and r1: "rg_keys r1 = rg_keys r" "entry_path Key k1 = open_path Key (gr_opens g)"
    using delete_opens [of "gr_opens g" r Key None "?e # gr_rest g @ es" d] assms(3) by (auto simp: group_entries_def entry_path_def)
  have one: "split_name [] (gr_new g) = [gr_new g]" using assms(1) split_name_one [of "gr_new g" "[]"] by (simp add: good_group_def)
  have gone: "rg_keys r q = None" if "rg_keys r ?tp = None" "prefix ?tp q" for q using assms(2) that unfolding reg_tree_def by metis
  obtain e2 r2 where del: "RegDeleteTree no_refusal ?tp r1 = (e2, r2)" by fastforce
  have r2: "rg_keys r2 = (\<lambda>q. if prefix ?tp q then None else rg_keys r q)" "e2 = 0 \<or> e2 = ERROR_FILE_NOT_FOUND"
    using del gone r1(1) by (auto simp: RegDeleteTree_def split: if_splits)
  have "delete_entries no_refusal Key (?e # gr_rest g @ es) k1 False d r1 =
      delete_entries no_refusal Key (gr_rest g @ es) None True (d \<or> e2 = 0) (close_entry k1 r2)"
    using assms(1) r1(2) one del r2(2)
    by (auto simp: Let_def entry_name_def good_group_def group_top_def)
  also have "\<dots> = delete_entries no_refusal Key es None True (d \<or> e2 = 0) (close_entry k1 r2)"
    using assms(1) by (intro delete_skips) (simp add: good_group_def)
  finally have "delete_entries no_refusal Key (group_entries g @ es) None False d r =
      delete_entries no_refusal Key es None True (d \<or> e2 = 0) (close_entry k1 r2)" using o by simp
  moreover have "reg_tree (close_entry k1 r2)"
    using assms(2) unfolding reg_tree_def by (simp add: r2(1)) (metis prefix_order.trans)
  ultimately show ?thesis using r2(1) by (intro exI conjI) auto
qed

lemma delete_registration:
  "\<forall>g \<in> set gs. good_group g \<Longrightarrow> reg_tree r \<Longrightarrow>
   \<forall>g \<in> set gs. \<forall>i \<le> length (gr_opens g). rg_keys r (open_path Key (take i (gr_opens g))) \<noteq> None \<Longrightarrow>
   \<forall>g \<in> set gs. \<forall>h \<in> set gs. \<not> prefix (group_top Key g) (open_path Key (gr_opens h)) \<Longrightarrow>
   \<exists>d' r'. delete_entries no_refusal Key (registration gs) None False d r = (0, d', r') \<and>
     rg_keys r' = (\<lambda>q. if \<exists>g \<in> set gs. prefix (group_top Key g) q then None else rg_keys r q)"
proof (induction gs arbitrary: d r rule: registration.induct)
  case (2 g)
  then show ?case using delete_group [of g r Key "[]" d] by auto
next
  case (3 g h gs)
  let ?es = "\<lparr>re_Name = None, re_Type = 0, re_Value = None\<rparr> # registration (h # gs)"
  obtain d1 r1 where m: "delete_entries no_refusal Key (group_entries g @ ?es) None False d r = delete_entries no_refusal Key ?es None True d1 r1"
    and r1: "rg_keys r1 = (\<lambda>q. if prefix (group_top Key g) q then None else rg_keys r q)" "reg_tree r1"
    using delete_group [of g r Key ?es d] "3.prems" by (auto simp del: delete_entries.simps)
  have "rg_keys r1 (open_path Key (take i (gr_opens x))) \<noteq> None" if "x \<in> set (h # gs)" "i \<le> length (gr_opens x)" for x i
  proof -
    have "prefix (open_path Key (take i (gr_opens x))) (open_path Key (gr_opens x))"
      using open_path_prefix [of "open_path Key (take i (gr_opens x))" "drop i (gr_opens x)"]
      by (simp add: open_path_def flip: foldl_append)
    then have "\<not> prefix (group_top Key g) (open_path Key (take i (gr_opens x)))"
      using "3.prems"(4) that(1) by (meson list.set_intros(1) list.set_intros(2) prefix_order.trans)
    then show ?thesis using r1(1) "3.prems"(3) that by auto
  qed
  then obtain d' r' where "delete_entries no_refusal Key (registration (h # gs)) None False d1 r1 = (0, d', r')"
    and "rg_keys r' = (\<lambda>q. if \<exists>g \<in> set (h # gs). prefix (group_top Key g) q then None else rg_keys r1 q)"
    using "3.IH" [OF _ r1(2), of d1] "3.prems"(1,4) by auto
  then show ?case using m r1(1) by (auto simp: fun_eq_iff close_entry_def)
qed (simp add: close_entry_def)

section \<open>The properties\<close>


definition demo_groups :: "reg_group list" where
  "demo_groups =
     [\<lparr>gr_opens = [[0x43]], gr_new = [0x61], gr_type = 1, gr_rest = [\<lparr>re_Name = None, re_Type = 1, re_Value = Some [1]\<rparr>,
        \<lparr>re_Name = Some [0x73], re_Type = 1, re_Value = None\<rparr>]\<rparr>,
      \<lparr>gr_opens = [[0x43]], gr_new = [0x61], gr_type = 1, gr_rest = [\<lparr>re_Name = Some [0x69], re_Type = 1, re_Value = None\<rparr>]\<rparr>]"

definition demo_registry :: registry where
  "demo_registry = \<lparr>rg_keys = [[] \<mapsto> (\<lambda>_. None), [[0x43]] \<mapsto> (\<lambda>_. None)], rg_open = 0\<rparr>"


text \<open>No key stays open. Whatever fails, adding and deleting close every key that they have opened.\<close>

lemma registration_closes_keys:
  assumes "\<forall>p. refuse p \<noteq> Some 0" and "RegAddEntries refuse Key Entries r = (Error, added, r1)"
    and "RegDeleteEntries refuse Key Entries' r1 = (Error', deleted, r2)"
  shows "rg_open r1 = rg_open r \<and> rg_open r2 = rg_open r"
  using add_entries_open [OF assms(1) assms(2) [unfolded RegAddEntries_def]]
    delete_entries_open [OF assms(1) assms(3) [unfolded RegDeleteEntries_def]] by simp

lemma registration_closes_keys_witness:
  "\<exists>e a r1. RegAddEntries (\<lambda>p. if p = [[0x43], [0x61]] then Some ERROR_ACCESS_DENIED else None) [] (registration demo_groups) demo_registry =
     (e, a, r1) \<and> e = ERROR_ACCESS_DENIED \<and> rg_open r1 = 0"
proof -
  let ?f = "\<lambda>p. if p = [[0x43], [0x61]] then Some ERROR_ACCESS_DENIED else None :: u32 option"
  have s: "RegAddEntries ?f [] (registration demo_groups) demo_registry = (ERROR_ACCESS_DENIED, False, demo_registry)"
    by (simp add: RegAddEntries_def demo_groups_def demo_registry_def group_entries_def Let_def entry_name_def entry_path_def
        RegOpenKey_def RegCreateKey_def close_entry_def RegCloseKey_def backslash_def)
  have "RegDeleteEntries ?f [] [] demo_registry = (0, False, demo_registry)"
    by (simp add: RegDeleteEntries_def close_entry_def)
  from registration_closes_keys [OF _ s this] s show ?thesis by (fastforce simp: demo_registry_def)
qed

end
