(* ===== verification/Driver_Types.thy ===== *)
theory Driver_Types
  imports Scsi_Props Driver_Props
begin

text \<open>
  The types of the storage units: from the start of the driver on, through any sequence of its entry points, each unit has
  texts of the sizes of its structure and parameters that passed the checks of the provisioning. So the hypotheses on the unit in
  the theorems on commands and transfers hold in every state of the driver.
\<close>

section \<open>Units\<close>

definition unit_typed :: "SPD_STORAGE_UNIT \<Rightarrow> bool" where
  "unit_typed u \<longleftrightarrow> unit_sized u \<and> provision_params_ok (StorageUnitParams u)"

definition units_typed :: "kernel \<Rightarrow> bool" where
  "units_typed k \<longleftrightarrow> (\<forall>p u. units k p = Some u \<longrightarrow> unit_typed u)"

lemma unit_typed_upd [simp]:
  "unit_typed (u\<lparr>RefCount := n\<rparr>) = unit_typed u" "unit_typed (u\<lparr>UnitIoq := q\<rparr>) = unit_typed u"
  "unit_typed (u\<lparr>DeviceObject := d\<rparr>) = unit_typed u" "unit_typed (u\<lparr>TransactProcessId := i\<rparr>) = unit_typed u"
  by (simp_all add: unit_typed_def unit_sized_def)

lemma init_unit_typed: "params_sized P \<Longrightarrow> provision_params_ok P \<Longrightarrow> unit_typed (init_unit P pid)"
  using init_unit_sized [of P pid] by (simp add: unit_typed_def provision_params_ok_def init_unit_def)

lemma units_typed_upd [simp]:
  "units_typed (k\<lparr>mem := m\<rparr>) = units_typed k" "units_typed (k\<lparr>de := d\<rparr>) = units_typed k"
  "units_typed (k\<lparr>bus_changes := n\<rparr>) = units_typed k" "units_typed (upd_de f k) = units_typed k"
  "units_typed (k\<lparr>SpdGlobalDeviceExtension := g\<rparr>) = units_typed k" "units_typed (k\<lparr>notify_registered := b\<rparr>) = units_typed k"
  "units_typed (k\<lparr>resource_shared := n\<rparr>) = units_typed k"
  by (simp_all add: units_typed_def upd_de_def)

lemma units_typed_set: "units_typed k \<Longrightarrow> unit_typed u \<Longrightarrow> units_typed (set_unit p u k)"
  by (simp add: units_typed_def set_unit_def)

lemma units_typedD: "units_typed k \<Longrightarrow> units k p = Some u \<Longrightarrow> unit_typed u"
  by (auto simp: units_typed_def)

lemmas typed_defs = units_typed_def kernel_upd_defs Let_def

section \<open>The operations of the units\<close>

lemma dereference_typed: "SpdStorageUnitDereference p k = Some k' \<Longrightarrow> units_typed k \<Longrightarrow> units_typed k'"
  by (auto simp: SpdStorageUnitDereference_def typed_defs split: bind_splits if_splits)

lemma add_ref_typed: "add_ref p k = Some (p', k') \<Longrightarrow> units_typed k \<Longrightarrow> units_typed k'"
  by (auto simp: add_ref_def typed_defs split: bind_splits if_splits)

lemma reference_typed:
  "SpdStorageUnitReferenceByBtl btl k = Some (p, k') \<Longrightarrow> units_typed k \<Longrightarrow> units_typed k'"
  "SpdStorageUnitReference srb k = Some (p, k') \<Longrightarrow> units_typed k \<Longrightarrow> units_typed k'"
  "SpdStorageUnitReferenceByDevice d k = Some (p, k') \<Longrightarrow> units_typed k \<Longrightarrow> units_typed k'"
  by (auto simp: SpdStorageUnitReference_def SpdStorageUnitReferenceByDevice_def ReferenceByBtl_add_ref
      dest: add_ref_typed split: bind_splits prod.splits)

lemma provision_exit_typed: "provision_exit p st k = Some (st', b, k') \<Longrightarrow> units_typed k \<Longrightarrow> units_typed k'"
  by (auto simp: provision_exit_def typed_defs split: bind_splits if_splits option.splits)

lemma provision_typed:
  assumes "SpdStorageUnitProvision p ioq P pid k = Some (st, btl, k')" and "units_typed k"
    and "params_sized P" and "provision_params_ok P"
  shows "units_typed k'"
  using assms(1,2) init_unit_typed [OF assms(3,4), of pid]
  by (auto simp: SpdStorageUnitProvision_def Let_def units_typed_set dest!: provision_exit_typed split: bind_splits if_splits prod.splits)

lemma unprovision_typed: "SpdStorageUnitUnprovision g i pid k = Some (st, k') \<Longrightarrow> units_typed k \<Longrightarrow> units_typed k'"
proof -
  have l: "units_typed k1" if "unprovision_locked g i pid k = Some (p, k1)" "units_typed k" for p k1
    using that by (auto simp: unprovision_locked_def split: bind_splits if_splits prod.splits option.splits)
  have u: "units_typed k2" if "unprovision_unlocked p pid k1 = Some (st, k2)" "units_typed k1" for p k1 k2
    using that
    by (auto simp: unprovision_unlocked_def Let_def units_typed_set units_typedD dest!: dereference_typed
        split: bind_splits if_splits prod.splits)
  show "SpdStorageUnitUnprovision g i pid k = Some (st, k') \<Longrightarrow> units_typed k \<Longrightarrow> units_typed k'"
    using l u by (auto simp: SpdStorageUnitUnprovision_def split: bind_splits prod.splits)
qed

lemma notify_loop_typed: "notify_loop n I B c pid k = Some k' \<Longrightarrow> units_typed k \<Longrightarrow> units_typed k'"
  by (induction n I B c pid k rule: notify_loop.induct) (auto dest: unprovision_typed split: bind_splits if_splits prod.splits)

lemma notify_typed: "SpdDeviceExtensionNotifyRoutine pid c k = Some k' \<Longrightarrow> units_typed k \<Longrightarrow> units_typed k'"
  by (auto simp: SpdDeviceExtensionNotifyRoutine_def Let_def dest: notify_loop_typed split: bind_splits if_splits)

lemma extension_typed:
  "SpdDeviceExtensionInit p b reg k = (st, k') \<Longrightarrow> units_typed k \<Longrightarrow> units_typed k'"
  "SpdDeviceExtensionAcquire k = (g, k') \<Longrightarrow> units_typed k \<Longrightarrow> units_typed k'"
  "units_typed (SpdDeviceExtensionFini p k) = units_typed k" "units_typed (SpdDeviceExtensionRelease k) = units_typed k"
  by (auto simp: SpdDeviceExtensionInit_def SpdDeviceExtensionAcquire_def SpdDeviceExtensionFini_def SpdDeviceExtensionRelease_def
      split: if_splits)

lemma device_typed:
  "SpdStorageUnitGlobalSetDevice d addr k = Some (st, k') \<Longrightarrow> units_typed k \<Longrightarrow> units_typed k'"
  "SpdStorageUnitGlobalReferenceByDevice d k = Some (p, k') \<Longrightarrow> units_typed k \<Longrightarrow> units_typed k'"
  "SpdStorageUnitGlobalDereference p k = Some k' \<Longrightarrow> units_typed k \<Longrightarrow> units_typed k'"
proof -
  assume "SpdStorageUnitGlobalSetDevice d addr k = Some (st, k')" "units_typed k"
  then show "units_typed k'"
    by (auto simp: SpdStorageUnitGlobalSetDevice_def Let_def extension_typed units_typed_set units_typedD
        dest!: extension_typed(2) reference_typed dereference_typed split: bind_splits if_splits prod.splits)
qed (auto simp: SpdStorageUnitGlobalReferenceByDevice_def SpdStorageUnitGlobalDereference_def extension_typed
      dest!: extension_typed(2) reference_typed(3) dereference_typed split: bind_splits if_splits prod.splits)

section \<open>Requests\<close>

lemma ret_mem_typed: "ret_mem k r = Some (st, k') \<Longrightarrow> units_typed k \<Longrightarrow> units_typed k'"
  by (auto simp: ret_mem_def)

lemma post_typed: "SpdScsiPostSrb sa p srb n k = Some (st, k') \<Longrightarrow> units_typed k \<Longrightarrow> units_typed k'"
  by (auto simp: SpdScsiPostSrb_def Let_def units_typed_set units_typedD split: bind_splits if_splits prod.splits)

lemma post_command_typed:
  "SpdScsiPostRangeSrb sa p u srb c k = Some (st, k') \<Longrightarrow> units_typed k \<Longrightarrow> units_typed k'"
  "SpdScsiPostUnmapSrb sa p u srb c k = Some (st, k') \<Longrightarrow> units_typed k \<Longrightarrow> units_typed k'"
  by (auto simp: SpdScsiPostRangeSrb_def SpdScsiPostUnmapSrb_def Let_def dest: ret_mem_typed post_typed
      split: bind_splits if_splits prod.splits)

lemma ExecuteScsi_typed: "SpdSrbExecuteScsi sa srb k = Some (st, k') \<Longrightarrow> units_typed k \<Longrightarrow> units_typed k'"
  unfolding SpdSrbExecuteScsi_def Let_def
  by (auto dest!: ret_mem_typed post_command_typed reference_typed(2) dereference_typed split: bind_splits if_splits prod.splits)

lemma reset_unit_typed: "reset_unit st p k = Some k' \<Longrightarrow> units_typed k \<Longrightarrow> units_typed k'"
  by (auto simp: reset_unit_def Let_def units_typed_set units_typedD split: bind_splits prod.splits)

lemma reset_loop_typed: "reset_units_loop st n I k = Some k' \<Longrightarrow> units_typed k \<Longrightarrow> units_typed k'"
  by (induction n arbitrary: I k)
     (auto dest!: reference_typed(1) reset_unit_typed dereference_typed split: bind_splits if_splits prod.splits)

lemma reset_typed:
  "SpdSrbAbortCommand srb k = Some (st, k') \<Longrightarrow> units_typed k \<Longrightarrow> units_typed k'"
  "SpdHwResetBus path k = Some (b, k') \<Longrightarrow> units_typed k \<Longrightarrow> units_typed k'"
  "SpdSrbResetBus srb k = Some (st, k') \<Longrightarrow> units_typed k \<Longrightarrow> units_typed k'"
  "SpdSrbResetDevice srb k = Some (st, k') \<Longrightarrow> units_typed k \<Longrightarrow> units_typed k'"
  "SpdSrbResetLogicalUnit srb k = Some (st, k') \<Longrightarrow> units_typed k \<Longrightarrow> units_typed k'"
  "SpdHwCompleteServiceIrp k = Some k' \<Longrightarrow> units_typed k \<Longrightarrow> units_typed k'"
  by (auto simp: SpdSrbAbortCommand_def SpdHwResetBus_def SpdSrbResetBus_def SpdSrbResetDevice_def SpdSrbResetLogicalUnit_def
      SpdHwCompleteServiceIrp_def Let_def units_typed_set units_typedD
      dest!: reference_typed reset_unit_typed reset_loop_typed dereference_typed split: bind_splits if_splits prod.splits)

lemma StartIo_typed: "SpdHwStartIo sa srb k = Some (b, k') \<Longrightarrow> units_typed k \<Longrightarrow> units_typed k'"
  by (auto simp: SpdHwStartIo_def start_io_dispatch_def Let_def dest: ExecuteScsi_typed reset_typed ret_mem_typed
      split: bind_splits if_splits prod.splits)

section \<open>Control requests\<close>

lemma respond_typed: "transact_respond p rsp d k = Some k' \<Longrightarrow> units_typed k \<Longrightarrow> units_typed k'"
  by (auto simp: transact_respond_def Let_def units_typed_set units_typedD split: bind_splits prod.splits)

lemma wait_typed:
  "transact_wait p rounds ctx k = Some (st, ctx', k') \<Longrightarrow> \<forall>(env, w) \<in> set rounds. \<forall>k. units_typed k \<longrightarrow> units_typed (env k) \<Longrightarrow>
   units_typed k \<Longrightarrow> units_typed k'"
proof (induction p rounds ctx k rule: transact_wait.induct)
  case (2 p env waited rounds ctx k)
  then have "units_typed (env k)" by auto
  with 2 show ?case by (auto simp: Let_def units_typed_set units_typedD split: bind_splits if_splits prod.splits)
qed simp

lemma body_typed:
  assumes "transact_body lock rounds p P irp k = Some (irp', k')"
    and "\<forall>(env, w) \<in> set rounds. \<forall>k. units_typed k \<longrightarrow> units_typed (env k)" and "units_typed k"
  shows "units_typed k'"
  using assms(1,3) wait_typed [OF _ assms(2)]
  by (auto simp: transact_body_def Let_def dest: respond_typed split: bind_splits if_splits prod.splits bool.splits)

text \<open>A request whose parameters, if it has any, have the sizes of their structure.\<close>

definition irp_sized :: "IRP \<Rightarrow> bool" where
  "irp_sized irp \<longleftrightarrow> (\<forall>P. SystemBuffer irp = Some P \<longrightarrow> params_sized (Par_StorageUnitParams P))"

lemma service_typed:
  assumes "SpdHwProcessServiceRequest pool ioq lock rounds irp k = Some (irp', k')" and "units_typed k" and "irp_sized irp"
    and "\<forall>(env, w) \<in> set rounds. \<forall>k. units_typed k \<longrightarrow> units_typed (env k)"
  shows "units_typed k'"
proof -
  have t: "units_typed k'" if "SpdIoctlTransact lock rounds P irp k = Some (irp', k')" for P irp'
    using that assms(2) body_typed [OF _ assms(4)]
    by (auto simp: SpdIoctlTransact_def dest!: reference_typed(1) dereference_typed split: bind_splits if_splits prod.splits)
  have p: "units_typed k'" if "SpdIoctlProvision pool ioq P irp k = Some (irp', k')" "params_sized (Par_StorageUnitParams P)" for P irp'
    using that assms(2) provision_typed [OF _ assms(2) that(2)]
    by (auto simp: SpdIoctlProvision_def split: bind_splits if_splits prod.splits)
  have s: "units_typed k'" if "SpdIoctlSetTransactProcessId P irp k = Some (irp', k')" for P irp'
    using that assms(2)
    by (auto simp: SpdIoctlSetTransactProcessId_def Let_def units_typed_set units_typedD dest!: reference_typed(1) dereference_typed
        split: bind_splits if_splits prod.splits)
  have u: "units_typed k'" if "SpdIoctlUnprovision P irp k = Some (irp', k')" for P irp'
    using that assms(2) by (auto simp: SpdIoctlUnprovision_def dest!: unprovision_typed split: bind_splits if_splits prod.splits)
  have l: "units_typed k'" if "SpdIoctlGetList P irp k = Some (irp', k')" for P irp'
    using that assms(2) by (auto simp: SpdIoctlGetList_def split: bind_splits if_splits prod.splits option.splits)
  show ?thesis
    using assms t p s u l
    by (auto simp: SpdHwProcessServiceRequest_def service_dispatch_def irp_sized_def split: bind_splits if_splits prod.splits option.splits)
qed

section \<open>Plug and play\<close>

lemma pnp_typed:
  assumes "SpdDispatchPnp port addr d minor k = Some (c, st, k')" and "units_typed k"
    and "\<forall>k. units_typed k \<longrightarrow> units_typed (snd (port k))"
  shows "units_typed k'"
proof -
  have "units_typed k2" if "port k1 = (st1, k2)" "units_typed k1" for k1 k2 st1
    using assms(3) that by (metis snd_conv)
  with assms(1,2) show ?thesis
    unfolding SpdDispatchPnp_def
    by (auto simp: Let_def extension_typed dest!: device_typed extension_typed(2) unprovision_typed
        split: bind_splits if_splits prod.splits IRP_MN.splits option.splits)
qed

section \<open>Runs of the driver\<close>

text \<open>
  The entry points of the driver, in any order. While a transact request waits, and in the handler of StorPort, there are other steps of the
  driver; and its memory of request blocks and buffers is changed by others at any time.
\<close>

inductive driver_step :: "kernel \<Rightarrow> kernel \<Rightarrow> bool" where
  start_io: "SpdHwStartIo sysaddr srb k = Some (b, k') \<Longrightarrow> driver_step k k'"
| reset_bus: "SpdHwResetBus path k = Some (b, k') \<Longrightarrow> driver_step k k'"
| service: "SpdHwProcessServiceRequest pool ioq lock rounds irp k = Some (irp', k') \<Longrightarrow> irp_sized irp \<Longrightarrow>
    (\<And>env w k. (env, w) \<in> set rounds \<Longrightarrow> rtranclp driver_step k (env k)) \<Longrightarrow> driver_step k k'"
| complete_irps: "SpdHwCompleteServiceIrp k = Some k' \<Longrightarrow> driver_step k k'"
| process_ends: "SpdDeviceExtensionNotifyRoutine pid c k = Some k' \<Longrightarrow> driver_step k k'"
| find_adapter: "SpdHwFindAdapter p bus registered cfg k = (b, cfg', k') \<Longrightarrow> driver_step k k'"
| free_adapter: "driver_step k (SpdHwFreeAdapterResources p k)"
| pnp: "SpdDispatchPnp port addr d minor k = Some (c, st, k') \<Longrightarrow> (\<And>k. rtranclp driver_step k (snd (port k))) \<Longrightarrow> driver_step k k'"
| memory: "driver_step k (k\<lparr>mem := m\<rparr>)"

lemma steps_typed:
  "rtranclp (\<lambda>k k'. driver_step k k' \<and> (units_typed k \<longrightarrow> units_typed k')) k k' \<Longrightarrow> units_typed k \<Longrightarrow> units_typed k'"
  by (induction rule: rtranclp_induct) auto

lemma driver_step_typed: "driver_step k k' \<Longrightarrow> units_typed k \<Longrightarrow> units_typed k'"
proof (induction rule: driver_step.induct)
  case (service pool ioq lock rounds irp k irp' k')
  have "\<forall>(env, w) \<in> set rounds. \<forall>k. units_typed k \<longrightarrow> units_typed (env k)"
    using service.IH steps_typed by fast
  then show ?case using service_typed [OF service.hyps(1) service.prems service.hyps(2)] by blast
next
  case (pnp port addr d minor k c st k')
  have "\<forall>k. units_typed k \<longrightarrow> units_typed (snd (port k))"
    using pnp.IH steps_typed by fast
  then show ?case using pnp_typed [OF pnp.hyps(1) pnp.prems] by blast
next
  case (find_adapter p bus registered cfg k b cfg' k')
  then show ?case by (auto simp: SpdHwFindAdapter_def dest: extension_typed(1) split: prod.splits if_splits)
qed (auto simp: SpdHwFreeAdapterResources_def extension_typed dest: StartIo_typed reset_typed notify_typed)

lemma driver_units_ok:
  assumes "DriverEntry registry port pnp m = (st, Some (k0, hooked))" and "rtranclp driver_step k0 k"
  shows "units_typed k"
proof -
  have "units_typed k0" using assms(1) by (auto simp: DriverEntry_def Let_def units_typed_def split: if_splits)
  with assms(2) show ?thesis by (induction rule: rtranclp_induct) (auto dest: driver_step_typed)
qed

text \<open>C10: The units of the driver are always well typed. After the start of the driver, whatever requests, control requests, process ends
  and plug and play events follow, each unit has texts of the sizes of its structure, an identifier, blocks of 16 octets or more of which there is
  one at least, and a maximum transfer length that is a positive multiple of the block length.\<close>

theorem driver_keeps_units_typed:
  assumes "DriverEntry registry port pnp m = (st, Some (k0, hooked))" and "rtranclp driver_step k0 k" and "units k p = Some u"
  shows "length (ProductId (StorageUnitParams u)) = 16 \<and> length (ProductRevisionLevel (StorageUnitParams u)) = 4 \<and>
    length (SerialNumber u) = 36 \<and> Guid (StorageUnitParams u) \<noteq> NullGuid \<and> 0 < BlockCount (StorageUnitParams u) \<and>
    16 \<le> BlockLength (StorageUnitParams u) \<and> transfer_params (StorageUnitParams u)"
proof -
  have "unit_typed u" using driver_units_ok [OF assms(1,2)] assms(3) by (rule units_typedD)
  then show ?thesis
    using provision_params_transfer [of "StorageUnitParams u"]
    by (auto simp: unit_typed_def unit_sized_def provision_params_ok_def not_less word_gt_0)
qed

theorem driver_keeps_units_typed_witness:
  "\<exists>k0 k u. DriverEntry None STATUS_SUCCESS True demo_mem = (STATUS_SUCCESS, Some (k0, True)) \<and> rtranclp driver_step k0 k \<and>
    units k 1 = Some u \<and> Guid (StorageUnitParams u) = demo_guid \<and> length (SerialNumber u) = 36"
proof -
  obtain k0 where d: "DriverEntry None STATUS_SUCCESS True demo_mem = (STATUS_SUCCESS, Some (k0, True))"
    by (simp add: DriverEntry_def Let_def)
  then have k0: "SpdGlobalDeviceExtension k0 = 0" "units k0 = Map.empty" by (auto simp: DriverEntry_def Let_def)
  then obtain cfg k1 where f: "SpdHwFindAdapter 9 0 STATUS_SUCCESS demo_config k0 = (True, cfg, k1)"
    by (simp add: SpdHwFindAdapter_def SpdDeviceExtensionInit_def)
  note start = startup_reaches_initial_state [OF d f]
  have inv: "units_inv (\<lambda>_. 0) k1" using reachable_inv start by force
  have k1: "units k1 = Map.empty"
    using f k0 by (auto simp: SpdHwFindAdapter_def SpdDeviceExtensionInit_def upd_de_def split: if_splits prod.splits)
  have "0 < unat (StorageUnitCapacity (de k1))"
    using start by (simp add: word_le_nat_alt)
  then have slots: "0 \<in> set (StorageUnits (de k1))" "set (live k1) = {}"
    using start by (auto simp: live_def)
  let ?k = "provisioned 1 demo_ioq demo_params 9 (length (takeWhile (\<lambda>p. p \<noteq> 0) (StorageUnits (de k1)))) k1"
  have "SpdStorageUnitProvision 1 (STATUS_SUCCESS, Some demo_ioq) demo_params 9 k1 =
      Some (STATUS_SUCCESS, SPD_BTL_FROM_INDEX (word_of_nat (length (takeWhile (\<lambda>p. p \<noteq> 0) (StorageUnits (de k1))))), ?k)"
    using slots by (subst provision_cases [OF inv]) (simp_all add: k1 fresh_ioq_def demo_ioq_def Let_def)
  moreover have "provision_params_ok demo_params"
    by (simp add: provision_params_ok_def demo_params_def demo_guid_def NullGuid_def)
  ultimately obtain irp' where r: "SpdHwProcessServiceRequest 1 (STATUS_SUCCESS, Some demo_ioq) Locked []
      (demo_irp\<lparr>SystemBuffer := Some demo_sysbuffer\<rparr>) k1 = Some (irp', ?k)"
    by (simp add: SpdHwProcessServiceRequest_def service_dispatch_def SpdIoctlProvision_def demo_sysbuffer_def demo_irp_def
        sizeof_defs ioctl_code_defs)
  have "driver_step k1 ?k"
    by (rule driver_step.service [OF r]) (simp_all add: irp_sized_def demo_sysbuffer_def params_sized_def demo_params_def demo_guid_def)
  with driver_step.find_adapter [OF f] have s: "rtranclp driver_step k0 ?k" by (meson converse_rtranclp_into_rtranclp rtranclp.rtrancl_refl)
  have u: "units ?k 1 = Some ((init_unit demo_params 9)\<lparr>UnitIoq := Some demo_ioq\<rparr>)"
    by (simp add: provisioned_def kernel_upd_defs)
  show ?thesis
    using d s u driver_keeps_units_typed [OF d s u] by (auto simp: init_unit_def demo_params_def)
qed

text \<open>So a command stays in the buffers of its request in every state that the driver comes to.\<close>

lemma driver_commands_safe:
  assumes "DriverEntry registry port pnp m = (st, Some (k0, hooked))" and "rtranclp driver_step k0 k" and "buffers_fit srb (mem k)"
  shows "safe_result srb (mem k) (SpdSrbExecuteScsi sysaddr srb k)"
  using driver_units_ok [OF assms(1,2)] assms(3)
  by (intro ExecuteScsi_safe) (auto simp: units_typed_def unit_typed_def)

end
