(* ===== verification/Unit_Table.thy ===== *)
theory Unit_Table
  imports Driver_Props UserIoctl
begin

text \<open>
  What the control requests promise: a table of units, each with its identifier, its process and the process that may transact. The calls of the DLL, sent to the driver, do
  to its kernel what the operations of the table do to the table.
\<close>

section \<open>The table\<close>

datatype table_unit = Table_unit (tu_guid: GUID) (tu_owner: u32) (tu_process: u32)

type_synonym unit_table = "table_unit option list"

definition slot_of :: "GUID \<Rightarrow> unit_table \<Rightarrow> nat" where
  "slot_of g T = length (takeWhile (\<lambda>e. map_option tu_guid e \<noteq> Some g) T)"

definition free_slot :: "unit_table \<Rightarrow> nat" where
  "free_slot T = length (takeWhile (\<lambda>e. e \<noteq> None) T)"

definition table_provision :: "SPD_IOCTL_STORAGE_UNIT_PARAMS \<Rightarrow> u32 \<Rightarrow> unit_table \<Rightarrow> NTSTATUS \<times> u32 \<times> unit_table" where
  "table_provision P pid T =
     (if \<not> provision_params_ok P then (STATUS_INVALID_PARAMETER, - 1, T)
      else if slot_of (Guid P) T < length T then (STATUS_OBJECT_NAME_COLLISION, - 1, T)
      else if free_slot T = length T then (STATUS_CANNOT_MAKE, - 1, T)
      else (STATUS_SUCCESS, btl_of (free_slot T), T[free_slot T := Some (Table_unit (Guid P) pid pid)]))"

definition table_unprovision :: "GUID \<Rightarrow> u32 \<Rightarrow> unit_table \<Rightarrow> NTSTATUS \<times> unit_table" where
  "table_unprovision g pid T =
     (let i = slot_of g T
      in if i = length T then (STATUS_OBJECT_NAME_NOT_FOUND, T)
         else if map_option tu_owner (T ! i) \<noteq> Some pid then (STATUS_ACCESS_DENIED, T)
         else (STATUS_SUCCESS, T[i := None]))"

definition table_list :: "unit_table \<Rightarrow> u32 list" where
  "table_list T = map btl_of (filter (\<lambda>i. T ! i \<noteq> None) [0..<length T])"

definition table_end :: "u32 \<Rightarrow> unit_table \<Rightarrow> unit_table" where
  "table_end pid T = map (\<lambda>e. if map_option tu_owner e = Some pid then None else e) T"

text \<open>The slot of an address, and the change of the process that may transact.\<close>

definition slot_at :: "u32 \<Rightarrow> unit_table \<Rightarrow> nat option" where
  "slot_at Btl T =
     (let i = unat (SPD_IOCTL_BTL_T Btl)
      in if SPD_IOCTL_BTL_B Btl = 0 \<and> SPD_IOCTL_BTL_L Btl = 0 \<and> i < length T \<and> T ! i \<noteq> None then Some i else None)"

definition table_set_process :: "u32 \<Rightarrow> u32 \<Rightarrow> unit_table \<Rightarrow> NTSTATUS \<times> unit_table" where
  "table_set_process Btl pid T =
     (case slot_at Btl T of
        None \<Rightarrow> (STATUS_CANCELLED, T)
      | Some i \<Rightarrow> (STATUS_SUCCESS, T[i := map_option (\<lambda>e. Table_unit (tu_guid e) (tu_owner e) pid) (T ! i)]))"

text \<open>The table of the kernel.\<close>

definition unit_entry :: "kernel \<Rightarrow> ptr \<Rightarrow> table_unit" where
  "unit_entry k p = Table_unit (unit_guid k p) (owner k p) (TransactProcessId (the (units k p)))"

definition table_of :: "kernel \<Rightarrow> unit_table" where
  "table_of k = map (\<lambda>p. if p = 0 then None else Some (unit_entry k p)) (slots k)"

lemma unit_entry_simps [simp]: "tu_guid (unit_entry k p) = unit_guid k p" "tu_owner (unit_entry k p) = owner k p"
  by (simp_all add: unit_entry_def)

section \<open>The kernel\<close>

lemma length_table [simp]: "length (table_of k) = length (slots k)"
  by (simp add: table_of_def)

lemma free_slot_table: "free_slot (table_of k) = length (takeWhile (\<lambda>p. p \<noteq> 0) (slots k))"
proof -
  have "((\<lambda>e. e \<noteq> None) \<circ> (\<lambda>p. if p = 0 then None else Some (unit_entry k p))) = (\<lambda>p. p \<noteq> 0)" by (simp add: fun_eq_iff)
  then show ?thesis by (simp add: free_slot_def table_of_def takeWhile_map)
qed

lemma slot_of_table: "slot_of g (table_of k) = length (takeWhile (\<lambda>p. \<not> (p \<noteq> 0 \<and> unit_guid k p = g)) (slots k))"
proof -
  have "((\<lambda>e. map_option tu_guid e \<noteq> Some g) \<circ> (\<lambda>p. if p = 0 then None else Some (unit_entry k p))) =
      (\<lambda>p. \<not> (p \<noteq> 0 \<and> unit_guid k p = g))" by (simp add: fun_eq_iff)
  then show ?thesis by (simp add: slot_of_def table_of_def takeWhile_map)
qed

lemma takeWhile_short: "length (takeWhile P xs) < length xs \<longleftrightarrow> (\<exists>x \<in> set xs. \<not> P x)"
  by (induction xs) auto

lemma slot_of_used: "slot_of g (table_of k) < length (slots k) \<longleftrightarrow> g \<in> unit_guid k ` set (live k)"
  unfolding slot_of_table takeWhile_short by (auto simp: in_live)

lemma free_slot_full: "free_slot (table_of k) = length (slots k) \<longleftrightarrow> 0 \<notin> set (slots k)"
  unfolding free_slot_table using takeWhile_short [of "\<lambda>p. p \<noteq> 0" "slots k"] length_takeWhile_le [of "\<lambda>p. p \<noteq> 0" "slots k"]
  by auto

lemma find_takeWhile:
  "(case find P xs of None \<Rightarrow> length (takeWhile (\<lambda>x. \<not> P x) xs) = length xs
    | Some x \<Rightarrow> length (takeWhile (\<lambda>x. \<not> P x) xs) < length xs \<and> xs ! length (takeWhile (\<lambda>x. \<not> P x) xs) = x)"
  by (induction xs) (auto split: option.splits)

lemma find_filter: "find P (filter Q xs) = find (\<lambda>x. Q x \<and> P x) xs"
  by (induction xs) auto

lemma selected_slot:
  assumes "units_inv refs k"
  shows "selected (Some g) i k =
    (if slot_of g (table_of k) < length (slots k) then slots k ! slot_of g (table_of k) else 0)"
proof -
  have f: "find (\<lambda>p. unit_guid k p = g) (live k) = find (\<lambda>p. p \<noteq> 0 \<and> unit_guid k p = g) (slots k)"
    by (simp add: live_def find_filter)
  show ?thesis
    using find_takeWhile [of "\<lambda>p. p \<noteq> 0 \<and> unit_guid k p = g" "slots k"]
    by (auto simp: selected_def f slot_of_table split: option.splits)
qed

section \<open>The operations\<close>

text \<open>The device extension stays.\<close>

lemma Dereference_global: "SpdStorageUnitDereference p k = Some k' \<Longrightarrow> SpdGlobalDeviceExtension k' = SpdGlobalDeviceExtension k"
  by (auto simp: SpdStorageUnitDereference_def Let_def kernel_upd_defs split: if_splits bind_splits)

lemma unprovision_global:
  "SpdStorageUnitUnprovision g I pid k = Some (st, k') \<Longrightarrow> SpdGlobalDeviceExtension k' = SpdGlobalDeviceExtension k"
  by (auto simp: SpdStorageUnitUnprovision_def unprovision_locked_def unprovision_unlocked_def Let_def kernel_upd_defs
      split: if_splits bind_splits prod.splits option.splits dest!: Dereference_global)

lemma notify_loop_global:
  "notify_loop n I B C pid k = Some k' \<Longrightarrow> SpdGlobalDeviceExtension k' = SpdGlobalDeviceExtension k"
  by (induction n I B C pid k rule: notify_loop.induct) (auto split: if_splits bind_splits dest!: unprovision_global)

lemma notify_global:
  "SpdDeviceExtensionNotifyRoutine pid False k = Some k' \<Longrightarrow> SpdGlobalDeviceExtension k' = SpdGlobalDeviceExtension k"
  by (auto simp: SpdDeviceExtensionNotifyRoutine_def Let_def split: if_splits bind_splits prod.splits dest!: notify_loop_global)
lemma nth_table: "i < length (slots k) \<Longrightarrow>
    table_of k ! i = (if slots k ! i = 0 then None else Some (unit_entry k (slots k ! i)))"
  by (simp add: table_of_def)

lemma table_update:
  assumes "slots k' = (slots k)[i := p]" and "\<And>x. x \<in> set (slots k) \<Longrightarrow> x \<noteq> 0 \<Longrightarrow> x \<noteq> q \<Longrightarrow> units k' x = units k x"
    and "i < length (slots k)" and "\<And>j. j < length (slots k) \<Longrightarrow> j \<noteq> i \<Longrightarrow> slots k ! j \<noteq> q"
  shows "table_of k' = (table_of k)[i := if p = 0 then None else Some (unit_entry k' p)]"
proof (rule nth_equalityI)
  fix j assume "j < length (table_of k')"
  then have j: "j < length (slots k)" by (simp add: assms(1))
  show "table_of k' ! j = (table_of k)[i := if p = 0 then None else Some (unit_entry k' p)] ! j"
  proof (cases "j = i")
    case False
    then have "slots k ! j \<noteq> 0 \<Longrightarrow> units k' (slots k ! j) = units k (slots k ! j)"
      using assms(2,4) j by simp
    then show ?thesis using j False by (simp add: table_of_def assms(1) unit_guid_def unit_entry_def)
  qed (use j in \<open>simp add: table_of_def assms(1)\<close>)
qed (simp add: assms(1))

lemma slots_distinct:
  assumes "units_inv refs k" and "i < length (slots k)" and "j < length (slots k)" and "slots k ! i = slots k ! j" and "slots k ! i \<noteq> 0"
  shows "i = j"
proof -
  have d: "distinct (filter (\<lambda>p. p \<noteq> 0) (slots k))" using assms(1) by (simp add: units_inv_def table_ok_def live_def)
  have "\<not> distinct (filter (\<lambda>p. p \<noteq> 0) xs)" if "a < b" "b < length xs" "xs ! a = xs ! b" "xs ! a \<noteq> 0" for a b and xs :: "ptr list"
    using that
  proof (induction xs arbitrary: a b)
    case (Cons x xs)
    show ?case
    proof (cases a)
      case 0
      then have "x \<in> set xs" "x \<noteq> 0" using Cons.prems by (auto simp: nth_Cons')
      then show ?thesis by simp
    next
      case (Suc c)
      then show ?thesis using Cons.prems Cons.IH [of c "b - 1"] by (auto simp: nth_Cons')
    qed
  qed simp
  from this [of i j "slots k"] this [of j i "slots k"] show ?thesis using assms d by (metis linorder_cases)
qed

lemma provision_table:
  assumes inv: "units_inv refs k" and p: "p \<noteq> 0" "units k p = None" and P: "provision_params_ok P"
  obtains k' where "SpdStorageUnitProvision p (SpdIoqCreate n True) P pid k =
      Some (fst (table_provision P pid (table_of k)), fst (snd (table_provision P pid (table_of k))), k')"
    and "units_inv refs k'" and "table_of k' = snd (snd (table_provision P pid (table_of k)))"
    and "SpdGlobalDeviceExtension k' = SpdGlobalDeviceExtension k"
    and "fst (table_provision P pid (table_of k)) = STATUS_SUCCESS \<Longrightarrow>
      \<exists>q. units k' (slots k' ! free_slot (table_of k)) = Some ((init_unit P pid)\<lparr>UnitIoq := Some q\<rparr>)"
proof -
  have q: "fresh_ioq (the (snd (SpdIoqCreate n True)))" "SpdIoqCreate n True = (STATUS_SUCCESS, Some (the (snd (SpdIoqCreate n True))))"
    by (simp_all add: SpdIoqCreate_def fresh_ioq_def Let_def)
  define q where "q = the (snd (SpdIoqCreate n True))"
  have c: "SpdStorageUnitProvision p (SpdIoqCreate n True) P pid k =
    (if slot_of (Guid P) (table_of k) < length (slots k) then Some (STATUS_OBJECT_NAME_COLLISION, - 1, k)
     else if free_slot (table_of k) = length (slots k) then Some (STATUS_CANNOT_MAKE, - 1, k)
     else Some (STATUS_SUCCESS, btl_of (free_slot (table_of k)), provisioned p q P pid (free_slot (table_of k)) k))"
    unfolding slot_of_used free_slot_full
    using provision_cases [OF inv p q(1), of P pid] q(2) by (simp add: free_slot_table Let_def q_def)
  show thesis
  proof (cases "slot_of (Guid P) (table_of k) < length (slots k) \<or> free_slot (table_of k) = length (slots k)")
    case True
    then show thesis using c P inv by (intro that [of k]) (auto simp: table_provision_def split: if_splits)
  next
    case False
    define i where "i = free_slot (table_of k)"
    have "0 \<in> set (slots k)" using False free_slot_full by auto
    note i = first_free [OF this, folded free_slot_table, folded i_def]
    let ?k = "provisioned p q P pid i k"
    have g: "Guid P \<notin> unit_guid k ` set (live k)" using False slot_of_used by auto
    have us: "units ?k = (units k)(p \<mapsto> (init_unit P pid)\<lparr>UnitIoq := Some q\<rparr>)" "slots ?k = (slots k)[i := p]"
      "SpdGlobalDeviceExtension ?k = SpdGlobalDeviceExtension k"
      by (simp_all add: provisioned_def kernel_upd_defs)
    have np: "x \<noteq> p" if "x \<in> set (slots k)" "x \<noteq> 0" for x
      using that live_unit [OF inv, of x] p(2) by (auto simp: in_live)
    have "table_of ?k = (table_of k)[i := if p = 0 then None else Some (unit_entry ?k p)]"
    proof (rule table_update [where q = p])
      show "slots k ! j \<noteq> p" if "j < length (slots k)" for j using that np [of "slots k ! j"] p(1) by auto
    qed (use us i(1) np in auto)
    then have "table_of ?k = (table_of k)[i := Some (Table_unit (Guid P) pid pid)]"
      using p(1) us by (simp add: unit_guid_def unit_entry_def)
    then show thesis
      using c False P provisioned_inv [OF inv p g i, of q pid] that [of ?k] us i(1)
      by (auto simp: table_provision_def i_def)
  qed
qed

lemma unprovision_table:
  assumes inv: "units_inv refs k"
  obtains k' where "SpdStorageUnitUnprovision (Some g) Index pid k = Some (fst (table_unprovision g pid (table_of k)), k')"
    and "units_inv refs k'" and "table_of k' = snd (table_unprovision g pid (table_of k))"
proof (rule unprovision_cases [OF inv, of "Some g" Index pid])
  let ?i = "slot_of g (table_of k)"
  note sel = selected_slot [OF inv, of g Index]
  have i: "selected (Some g) Index k \<noteq> 0 \<longleftrightarrow> ?i < length (slots k)"
    "?i < length (slots k) \<Longrightarrow> selected (Some g) Index k = slots k ! ?i"
  proof -
    have "slots k ! ?i \<noteq> 0" if "?i < length (slots k)"
      using nth_length_takeWhile [of "\<lambda>p. \<not> (p \<noteq> 0 \<and> unit_guid k p = g)" "slots k"] that by (simp add: slot_of_table)
    then show "selected (Some g) Index k \<noteq> 0 \<longleftrightarrow> ?i < length (slots k)" by (simp add: sel)
  qed (simp add: sel)
  have le: "?i \<le> length (slots k)" by (simp add: slot_of_table length_takeWhile_le)
  {
    assume "selected (Some g) Index k = 0" "SpdStorageUnitUnprovision (Some g) Index pid k = Some (STATUS_OBJECT_NAME_NOT_FOUND, k)"
    then show thesis using i(1) le inv by (intro that [of k]) (auto simp: table_unprovision_def Let_def)
  next
    assume a: "selected (Some g) Index k \<in> set (live k)" "owner k (selected (Some g) Index k) \<noteq> pid"
      "SpdStorageUnitUnprovision (Some g) Index pid k = Some (STATUS_ACCESS_DENIED, k)"
    then have "selected (Some g) Index k \<noteq> 0" by (simp add: in_live)
    then show thesis using a i inv by (intro that [of k]) (auto simp: table_unprovision_def Let_def nth_table)
  next
    fix k'
    assume a: "selected (Some g) Index k \<in> set (live k)" "owner k (selected (Some g) Index k) = pid"
      "SpdStorageUnitUnprovision (Some g) Index pid k = Some (STATUS_SUCCESS, k')" "units_inv refs k'"
      "\<And>x. x \<noteq> selected (Some g) Index k \<Longrightarrow> units k' x = units k x"
      "\<exists>n < length (slots k). slots k ! n = selected (Some g) Index k \<and> slots k' = (slots k)[n := 0]"
    then have nz: "selected (Some g) Index k \<noteq> 0" by (simp add: in_live)
    from a(6) obtain n where n: "n < length (slots k)" "slots k ! n = selected (Some g) Index k" "slots k' = (slots k)[n := 0]" by blast
    have ni: "n = ?i" using slots_distinct [OF inv n(1), of ?i] i n(2) nz by simp
    have "table_of k' = (table_of k)[?i := if (0 :: ptr) = 0 then None else Some (unit_entry k' 0)]"
    proof (rule table_update [where q = "selected (Some g) Index k"])
      show "slots k ! j \<noteq> selected (Some g) Index k" if "j < length (slots k)" "j \<noteq> ?i" for j
        using slots_distinct [OF inv n(1) that(1)] that n(2) nz ni by auto
    qed (use n ni a(5) in auto)
    then show thesis using a(2-4) i nz by (intro that [of k']) (auto simp: table_unprovision_def Let_def nth_table)
  }
qed

lemma end_table:
  assumes "units_inv refs k" and "SpdGlobalDeviceExtension k \<noteq> 0"
  obtains k' where "SpdDeviceExtensionNotifyRoutine pid False k = Some k'" and "units_inv refs k'"
    and "table_of k' = table_end (ucast pid) (table_of k)"
proof -
  obtain k' where k': "SpdDeviceExtensionNotifyRoutine pid False k = Some k'" "units_inv refs k'"
    "slots k' = map (\<lambda>p. if in_use k (Some (ucast pid)) p then 0 else p) (slots k)"
    "\<And>p. \<not> in_use k (Some (ucast pid)) p \<Longrightarrow> units k' p = units k p"
    by (rule notify_routine [OF assms, of pid]) (use that in blast)
  show thesis
    by (rule that [OF k'(1,2)]) (auto simp: table_of_def table_end_def k'(3,4) in_use_def unit_guid_def unit_entry_def)
qed

lemma list_table: "table_list (table_of k) = map btl_of (filter (\<lambda>i. slots k ! i \<noteq> 0) [0..<length (slots k)])"
proof -
  have "table_of k ! i \<noteq> None \<longleftrightarrow> slots k ! i \<noteq> 0" if "i < length (slots k)" for i
    using that by (simp add: nth_table del: not_None_eq)
  then show ?thesis unfolding table_list_def length_table by (intro arg_cong [of _ _ "map btl_of"] filter_cong) auto
qed

lemma slot_at_table:
  assumes "units_inv refs k"
  shows "(case slot_at btl (table_of k) of None \<Rightarrow> unit_at btl k = 0
    | Some i \<Rightarrow> i < length (slots k) \<and> slots k ! i = unit_at btl k \<and> unit_at btl k \<noteq> 0)"
proof -
  have "unat (StorageUnitCapacity (de k)) = length (slots k)" using assms by (simp add: units_inv_def table_ok_def)
  then show ?thesis
    by (auto simp: slot_at_def unit_at_def Let_def nth_table word_less_nat_alt split: option.splits if_splits)
qed

text \<open>A unit that is referenced, changed in its process only, and dereferenced.\<close>

lemma set_process_table:
  assumes inv: "units_inv refs k" and len: "sizeof_SET_TRANSACT_PID_PARAMS \<le> InputBufferLength irp"
  obtains irp' k' where "SpdIoctlSetTransactProcessId Params irp k = Some (irp', k')"
    and "IoStatus irp' = fst (table_set_process (Par_Btl Params) (Par_ProcessId Params) (table_of k))" and "units_inv refs k'"
    and "table_of k' = snd (table_set_process (Par_Btl Params) (Par_ProcessId Params) (table_of k))"
    and "SystemBuffer irp' = SystemBuffer irp"
proof (cases "slot_at (Par_Btl Params) (table_of k)")
  case None
  then have "unit_at (Par_Btl Params) k = 0" using slot_at_table [OF inv, of "Par_Btl Params"] by simp
  then show thesis
    using None inv len
    by (intro that [of "set_status STATUS_CANCELLED irp" k])
       (auto simp: SpdIoctlSetTransactProcessId_def ReferenceByBtl_add_ref table_set_process_def set_status_def)
next
  case (Some i)
  define p where "p = unit_at (Par_Btl Params) k"
  have i: "i < length (slots k)" "slots k ! i = p" "p \<noteq> 0"
    using Some slot_at_table [OF inv, of "Par_Btl Params"] by (simp_all add: p_def)
  then obtain u where u: "units k p = Some u" using live_unit [OF inv, of p] by (auto simp: in_live)
  define u' where "u' = u\<lparr>TransactProcessId := Par_ProcessId Params\<rparr>"
  have "counted (p \<in> set (live k)) (refs p) u"
    using inv counts_okD [of refs k p u] u by (simp add: units_inv_def)
  then have "RefCount u \<noteq> 0" by (auto simp: counted_def split: if_splits)
  then have r: "SpdIoctlSetTransactProcessId Params irp k = Some (set_result STATUS_SUCCESS 0 irp, set_unit p u' k)"
    using u i len by (simp add: SpdIoctlSetTransactProcessId_def ReferenceByBtl_add_ref add_ref_def p_def [symmetric] set_unit_def
      SpdStorageUnitDereference_def u'_def)
  have "UnitIoq u' \<noteq> None" using \<open>counted (p \<in> set (live k)) (refs p) u\<close> by (simp add: counted_def u'_def)
  then have "units_inv refs (set_unit p u' (k\<lparr>mem := mem k\<rparr>))" by (intro set_unit_inv [OF inv u]) (simp_all add: u'_def)
  then have inv': "units_inv refs (set_unit p u' k)" by simp
  have "table_of (set_unit p u' k) = (table_of k)[i := if p = 0 then None else Some (unit_entry (set_unit p u' k) p)]"
  proof (rule table_update [where q = p])
    show "slots (set_unit p u' k) = (slots k)[i := p]" using i(2) by (auto simp: set_unit_def)
    show "slots k ! j \<noteq> p" if "j < length (slots k)" "j \<noteq> i" for j
      using slots_distinct [OF inv i(1) that(1)] i(2,3) that(2) by auto
  qed (simp_all add: i set_unit_def)
  moreover have "unit_entry (set_unit p u' k) p = Table_unit (unit_guid k p) (owner k p) (Par_ProcessId Params)"
    using u by (simp add: unit_entry_def unit_guid_def set_unit_def u'_def)
  ultimately have "table_of (set_unit p u' k) = snd (table_set_process (Par_Btl Params) (Par_ProcessId Params) (table_of k))"
    using i Some by (simp add: table_set_process_def nth_table unit_entry_def)
  then show thesis
    using r inv' Some by (intro that [of "set_result STATUS_SUCCESS 0 irp" "set_unit p u' k"])
      (auto simp: set_result_def table_set_process_def)
qed

section \<open>The calls\<close>

text \<open>
  The device of the driver, as the DLL sees it: \<open>DeviceIoControl\<close> of the process \<open>pid\<close>. \<open>alloc\<close> is the address that the pool gives for a
  unit, \<open>dos\<close> the error for a status, and \<open>rounds\<close> what happens while a request waits. \<open>None\<close> is a system that has failed.
\<close>

definition driver_io ::
    "(NTSTATUS \<Rightarrow> u32) \<Rightarrow> (kernel \<Rightarrow> ptr) \<Rightarrow> nat \<Rightarrow> ((kernel \<Rightarrow> kernel) \<times> NTSTATUS) list \<Rightarrow> u32 \<Rightarrow> kernel option device_io" where
  "driver_io dos alloc n rounds pid Params InSize OutSize Data s =
     (case s of
        None \<Rightarrow> (1359, Params, 0, Data, None)
      | Some k \<Rightarrow>
        (case SpdHwProcessServiceRequest (alloc k) (SpdIoqCreate n True) Locked rounds
                \<lparr>InputBufferLength = InSize, OutputBufferLength = OutSize, SystemBuffer = Some Params, RequestorProcessId = pid,
                 RequestorUserMode = True, UserData = Data, IoStatus = STATUS_SUCCESS, IoInformation = 0\<rparr> k of
           None \<Rightarrow> (1359, Params, 0, Data, None)
         | Some (irp, k) \<Rightarrow> (dos (IoStatus irp), the (SystemBuffer irp), word_of_nat (IoInformation irp), UserData irp, Some k)))"

text \<open>The errors of the system for the statuses of the control requests, and a pool that has memory for one unit more than 64.\<close>

definition dos_errors :: "(NTSTATUS \<Rightarrow> u32) \<Rightarrow> bool" where
  "dos_errors dos \<longleftrightarrow> dos STATUS_SUCCESS = ERROR_SUCCESS \<and> dos STATUS_INVALID_PARAMETER = ERROR_INVALID_PARAMETER \<and>
     dos STATUS_OBJECT_NAME_COLLISION = ERROR_ALREADY_EXISTS \<and> dos STATUS_CANNOT_MAKE = ERROR_CANNOT_MAKE \<and>
     dos STATUS_OBJECT_NAME_NOT_FOUND = ERROR_FILE_NOT_FOUND \<and> dos STATUS_ACCESS_DENIED = 5 \<and>
     dos STATUS_BUFFER_TOO_SMALL = ERROR_INSUFFICIENT_BUFFER \<and> dos STATUS_CANCELLED = ERROR_OPERATION_ABORTED"

definition pool_ok :: "(kernel \<Rightarrow> ptr) \<Rightarrow> bool" where
  "pool_ok alloc \<longleftrightarrow> (\<forall>k. card (dom (units k)) \<le> 64 \<longrightarrow> alloc k \<noteq> 0 \<and> units k (alloc k) = None)"

lemma ioctl_codes [simp]:
  "SPD_IOCTL_UNPROVISION \<noteq> SPD_IOCTL_PROVISION" "SPD_IOCTL_LIST \<noteq> SPD_IOCTL_PROVISION" "SPD_IOCTL_LIST \<noteq> SPD_IOCTL_UNPROVISION"
  "SPD_IOCTL_SET_TRANSACT_PID \<noteq> SPD_IOCTL_PROVISION" "SPD_IOCTL_SET_TRANSACT_PID \<noteq> SPD_IOCTL_UNPROVISION"
  "SPD_IOCTL_SET_TRANSACT_PID \<noteq> SPD_IOCTL_LIST" "SPD_IOCTL_SET_TRANSACT_PID \<noteq> SPD_IOCTL_TRANSACT"
  "SPD_IOCTL_TRANSACT \<noteq> SPD_IOCTL_PROVISION" "SPD_IOCTL_TRANSACT \<noteq> SPD_IOCTL_UNPROVISION" "SPD_IOCTL_TRANSACT \<noteq> SPD_IOCTL_LIST"
  by (simp_all add: ioctl_code_defs)

lemma user_provision:
  assumes "units_inv refs k" and a: "alloc k \<noteq> 0" "units k (alloc k) = None" and dos: "dos_errors dos"
  obtains k' where "UserProvision (driver_io dos alloc n rounds pid) P (Some k) =
      (dos (fst (table_provision P pid (table_of k))), fst (snd (table_provision P pid (table_of k))), Some k')"
    and "units_inv refs k'" and "table_of k' = snd (snd (table_provision P pid (table_of k)))"
    and "SpdGlobalDeviceExtension k' = SpdGlobalDeviceExtension k"
    and "fst (table_provision P pid (table_of k)) = STATUS_SUCCESS \<Longrightarrow>
      \<exists>q. units k' (slots k' ! free_slot (table_of k)) = Some ((init_unit P pid)\<lparr>UnitIoq := Some q\<rparr>)"
proof (cases "provision_params_ok P")
  case True
  show thesis
    by (rule provision_table [OF assms(1) a True, of n pid], rule that)
       (use dos True in \<open>auto simp: UserProvision_def driver_io_def SpdHwProcessServiceRequest_def service_dispatch_def base_params_def
          zero_params_def sizeof_defs SpdIoctlProvision_def table_provision_def set_status_def set_result_def zero_sysbuffer_def dos_errors_def\<close>)
next
  case False
  then show thesis using assms(1) dos
    by (intro that [of k]) (auto simp: UserProvision_def driver_io_def SpdHwProcessServiceRequest_def service_dispatch_def base_params_def
      zero_params_def sizeof_defs SpdIoctlProvision_def table_provision_def set_status_def dos_errors_def)
qed

lemma user_unprovision:
  assumes "units_inv refs k"
  obtains k' where "UserUnprovision (driver_io dos alloc n rounds pid) g (Some k) =
      (dos (fst (table_unprovision g pid (table_of k))), Some k')"
    and "units_inv refs k'" and "table_of k' = snd (table_unprovision g pid (table_of k))"
    and "SpdGlobalDeviceExtension k' = SpdGlobalDeviceExtension k"
proof -
  obtain k' where "SpdStorageUnitUnprovision (Some g) 0 pid k = Some (fst (table_unprovision g pid (table_of k)), k')"
    "units_inv refs k'" "table_of k' = snd (table_unprovision g pid (table_of k))"
    by (rule unprovision_table [OF assms, of g 0 pid])
  moreover have "fst (table_unprovision g pid (table_of k)) \<in> {STATUS_SUCCESS, STATUS_OBJECT_NAME_NOT_FOUND, STATUS_ACCESS_DENIED}"
    by (simp add: table_unprovision_def Let_def)
  ultimately show thesis
    by (intro that [of k'])
       (auto simp: UserUnprovision_def driver_io_def SpdHwProcessServiceRequest_def service_dispatch_def base_params_def
          zero_params_def sizeof_defs SpdIoctlUnprovision_def set_status_def set_result_def intro: unprovision_global)
qed

lemma user_list:
  assumes "units_inv refs k" and "dos_errors dos"
  shows "UserGetList (driver_io dos alloc n rounds pid) sz (Some k) =
    (if 4 * length (table_list (table_of k)) \<le> unat sz
     then (ERROR_SUCCESS, table_list (table_of k), word_of_nat (4 * length (table_list (table_of k))), Some k)
     else (ERROR_INSUFFICIENT_BUFFER, [], sz, Some k))"
  using list_returns_all_units [OF assms(1), of "\<lparr>InputBufferLength = sizeof_LIST_PARAMS, OutputBufferLength = sz,
      SystemBuffer = Some (base_params sizeof_LIST_PARAMS SPD_IOCTL_LIST), RequestorProcessId = pid, RequestorUserMode = True, UserData = [],
      IoStatus = STATUS_SUCCESS, IoInformation = 0\<rparr>" "base_params sizeof_LIST_PARAMS SPD_IOCTL_LIST"] assms(2)
  by (auto simp: UserGetList_def driver_io_def SpdHwProcessServiceRequest_def service_dispatch_def list_table Let_def set_result_def set_status_def
      dos_errors_def base_params_def zero_params_def sizeof_defs)

lemma user_set_process:
  assumes "units_inv refs k"
  obtains k' where "UserSetTransactProcessId (driver_io dos alloc n rounds pid) btl newpid (Some k) =
      (dos (fst (table_set_process btl newpid (table_of k))), Some k')"
    and "units_inv refs k'" and "table_of k' = snd (table_set_process btl newpid (table_of k))"
proof -
  let ?P = "(base_params sizeof_SET_TRANSACT_PID_PARAMS SPD_IOCTL_SET_TRANSACT_PID)\<lparr>Par_Btl := btl, Par_ProcessId := newpid\<rparr>"
  let ?irp = "\<lparr>InputBufferLength = sizeof_SET_TRANSACT_PID_PARAMS, OutputBufferLength = 0, SystemBuffer = Some ?P, RequestorProcessId = pid,
      RequestorUserMode = True, UserData = [], IoStatus = STATUS_SUCCESS, IoInformation = 0\<rparr>"
  have "sizeof_SET_TRANSACT_PID_PARAMS \<le> InputBufferLength ?irp" by simp
  then obtain irp' k' where r: "SpdIoctlSetTransactProcessId ?P ?irp k = Some (irp', k')"
    "IoStatus irp' = fst (table_set_process btl newpid (table_of k))" "units_inv refs k'"
    "table_of k' = snd (table_set_process btl newpid (table_of k))"
    by (rule set_process_table [OF assms, of ?irp ?P]) simp
  have "?irp = \<lparr>InputBufferLength = sizeof_SET_TRANSACT_PID_PARAMS, OutputBufferLength = 0, SystemBuffer = Some ?P, RequestorProcessId = pid,
      RequestorUserMode = True, UserData = [], IoStatus = STATUS_SUCCESS, IoInformation = 0\<rparr>" by simp
  have "service_dispatch a b c d ?irp k = Some (irp', k')" for a b c d
    using r(1) by (simp add: service_dispatch_def base_params_def zero_params_def sizeof_defs)
  then have "UserSetTransactProcessId (driver_io dos alloc n rounds pid) btl newpid (Some k) = (dos (IoStatus irp'), Some k')"
    by (simp add: UserSetTransactProcessId_def driver_io_def SpdHwProcessServiceRequest_def)
  then show thesis using r by (intro that) simp_all
qed

text \<open>A transact request of another process than the one that may transact.\<close>

lemma user_transact_denied:
  assumes "units_inv refs k" and "dos_errors dos" and "slot_at btl (table_of k) = Some i"
    and "map_option tu_process (table_of k ! i) \<noteq> Some pid" and "Rsp \<noteq> None \<or> Req \<noteq> None" and "Req \<noteq> None \<longrightarrow> ptr \<noteq> 0"
  shows "UserTransact (driver_io dos alloc n rounds pid) btl Rsp Req ptr Data (Some k) = (5, Req, Data, Some k)"
proof -
  let ?P = "(base_params sizeof_TRANSACT_PARAMS SPD_IOCTL_TRANSACT)
            \<lparr>Par_Btl := btl, ReqValid := Req \<noteq> None, RspValid := Rsp \<noteq> None, DataPtr := ptr,
             Dir_Rsp := (case Rsp of Some r \<Rightarrow> r | None \<Rightarrow> zero_rsp)\<rparr>"
  let ?irp = "\<lparr>InputBufferLength = sizeof_TRANSACT_PARAMS, OutputBufferLength = sizeof_TRANSACT_PARAMS, SystemBuffer = Some ?P,
      RequestorProcessId = pid, RequestorUserMode = True, UserData = Data, IoStatus = STATUS_SUCCESS, IoInformation = 0\<rparr>"
  define p where "p = unit_at btl k"
  have i: "i < length (slots k)" "slots k ! i = p" "p \<noteq> 0"
    using slot_at_table [OF assms(1), of btl] assms(3) by (simp_all add: p_def)
  then obtain u where u: "units k p = Some u" using live_unit [OF assms(1), of p] by (auto simp: in_live)
  have "pid \<noteq> TransactProcessId u" using assms(4) i u by (simp add: nth_table unit_entry_def)
  then have "SpdIoctlTransact lock rounds ?P ?irp k = Some (set_status STATUS_ACCESS_DENIED ?irp, k)" for lock
    using assms(5,6) by (intro transact_denied_to_others [OF assms(1) _ i(3) u]) (auto simp: p_def)
  then have "service_dispatch a b lock rounds ?irp k = Some (set_status STATUS_ACCESS_DENIED ?irp, k)" for a b lock
    by (simp add: service_dispatch_def base_params_def zero_params_def sizeof_defs)
  then show ?thesis
    using assms(2) by (simp add: UserTransact_def driver_io_def SpdHwProcessServiceRequest_def set_status_def dos_errors_def Let_def)
qed


definition demo_dos :: "NTSTATUS \<Rightarrow> u32" where
  "demo_dos st = (if NT_SUCCESS st then 0 else if st = STATUS_INVALID_PARAMETER then 87 else if st = STATUS_OBJECT_NAME_COLLISION then 183
     else if st = STATUS_CANNOT_MAKE then 82 else if st = STATUS_OBJECT_NAME_NOT_FOUND then 2 else if st = STATUS_ACCESS_DENIED then 5
     else if st = STATUS_BUFFER_TOO_SMALL then 122 else if st = STATUS_CANCELLED then 995 else 317)"

lemma demo_dos_errors: "dos_errors demo_dos"
  by (simp add: dos_errors_def demo_dos_def)

text \<open>A pool: the first address from 1 on that has no unit.\<close>

definition demo_alloc :: "kernel \<Rightarrow> ptr" where
  "demo_alloc k = (case find (\<lambda>p. units k p = None) (map word_of_nat [1..<66]) of Some p \<Rightarrow> p | None \<Rightarrow> 0)"

lemma small_address: "n < 66 \<Longrightarrow> unat (word_of_nat n :: ptr) = n"
  by (simp add: unsigned_of_nat take_bit_nat_eq_self)

lemma small_addresses: "inj_on (word_of_nat :: nat \<Rightarrow> ptr) {1..<66}"
  by (rule inj_on_inverseI [where g = unat]) (simp add: small_address)

lemma demo_alloc_pool: "pool_ok demo_alloc"
  unfolding pool_ok_def
proof (intro allI impI)
  fix k :: kernel assume c: "card (dom (units k)) \<le> 64"
  define A :: "ptr list" where "A = map word_of_nat [1..<66]"
  have A: "set A = word_of_nat ` {1..<66}" by (simp only: A_def set_map set_upt)
  then have "card (set A) = 65" using card_image [OF small_addresses] by simp
  moreover have "card (set A) \<le> card (dom (units k))" if "set A \<subseteq> dom (units k)"
    by (rule card_mono [OF _ that]) simp
  ultimately have "\<not> set A \<subseteq> dom (units k)" using c by linarith
  then have "\<exists>x \<in> set A. units k x = None" by (metis domIff subsetI)
  then obtain p where p: "find (\<lambda>p. units k p = None) A = Some p" by (metis (mono_tags, lifting) find_None_iff not_None_eq)
  then have "p \<in> set A" "units k p = None" by (auto simp: find_Some_iff)
  then obtain n where n: "n \<in> {1..<66}" "p = word_of_nat n" using A by blast
  then have "p \<noteq> 0" using small_address [of n] by auto
  then show "demo_alloc k \<noteq> 0 \<and> units k (demo_alloc k) = None"
    using p \<open>units k p = None\<close> by (simp only: demo_alloc_def A_def [symmetric]) simp
qed


end
