(* ===== verification/Spec2Isabelle.thy ===== *)
theory Spec2Isabelle
  imports Queue_Thms Unit_Props Scsi_Props Serving End_To_End Driver_Props User_Props Util_Props Launch_Props
    StgTest_Props ScsiTool_Props LaunchServer_Props LaunchCtl_Props DevSetup_Props RegUtil_Props Driver_Types Unit_Table
begin

text \<open>
  WinSpd lets a process in user mode be a disk. A kernel driver (src/src/sys) is a virtual storage
  adapter: it answers the SCSI commands of Windows itself, or turns reads, writes, flushes and
  unmaps into requests that a process fetches and answers. A DLL (src/src/shared) is the process's
  side of that exchange, and can also play the driver over a named pipe. A service (src/src/launcher)
  starts and stops such processes. This development models the three and proves what makes them
  correct.

  \<^bold>\<open>Data that everything shares.\<close> \<open>Prelude\<close> has the machine types of the Win64 build, buffers and their
  big- and little-endian fields (the locale \<open>byte_field\<close>, interpreted on the four encodings).
  \<open>Ioctl_Types\<close> is inc/winspd/ioctl.h: the structures and constants of the interface. \<open>Srb\<close> is the
  memory of the kernel as far as the driver uses it: request blocks with the accessors of
  sys/srbcompat.h, their extensions, and the buffers by address, and the list of the completions that
  were sent. An access through a pointer that is not valid is \<open>None\<close>; an error code is a value.

  \<^bold>\<open>The driver.\<close>
    \<^item> \<open>Chain\<close>, \<open>Ioq\<close>: sys/ioq.c with the queued events of sys/driver.h. A queue has a pending list, a
      process list and hash chains through the extensions. Each operation holds the spin lock to its end,
      so it is one step; \<open>SpdIoqStartProcessingSrb\<close> is the wait and \<open>start_locked\<close>.
    \<^item> \<open>StgUnit\<close>: sys/stgunit.c, the table of units with reference counts. \<open>unprovision_locked\<close> and
      \<open>unprovision_unlocked\<close> are the two halves of \<open>SpdStorageUnitUnprovision\<close> around its unlock.
    \<^item> \<open>Scsi_Data\<close>, \<open>Scsi\<close>: sys/scsi.c, the commands that the driver answers and those it posts, and
      the chunks of a transfer (\<open>SpdSrbExecuteScsiPrepare\<close>, \<open>SpdSrbExecuteScsiComplete\<close>).
    \<^item> \<open>Io\<close>, \<open>Ioctl\<close>, \<open>Dispatch\<close>: sys/io.c, adapter.c, ioctl.c, dispatch.c, util.c and driver.c, the
      entry points that StorPort, user mode and the PnP manager call.

  \<^bold>\<open>User mode.\<close>
    \<^item> \<open>StgHandle\<close>: shared/stghandle.c, the transport over a pipe with its table of hints.
    \<^item> \<open>Dispatcher\<close>: shared/stgunit.c, the threads that fetch requests and call the device.
    \<^item> \<open>UserIoctl\<close>: shared/ioctl.c, device paths, SCSI pass-through and the control requests.
    \<^item> \<open>Shared_Util\<close>: shared/mbr.c, memalign.c, strtoint.c and launch.c.
    \<^item> \<open>Launcher\<close>, \<open>LaunchSystem\<close>, \<open>LaunchServer\<close>: launcher/launcher.c, the running instances and the protocol; the
      volumes of a process with the handles on them, and the processes; the pipe server and the service
      with what it acquires and reports.
    \<^item> \<open>Block_Device\<close>, \<open>RawDisk\<close>: what the driver relies on when a device reads and writes (the locale
      \<open>block_device\<close>, and \<open>thin_device\<close> for flush and unmap), and the device of tst/rawdisk/rawdisk.c, which
      meets it.
    \<^item> \<open>StgTest\<close>: stgtest/stgtest.c, the tester of units.
    \<^item> \<open>ScsiText\<close>, \<open>ScsiTool\<close>: scsitool/scsitext.c and scsitool.c, the tool that sends SCSI commands and prints
      the answers by formats; its loop over a format is a partial function.
    \<^item> \<open>LaunchCtl\<close>: launcher/launchctl.c, the client of the launcher on the command line, and shared/secpipe.c, the
      call over a pipe whose owner is checked.
    \<^item> \<open>DevSetup\<close>: devsetup/devsetup.c, which adds and removes the device of the adapter with its driver.
    \<^item> \<open>RegUtil\<close>, \<open>EventLog\<close>: shared/regutil.c, the entries of a registration, over a registry that is a tree of
      keys; shared/log.c, printed lines and events.

  \<^bold>\<open>What is shown.\<close>
    \<^item> \<open>Ioq_Props\<close>, \<open>Ioq_Steps\<close>, \<open>Queue_Thms\<close>: an invariant of the queue and its hash chains, runs as a
      step relation (\<open>ioq_step\<close>) with any callback that meets the locale \<open>srb_callbacks\<close>, the
      refinement of a queue of two lists, exactly-once completion, no lost wake-up. The locale is
      interpreted on the driver's own callbacks.
    \<^item> \<open>Unit_Thms\<close>, \<open>Unit_Steps\<close>, \<open>Unit_Props\<close>: the invariant that ties the table, the heap of units
      and the references that are held together; runs of the unit operations (\<open>unit_step\<close>).
    \<^item> \<open>Scsi_Props\<close>, \<open>Transfers\<close>: the buffers stay as long as they are, the data formats read back, and
      a transfer of any number of chunks moves exactly the bytes of its range between the buffer of
      the request and any device that meets \<open>block_device\<close>.
    \<^item> \<open>Serving\<close>: the queue, the transfers and a device composed: a thread that takes requests, lets the
      device act and answers (\<open>serve_turn\<close>) completes the first request of the queue.
    \<^item> \<open>End_To_End\<close>: the driver with the device \<open>RawDisk\<close>: reading what was written, flushing, unmapping,
      and errors of the file.
    \<^item> \<open>Driver_Props\<close>: start-up, each request completed once or queued, the checks of the control
      requests.
    \<^item> \<open>Driver_Types\<close>: the entry points of the driver as a step relation (\<open>driver_step\<close>); in every state that it comes
      to, each unit has the sizes of its structure and the parameters that the provisioning checks.
    \<^item> \<open>Unit_Table\<close>: what the control requests promise, a table of units with their processes; the calls of the DLL, sent to
      the driver, refine its operations.
    \<^item> \<open>User_Props\<close>, \<open>Util_Props\<close>: the hint table is a map (the locale \<open>take_table\<close>), no message is
      longer than its buffer, the dispatcher answers each request, the inquiry ends, the partition
      table and the aligned allocation.
    \<^item> \<open>StgTest_Props\<close>: the tester and a dispatcher on the two ends of a pipe: a device that meets
      \<open>thin_device\<close> passes, no device makes the tester leave its buffers, and what it writes names its block.
    \<^item> \<open>ScsiText_Props\<close>, \<open>ScsiTable_Props\<close>, \<open>ScsiFormats\<close>, \<open>ScsiTool_Props\<close>: the fields of a format as bits of the
      data, the ends of the loop, the printer and the rows of its tables; each format of the tool meets
      what these ask, and the tool shows what the driver's answers hold.
    \<^item> \<open>Launch_Steps\<close>, \<open>Launch_Props\<close>: the threads of the launcher as a step relation (\<open>svc_step\<close>) with the
      invariant of its instances, the protocol from the client's arguments to the instance and back,
      command lines, and what the registry keeps over a restart.
    \<^item> \<open>LaunchSystem_Props\<close>: the driver and the launcher composed: the owner that the driver writes into the
      identification page of a unit is the one that the launcher finds, so a stop dismounts exactly the
      volumes of its process; every handle is accounted for, and where handles are closed twice.
    \<^item> \<open>LaunchServer_Props\<close>: the server refines the requests done one after the other; it ends when it is
      stopped; what the service reports.
    \<^item> \<open>LaunchCtl_Props\<close>: the client and the launcher on the two ends of the pipe, and to whom a message goes.
    \<^item> \<open>DevSetup_Props\<close>: a removal takes the device, its files and its package. \<open>RegUtil_Props\<close>: every key that
      is opened is closed, and deleting the entries of a registration undoes adding them.

  \<^bold>\<open>Fuel and bounds.\<close> \<open>bucket_scan\<close> walks a hash chain and is a partial function: on a chain with a cycle it
  does not end, and the invariant of the queue shows that there is none. \<open>transfer\<close> exchanges chunks
  with fuel; the number of blocks of a request is enough. \<open>dispatcher_loop\<close> runs until the transport
  fails and has fuel. All other loops are total functions.

  \<^bold>\<open>Not modelled.\<close> What StorPort, the kernel, the registry, the security functions and the pipes do is an
  argument of the definitions or a result that they return. Tracing and debug messages have no effect
  on the state. The shell extension (C++), the .NET binding (C#) and the test programs are not modelled: they
  call the parts above or the system and keep no state of their own. Within an operation that holds a
  lock there is no interleaving; between operations every order is a run of the step relations.
\<close>

end
